(* ===== verification/Go_Prelude.thy ===== *)
theory Go_Prelude
  imports Complex_Main "HOL-Library.AList" "HOL-Library.Char_ord" "HOL-Library.List_Lexorder"
    "HOL-Library.Sublist"
begin

text \<open>
  The prelude of the development: what the Go sources use of the language and its
  standard library, and the generic lemmas the component theories share.

  \<^item> Go strings are byte sequences: the type \<open>string\<close> (a list of 8-bit \<open>char\<close>s).
    \<open>TrimSpace\<close> strips the UTF-8 encodings of every code point for which
    \<^verbatim>\<open>unicode.IsSpace\<close> holds. \<open>ToLower\<close> maps the ASCII letters; it is the Go function
    on ASCII input, which is what the sources apply it to (e-mail addresses, provider names).
  \<^item> \<open>goany\<close> is Go's \<^verbatim>\<open>any\<close> as it occurs in JSON-like documents, with one constructor per
    dynamic type the sources switch on; \<open>gomap\<close> is \<^verbatim>\<open>map[string]any\<close>.
  \<^item> \<open>sort_by\<close> is a stable insertion sort under an explicit order, and the locale
    \<open>collation\<close> is the contract of such an order: Postgres sorts text under the
    database's collation, which the model takes as a parameter, while Go compares
    strings bytewise (\<open>byte_le\<close>).
\<close>

named_theorems go_simps "evaluation rules for the Go library functions"
named_theorems field_simps_go "reading fields of a gomap"

section \<open>Strings\<close>

definition byte_of :: "char \<Rightarrow> nat" where
  "byte_of c = of_char c"

text \<open>
  The UTF-8 encodings of the code points for which \<^verbatim>\<open>unicode.IsSpace\<close> holds: the ASCII
  controls 9 to 13 and the blank, U+0085, U+00A0, U+1680, U+2000 to U+200A, U+2028, U+2029,
  U+202F, U+205F and U+3000. No encoding is a prefix of another.
\<close>

definition space_runes :: "string list" where
  "space_runes =
     [[CHR 0x20], [CHR 0x09], [CHR 0x0A], [CHR 0x0B], [CHR 0x0C], [CHR 0x0D],
      [CHR 0xC2, CHR 0x85], [CHR 0xC2, CHR 0xA0], [CHR 0xE1, CHR 0x9A, CHR 0x80],
      [CHR 0xE2, CHR 0x80, CHR 0x80], [CHR 0xE2, CHR 0x80, CHR 0x81],
      [CHR 0xE2, CHR 0x80, CHR 0x82], [CHR 0xE2, CHR 0x80, CHR 0x83],
      [CHR 0xE2, CHR 0x80, CHR 0x84], [CHR 0xE2, CHR 0x80, CHR 0x85],
      [CHR 0xE2, CHR 0x80, CHR 0x86], [CHR 0xE2, CHR 0x80, CHR 0x87],
      [CHR 0xE2, CHR 0x80, CHR 0x88], [CHR 0xE2, CHR 0x80, CHR 0x89],
      [CHR 0xE2, CHR 0x80, CHR 0x8A], [CHR 0xE2, CHR 0x80, CHR 0xA8],
      [CHR 0xE2, CHR 0x80, CHR 0xA9], [CHR 0xE2, CHR 0x80, CHR 0xAF],
      [CHR 0xE2, CHR 0x81, CHR 0x9F], [CHR 0xE3, CHR 0x80, CHR 0x80]]"

text \<open>The length of the rune of \<open>rs\<close> that starts \<open>s\<close>, 0 if there is none.\<close>

definition rune_prefix :: "string list \<Rightarrow> string \<Rightarrow> nat" where
  "rune_prefix rs s = (case find (\<lambda>r. prefix r s) rs of Some r \<Rightarrow> length r | None \<Rightarrow> 0)"

function trim_runes :: "string list \<Rightarrow> string \<Rightarrow> string" where
  "trim_runes rs s =
     (if s \<noteq> [] \<and> rune_prefix rs s \<noteq> 0 then trim_runes rs (drop (rune_prefix rs s) s) else s)"
  by pat_completeness auto
termination
  by (relation "measure (\<lambda>(rs, s). length s)") auto

declare trim_runes.simps [simp del]

text \<open>\<^verbatim>\<open>strings.TrimSpace\<close>: strip from the left, then, on the reversed rest, from the right.\<close>

definition TrimSpace :: "string \<Rightarrow> string" where
  "TrimSpace s = rev (trim_runes (map rev space_runes) (rev (trim_runes space_runes s)))"

definition lower_char :: "char \<Rightarrow> char" where
  "lower_char c = (if 65 \<le> byte_of c \<and> byte_of c \<le> 90 then char_of (byte_of c + 32) else c)"

definition ToLower :: "string \<Rightarrow> string" where
  "ToLower s = map lower_char s"

text \<open>
  A case-insensitive literal match at the start of a string, as \<^verbatim>\<open>(?i)\<close> folds: besides the
  other case of an ASCII letter, \<open>k\<close> also matches U+212A and \<open>s\<close> also matches U+017F.
\<close>

fun fold_prefix :: "string \<Rightarrow> string \<Rightarrow> string option" where
  "fold_prefix [] s = Some s"
| "fold_prefix (c # cs) s =
     (if lower_char c = CHR ''k'' \<and> prefix [CHR 0xE2, CHR 0x84, CHR 0xAA] s then fold_prefix cs (drop 3 s)
      else if lower_char c = CHR ''s'' \<and> prefix [CHR 0xC5, CHR 0xBF] s then fold_prefix cs (drop 2 s)
      else (case s of
              [] \<Rightarrow> None
            | d # ds \<Rightarrow> if lower_char c = lower_char d then fold_prefix cs ds else None))"

text \<open>\<^verbatim>\<open>strings.EqualFold\<close> against an ASCII literal.\<close>

definition EqualFold :: "string \<Rightarrow> string \<Rightarrow> bool" where
  "EqualFold s lit \<longleftrightarrow> fold_prefix lit s = Some []"

text \<open>\<^verbatim>\<open>strings.TrimPrefix\<close>, \<^verbatim>\<open>strings.HasSuffix\<close> and \<^verbatim>\<open>strings.Cut\<close> on a one-byte separator.\<close>

definition TrimPrefix :: "string \<Rightarrow> string \<Rightarrow> string" where
  "TrimPrefix s p = (if prefix p s then drop (length p) s else s)"

definition HasSuffix :: "string \<Rightarrow> string \<Rightarrow> bool" where
  "HasSuffix s p = suffix p s"

definition Cut1 :: "string \<Rightarrow> char \<Rightarrow> (string \<times> string) option" where
  "Cut1 s c = (if c \<in> set s
               then Some (takeWhile (\<lambda>x. x \<noteq> c) s, tl (dropWhile (\<lambda>x. x \<noteq> c) s))
               else None)"

text \<open>\<^verbatim>\<open>strings.LastIndex\<close>: the last position at which \<open>needle\<close> occurs.\<close>

fun LastIndex :: "string \<Rightarrow> string \<Rightarrow> nat option" where
  "LastIndex [] needle = (if needle = [] then Some 0 else None)"
| "LastIndex (c # cs) needle =
     (case LastIndex cs needle of
        Some i \<Rightarrow> Some (Suc i)
      | None \<Rightarrow> (if prefix needle (c # cs) then Some 0 else None))"

text \<open>Decimal numerals (\<^verbatim>\<open>%d\<close> and \<^verbatim>\<open>%0wd\<close>).\<close>

definition digit_char :: "nat \<Rightarrow> char" where
  "digit_char n = char_of (48 + n)"

fun nat_dec :: "nat \<Rightarrow> string" where
  "nat_dec n = (if n < 10 then [digit_char n] else nat_dec (n div 10) @ [digit_char (n mod 10)])"

declare nat_dec.simps [simp del]

definition int_dec :: "int \<Rightarrow> string" where
  "int_dec n = (if n < 0 then ''-'' @ nat_dec (nat (- n)) else nat_dec (nat n))"

definition pad0 :: "nat \<Rightarrow> string \<Rightarrow> string" where
  "pad0 w s = replicate (w - length s) (CHR ''0'') @ s"

definition int_dec_pad :: "nat \<Rightarrow> int \<Rightarrow> string" where
  "int_dec_pad w n = (if n < 0 then ''-'' @ pad0 (w - 1) (nat_dec (nat (- n))) else pad0 w (nat_dec (nat n)))"

section \<open>Dynamic values and documents\<close>

text \<open>
  The dynamic types that a Go \<^verbatim>\<open>any\<close> takes in event documents: \<^verbatim>\<open>nil\<close>, \<^verbatim>\<open>bool\<close>,
  \<^verbatim>\<open>float64\<close> (every JSON number), \<^verbatim>\<open>int\<close>, \<^verbatim>\<open>int64\<close>, \<^verbatim>\<open>string\<close>, \<^verbatim>\<open>[]any\<close>, \<^verbatim>\<open>[]string\<close>,
  \<^verbatim>\<open>map[string]any\<close> and \<^verbatim>\<open>[]map[string]any\<close>.
\<close>

datatype goany =
    GNil
  | GBool bool
  | GFloat rat
  | GInt int
  | GInt64 int
  | GStr string
  | GAnys "goany list"
  | GStrs "string list"
  | GMap "(string \<times> goany) list"
  | GMaps "(string \<times> goany) list list"

type_synonym gomap = "(string \<times> goany) list"

text \<open>\<^verbatim>\<open>m[k]\<close> with its presence flag, and the type assertions on the value read.\<close>

definition mget :: "gomap \<Rightarrow> string \<Rightarrow> goany option" where
  "mget m k = map_of m k"

definition mset_key :: "string \<Rightarrow> goany \<Rightarrow> gomap \<Rightarrow> gomap" where
  "mset_key k v m = AList.update k v m"

fun as_string :: "goany option \<Rightarrow> string option" where
  "as_string (Some (GStr s)) = Some s"
| "as_string _ = None"

fun as_map :: "goany option \<Rightarrow> gomap option" where
  "as_map (Some (GMap m)) = Some m"
| "as_map _ = None"

fun as_bool :: "goany option \<Rightarrow> bool option" where
  "as_bool (Some (GBool b)) = Some b"
| "as_bool _ = None"

text \<open>\<^verbatim>\<open>value, _ := m[k].(string)\<close>: the empty string when absent or of another type.\<close>

definition string_at :: "gomap \<Rightarrow> string \<Rightarrow> string" where
  "string_at m k = (case as_string (mget m k) of Some s \<Rightarrow> s | None \<Rightarrow> [])"

text \<open>The trimmed variant several packages define as \<^verbatim>\<open>stringField\<close>.\<close>

definition trimmed_at :: "gomap \<Rightarrow> string \<Rightarrow> string" where
  "trimmed_at m k = TrimSpace (string_at m k)"

section \<open>Sorting under an explicit order\<close>

fun insort_by :: "('k \<Rightarrow> 'k \<Rightarrow> bool) \<Rightarrow> ('a \<Rightarrow> 'k) \<Rightarrow> 'a \<Rightarrow> 'a list \<Rightarrow> 'a list" where
  "insort_by le f x [] = [x]"
| "insort_by le f x (y # ys) = (if le (f x) (f y) then x # y # ys else y # insort_by le f x ys)"

definition sort_by :: "('k \<Rightarrow> 'k \<Rightarrow> bool) \<Rightarrow> ('a \<Rightarrow> 'k) \<Rightarrow> 'a list \<Rightarrow> 'a list" where
  "sort_by le f xs = foldr (insort_by le f) xs []"

text \<open>Go's comparison of strings.\<close>

definition byte_le :: "string \<Rightarrow> string \<Rightarrow> bool" where
  "byte_le a b \<longleftrightarrow> a \<le> b"

section \<open>Lemmas on strings\<close>

lemma byte_of_less [simp]: "byte_of c < 256"
  by (cases c) (simp add: byte_of_def of_char_def horner_sum_simps split: if_splits)

lemma trim_runes_unchanged: "s = [] \<or> rune_prefix rs s = 0 \<Longrightarrow> trim_runes rs s = s"
  by (subst trim_runes.simps) auto

lemma trim_runes_step:
  "s \<noteq> [] \<Longrightarrow> rune_prefix rs s \<noteq> 0 \<Longrightarrow> trim_runes rs s = trim_runes rs (drop (rune_prefix rs s) s)"
  by (subst trim_runes.simps) auto

lemma trim_runes_done: "trim_runes rs s = [] \<or> rune_prefix rs (trim_runes rs s) = 0"
proof (induction rs s rule: trim_runes.induct)
  case (1 rs s)
  show ?case
  proof (cases "s \<noteq> [] \<and> rune_prefix rs s \<noteq> 0")
    case True
    then show ?thesis using "1.IH" by (simp add: trim_runes_step)
  next
    case False
    then show ?thesis using trim_runes_unchanged [of s rs] by auto
  qed
qed

lemma trim_runes_suffix: "suffix (trim_runes rs s) s"
proof (induction rs s rule: trim_runes.induct)
  case (1 rs s)
  show ?case
  proof (cases "s \<noteq> [] \<and> rune_prefix rs s \<noteq> 0")
    case True
    then have "suffix (trim_runes rs s) (drop (rune_prefix rs s) s)"
      using "1.IH" by (simp add: trim_runes_step)
    then show ?thesis by (meson suffix_drop suffix_order.trans)
  next
    case False
    then have "trim_runes rs s = s" using trim_runes_unchanged [of s rs] by auto
    then show ?thesis by simp
  qed
qed

lemma TrimSpace_prefix: "prefix (TrimSpace s) (trim_runes space_runes s)"
  using trim_runes_suffix [of "map rev space_runes" "rev (trim_runes space_runes s)"]
  by (simp add: TrimSpace_def suffix_to_prefix)

lemma space_runes_nonempty: "[] \<notin> set space_runes"
  by (simp add: space_runes_def)

lemma rune_prefix_mono:
  "[] \<notin> set rs \<Longrightarrow> prefix t s \<Longrightarrow> rune_prefix rs s = 0 \<Longrightarrow> rune_prefix rs t = 0"
proof -
  assume ne: "[] \<notin> set rs" and pre: "prefix t s" and zero: "rune_prefix rs s = 0"
  have "\<not> prefix r s" if "r \<in> set rs" for r
  proof
    assume "prefix r s"
    then have "find (\<lambda>r. prefix r s) rs \<noteq> None" using that by (auto simp: find_None_iff)
    then obtain q where q: "find (\<lambda>r. prefix r s) rs = Some q" by auto
    then have "q \<in> set rs" by (auto simp: find_Some_iff)
    with ne zero q show False by (auto simp: rune_prefix_def)
  qed
  then have "\<not> prefix r t" if "r \<in> set rs" for r
    using that pre prefix_order.trans by blast
  then have "find (\<lambda>r. prefix r t) rs = None" by (auto simp: find_None_iff)
  then show ?thesis by (simp add: rune_prefix_def)
qed

text \<open>A trimmed string has no white space at either end, so trimming again changes nothing.\<close>

lemma TrimSpace_idem [simp]: "TrimSpace (TrimSpace s) = TrimSpace s"
proof -
  let ?l = "trim_runes space_runes s"
  have "?l = [] \<or> rune_prefix space_runes (TrimSpace s) = 0"
    using trim_runes_done [of space_runes s]
      rune_prefix_mono [OF space_runes_nonempty TrimSpace_prefix [of s]] by auto
  then have "trim_runes space_runes (TrimSpace s) = TrimSpace s"
    using TrimSpace_prefix [of s] by (auto intro: trim_runes_unchanged)
  then show ?thesis
    using trim_runes_done [of "map rev space_runes" "rev ?l"]
    by (simp add: TrimSpace_def trim_runes_unchanged)
qed

lemma TrimSpace_Nil [simp]: "TrimSpace [] = []"
  by (simp add: TrimSpace_def trim_runes_unchanged)

lemma trim_runes_none:
  assumes "list_all (\<lambda>r. r \<noteq> [] \<and> \<not> P (hd r)) rs" "list_all P s"
  shows "trim_runes rs s = s"
proof (rule trim_runes_unchanged)
  have "\<not> prefix r s" if "r \<in> set rs" "s \<noteq> []" for r
  proof
    assume "prefix r s"
    then have "r \<noteq> [] \<Longrightarrow> hd r = hd s" by (auto simp: prefix_def)
    then show False using that assms by (auto simp: list_all_iff)
  qed
  then have "s \<noteq> [] \<Longrightarrow> find (\<lambda>r. prefix r s) rs = None" by (auto simp: find_None_iff)
  then show "s = [] \<or> rune_prefix rs s = 0" by (cases "s = []") (simp_all add: rune_prefix_def)
qed

text \<open>Visible ASCII text is left alone.\<close>

definition visible :: "char \<Rightarrow> bool" where
  "visible c \<longleftrightarrow> 33 \<le> byte_of c \<and> byte_of c \<le> 126"

lemma TrimSpace_visible: "list_all visible s \<Longrightarrow> TrimSpace s = s"
proof -
  assume s: "list_all visible s"
  have "list_all (\<lambda>r. r \<noteq> [] \<and> \<not> visible (hd r)) space_runes"
    "list_all (\<lambda>r. r \<noteq> [] \<and> \<not> visible (hd r)) (map rev space_runes)"
    by (simp_all add: space_runes_def visible_def byte_of_def)
  then show ?thesis using s by (simp add: TrimSpace_def trim_runes_none)
qed

lemmas trim_eval = TrimSpace_visible visible_def byte_of_def

lemma lower_char_idem [simp]: "lower_char (lower_char c) = lower_char c"
  by (auto simp: lower_char_def byte_of_def)

lemma ToLower_idem [simp]: "ToLower (ToLower s) = ToLower s"
  by (simp add: ToLower_def)

section \<open>Lemmas on documents\<close>

lemma mget_mset_key [simp, field_simps_go]:
  "mget (mset_key k v m) k' = (if k' = k then Some v else mget m k')"
  by (simp add: mget_def mset_key_def update_conv')

lemma mget_Cons [simp, field_simps_go]:
  "mget ((k, v) # m) k' = (if k' = k then Some v else mget m k')"
  by (simp add: mget_def)

lemma mget_Nil [simp, field_simps_go]: "mget [] k = None"
  by (simp add: mget_def)

lemma string_at_mset_key [simp, field_simps_go]:
  "string_at (mset_key k v m) k' =
     (if k' = k then (case as_string (Some v) of Some s \<Rightarrow> s | None \<Rightarrow> []) else string_at m k')"
  by (simp add: string_at_def)

lemma string_at_Cons [simp, field_simps_go]:
  "string_at ((k, v) # m) k' =
     (if k' = k then (case as_string (Some v) of Some s \<Rightarrow> s | None \<Rightarrow> []) else string_at m k')"
  by (simp add: string_at_def)

lemma string_at_Nil [simp, field_simps_go]: "string_at [] k = []"
  by (simp add: string_at_def)

lemma as_string_cases: "as_string v = Some s \<longleftrightarrow> v = Some (GStr s)"
  by (cases v rule: as_string.cases) auto

lemma as_map_cases: "as_map v = Some m \<longleftrightarrow> v = Some (GMap m)"
  by (cases v rule: as_map.cases) auto

lemma string_at_nonempty:
  "string_at m k \<noteq> [] \<longleftrightarrow> (\<exists>s. mget m k = Some (GStr s) \<and> s \<noteq> [])"
  by (auto simp: string_at_def as_string_cases split: option.splits)

section \<open>Searching lists\<close>

lemma find_map_same: "(\<And>x. P (f x) = P x) \<Longrightarrow> find P (map f xs) = map_option f (find P xs)"
  by (induction xs) auto

lemma find_append: "find P (xs @ ys) = (case find P xs of Some x \<Rightarrow> Some x | None \<Rightarrow> find P ys)"
  by (induction xs) auto

lemma find_hit: "find P xs = Some x \<Longrightarrow> x \<in> set xs \<and> P x"
  by (auto simp: find_Some_iff)

section \<open>Orders and the collation contract\<close>

text \<open>
  What an \<^verbatim>\<open>ORDER BY\<close> needs of the order of its keys. Lemmas about the sort, used by every query
  that has one, are proved once here.
\<close>

locale key_order =
  fixes le :: "'k \<Rightarrow> 'k \<Rightarrow> bool"
  assumes le_refl: "le a a"
    and le_trans: "le a b \<Longrightarrow> le b c \<Longrightarrow> le a c"
    and le_total: "le a b \<or> le b a"
begin

lemma set_insort_by [simp]: "set (insort_by le f x xs) = insert x (set xs)"
  by (induction xs) auto

lemma set_sort_by [simp]: "set (sort_by le f xs) = set xs"
  by (induction xs) (auto simp: sort_by_def)

lemma length_insort_by [simp]: "length (insort_by le f x xs) = Suc (length xs)"
  by (induction xs) auto

lemma length_sort_by [simp]: "length (sort_by le f xs) = length xs"
  by (induction xs) (auto simp: sort_by_def)

lemma insort_by_sorted:
  "sorted_wrt (\<lambda>a b. le (f a) (f b)) xs \<Longrightarrow> sorted_wrt (\<lambda>a b. le (f a) (f b)) (insort_by le f x xs)"
proof (induction xs)
  case Nil
  then show ?case by simp
next
  case (Cons y ys)
  show ?case
  proof (cases "le (f x) (f y)")
    case True
    then show ?thesis using Cons.prems le_trans by (auto intro: le_trans)
  next
    case False
    then have "le (f y) (f x)" using le_total by blast
    then show ?thesis using False Cons by auto
  qed
qed

lemma sort_by_sorted: "sorted_wrt (\<lambda>a b. le (f a) (f b)) (sort_by le f xs)"
  by (induction xs) (auto simp: sort_by_def insort_by_sorted)

lemma insort_by_head:
  "\<forall>y\<in>set ys. le (f x) (f y) \<Longrightarrow> insort_by le f x ys = x # ys"
  by (cases ys) auto

lemma sort_by_id: "sorted_wrt (\<lambda>a b. le (f a) (f b)) xs \<Longrightarrow> sort_by le f xs = xs"
  by (induction xs) (auto simp: sort_by_def insort_by_head)

lemma filter_insort_by:
  "sorted_wrt (\<lambda>a b. le (f a) (f b)) xs \<Longrightarrow>
   filter P (insort_by le f x xs) = (if P x then insort_by le f x (filter P xs) else filter P xs)"
proof (induction xs)
  case Nil
  then show ?case by simp
next
  case (Cons y ys)
  show ?case
  proof (cases "le (f x) (f y)")
    case True
    then have "\<forall>z\<in>set (filter P (y # ys)). le (f x) (f z)"
      using Cons.prems by (auto intro: le_trans)
    then show ?thesis using True by (simp add: insort_by_head del: filter.simps(2)) simp
  next
    case False
    then show ?thesis using Cons by auto
  qed
qed

text \<open>Selecting rows before or after sorting is the same: an index scan is a filtered sort.\<close>

lemma filter_sort_by: "filter P (sort_by le f xs) = sort_by le f (filter P xs)"
proof (induction xs)
  case Nil
  then show ?case by (simp add: sort_by_def)
next
  case (Cons x xs)
  have "filter P (insort_by le f x (sort_by le f xs)) =
        (if P x then insort_by le f x (filter P (sort_by le f xs)) else filter P (sort_by le f xs))"
    by (rule filter_insort_by [OF sort_by_sorted])
  then show ?case using Cons by (simp add: sort_by_def)
qed

lemma distinct_map_insort_by:
  "distinct (map f (insort_by le f x xs)) \<longleftrightarrow> f x \<notin> f ` set xs \<and> distinct (map f xs)"
  by (induction xs) auto

lemma distinct_map_sort_by: "distinct (map f (sort_by le f xs)) \<longleftrightarrow> distinct (map f xs)"
  by (induction xs) (auto simp: sort_by_def distinct_map_insort_by set_sort_by [unfolded sort_by_def])

text \<open>Rows with pairwise different keys have only one sorted arrangement.\<close>

lemma sorted_unique:
  assumes "sorted_wrt (\<lambda>a b. le (f a) (f b)) xs" "sorted_wrt (\<lambda>a b. le (f a) (f b)) ys"
    and "set xs = set ys" "distinct xs" "distinct ys"
    and strict: "\<And>a b. a \<in> set xs \<Longrightarrow> b \<in> set xs \<Longrightarrow> le (f a) (f b) \<Longrightarrow> le (f b) (f a) \<Longrightarrow> a = b"
  shows "xs = ys"
  using assms
proof (induction xs arbitrary: ys)
  case Nil
  then show ?case by simp
next
  case (Cons x xs)
  then obtain y ys' where ys: "ys = y # ys'" by (cases ys) auto
  have "x = y"
  proof (rule ccontr)
    assume "x \<noteq> y"
    moreover have "x \<in> set ys" "y \<in> set (x # xs)" using Cons.prems(3) ys by auto
    ultimately have "x \<in> set ys'" "y \<in> set xs" using ys by auto
    then have "le (f x) (f y)" "le (f y) (f x)" using Cons.prems(1,2) ys by auto
    then show False using Cons.prems(6) [of x y] \<open>x \<noteq> y\<close> \<open>y \<in> set (x # xs)\<close> by simp
  qed
  moreover have "set xs = set ys'" using Cons.prems(3-5) ys \<open>x = y\<close> by auto
  ultimately show ?case using Cons.IH [of ys'] Cons.prems ys by simp
qed

end

text \<open>Postgres compares text under the collation of the database, where only equal texts tie.\<close>

locale collation = key_order le for le :: "string \<Rightarrow> string \<Rightarrow> bool" +
  assumes le_antisym: "le a b \<Longrightarrow> le b a \<Longrightarrow> a = b"

interpretation bytewise: collation byte_le
  by unfold_locales (auto simp: byte_le_def)

end
