(* ===== verification/Go_Time.thy ===== *)
theory Go_Time
  imports Go_Prelude "HOL-Library.Monad_Syntax"
begin

text \<open>
  \<^verbatim>\<open>time.Time\<close> values, their RFC 3339 text and its parser, as the sources use them.
  A \<open>gotime\<close> is the broken-down UTC reading of an instant (every caller formats a UTC
  time); an instant itself is the number of nanoseconds since the Unix epoch.
  \<open>ParseRFC3339\<close> follows the generic parser of \<^verbatim>\<open>time.Parse\<close> for the layout
  \<^verbatim>\<open>2006-01-02T15:04:05.999999999Z07:00\<close>, which also accepts what the layout without a
  fraction accepts: a one-digit hour, a comma before the fraction, any number of
  fraction digits (nine are kept), an offset up to 24:60. The main result is that the
  parser inverts the formatter.
\<close>

record gotime =
  t_year :: nat
  t_month :: nat
  t_day :: nat
  t_hour :: nat
  t_min :: nat
  t_sec :: nat
  t_nsec :: nat

definition leap_year :: "nat \<Rightarrow> bool" where
  "leap_year y \<longleftrightarrow> 4 dvd y \<and> (\<not> 100 dvd y \<or> 400 dvd y)"

definition days_in :: "nat \<Rightarrow> nat \<Rightarrow> nat" where
  "days_in m y =
     (if m = 2 then (if leap_year y then 29 else 28)
      else if m = 4 \<or> m = 6 \<or> m = 9 \<or> m = 11 then 30 else 31)"

definition valid_gotime :: "gotime \<Rightarrow> bool" where
  "valid_gotime t \<longleftrightarrow>
     t_year t \<le> 9999 \<and> 1 \<le> t_month t \<and> t_month t \<le> 12 \<and>
     1 \<le> t_day t \<and> t_day t \<le> days_in (t_month t) (t_year t) \<and>
     t_hour t < 24 \<and> t_min t < 60 \<and> t_sec t < 60 \<and> t_nsec t < 1000000000"

text \<open>\<^verbatim>\<open>time.Time.IsZero\<close>: January 1, year 1, 00:00:00 UTC.\<close>

definition zero_time :: gotime where
  "zero_time = \<lparr>t_year = 1, t_month = 1, t_day = 1, t_hour = 0, t_min = 0, t_sec = 0, t_nsec = 0\<rparr>"

definition IsZero :: "gotime \<Rightarrow> bool" where
  "IsZero t \<longleftrightarrow> t = zero_time"

text \<open>Days from 1970-01-01 to the date of the proleptic Gregorian calendar.\<close>

definition days_from_civil :: "nat \<Rightarrow> nat \<Rightarrow> nat \<Rightarrow> int" where
  "days_from_civil y m d =
     (let y' = (if m \<le> 2 then int y - 1 else int y);
          mp = (m + 9) mod 12;
          doy = int ((153 * mp + 2) div 5) + int d - 1
      in 365 * y' + y' div 4 - y' div 100 + y' div 400 + doy - 719468)"

definition instant :: "nat \<Rightarrow> nat \<Rightarrow> nat \<Rightarrow> nat \<Rightarrow> nat \<Rightarrow> nat \<Rightarrow> int \<Rightarrow> int \<Rightarrow> int" where
  "instant y mo d h mi s ns off =
     (days_from_civil y mo d * 86400 + int h * 3600 + int mi * 60 + int s - off) * 1000000000 + ns"

definition UnixNano :: "gotime \<Rightarrow> int" where
  "UnixNano t = instant (t_year t) (t_month t) (t_day t) (t_hour t) (t_min t) (t_sec t) (int (t_nsec t)) 0"

definition UnixMilli :: "gotime \<Rightarrow> int" where
  "UnixMilli t = UnixNano t div 1000000"

text \<open>\<^verbatim>\<open>Format(time.RFC3339Nano)\<close> of a UTC time: trailing zeros of the fraction are dropped.\<close>

definition dec_pad :: "nat \<Rightarrow> nat \<Rightarrow> string" where
  "dec_pad w n = pad0 w (nat_dec n)"

definition strip_zeros :: "string \<Rightarrow> string" where
  "strip_zeros s = rev (dropWhile (\<lambda>c. c = CHR ''0'') (rev s))"

definition format_frac :: "nat \<Rightarrow> string" where
  "format_frac ns = (if ns = 0 then [] else ''.'' @ strip_zeros (dec_pad 9 ns))"

definition FormatRFC3339Nano :: "gotime \<Rightarrow> string" where
  "FormatRFC3339Nano t =
     dec_pad 4 (t_year t) @ ''-'' @ dec_pad 2 (t_month t) @ ''-'' @ dec_pad 2 (t_day t) @ ''T'' @
     dec_pad 2 (t_hour t) @ '':'' @ dec_pad 2 (t_min t) @ '':'' @ dec_pad 2 (t_sec t) @
     format_frac (t_nsec t) @ ''Z''"

section \<open>The parser\<close>

definition is_digit :: "char \<Rightarrow> bool" where
  "is_digit c \<longleftrightarrow> 48 \<le> byte_of c \<and> byte_of c \<le> 57"

definition digit_val :: "char \<Rightarrow> nat" where
  "digit_val c = byte_of c - 48"

definition digits_val :: "string \<Rightarrow> int" where
  "digits_val ds = foldl (\<lambda>n c. n * 10 + int (digit_val c)) 0 ds"

text \<open>\<^verbatim>\<open>getnum\<close>: two digits, or one digit where the field is not fixed.\<close>

fun getnum :: "bool \<Rightarrow> string \<Rightarrow> (nat \<times> string) option" where
  "getnum fixed (a # b # r) =
     (if is_digit a \<and> is_digit b then Some (nat (digits_val [a, b]), r)
      else if is_digit a \<and> \<not> fixed then Some (digit_val a, b # r) else None)"
| "getnum fixed [a] = (if is_digit a \<and> \<not> fixed then Some (digit_val a, []) else None)"
| "getnum fixed [] = None"

definition getyear :: "string \<Rightarrow> (nat \<times> string) option" where
  "getyear s = (if 4 \<le> length s \<and> list_all is_digit (take 4 s)
                then Some (nat (digits_val (take 4 s)), drop 4 s) else None)"

fun expect :: "char \<Rightarrow> string \<Rightarrow> string option" where
  "expect c (x # r) = (if x = c then Some r else None)"
| "expect c [] = None"

definition check :: "bool \<Rightarrow> unit option" where
  "check b = (if b then Some () else None)"

fun parse_frac :: "string \<Rightarrow> int \<times> string" where
  "parse_frac (p # d # r) =
     (if (p = CHR ''.'' \<or> p = CHR '','') \<and> is_digit d
      then let ds = takeWhile is_digit (d # r); kept = take 9 ds
           in (digits_val kept * 10 ^ (9 - length kept), dropWhile is_digit (d # r))
      else (0, p # d # r))"
| "parse_frac s = (0, s)"

definition parse_zone :: "string \<Rightarrow> (int \<times> string) option" where
  "parse_zone s =
     (case s of
        [] \<Rightarrow> None
      | c # r \<Rightarrow>
          if c = CHR ''Z'' then Some (0, r)
          else if length s < 6 \<or> s ! 3 \<noteq> CHR '':'' then None
          else do {
            (h, _) \<leftarrow> getnum True [s ! 1, s ! 2];
            (m, _) \<leftarrow> getnum True [s ! 4, s ! 5];
            check (h \<le> 24 \<and> m \<le> 60);
            if c = CHR ''+'' then Some (int (h * 60 + m) * 60, drop 6 s)
            else if c = CHR ''-'' then Some (- (int (h * 60 + m) * 60), drop 6 s)
            else None })"

definition ParseRFC3339 :: "string \<Rightarrow> int option" where
  "ParseRFC3339 s = do {
     (y, s) \<leftarrow> getyear s;
     s \<leftarrow> expect (CHR ''-'') s;
     (mo, s) \<leftarrow> getnum True s;
     check (1 \<le> mo \<and> mo \<le> 12);
     s \<leftarrow> expect (CHR ''-'') s;
     (d, s) \<leftarrow> getnum True s;
     s \<leftarrow> expect (CHR ''T'') s;
     (h, s) \<leftarrow> getnum False s;
     check (h < 24);
     s \<leftarrow> expect (CHR '':'') s;
     (mi, s) \<leftarrow> getnum True s;
     check (mi < 60);
     s \<leftarrow> expect (CHR '':'') s;
     (sec, s) \<leftarrow> getnum True s;
     check (sec < 60);
     let (ns, s) = parse_frac s in do {
       (off, s) \<leftarrow> parse_zone s;
       check (s = []);
       check (1 \<le> d \<and> d \<le> days_in mo y);
       Some (instant y mo d h mi sec ns off) } }"

section \<open>Decimal fields\<close>

lemma byte_of_digit_char: "n < 10 \<Longrightarrow> byte_of (digit_char n) = 48 + n"
  by (simp add: byte_of_def digit_char_def)

lemma is_digit_digit_char [simp]: "n < 10 \<Longrightarrow> is_digit (digit_char n)"
  by (simp add: is_digit_def byte_of_digit_char)

lemma digit_val_digit_char [simp]: "n < 10 \<Longrightarrow> digit_val (digit_char n) = n"
  by (simp add: digit_val_def byte_of_digit_char)

lemma foldl_digits:
  "foldl (\<lambda>n c. n * 10 + int (digit_val c)) k ds = k * 10 ^ length ds + digits_val ds"
proof (induction ds rule: rev_induct)
  case Nil
  then show ?case by (simp add: digits_val_def)
next
  case (snoc c ds)
  then show ?case by (simp add: digits_val_def algebra_simps)
qed

lemma digits_val_append: "digits_val (xs @ ys) = digits_val xs * 10 ^ length ys + digits_val ys"
  by (simp add: digits_val_def foldl_digits [of "foldl _ _ _", unfolded digits_val_def])

lemma digits_val_single [simp]: "digits_val [c] = int (digit_val c)"
  by (simp add: digits_val_def)

lemma nat_dec_digits: "list_all is_digit (nat_dec n)"
proof (induction n rule: nat_dec.induct)
  case (1 n)
  then show ?case by (subst nat_dec.simps) auto
qed

lemma digits_val_nat_dec [simp]: "digits_val (nat_dec n) = int n"
proof (induction n rule: nat_dec.induct)
  case (1 n)
  have "int (n div 10) * 10 + int (n mod 10) = int n" by (simp add: zdiv_int zmod_int)
  with 1 show ?case by (subst nat_dec.simps) (auto simp: digits_val_append)
qed

lemma length_nat_dec: "n < 10 ^ w \<Longrightarrow> 0 < w \<Longrightarrow> length (nat_dec n) \<le> w"
proof (induction n arbitrary: w rule: nat_dec.induct)
  case (1 n)
  show ?case
  proof (cases "n < 10")
    case True
    then show ?thesis using "1.prems" by (subst nat_dec.simps) simp
  next
    case False
    then obtain v where w: "w = Suc v" and v: "0 < v"
      using "1.prems" by (cases w; cases "w - 1") auto
    then have "n div 10 < 10 ^ v" using "1.prems" by (simp add: less_mult_imp_div_less mult.commute)
    then have "length (nat_dec (n div 10)) \<le> v" using "1.IH" False v by blast
    then show ?thesis using False w by (subst nat_dec.simps) simp
  qed
qed

lemma is_digit_zero [simp]: "is_digit (CHR ''0'')"
  by (simp add: is_digit_def byte_of_def)

lemma digit_val_zero [simp]: "digit_val (CHR ''0'') = 0"
  by (simp add: digit_val_def byte_of_def)

lemma digits_val_zeros: "digits_val (replicate k (CHR ''0'')) = 0"
proof (induction k)
  case 0
  then show ?case by (simp add: digits_val_def)
next
  case (Suc k)
  have "digits_val (CHR ''0'' # replicate k (CHR ''0'')) = digits_val ([CHR ''0''] @ replicate k (CHR ''0''))"
    by simp
  then show ?case using Suc by (simp only: digits_val_append replicate_Suc) simp
qed

lemma dec_pad_digits: "list_all is_digit (dec_pad w n)"
  using nat_dec_digits [of n] by (auto simp: dec_pad_def pad0_def list_all_iff)

lemma dec_pad_val [simp]: "digits_val (dec_pad w n) = int n"
  by (simp add: dec_pad_def pad0_def digits_val_append digits_val_zeros)

lemma dec_pad_length: "n < 10 ^ w \<Longrightarrow> 0 < w \<Longrightarrow> length (dec_pad w n) = w"
  using length_nat_dec [of n w] by (simp add: dec_pad_def pad0_def)

lemma getnum_dec_pad: "n < 100 \<Longrightarrow> getnum fixed (dec_pad 2 n @ r) = Some (n, r)"
proof -
  assume "n < 100"
  then have "length (dec_pad 2 n) = 2" using dec_pad_length [of n 2] by simp
  then obtain a b where ab: "dec_pad 2 n = [a, b]"
    by (auto simp: length_Suc_conv numeral_2_eq_2)
  then show ?thesis using dec_pad_digits [of 2 n] dec_pad_val [of 2 n] by simp
qed

lemma getyear_dec_pad: "y \<le> 9999 \<Longrightarrow> getyear (dec_pad 4 y @ r) = Some (y, r)"
proof -
  assume "y \<le> 9999"
  then have "length (dec_pad 4 y) = 4" using dec_pad_length [of y 4] by simp
  then show ?thesis using dec_pad_digits [of 4 y] by (simp add: getyear_def)
qed

section \<open>The fraction\<close>

lemma strip_zeros_split: "\<exists>k. s = strip_zeros s @ replicate k (CHR ''0'')"
proof -
  have "rev s = takeWhile (\<lambda>c. c = CHR ''0'') (rev s) @ dropWhile (\<lambda>c. c = CHR ''0'') (rev s)"
    by simp
  then have "s = strip_zeros s @ rev (takeWhile (\<lambda>c. c = CHR ''0'') (rev s))"
    unfolding strip_zeros_def by (metis rev_append rev_rev_ident)
  moreover have "takeWhile (\<lambda>c. c = CHR ''0'') (rev s) = replicate (length (takeWhile (\<lambda>c. c = CHR ''0'') (rev s))) (CHR ''0'')"
    by (rule replicate_eqI [symmetric, THEN sym]) (auto dest: set_takeWhileD)
  ultimately show ?thesis by (metis rev_replicate)
qed

lemma parse_frac_format: "ns < 1000000000 \<Longrightarrow> parse_frac (format_frac ns @ ''Z'') = (int ns, ''Z'')"
proof (cases "ns = 0")
  case True
  then show ?thesis by (simp add: format_frac_def)
next
  case False
  assume ns: "ns < 1000000000"
  let ?ds = "strip_zeros (dec_pad 9 ns)"
  obtain k where k: "dec_pad 9 ns = ?ds @ replicate k (CHR ''0'')" using strip_zeros_split by blast
  have len: "length (dec_pad 9 ns) = 9" using dec_pad_length [of ns 9] ns by simp
  then have k9: "length ?ds + k = 9" using k by (metis length_append length_replicate)
  have val: "digits_val ?ds * 10 ^ k = int ns"
    using arg_cong [OF k, of digits_val] by (simp add: digits_val_append digits_val_zeros)
  have dig: "list_all is_digit ?ds" using dec_pad_digits [of 9 ns] k by (metis list_all_append)
  have ne: "?ds \<noteq> []" using val False by (auto simp: digits_val_def)
  then obtain d r where dr: "?ds = d # r" by (cases ?ds) auto
  have z: "\<not> is_digit (CHR ''Z'')" by (simp add: is_digit_def byte_of_def)
  have tk: "takeWhile is_digit (?ds @ ''Z'') = ?ds" "dropWhile is_digit (?ds @ ''Z'') = ''Z''"
    using dig z by (auto simp: takeWhile_append dropWhile_append list_all_iff)
  have "9 - length ?ds = k" using k9 by simp
  then show ?thesis
    using False dig tk val k9 by (simp add: format_frac_def dr Let_def)
qed

text \<open>Parsing the text of a time gives back its instant.\<close>

lemma ParseRFC3339_Format: "valid_gotime t \<Longrightarrow> ParseRFC3339 (FormatRFC3339Nano t) = Some (UnixNano t)"
proof -
  assume v: "valid_gotime t"
  have bounds: "t_month t < 100" "t_day t < 100" "t_hour t < 100" "t_min t < 100" "t_sec t < 100"
    using v by (auto simp: valid_gotime_def days_in_def split: if_splits)
  show ?thesis
    using v bounds unfolding valid_gotime_def
    by (simp add: ParseRFC3339_def FormatRFC3339Nano_def getyear_dec_pad getnum_dec_pad
        parse_frac_format parse_zone_def check_def UnixNano_def)
qed

section \<open>Order of padded decimals\<close>

text \<open>
  Digit strings of the same length compare bytewise as the numbers they denote, which is
  why zero-padded decimals can serve as sort keys.
\<close>

lemma append_less: "length xs = length ys \<Longrightarrow> xs < ys \<Longrightarrow> xs @ zs < ys @ (ws :: 'a::order list)"
  by (induction xs ys rule: list_induct2) auto

lemma append_less_same: "xs @ zs < xs @ (ws :: 'a::order list) \<longleftrightarrow> zs < ws"
  by (induction xs) auto

lemma digits_val_Cons: "digits_val (c # cs) = int (digit_val c) * 10 ^ length cs + digits_val cs"
  using digits_val_append [of "[c]" cs] by simp

lemma digits_val_bound: "list_all is_digit cs \<Longrightarrow> 0 \<le> digits_val cs \<and> digits_val cs < 10 ^ length cs"
proof (induction cs)
  case Nil
  then show ?case by (simp add: digits_val_def)
next
  case (Cons c cs)
  then have "int (digit_val c) \<le> 9" by (simp add: is_digit_def digit_val_def)
  then have "int (digit_val c) * 10 ^ length cs \<le> 9 * 10 ^ length cs" by (intro mult_right_mono) auto
  moreover have "0 \<le> int (digit_val c) * 10 ^ length cs" by simp
  moreover have "0 \<le> digits_val cs" "digits_val cs < 10 ^ length cs" using Cons by simp_all
  ultimately have "0 \<le> digits_val (c # cs)" "digits_val (c # cs) < 10 * 10 ^ length cs"
    unfolding digits_val_Cons by linarith+
  then show ?case by simp
qed

lemma digit_val_order: "is_digit c \<Longrightarrow> is_digit d \<Longrightarrow> digit_val c < digit_val d \<Longrightarrow> c < d"
  by (simp add: digit_val_def is_digit_def byte_of_def less_char_def)

lemma digit_val_inject: "is_digit c \<Longrightarrow> is_digit d \<Longrightarrow> digit_val c = digit_val d \<Longrightarrow> c = d"
proof -
  assume "is_digit c" "is_digit d" "digit_val c = digit_val d"
  then have "byte_of c = byte_of d" unfolding digit_val_def is_digit_def by arith
  then show "c = d" by (simp add: byte_of_def)
qed

lemma digits_less:
  "length xs = length ys \<Longrightarrow> list_all is_digit xs \<Longrightarrow> list_all is_digit ys \<Longrightarrow>
   digits_val xs < digits_val ys \<Longrightarrow> xs < ys"
proof (induction xs ys rule: list_induct2)
  case (Cons x xs y ys)
  let ?b = "10 ^ length xs :: int"
  have bounds: "0 \<le> digits_val xs" "digits_val xs < ?b" "0 \<le> digits_val ys" "digits_val ys < ?b"
    using Cons digits_val_bound [of xs] digits_val_bound [of ys] by auto
  have lt: "int (digit_val x) * ?b + digits_val xs < int (digit_val y) * ?b + digits_val ys"
    using Cons by (simp add: digits_val_Cons)
  have "\<not> digit_val y < digit_val x"
  proof
    assume "digit_val y < digit_val x"
    then have "(int (digit_val y) + 1) * ?b \<le> int (digit_val x) * ?b" by (intro mult_right_mono) auto
    then show False using lt bounds by (simp add: algebra_simps)
  qed
  then consider "digit_val x < digit_val y" | "digit_val x = digit_val y" by linarith
  then show ?case
  proof cases
    case 1
    then show ?thesis using Cons digit_val_order [of x y] by simp
  next
    case 2
    then have "x = y" using Cons digit_val_inject by simp
    then show ?thesis using Cons lt 2 by simp
  qed
qed (simp add: digits_val_def)
lemma dec_pad_less:
  assumes "m < n" "n < 10 ^ w" "0 < w"
  shows "dec_pad w m < dec_pad w n"
proof (rule digits_less)
  show "length (dec_pad w m) = length (dec_pad w n)"
    using assms dec_pad_length [of m w] dec_pad_length [of n w] by simp
qed (use assms dec_pad_digits in auto)

lemma int_dec_pad_nonneg: "0 \<le> n \<Longrightarrow> int_dec_pad w n = dec_pad w (nat n)"
  by (simp add: int_dec_pad_def dec_pad_def)

end
