(* ===== verification/Conversation.thy ===== *)
theory Conversation
  imports Go_Time
begin

text \<open>
  The conversation event envelope and its validator
  (\<^verbatim>\<open>backend-go/internal/conversation/types.go\<close>). Events are documents (\<open>gomap\<close>); the string
  enumerations of the source are datatypes with their wire strings. A function that
  returns a Go \<^verbatim>\<open>error\<close> returns \<open>schema_cause option\<close>, \<open>None\<close> being \<^verbatim>\<open>nil\<close>; each
  \<^verbatim>\<open>fmt.Errorf\<close> is a constructor with the values it prints. The declarative table at the
  end (\<open>required_fields\<close>, \<open>required_actor\<close>, \<open>tank_sourced\<close>, \<open>payload_ok\<close>) is the per-type contract
  that the validator is shown to enforce.
\<close>

section \<open>Enumerations\<close>

datatype Actor = ActorUser | ActorAssistant | ActorSystem | ActorTool | ActorRunner

fun actor_wire :: "Actor \<Rightarrow> string" where
  "actor_wire ActorUser = ''user''"
| "actor_wire ActorAssistant = ''assistant''"
| "actor_wire ActorSystem = ''system''"
| "actor_wire ActorTool = ''tool''"
| "actor_wire ActorRunner = ''runner''"

datatype AuthorKind = AuthorKindSystem

fun author_kind_wire :: "AuthorKind \<Rightarrow> string" where
  "author_kind_wire AuthorKindSystem = ''system''"

datatype Source = SourceTank | SourceClaude | SourceCodex

fun source_wire :: "Source \<Rightarrow> string" where
  "source_wire SourceTank = ''tank''"
| "source_wire SourceClaude = ''claude''"
| "source_wire SourceCodex = ''codex''"

datatype TurnSubmittedSource =
    TurnSubmittedSourceScheduleWakeup
  | TurnSubmittedSourceBackgroundTask
  | TurnSubmittedSourceLaunchDispatch
  | TurnSubmittedSourceBreakGlassApproval
  | TurnSubmittedSourceTestSlotModelApproval
  | TurnSubmittedSourceTestSlotDrive
  | TurnSubmittedSourceOrchestrateLaunch

fun turn_submitted_source_wire :: "TurnSubmittedSource \<Rightarrow> string" where
  "turn_submitted_source_wire TurnSubmittedSourceScheduleWakeup = ''schedule-wakeup''"
| "turn_submitted_source_wire TurnSubmittedSourceBackgroundTask = ''background-task''"
| "turn_submitted_source_wire TurnSubmittedSourceLaunchDispatch = ''launch-dispatch''"
| "turn_submitted_source_wire TurnSubmittedSourceBreakGlassApproval = ''break-glass-approval''"
| "turn_submitted_source_wire TurnSubmittedSourceTestSlotModelApproval = ''test-slot-model-approval''"
| "turn_submitted_source_wire TurnSubmittedSourceTestSlotDrive = ''test-slot-drive''"
| "turn_submitted_source_wire TurnSubmittedSourceOrchestrateLaunch = ''orchestrate-launch''"

datatype Visibility = VisibilityDurable

fun visibility_wire :: "Visibility \<Rightarrow> string" where
  "visibility_wire VisibilityDurable = ''durable''"

datatype EventType =
    EventUserMessageCreated
  | EventAssistantMessageCreated
  | EventTurnSubmitted
  | EventTurnClaimed
  | EventTurnStarted
  | EventTurnUsage
  | EventTurnCompleted
  | EventTurnFailed
  | EventTurnCommandFailed
  | EventTurnInterruptRequested
  | EventTurnInterrupted
  | EventTurnInputAnswered
  | EventContextCompacted
  | EventSessionStatus
  | EventItemStarted
  | EventItemCompleted
  | EventItemFailed
  | EventShellTaskStarted
  | EventShellTaskUpdated
  | EventShellTaskExited
  | EventScheduledWakeupUpdated
  | EventCIStatusUpdated
  | EventTestProvisionUpdated
  | EventTurnAwaitingInput
  | EventTurnAwaitingInputInvocation

fun event_wire :: "EventType \<Rightarrow> string" where
  "event_wire EventUserMessageCreated = ''user_message.created''"
| "event_wire EventAssistantMessageCreated = ''assistant_message.created''"
| "event_wire EventTurnSubmitted = ''turn.submitted''"
| "event_wire EventTurnClaimed = ''turn.claimed''"
| "event_wire EventTurnStarted = ''turn.started''"
| "event_wire EventTurnUsage = ''turn.usage''"
| "event_wire EventTurnCompleted = ''turn.completed''"
| "event_wire EventTurnFailed = ''turn.failed''"
| "event_wire EventTurnCommandFailed = ''turn.command_failed''"
| "event_wire EventTurnInterruptRequested = ''turn.interrupt_requested''"
| "event_wire EventTurnInterrupted = ''turn.interrupted''"
| "event_wire EventTurnInputAnswered = ''turn.input_answered''"
| "event_wire EventContextCompacted = ''context.compacted''"
| "event_wire EventSessionStatus = ''session.status''"
| "event_wire EventItemStarted = ''item.started''"
| "event_wire EventItemCompleted = ''item.completed''"
| "event_wire EventItemFailed = ''item.failed''"
| "event_wire EventShellTaskStarted = ''shell_task.started''"
| "event_wire EventShellTaskUpdated = ''shell_task.updated''"
| "event_wire EventShellTaskExited = ''shell_task.exited''"
| "event_wire EventScheduledWakeupUpdated = ''scheduled_wakeup.updated''"
| "event_wire EventCIStatusUpdated = ''ci_status.updated''"
| "event_wire EventTestProvisionUpdated = ''test_provision.updated''"
| "event_wire EventTurnAwaitingInput = ''turn.awaiting_input''"
| "event_wire EventTurnAwaitingInputInvocation = ''turn.awaiting_input.invocation''"

definition all_event_types :: "EventType list" where
  "all_event_types =
     [EventUserMessageCreated, EventAssistantMessageCreated, EventTurnSubmitted, EventTurnClaimed,
      EventTurnStarted, EventTurnUsage, EventTurnCompleted, EventTurnFailed, EventTurnCommandFailed,
      EventTurnInterruptRequested, EventTurnInterrupted, EventTurnInputAnswered,
      EventContextCompacted, EventSessionStatus, EventItemStarted, EventItemCompleted,
      EventItemFailed, EventShellTaskStarted, EventShellTaskUpdated, EventShellTaskExited,
      EventScheduledWakeupUpdated, EventCIStatusUpdated, EventTestProvisionUpdated,
      EventTurnAwaitingInput, EventTurnAwaitingInputInvocation]"

text \<open>The constant a wire string denotes, if it is one of the known event types.\<close>

definition parse_event_type :: "string \<Rightarrow> EventType option" where
  "parse_event_type s = find (\<lambda>t. event_wire t = s) all_event_types"

definition validActor :: "string \<Rightarrow> bool" where
  "validActor s \<longleftrightarrow>
     s \<in> set (map actor_wire [ActorUser, ActorAssistant, ActorSystem, ActorTool, ActorRunner])"

definition validSource :: "string \<Rightarrow> bool" where
  "validSource s \<longleftrightarrow> s \<in> set (map source_wire [SourceTank, SourceClaude, SourceCodex])"

definition validTurnSubmittedSource :: "string \<Rightarrow> bool" where
  "validTurnSubmittedSource s \<longleftrightarrow>
     s \<in> set (map turn_submitted_source_wire
       [TurnSubmittedSourceScheduleWakeup, TurnSubmittedSourceBackgroundTask,
        TurnSubmittedSourceLaunchDispatch, TurnSubmittedSourceBreakGlassApproval,
        TurnSubmittedSourceTestSlotModelApproval, TurnSubmittedSourceTestSlotDrive,
        TurnSubmittedSourceOrchestrateLaunch])"

definition validVisibility :: "string \<Rightarrow> bool" where
  "validVisibility s \<longleftrightarrow> s = visibility_wire VisibilityDurable"

definition validEventType :: "string \<Rightarrow> bool" where
  "validEventType s \<longleftrightarrow> s \<in> set (map event_wire all_event_types)"

text \<open>\<^verbatim>\<open>IsTurnTerminalEvent\<close> and \<^verbatim>\<open>IsTurnLifecycleEvent\<close>: the boundaries of a turn.\<close>

definition IsTurnTerminalEvent :: "string \<Rightarrow> bool" where
  "IsTurnTerminalEvent s \<longleftrightarrow>
     s \<in> set (map event_wire
       [EventTurnCompleted, EventTurnFailed, EventTurnCommandFailed, EventTurnInterrupted])"

definition IsTurnLifecycleEvent :: "string \<Rightarrow> bool" where
  "IsTurnLifecycleEvent s \<longleftrightarrow> s = event_wire EventTurnSubmitted \<or> IsTurnTerminalEvent s"

section \<open>Errors and field access\<close>

datatype schema_cause =
    EventRequired                       \<comment> \<open>event is required\<close>
  | Missing string                      \<comment> \<open>field is required\<close>
  | MissingFor string string            \<comment> \<open>field is required for type\<close>
  | BadCreatedAt                        \<comment> \<open>created_at must be RFC3339\<close>
  | UnknownValue string string          \<comment> \<open>unknown kind "value"\<close>
  | WrongRole string                    \<comment> \<open>type must be actor=... source=...\<close>
  | BadField string                     \<comment> \<open>field must be ...\<close>
  | BadFieldFor string string           \<comment> \<open>field must be ... for type\<close>
  | Within string schema_cause          \<comment> \<open>prefix.cause\<close>
  | CauseFor schema_cause string        \<comment> \<open>cause for type\<close>

datatype schema_error = SchemaError schema_cause

type_synonym verdict = "schema_cause option"

text \<open>\<^verbatim>\<open>if err := a; err != nil { return err }; b\<close>\<close>

definition and_then :: "verdict \<Rightarrow> verdict \<Rightarrow> verdict" where
  "and_then a b = (case a of Some e \<Rightarrow> Some e | None \<Rightarrow> b)"

definition event_type_of :: "gomap \<Rightarrow> string" where
  "event_type_of event = string_at event ''type''"

definition numericField :: "goany \<Rightarrow> rat option" where
  "numericField v = (case v of
      GFloat q \<Rightarrow> Some q | GInt n \<Rightarrow> Some (of_int n) | GInt64 n \<Rightarrow> Some (of_int n) | _ \<Rightarrow> None)"

definition requireFields :: "gomap \<Rightarrow> string list \<Rightarrow> verdict" where
  "requireFields event fs =
     map_option (\<lambda>f. MissingFor f (event_type_of event)) (find (\<lambda>f. string_at event f = []) fs)"

definition requirePayload :: "gomap \<Rightarrow> schema_cause + gomap" where
  "requirePayload event =
     (case as_map (mget event ''payload'') of
        Some p \<Rightarrow> Inr p
      | None \<Rightarrow> Inl (MissingFor ''payload'' (event_type_of event)))"

text \<open>The common prefix of the payload validators: read the payload or fail.\<close>

definition with_payload :: "gomap \<Rightarrow> (gomap \<Rightarrow> verdict) \<Rightarrow> verdict" where
  "with_payload event k = (case requirePayload event of Inl e \<Rightarrow> Some e | Inr p \<Rightarrow> k p)"

definition requirePayloadString :: "gomap \<Rightarrow> string \<Rightarrow> verdict" where
  "requirePayloadString event key =
     with_payload event (\<lambda>payload.
       if string_at payload key = [] then Some (MissingFor (''payload.'' @ key) (event_type_of event))
       else None)"

definition skillNamePattern :: "string \<Rightarrow> bool" where
  "skillNamePattern s \<longleftrightarrow>
     1 \<le> length s \<and> length s \<le> 64 \<and>
     list_all (\<lambda>c. 65 \<le> byte_of c \<and> byte_of c \<le> 90 \<or> 97 \<le> byte_of c \<and> byte_of c \<le> 122 \<or>
                    48 \<le> byte_of c \<and> byte_of c \<le> 57 \<or> c = CHR ''_'' \<or> c = CHR ''-'') s"

section \<open>Payload validators\<close>

definition validateTurnSubmittedPayload :: "gomap \<Rightarrow> verdict" where
  "validateTurnSubmittedPayload event =
     with_payload event (\<lambda>payload.
       if string_at payload ''status'' = []
       then Some (MissingFor ''payload.status'' (event_type_of event))
       else if string_at payload ''source'' \<noteq> [] \<and> \<not> validTurnSubmittedSource (string_at payload ''source'')
       then Some (BadFieldFor ''payload.source'' (event_type_of event))
       else None)"

definition validateContextCompactedPayload :: "gomap \<Rightarrow> verdict" where
  "validateContextCompactedPayload event =
     with_payload event (\<lambda>payload.
       if string_at payload ''trigger'' \<notin> {''auto'', ''manual''}
       then Some (BadFieldFor ''payload.trigger'' (event_type_of event))
       else (case mget payload ''pre_tokens'' of
               None \<Rightarrow> None
             | Some raw \<Rightarrow>
                 (case numericField raw of
                    None \<Rightarrow> Some (BadFieldFor ''payload.pre_tokens'' (event_type_of event))
                  | Some n \<Rightarrow>
                      if n < 0 then Some (BadFieldFor ''payload.pre_tokens'' (event_type_of event))
                      else None)))"

text \<open>
  A failed status is either bare (no extension field) or names scope and subject and
  carries a reason or an action.
\<close>

definition validateSessionStatusFailedExtension :: "gomap \<Rightarrow> gomap \<Rightarrow> verdict" where
  "validateSessionStatusFailedExtension event payload =
     (let scope = string_at payload ''failure_scope'';
          subject = string_at payload ''failure_subject'';
          reason = string_at payload ''failure_reason'';
          actionRaw = mget payload ''action'';
          hasAction = actionRaw \<noteq> None;
          hasExtension = (scope \<noteq> [] \<or> subject \<noteq> [] \<or> reason \<noteq> [] \<or> hasAction);
          ty = event_type_of event
      in if \<not> hasExtension then None
         else if scope \<notin> {''provider'', ''session'', ''pod''}
         then Some (BadFieldFor ''payload.failure_scope'' ty)
         else if subject = [] then Some (MissingFor ''payload.failure_subject'' ty)
         else and_then
           (if hasAction
            then (case as_map actionRaw of
                    None \<Rightarrow> Some (BadFieldFor ''payload.action'' ty)
                  | Some action \<Rightarrow>
                      if string_at action ''label'' = [] \<or> string_at action ''href'' = []
                      then Some (MissingFor ''payload.action.label and payload.action.href'' ty)
                      else None)
            else None)
           (if reason = [] \<and> \<not> hasAction
            then Some (MissingFor ''payload.failure_reason or payload.action'' ty)
            else None))"

definition validateSessionStatusPayload :: "gomap \<Rightarrow> verdict" where
  "validateSessionStatusPayload event =
     with_payload event (\<lambda>payload.
       let status = string_at payload ''status''
       in if status \<notin> {''loading'', ''ready'', ''failed''}
          then Some (BadFieldFor ''payload.status'' (event_type_of event))
          else if string_at payload ''text'' = []
          then Some (MissingFor ''payload.text'' (event_type_of event))
          else if status = ''failed'' then validateSessionStatusFailedExtension event payload
          else None)"

text \<open>The elements of a string array, whether decoded as \<^verbatim>\<open>[]any\<close> or built as \<^verbatim>\<open>[]string\<close>.\<close>

definition string_items :: "goany \<Rightarrow> string list option" where
  "string_items raw =
     (case raw of
        GAnys vs \<Rightarrow>
          (if list_all (\<lambda>v. as_string (Some v) \<noteq> None) vs
           then Some (map (\<lambda>v. the (as_string (Some v))) vs) else None)
      | GStrs ss \<Rightarrow> Some ss
      | _ \<Rightarrow> None)"

definition requireNonEmptyStringArray :: "gomap \<Rightarrow> string \<Rightarrow> verdict" where
  "requireNonEmptyStringArray rec key =
     (case mget rec key of
        None \<Rightarrow> Some (Missing key)
      | Some raw \<Rightarrow>
          (case string_items raw of
             None \<Rightarrow> Some (BadField key)
           | Some items \<Rightarrow>
               if items = [] then Some (BadField key)
               else if \<exists>t\<in>set items. t = [] then Some (BadField key)
               else None))"

definition validateTurnCompletedPayload :: "gomap \<Rightarrow> verdict" where
  "validateTurnCompletedPayload event =
     (case mget event ''payload'' of
        None \<Rightarrow> None
      | Some rawPayload \<Rightarrow>
          (case as_map (Some rawPayload) of
             None \<Rightarrow> Some (BadFieldFor ''payload'' (event_type_of event))
           | Some payload \<Rightarrow>
               (case mget payload ''final_answer'' of
                  None \<Rightarrow> None
                | Some rawFinal \<Rightarrow>
                    (case as_map (Some rawFinal) of
                       None \<Rightarrow> Some (BadFieldFor ''payload.final_answer'' (event_type_of event))
                     | Some finalAnswer \<Rightarrow>
                         and_then (map_option (Within ''payload.final_answer'') (requireNonEmptyStringArray finalAnswer ''timeline_ids''))
                           (if mget finalAnswer ''provider_item_ids'' \<noteq> None
                            then map_option (Within ''payload.final_answer'') (requireNonEmptyStringArray finalAnswer ''provider_item_ids'')
                            else None)))))"

definition validateTurnUsagePayload :: "gomap \<Rightarrow> verdict" where
  "validateTurnUsagePayload event =
     with_payload event (\<lambda>payload.
       case mget payload ''usage'' of
         None \<Rightarrow> Some (MissingFor ''payload.usage'' (event_type_of event))
       | Some usage \<Rightarrow>
           if as_map (Some usage) = None then Some (BadFieldFor ''payload.usage'' (event_type_of event))
           else None)"

definition validateItemOutcome :: "gomap \<Rightarrow> verdict" where
  "validateItemOutcome event =
     with_payload event (\<lambda>payload.
       case mget payload ''outcome'' of
         None \<Rightarrow> None
       | Some raw \<Rightarrow>
           (case as_map (Some raw) of
              None \<Rightarrow> Some (BadField ''payload.outcome'')
            | Some outcome \<Rightarrow>
                (let kind = string_at outcome ''kind''; reason = string_at outcome ''reason''
                 in if kind = ''ok''
                    then (if reason \<noteq> [] then Some (BadField ''payload.outcome.reason'') else None)
                    else if kind = ''result_failed''
                    then (if reason \<in> {''claude_tool_result_is_error'', ''codex_item_status_failed'', ''exit_code''}
                          then None else Some (Missing ''payload.outcome.reason''))
                    else if kind = ''execution_failed''
                    then (if reason = ''provider_item_error''
                          then None else Some (Missing ''payload.outcome.reason''))
                    else Some (BadField ''payload.outcome.kind''))))"

definition validateShellTaskPayload :: "gomap \<Rightarrow> verdict" where
  "validateShellTaskPayload event =
     with_payload event (\<lambda>payload.
       if string_at payload ''kind'' \<noteq> ''shell_task''
       then Some (BadFieldFor ''payload.kind'' (event_type_of event))
       else if string_at payload ''task_id'' = []
       then Some (MissingFor ''payload.task_id'' (event_type_of event))
       else if string_at payload ''status'' = []
       then Some (MissingFor ''payload.status'' (event_type_of event))
       else None)"

definition validateScheduledWakeupPayload :: "gomap \<Rightarrow> verdict" where
  "validateScheduledWakeupPayload event =
     with_payload event (\<lambda>payload.
       if string_at payload ''kind'' \<noteq> ''scheduled_wakeup''
       then Some (BadFieldFor ''payload.kind'' (event_type_of event))
       else if string_at payload ''wakeup_id'' = []
       then Some (MissingFor ''payload.wakeup_id'' (event_type_of event))
       else if string_at payload ''status'' \<notin> {''scheduled'', ''claiming'', ''fired'', ''failed'', ''cancelled''}
       then Some (BadFieldFor ''payload.status'' (event_type_of event))
       else if string_at payload ''due_at'' = []
       then Some (MissingFor ''payload.due_at'' (event_type_of event))
       else None)"

definition validateCIStatusPayload :: "gomap \<Rightarrow> verdict" where
  "validateCIStatusPayload event =
     with_payload event (\<lambda>payload.
       if string_at payload ''kind'' \<noteq> ''ci_status''
       then Some (BadFieldFor ''payload.kind'' (event_type_of event))
       else if string_at payload ''pr_url'' = []
       then Some (MissingFor ''payload.pr_url'' (event_type_of event))
       else if string_at payload ''state'' \<notin> {''merged'', ''ready'', ''failed'', ''conflict''}
       then Some (BadFieldFor ''payload.state'' (event_type_of event))
       else None)"

definition validateTestProvisionPayload :: "gomap \<Rightarrow> verdict" where
  "validateTestProvisionPayload event =
     with_payload event (\<lambda>payload.
       if string_at payload ''kind'' \<noteq> ''test_provision''
       then Some (BadFieldFor ''payload.kind'' (event_type_of event))
       else if string_at payload ''phase'' \<notin> {''creating'', ''validating'', ''waiting'', ''ready'', ''error''}
       then Some (BadFieldFor ''payload.phase'' (event_type_of event))
       else if string_at payload ''text'' = []
       then Some (MissingFor ''payload.text'' (event_type_of event))
       else None)"

definition validateTurnInputAnsweredPayload :: "gomap \<Rightarrow> verdict" where
  "validateTurnInputAnsweredPayload event =
     with_payload event (\<lambda>payload.
       if string_at payload ''question_timeline_id'' = []
       then Some (MissingFor ''payload.question_timeline_id'' (event_type_of event))
       else if string_at payload ''provider_item_id'' = []
       then Some (MissingFor ''payload.provider_item_id'' (event_type_of event))
       else (case as_map (mget payload ''answers'') of
               Some (a # as) \<Rightarrow> None
             | _ \<Rightarrow> Some (MissingFor ''payload.answers'' (event_type_of event))))"

definition awaitingInputQuestions :: "gomap \<Rightarrow> schema_cause + goany list" where
  "awaitingInputQuestions payload =
     (case mget payload ''questions'' of
        None \<Rightarrow> Inl (Missing ''payload.questions'')
      | Some (GAnys []) \<Rightarrow> Inl (BadField ''payload.questions'')
      | Some (GAnys vs) \<Rightarrow> Inr vs
      | Some (GMaps []) \<Rightarrow> Inl (BadField ''payload.questions'')
      | Some (GMaps ms) \<Rightarrow> Inr (map GMap ms)
      | Some _ \<Rightarrow> Inl (BadField ''payload.questions''))"

fun question_check :: "string \<Rightarrow> goany list \<Rightarrow> verdict" where
  "question_check ty [] = None"
| "question_check ty (raw # qs) =
     (case as_map (Some raw) of
        None \<Rightarrow> Some (BadFieldFor ''payload.questions items'' ty)
      | Some q \<Rightarrow>
          if string_at q ''question'' = [] then Some (MissingFor ''payload.questions.question'' ty)
          else question_check ty qs)"

definition validateAwaitingInputPayload :: "gomap \<Rightarrow> verdict" where
  "validateAwaitingInputPayload event =
     with_payload event (\<lambda>payload.
       case awaitingInputQuestions payload of
         Inl e \<Rightarrow> Some (CauseFor e (event_type_of event))
       | Inr questions \<Rightarrow> question_check (event_type_of event) questions)"

section \<open>Message validators\<close>

definition optional_path_ok :: "gomap \<Rightarrow> string \<Rightarrow> bool" where
  "optional_path_ok item key =
     (case mget item key of
        None \<Rightarrow> True
      | Some v \<Rightarrow> (case as_string (Some v) of None \<Rightarrow> False | Some t \<Rightarrow> TrimSpace t \<noteq> []))"

definition attachment_check :: "gomap \<Rightarrow> verdict" where
  "attachment_check item =
     (if string_at item ''label'' = [] then Some (Missing ''payload.attachments.label'')
      else if string_at item ''name'' = [] then Some (Missing ''payload.attachments.name'')
      else if string_at item ''kind'' \<notin> {''image'', ''file''} then Some (BadField ''payload.attachments.kind'')
      else if \<not> optional_path_ok item ''path'' then Some (BadField ''payload.attachments.path'')
      else if \<not> optional_path_ok item ''absPath'' then Some (BadField ''payload.attachments.absPath'')
      else (case mget item ''size'' of
              None \<Rightarrow> None
            | Some v \<Rightarrow>
                (case numericField v of
                   None \<Rightarrow> Some (BadField ''payload.attachments.size'')
                 | Some n \<Rightarrow> if n < 0 then Some (BadField ''payload.attachments.size'') else None)))"

definition attachment_items :: "goany \<Rightarrow> schema_cause + gomap list" where
  "attachment_items raw =
     (case raw of
        GMaps ms \<Rightarrow> Inr ms
      | GAnys vs \<Rightarrow>
          (if list_all (\<lambda>v. as_map (Some v) \<noteq> None) vs
           then Inr (map (\<lambda>v. the (as_map (Some v))) vs)
           else Inl (BadField ''payload.attachments items''))
      | _ \<Rightarrow> Inl (BadField ''payload.attachments''))"

fun first_bad :: "('a \<Rightarrow> verdict) \<Rightarrow> 'a list \<Rightarrow> verdict" where
  "first_bad f [] = None"
| "first_bad f (x # xs) = and_then (f x) (first_bad f xs)"

definition validateUserMessageAttachments :: "goany option \<Rightarrow> verdict" where
  "validateUserMessageAttachments raw =
     (case raw of
        None \<Rightarrow> None
      | Some GNil \<Rightarrow> None
      | Some v \<Rightarrow>
          (case attachment_items v of
             Inl e \<Rightarrow> Some e
           | Inr items \<Rightarrow>
               if length items > 32 then Some (BadField ''payload.attachments'')
               else first_bad attachment_check items))"

definition validateUserMessageCreated :: "gomap \<Rightarrow> verdict" where
  "validateUserMessageCreated event =
     and_then (requireFields event [''turn_id'', ''timeline_id'', ''client_nonce''])
     (if string_at event ''actor'' \<noteq> actor_wire ActorUser \<or> string_at event ''source'' \<noteq> source_wire SourceTank
      then Some (WrongRole ''user_message.created'')
      else if string_at event ''author_kind'' \<noteq> [] \<and>
              string_at event ''author_kind'' \<noteq> author_kind_wire AuthorKindSystem
      then Some (BadField ''author_kind'')
      else with_payload event (\<lambda>payload.
        if string_at payload ''text'' = [] then Some (Missing ''payload.text'')
        else (case as_map (mget payload ''display'') of
                None \<Rightarrow> Some (Missing ''payload.display'')
              | Some display \<Rightarrow>
                  if string_at display ''kind'' = ''plain''
                  then validateUserMessageAttachments (mget payload ''attachments'')
                  else if string_at display ''kind'' = ''skill_invocation''
                  then (if \<not> skillNamePattern (string_at display ''skill_name'')
                        then Some (Missing ''payload.display.skill_name'')
                        else if mget display ''supplemental_text'' \<noteq> None \<and>
                                as_string (mget display ''supplemental_text'') = None
                        then Some (BadField ''payload.display.supplemental_text'')
                        else validateUserMessageAttachments (mget payload ''attachments''))
                  else Some (BadField ''payload.display.kind''))))"

definition validateAssistantMessageCreated :: "gomap \<Rightarrow> verdict" where
  "validateAssistantMessageCreated event =
     and_then (requireFields event [''turn_id'', ''timeline_id''])
     (if string_at event ''actor'' \<noteq> actor_wire ActorAssistant
      then Some (WrongRole ''assistant_message.created'')
      else with_payload event (\<lambda>payload.
        if string_at payload ''text'' = [] then Some (Missing ''payload.text'')
        else (case as_map (mget payload ''display'') of
                None \<Rightarrow> Some (Missing ''payload.display'')
              | Some display \<Rightarrow>
                  if string_at display ''kind'' \<notin> {''plain'', ''ask_user_question''}
                  then Some (BadField ''payload.display.kind'')
                  else (case mget payload ''awaiting_input'' of
                          None \<Rightarrow> None
                        | Some raw \<Rightarrow>
                            (case as_map (Some raw) of
                               None \<Rightarrow> Some (BadField ''payload.awaiting_input'')
                             | Some awaiting \<Rightarrow>
                                 (case awaitingInputQuestions awaiting of
                                    Inl e \<Rightarrow> Some (Within ''payload.awaiting_input'' e)
                                  | Inr _ \<Rightarrow> None))))))"

section \<open>The validator\<close>

definition actor_is :: "gomap \<Rightarrow> Actor \<Rightarrow> bool" where
  "actor_is event a \<longleftrightarrow> string_at event ''actor'' = actor_wire a"

definition source_is :: "gomap \<Rightarrow> Source \<Rightarrow> bool" where
  "source_is event s \<longleftrightarrow> string_at event ''source'' = source_wire s"

text \<open>The switch over the event type at the end of \<^verbatim>\<open>validateEventMap\<close>.\<close>

fun validate_by_type :: "EventType \<Rightarrow> gomap \<Rightarrow> verdict" where
  "validate_by_type EventUserMessageCreated event = validateUserMessageCreated event"
| "validate_by_type EventAssistantMessageCreated event = validateAssistantMessageCreated event"
| "validate_by_type EventTurnSubmitted event =
     and_then (requireFields event [''turn_id'', ''client_nonce''])
     (if \<not> actor_is event ActorRunner \<or> \<not> source_is event SourceTank then Some (WrongRole ''turn.submitted'')
      else validateTurnSubmittedPayload event)"
| "validate_by_type EventTurnUsage event =
     and_then (requireFields event [''turn_id''])
     (if \<not> actor_is event ActorRunner then Some (WrongRole (event_type_of event))
      else validateTurnUsagePayload event)"
| "validate_by_type EventTurnCompleted event =
     and_then (requireFields event [''turn_id''])
     (if \<not> actor_is event ActorRunner then Some (WrongRole (event_type_of event))
      else validateTurnCompletedPayload event)"
| "validate_by_type EventTurnCommandFailed event =
     and_then (requireFields event [''turn_id''])
     (if \<not> actor_is event ActorSystem \<or> \<not> source_is event SourceTank
      then Some (WrongRole ''turn.command_failed'')
      else requirePayloadString event ''reason'')"
| "validate_by_type EventTurnInterruptRequested event =
     and_then (requireFields event [''turn_id''])
     (if \<not> actor_is event ActorSystem \<or> \<not> source_is event SourceTank
      then Some (WrongRole ''turn.interrupt_requested'')
      else None)"
| "validate_by_type EventTurnInputAnswered event =
     and_then (requireFields event [''turn_id'', ''timeline_id'', ''client_nonce''])
     (if \<not> actor_is event ActorUser \<or> \<not> source_is event SourceTank
      then Some (WrongRole ''turn.input_answered'')
      else validateTurnInputAnsweredPayload event)"
| "validate_by_type EventContextCompacted event =
     and_then (requireFields event [''turn_id''])
     (if \<not> actor_is event ActorRunner then Some (WrongRole (event_type_of event))
      else validateContextCompactedPayload event)"
| "validate_by_type EventSessionStatus event =
     and_then (requireFields event [''timeline_id''])
     (if \<not> actor_is event ActorSystem \<or> \<not> source_is event SourceTank
      then Some (WrongRole ''session.status'')
      else validateSessionStatusPayload event)"
| "validate_by_type EventScheduledWakeupUpdated event =
     and_then (requireFields event [''timeline_id'', ''client_nonce''])
     (if \<not> actor_is event ActorSystem \<or> \<not> source_is event SourceTank
      then Some (WrongRole ''scheduled_wakeup.updated'')
      else validateScheduledWakeupPayload event)"
| "validate_by_type EventCIStatusUpdated event =
     and_then (requireFields event [''timeline_id'', ''client_nonce''])
     (if \<not> actor_is event ActorSystem \<or> \<not> source_is event SourceTank
      then Some (WrongRole ''ci_status.updated'')
      else validateCIStatusPayload event)"
| "validate_by_type EventTestProvisionUpdated event =
     and_then (requireFields event [''timeline_id'', ''client_nonce''])
     (if \<not> actor_is event ActorSystem \<or> \<not> source_is event SourceTank
      then Some (WrongRole ''test_provision.updated'')
      else validateTestProvisionPayload event)"
| "validate_by_type EventTurnAwaitingInput event =
     and_then (requireFields event [''turn_id''])
     (if \<not> actor_is event ActorRunner then Some (WrongRole (event_type_of event))
      else validateAwaitingInputPayload event)"
| "validate_by_type EventTurnAwaitingInputInvocation event =
     and_then (requireFields event [''turn_id'', ''timeline_id''])
     (if \<not> actor_is event ActorRunner then Some (WrongRole (event_type_of event))
      else validateAwaitingInputPayload event)"
| "validate_by_type ty event =
     (if ty \<in> {EventTurnClaimed, EventTurnStarted, EventTurnFailed, EventTurnInterrupted}
      then and_then (requireFields event [''turn_id''])
             (if \<not> actor_is event ActorRunner then Some (WrongRole (event_type_of event)) else None)
      else if ty \<in> {EventItemStarted, EventItemCompleted, EventItemFailed}
      then and_then (requireFields event [''turn_id'', ''timeline_id''])
             (and_then (requirePayloadString event ''kind'') (validateItemOutcome event))
      else and_then (requireFields event [''turn_id'', ''timeline_id'', ''task_id''])
             (if \<not> actor_is event ActorTool then Some (WrongRole (event_type_of event))
              else validateShellTaskPayload event))"

definition envelope_fields :: "string list" where
  "envelope_fields =
     [''event_id'', ''session_id'', ''actor'', ''source'', ''type'', ''created_at'', ''visibility'']"

fun validateEventMap :: "gomap option \<Rightarrow> verdict" where
  "validateEventMap None = Some EventRequired"
| "validateEventMap (Some event) =
     and_then (map_option Missing (find (\<lambda>f. string_at event f = []) envelope_fields))
     (if string_at event ''order_key'' = [] then Some (Missing ''order_key'')
      else if ParseRFC3339 (string_at event ''created_at'') = None then Some BadCreatedAt
      else if \<not> validEventType (event_type_of event)
      then Some (UnknownValue ''event type'' (event_type_of event))
      else if \<not> validActor (string_at event ''actor'')
      then Some (UnknownValue ''actor'' (string_at event ''actor''))
      else if \<not> validSource (string_at event ''source'')
      then Some (UnknownValue ''source'' (string_at event ''source''))
      else if \<not> validVisibility (string_at event ''visibility'')
      then Some (UnknownValue ''visibility'' (string_at event ''visibility''))
      else (case parse_event_type (event_type_of event) of
              Some ty \<Rightarrow> validate_by_type ty event
            | None \<Rightarrow> None))"

definition ValidateEventMap :: "gomap option \<Rightarrow> schema_error option" where
  "ValidateEventMap event = map_option SchemaError (validateEventMap event)"

section \<open>The contract of the envelope\<close>

text \<open>
  What a stored event promises its readers, stated by field and by type rather than as a
  sequence of checks: the fields a type requires, who may author it, and the shape of its
  payload.
\<close>

definition object_with :: "(gomap \<Rightarrow> bool) \<Rightarrow> goany option \<Rightarrow> bool" where
  "object_with P v = (case as_map v of None \<Rightarrow> False | Some m \<Rightarrow> P m)"

definition optional_with :: "(goany \<Rightarrow> bool) \<Rightarrow> goany option \<Rightarrow> bool" where
  "optional_with P v = (case v of None \<Rightarrow> True | Some x \<Rightarrow> P x)"

definition has :: "gomap \<Rightarrow> string \<Rightarrow> bool" where
  "has m k \<longleftrightarrow> string_at m k \<noteq> []"

definition non_negative :: "goany \<Rightarrow> bool" where
  "non_negative v \<longleftrightarrow> (\<exists>n. numericField v = Some n \<and> 0 \<le> n)"

definition string_array_ok :: "goany \<Rightarrow> bool" where
  "string_array_ok v \<longleftrightarrow> (\<exists>ss. string_items v = Some ss \<and> ss \<noteq> [] \<and> [] \<notin> set ss)"

definition non_blank :: "goany \<Rightarrow> bool" where
  "non_blank v \<longleftrightarrow> (\<exists>t. v = GStr t \<and> TrimSpace t \<noteq> [])"

definition attachment_ok :: "gomap \<Rightarrow> bool" where
  "attachment_ok a \<longleftrightarrow>
     has a ''label'' \<and> has a ''name'' \<and> string_at a ''kind'' \<in> {''image'', ''file''} \<and>
     optional_with non_blank (mget a ''path'') \<and> optional_with non_blank (mget a ''absPath'') \<and>
     optional_with non_negative (mget a ''size'')"

definition attachments_ok :: "goany option \<Rightarrow> bool" where
  "attachments_ok v \<longleftrightarrow>
     v \<in> {None, Some GNil} \<or>
     (\<exists>as. (v = Some (GMaps as) \<or> v = Some (GAnys (map GMap as))) \<and>
           length as \<le> 32 \<and> (\<forall>a\<in>set as. attachment_ok a))"

text \<open>A question array is a non-empty array, in either of its two Go representations.\<close>

definition questions_present :: "gomap \<Rightarrow> bool" where
  "questions_present p \<longleftrightarrow>
     (\<exists>qs. qs \<noteq> [] \<and> mget p ''questions'' = Some (GAnys qs)) \<or>
     (\<exists>qs. qs \<noteq> [] \<and> mget p ''questions'' = Some (GMaps qs))"

definition questions_ok :: "gomap \<Rightarrow> bool" where
  "questions_ok p \<longleftrightarrow>
     (\<exists>qs. qs \<noteq> [] \<and> (\<forall>q\<in>set qs. has q ''question'') \<and>
           (mget p ''questions'' = Some (GMaps qs) \<or> mget p ''questions'' = Some (GAnys (map GMap qs))))"

text \<open>A failed status is bare, or says what broke and why it broke or what to do about it.\<close>

definition failed_status_ok :: "gomap \<Rightarrow> bool" where
  "failed_status_ok p \<longleftrightarrow>
     (\<not> has p ''failure_scope'' \<and> \<not> has p ''failure_subject'' \<and> \<not> has p ''failure_reason'' \<and>
      mget p ''action'' = None) \<or>
     (string_at p ''failure_scope'' \<in> {''provider'', ''session'', ''pod''} \<and>
      has p ''failure_subject'' \<and>
      (has p ''failure_reason'' \<or> mget p ''action'' \<noteq> None) \<and>
      optional_with (\<lambda>a. object_with (\<lambda>m. has m ''label'' \<and> has m ''href'') (Some a)) (mget p ''action''))"

definition outcome_ok :: "gomap \<Rightarrow> bool" where
  "outcome_ok m \<longleftrightarrow>
     (string_at m ''kind'', string_at m ''reason'') \<in>
       {(''ok'', ''''),
        (''result_failed'', ''claude_tool_result_is_error''),
        (''result_failed'', ''codex_item_status_failed''),
        (''result_failed'', ''exit_code''),
        (''execution_failed'', ''provider_item_error'')}"

definition display_ok :: "gomap \<Rightarrow> bool" where
  "display_ok d \<longleftrightarrow>
     string_at d ''kind'' = ''plain'' \<or>
     string_at d ''kind'' = ''skill_invocation'' \<and> skillNamePattern (string_at d ''skill_name'') \<and>
     optional_with (\<lambda>v. as_string (Some v) \<noteq> None) (mget d ''supplemental_text'')"

definition user_message_payload_ok :: "gomap \<Rightarrow> bool" where
  "user_message_payload_ok p \<longleftrightarrow>
     has p ''text'' \<and> attachments_ok (mget p ''attachments'') \<and> object_with display_ok (mget p ''display'')"

definition assistant_message_payload_ok :: "gomap \<Rightarrow> bool" where
  "assistant_message_payload_ok p \<longleftrightarrow>
     has p ''text'' \<and>
     object_with (\<lambda>d. string_at d ''kind'' \<in> {''plain'', ''ask_user_question''}) (mget p ''display'') \<and>
     optional_with (\<lambda>v. object_with questions_present (Some v)) (mget p ''awaiting_input'')"

definition final_answer_ok :: "gomap \<Rightarrow> bool" where
  "final_answer_ok f \<longleftrightarrow>
     (\<exists>v. mget f ''timeline_ids'' = Some v \<and> string_array_ok v) \<and>
     optional_with string_array_ok (mget f ''provider_item_ids'')"

fun payload_ok :: "EventType \<Rightarrow> goany option \<Rightarrow> bool" where
  "payload_ok EventUserMessageCreated v = object_with user_message_payload_ok v"
| "payload_ok EventAssistantMessageCreated v = object_with assistant_message_payload_ok v"
| "payload_ok EventTurnSubmitted v =
     object_with (\<lambda>p. has p ''status'' \<and>
       (has p ''source'' \<longrightarrow> validTurnSubmittedSource (string_at p ''source''))) v"
| "payload_ok EventTurnUsage v = object_with (\<lambda>p. object_with (\<lambda>_. True) (mget p ''usage'')) v"
| "payload_ok EventTurnCompleted v =
     optional_with (\<lambda>x. object_with (\<lambda>p. optional_with (\<lambda>y. object_with final_answer_ok (Some y))
       (mget p ''final_answer'')) (Some x)) v"
| "payload_ok EventTurnCommandFailed v = object_with (\<lambda>p. has p ''reason'') v"
| "payload_ok EventTurnInputAnswered v =
     object_with (\<lambda>p. has p ''question_timeline_id'' \<and> has p ''provider_item_id'' \<and>
       object_with (\<lambda>m. m \<noteq> []) (mget p ''answers'')) v"
| "payload_ok EventContextCompacted v =
     object_with (\<lambda>p. string_at p ''trigger'' \<in> {''auto'', ''manual''} \<and>
       optional_with non_negative (mget p ''pre_tokens'')) v"
| "payload_ok EventSessionStatus v =
     object_with (\<lambda>p. string_at p ''status'' \<in> {''loading'', ''ready'', ''failed''} \<and> has p ''text'' \<and>
       (string_at p ''status'' = ''failed'' \<longrightarrow> failed_status_ok p)) v"
| "payload_ok EventScheduledWakeupUpdated v =
     object_with (\<lambda>p. string_at p ''kind'' = ''scheduled_wakeup'' \<and> has p ''wakeup_id'' \<and> has p ''due_at'' \<and>
       string_at p ''status'' \<in> {''scheduled'', ''claiming'', ''fired'', ''failed'', ''cancelled''}) v"
| "payload_ok EventCIStatusUpdated v =
     object_with (\<lambda>p. string_at p ''kind'' = ''ci_status'' \<and> has p ''pr_url'' \<and>
       string_at p ''state'' \<in> {''merged'', ''ready'', ''failed'', ''conflict''}) v"
| "payload_ok EventTestProvisionUpdated v =
     object_with (\<lambda>p. string_at p ''kind'' = ''test_provision'' \<and> has p ''text'' \<and>
       string_at p ''phase'' \<in> {''creating'', ''validating'', ''waiting'', ''ready'', ''error''}) v"
| "payload_ok EventTurnAwaitingInput v = object_with questions_ok v"
| "payload_ok EventTurnAwaitingInputInvocation v = object_with questions_ok v"
| "payload_ok ty v =
     (if ty \<in> {EventItemStarted, EventItemCompleted, EventItemFailed}
      then object_with (\<lambda>p. has p ''kind'' \<and>
        optional_with (\<lambda>x. object_with outcome_ok (Some x)) (mget p ''outcome'')) v
      else if ty \<in> {EventShellTaskStarted, EventShellTaskUpdated, EventShellTaskExited}
      then object_with (\<lambda>p. string_at p ''kind'' = ''shell_task'' \<and> has p ''task_id'' \<and> has p ''status'') v
      else True)"

fun required_fields :: "EventType \<Rightarrow> string list" where
  "required_fields EventUserMessageCreated = [''turn_id'', ''timeline_id'', ''client_nonce'']"
| "required_fields EventTurnInputAnswered = [''turn_id'', ''timeline_id'', ''client_nonce'']"
| "required_fields EventTurnSubmitted = [''turn_id'', ''client_nonce'']"
| "required_fields EventSessionStatus = [''timeline_id'']"
| "required_fields ty =
     (if ty \<in> {EventScheduledWakeupUpdated, EventCIStatusUpdated, EventTestProvisionUpdated}
      then [''timeline_id'', ''client_nonce'']
      else if ty \<in> {EventAssistantMessageCreated, EventItemStarted, EventItemCompleted, EventItemFailed,
                    EventTurnAwaitingInputInvocation}
      then [''turn_id'', ''timeline_id'']
      else if ty \<in> {EventShellTaskStarted, EventShellTaskUpdated, EventShellTaskExited}
      then [''turn_id'', ''timeline_id'', ''task_id'']
      else [''turn_id''])"

definition required_actor :: "EventType \<Rightarrow> Actor option" where
  "required_actor ty =
     (if ty \<in> {EventUserMessageCreated, EventTurnInputAnswered} then Some ActorUser
      else if ty = EventAssistantMessageCreated then Some ActorAssistant
      else if ty \<in> {EventTurnCommandFailed, EventTurnInterruptRequested, EventSessionStatus,
                    EventScheduledWakeupUpdated, EventCIStatusUpdated, EventTestProvisionUpdated}
      then Some ActorSystem
      else if ty \<in> {EventShellTaskStarted, EventShellTaskUpdated, EventShellTaskExited} then Some ActorTool
      else if ty \<in> {EventItemStarted, EventItemCompleted, EventItemFailed} then None
      else Some ActorRunner)"

text \<open>The types only the control plane itself may write.\<close>

definition tank_sourced :: "EventType \<Rightarrow> bool" where
  "tank_sourced ty \<longleftrightarrow>
     ty \<in> {EventUserMessageCreated, EventTurnInputAnswered, EventTurnSubmitted, EventTurnCommandFailed,
           EventTurnInterruptRequested, EventSessionStatus, EventScheduledWakeupUpdated,
           EventCIStatusUpdated, EventTestProvisionUpdated}"

definition role_ok :: "EventType \<Rightarrow> gomap \<Rightarrow> bool" where
  "role_ok ty event \<longleftrightarrow>
     (case required_actor ty of None \<Rightarrow> True | Some a \<Rightarrow> actor_is event a) \<and>
     (tank_sourced ty \<longrightarrow> source_is event SourceTank) \<and>
     (ty = EventUserMessageCreated \<longrightarrow> string_at event ''author_kind'' \<in> {[], author_kind_wire AuthorKindSystem})"

definition typed_event_ok :: "EventType \<Rightarrow> gomap \<Rightarrow> bool" where
  "typed_event_ok ty event \<longleftrightarrow>
     (\<forall>f\<in>set (required_fields ty). has event f) \<and> role_ok ty event \<and> payload_ok ty (mget event ''payload'')"

definition envelope_ok :: "gomap \<Rightarrow> bool" where
  "envelope_ok event \<longleftrightarrow>
     (\<forall>f\<in>set (''order_key'' # envelope_fields). has event f) \<and>
     ParseRFC3339 (string_at event ''created_at'') \<noteq> None \<and>
     validActor (string_at event ''actor'') \<and> validSource (string_at event ''source'') \<and>
     string_at event ''visibility'' = ''durable''"

definition well_formed_event :: "gomap \<Rightarrow> bool" where
  "well_formed_event event \<longleftrightarrow>
     envelope_ok event \<and>
     (\<exists>ty. event_type_of event = event_wire ty \<and> typed_event_ok ty event)"

section \<open>The validator enforces the contract\<close>

lemma all_event_types_complete: "ty \<in> set all_event_types"
  by (cases ty) (simp_all add: all_event_types_def)

lemma distinct_event_wires: "distinct (map event_wire all_event_types)"
  by (simp add: all_event_types_def)

lemma event_wire_inject [simp]: "event_wire a = event_wire b \<longleftrightarrow> a = b"
  using distinct_event_wires all_event_types_complete
  by (metis distinct_map inj_on_eq_iff)

lemma event_wire_nonempty [simp]: "event_wire ty \<noteq> []"
  by (cases ty) simp_all

lemma parse_event_wire [simp]: "parse_event_type (event_wire ty) = Some ty"
proof -
  have "find (\<lambda>t. t = ty) ts = Some ty" if "ty \<in> set ts" for ts
    using that by (induction ts) auto
  then show ?thesis by (simp add: parse_event_type_def all_event_types_complete)
qed

lemma parse_event_type_Some: "parse_event_type s = Some ty \<longleftrightarrow> s = event_wire ty"
  by (metis (mono_tags, lifting) find_Some_iff parse_event_type_def parse_event_wire)

lemma validEventType_iff: "validEventType s \<longleftrightarrow> (\<exists>ty. s = event_wire ty)"
  using all_event_types_complete by (auto simp: validEventType_def)

lemma and_then_None [simp]: "and_then a b = None \<longleftrightarrow> a = None \<and> b = None"
  by (simp add: and_then_def split: option.splits)

lemma with_payload_None:
  "with_payload event k = None \<longleftrightarrow> object_with (\<lambda>p. k p = None) (mget event ''payload'')"
  by (auto simp: with_payload_def requirePayload_def object_with_def split: option.splits)

lemma requireFields_None: "requireFields event fs = None \<longleftrightarrow> (\<forall>f\<in>set fs. has event f)"
  by (auto simp: requireFields_def find_None_iff has_def)

lemma object_with_cong: "(\<And>p. P p = Q p) \<Longrightarrow> object_with P v = object_with Q v"
  by (simp add: object_with_def split: option.splits)

named_theorems contract "one equivalence per validator"

lemmas payload_shape = object_with_def optional_with_def has_def

lemma numeric_check:
  "(case mget p k of None \<Rightarrow> None
    | Some raw \<Rightarrow> (case numericField raw of None \<Rightarrow> Some e | Some n \<Rightarrow> if n < 0 then Some e else None)) = None
   \<longleftrightarrow> optional_with non_negative (mget p k)"
  by (auto simp: optional_with_def non_negative_def split: option.splits)

lemma optional_path_iff: "optional_path_ok item k \<longleftrightarrow> optional_with non_blank (mget item k)"
  by (auto simp: optional_path_ok_def optional_with_def non_blank_def as_string_cases split: option.splits)

lemma attachment_check_iff: "attachment_check a = None \<longleftrightarrow> attachment_ok a"
  by (simp add: attachment_check_def attachment_ok_def numeric_check optional_path_iff has_def)

lemma first_bad_None: "first_bad f xs = None \<longleftrightarrow> (\<forall>x\<in>set xs. f x = None)"
  by (induction xs) simp_all

lemma as_map_items:
  "list_all (\<lambda>v. as_map (Some v) \<noteq> None) vs \<longleftrightarrow> (\<exists>ms. vs = map GMap ms)"
proof
  assume "list_all (\<lambda>v. as_map (Some v) \<noteq> None) vs"
  then have "vs = map GMap (map (\<lambda>v. the (as_map (Some v))) vs)"
    by (induction vs) (auto simp: as_map_cases)
  then show "\<exists>ms. vs = map GMap ms" by blast
qed (auto simp: list_all_iff)

lemma attachments_iff [contract]: "validateUserMessageAttachments v = None \<longleftrightarrow> attachments_ok v"
proof (cases v)
  case (Some w)
  show ?thesis
  proof (cases w)
    case (GAnys vs)
    show ?thesis
    proof (cases "\<exists>ms. vs = map GMap ms")
      case True
      then obtain ms where "vs = map GMap ms" by blast
      then show ?thesis
        using Some GAnys
        by (auto simp: validateUserMessageAttachments_def attachments_ok_def attachment_items_def
              list_all_length comp_def first_bad_None attachment_check_iff inj_on_def
              dest!: map_injective)
    next
      case False
      then show ?thesis
        using Some GAnys as_map_items [of vs]
        by (auto simp: validateUserMessageAttachments_def attachments_ok_def attachment_items_def)
    qed
  qed (use Some in \<open>auto simp: validateUserMessageAttachments_def attachments_ok_def
        attachment_items_def first_bad_None attachment_check_iff\<close>)
qed (simp add: validateUserMessageAttachments_def attachments_ok_def)

lemma question_check_None:
  "question_check ty vs = None \<longleftrightarrow> (\<exists>qs. vs = map GMap qs \<and> (\<forall>q\<in>set qs. has q ''question''))"
proof (induction vs)
  case (Cons v vs)
  show ?case
  proof (cases "as_map (Some v)")
    case None
    then show ?thesis by (auto simp: Cons_eq_map_conv)
  next
    case (Some m)
    then have "v = GMap m" by (simp add: as_map_cases)
    then have "(\<exists>qs. v # vs = map GMap qs \<and> (\<forall>q\<in>set qs. has q ''question'')) \<longleftrightarrow>
      has m ''question'' \<and> (\<exists>qs. vs = map GMap qs \<and> (\<forall>q\<in>set qs. has q ''question''))"
      by (simp add: Cons_eq_map_conv) (rule iffI; force)
    then show ?thesis using Cons Some by (simp add: has_def)
  qed
qed simp

lemma awaitingInputQuestions_Inr:
  "awaitingInputQuestions p = Inr vs \<longleftrightarrow>
     vs \<noteq> [] \<and> (mget p ''questions'' = Some (GAnys vs) \<or>
                (\<exists>qs. mget p ''questions'' = Some (GMaps qs) \<and> vs = map GMap qs))"
proof (cases "mget p ''questions''")
  case (Some v)
  then show ?thesis
  proof (cases v)
    case (GAnys us)
    then show ?thesis using Some by (cases us) (auto simp: awaitingInputQuestions_def)
  next
    case (GMaps ms)
    then show ?thesis using Some by (cases ms) (auto simp: awaitingInputQuestions_def)
  qed (simp_all add: awaitingInputQuestions_def)
qed (simp add: awaitingInputQuestions_def)

lemma awaitingInputQuestions_present:
  "(\<exists>vs. awaitingInputQuestions p = Inr vs) \<longleftrightarrow> questions_present p"
  by (auto simp: awaitingInputQuestions_Inr questions_present_def)

lemma sum_case_None:
  "(case x of Inl e \<Rightarrow> Some (f e) | Inr v \<Rightarrow> k v) = None \<longleftrightarrow> (\<exists>v. x = Inr v \<and> k v = None)"
  by (cases x) auto

lemma questions_iff:
  "(\<exists>vs. awaitingInputQuestions p = Inr vs \<and> question_check ty vs = None) \<longleftrightarrow> questions_ok p"
  by (auto simp: awaitingInputQuestions_Inr question_check_None questions_ok_def inj_on_def
      dest!: map_injective)

lemma awaiting_input_iff [contract]:
  "validateAwaitingInputPayload event = None \<longleftrightarrow> object_with questions_ok (mget event ''payload'')"
  by (simp add: validateAwaitingInputPayload_def with_payload_None sum_case_None questions_iff)

lemma string_array_iff:
  "requireNonEmptyStringArray m k = None \<longleftrightarrow> (\<exists>v. mget m k = Some v \<and> string_array_ok v)"
  by (auto simp: requireNonEmptyStringArray_def string_array_ok_def split: option.splits)

lemma turn_submitted_iff [contract]:
  "validateTurnSubmittedPayload event = None \<longleftrightarrow> payload_ok EventTurnSubmitted (mget event ''payload'')"
  by (auto simp: validateTurnSubmittedPayload_def with_payload_None has_def intro!: object_with_cong)

lemma context_compacted_iff [contract]:
  "validateContextCompactedPayload event = None \<longleftrightarrow> payload_ok EventContextCompacted (mget event ''payload'')"
  by (auto simp: validateContextCompactedPayload_def with_payload_None numeric_check intro!: object_with_cong)

lemma failed_extension_iff [contract]:
  "validateSessionStatusFailedExtension event p = None \<longleftrightarrow> failed_status_ok p"
  by (auto simp: validateSessionStatusFailedExtension_def failed_status_ok_def Let_def payload_shape
      split: option.splits)

lemma session_status_iff [contract]:
  "validateSessionStatusPayload event = None \<longleftrightarrow> payload_ok EventSessionStatus (mget event ''payload'')"
  by (auto simp: validateSessionStatusPayload_def with_payload_None failed_extension_iff Let_def has_def
      intro!: object_with_cong)

lemma turn_completed_iff [contract]:
  "validateTurnCompletedPayload event = None \<longleftrightarrow> payload_ok EventTurnCompleted (mget event ''payload'')"
  by (auto simp: validateTurnCompletedPayload_def payload_shape final_answer_ok_def string_array_iff
      split: option.splits)

lemma turn_usage_iff [contract]:
  "validateTurnUsagePayload event = None \<longleftrightarrow> payload_ok EventTurnUsage (mget event ''payload'')"
  by (auto simp: validateTurnUsagePayload_def with_payload_None payload_shape split: option.splits)

lemma item_outcome_iff [contract]:
  "validateItemOutcome event = None \<longleftrightarrow>
     object_with (\<lambda>p. optional_with (\<lambda>x. object_with outcome_ok (Some x)) (mget p ''outcome''))
       (mget event ''payload'')"
  unfolding validateItemOutcome_def with_payload_None
  by (rule object_with_cong)
     (auto simp: payload_shape outcome_ok_def Let_def split: option.splits)

lemma requirePayloadString_iff [contract]:
  "requirePayloadString event k = None \<longleftrightarrow> object_with (\<lambda>p. has p k) (mget event ''payload'')"
  by (simp add: requirePayloadString_def with_payload_None has_def)

lemma shell_task_iff [contract]:
  "validateShellTaskPayload event = None \<longleftrightarrow> payload_ok EventShellTaskStarted (mget event ''payload'')"
  by (auto simp: validateShellTaskPayload_def with_payload_None has_def intro!: object_with_cong)

lemma scheduled_wakeup_iff [contract]:
  "validateScheduledWakeupPayload event = None \<longleftrightarrow>
     payload_ok EventScheduledWakeupUpdated (mget event ''payload'')"
  by (auto simp: validateScheduledWakeupPayload_def with_payload_None has_def intro!: object_with_cong)

lemma ci_status_iff [contract]:
  "validateCIStatusPayload event = None \<longleftrightarrow> payload_ok EventCIStatusUpdated (mget event ''payload'')"
  by (auto simp: validateCIStatusPayload_def with_payload_None has_def intro!: object_with_cong)

lemma test_provision_iff [contract]:
  "validateTestProvisionPayload event = None \<longleftrightarrow>
     payload_ok EventTestProvisionUpdated (mget event ''payload'')"
  by (auto simp: validateTestProvisionPayload_def with_payload_None has_def intro!: object_with_cong)

lemma input_answered_iff [contract]:
  "validateTurnInputAnsweredPayload event = None \<longleftrightarrow>
     payload_ok EventTurnInputAnswered (mget event ''payload'')"
  by (auto simp: validateTurnInputAnsweredPayload_def with_payload_None payload_shape
      split: option.splits list.splits intro!: object_with_cong)

lemma user_message_payload_iff:
  "(if string_at p ''text'' = [] then Some a
    else (case as_map (mget p ''display'') of
            None \<Rightarrow> Some b
          | Some d \<Rightarrow>
              if string_at d ''kind'' = ''plain'' then validateUserMessageAttachments (mget p ''attachments'')
              else if string_at d ''kind'' = ''skill_invocation''
              then (if \<not> skillNamePattern (string_at d ''skill_name'') then Some c
                    else if mget d ''supplemental_text'' \<noteq> None \<and>
                            as_string (mget d ''supplemental_text'') = None
                    then Some e
                    else validateUserMessageAttachments (mget p ''attachments''))
              else Some f)) = None \<longleftrightarrow> user_message_payload_ok p"
  by (auto simp: user_message_payload_ok_def display_ok_def attachments_iff payload_shape split: option.splits)

lemma user_message_iff [contract]:
  "validateUserMessageCreated event = None \<longleftrightarrow> typed_event_ok EventUserMessageCreated event"
  by (auto simp: validateUserMessageCreated_def typed_event_ok_def requireFields_None with_payload_None
      user_message_payload_iff role_ok_def required_actor_def tank_sourced_def actor_is_def source_is_def)

lemma assistant_message_payload_iff:
  "(if string_at p ''text'' = [] then Some a
    else (case as_map (mget p ''display'') of
            None \<Rightarrow> Some b
          | Some d \<Rightarrow>
              if string_at d ''kind'' \<notin> {''plain'', ''ask_user_question''} then Some c
              else (case mget p ''awaiting_input'' of
                      None \<Rightarrow> None
                    | Some raw \<Rightarrow>
                        (case as_map (Some raw) of
                           None \<Rightarrow> Some e
                         | Some awaiting \<Rightarrow>
                             (case awaitingInputQuestions awaiting of
                                Inl x \<Rightarrow> Some (f x)
                              | Inr _ \<Rightarrow> None))))) = None \<longleftrightarrow>
   assistant_message_payload_ok p"
  by (auto simp: assistant_message_payload_ok_def sum_case_None awaitingInputQuestions_present
      payload_shape split: option.splits)

lemma assistant_message_iff [contract]:
  "validateAssistantMessageCreated event = None \<longleftrightarrow> typed_event_ok EventAssistantMessageCreated event"
  unfolding validateAssistantMessageCreated_def and_then_None requireFields_None
  by (simp add: typed_event_ok_def with_payload_None assistant_message_payload_iff [simplified]
      role_ok_def required_actor_def tank_sourced_def actor_is_def)

lemmas role_defs = role_ok_def required_actor_def tank_sourced_def

lemma object_with_conj:
  "object_with (\<lambda>p. P p \<and> Q p) v \<longleftrightarrow> object_with P v \<and> object_with Q v"
  by (auto simp: object_with_def split: option.splits)

lemma validate_by_type_iff: "validate_by_type ty event = None \<longleftrightarrow> typed_event_ok ty event"
  by (cases ty) (auto simp: typed_event_ok_def role_defs requireFields_None object_with_conj contract)

lemma ValidateEventMap_iff: "ValidateEventMap (Some event) = None \<longleftrightarrow> well_formed_event event"
  by (auto simp: ValidateEventMap_def well_formed_event_def envelope_ok_def has_def find_None_iff
      validVisibility_def validEventType_iff validate_by_type_iff parse_event_type_Some
      split: option.splits)

text \<open>
  C1: the validator accepts an event document exactly when the document is well formed: the
  envelope fields are present and valid, the type is a known one, and the fields, the author and
  the payload its type requires are as the contract says.
\<close>

theorem ValidateEventMap_contract: "ValidateEventMap (Some event) = None \<longleftrightarrow> well_formed_event event"
  by (rule ValidateEventMap_iff)

end
