(* ===== verification/Go_SHA256.thy ===== *)
theory Go_SHA256
  imports Go_Prelude "HOL-Library.Word"
begin

text \<open>
  \<^verbatim>\<open>crypto/sha256.Sum256\<close> and \<^verbatim>\<open>encoding/hex.EncodeToString\<close> as the sources use them: the hexadecimal
  SHA-256 digest of a string, computed on 32-bit words (FIPS 180-4).
\<close>

unbundle bit_operations_syntax

type_synonym w32 = "32 word"

text \<open>
  The constants are the leading 32 bits of the fractional parts of roots of the first primes: square
  roots for the initial state, cube roots for the round constants. \<open>root_floor k n\<close> is the integer
  \<open>k\<close>-th root of \<open>n\<close>, built bit by bit.
\<close>

definition sha_primes :: "int list" where
  "sha_primes = filter (\<lambda>n. list_all (\<lambda>d. n mod d \<noteq> 0) (filter (\<lambda>d. d < n) [2, 3, 5, 7, 11, 13, 17])) [2..311]"

definition root_floor :: "nat \<Rightarrow> int \<Rightarrow> int" where
  "root_floor k n = foldl (\<lambda>r b. if (r + 2 ^ b) ^ k \<le> n then r + 2 ^ b else r) 0 (rev [0..<40])"

definition sha_init :: "w32 list" where
  "sha_init = map (\<lambda>p. word_of_int (root_floor 2 (p * 2 ^ 64))) (take 8 sha_primes)"

definition sha_k :: "w32 list" where
  "sha_k = map (\<lambda>p. word_of_int (root_floor 3 (p * 2 ^ 96))) sha_primes"

text \<open>Padding to a multiple of 64 bytes, ending in the bit length as a 64-bit big-endian integer.\<close>

definition sha_pad :: "string \<Rightarrow> nat list" where
  "sha_pad s =
     (let n = length s;
          zeros = (119 - n mod 64) mod 64;
          bits = 8 * int n
      in map byte_of s @ [128] @ replicate zeros 0 @
         map (\<lambda>i. nat (bits div 256 ^ (7 - i) mod 256)) [0..<8])"

definition be_word :: "nat list \<Rightarrow> w32" where
  "be_word bs = foldl (\<lambda>w b. push_bit 8 w OR of_nat b) 0 bs"

function chunks :: "nat \<Rightarrow> 'a list \<Rightarrow> 'a list list" where
  "chunks n xs = (if n = 0 \<or> xs = [] then [] else take n xs # chunks n (drop n xs))"
  by pat_completeness auto
termination
  by (relation "measure (\<lambda>(n, xs). length xs)") auto

declare chunks.simps [simp del]

text \<open>The message schedule, newest word first.\<close>

fun schedule :: "nat \<Rightarrow> w32 list \<Rightarrow> w32 list" where
  "schedule 0 ws = ws"
| "schedule (Suc n) ws =
     (let w2 = ws ! 1; w15 = ws ! 14;
          s0 = word_rotr 7 w15 XOR word_rotr 18 w15 XOR drop_bit 3 w15;
          s1 = word_rotr 17 w2 XOR word_rotr 19 w2 XOR drop_bit 10 w2
      in schedule n ((ws ! 15 + s0 + ws ! 6 + s1) # ws))"

type_synonym sha_state = "w32 \<times> w32 \<times> w32 \<times> w32 \<times> w32 \<times> w32 \<times> w32 \<times> w32"

fun sha_round :: "w32 \<times> w32 \<Rightarrow> sha_state \<Rightarrow> sha_state" where
  "sha_round (k, w) (a, b, c, d, e, f, g, h) =
     (let s1 = word_rotr 6 e XOR word_rotr 11 e XOR word_rotr 25 e;
          ch = (e AND f) XOR (NOT e AND g);
          t1 = h + s1 + ch + k + w;
          s0 = word_rotr 2 a XOR word_rotr 13 a XOR word_rotr 22 a;
          maj = (a AND b) XOR (a AND c) XOR (b AND c)
      in (t1 + s0 + maj, a, b, c, d + t1, e, f, g))"

fun sha_words :: "sha_state \<Rightarrow> w32 list" where
  "sha_words (a, b, c, d, e, f, g, h) = [a, b, c, d, e, f, g, h]"

definition sha_block :: "w32 list \<Rightarrow> nat list \<Rightarrow> w32 list" where
  "sha_block hs block =
     (let ws = rev (schedule 48 (rev (map be_word (chunks 4 block))));
          start = (hs ! 0, hs ! 1, hs ! 2, hs ! 3, hs ! 4, hs ! 5, hs ! 6, hs ! 7)
      in map2 (+) hs (sha_words (fold sha_round (zip sha_k ws) start)))"

definition Sum256 :: "string \<Rightarrow> w32 list" where
  "Sum256 s = foldl sha_block sha_init (chunks 64 (sha_pad s))"

definition hex_digit :: "nat \<Rightarrow> char" where
  "hex_digit n = (if n < 10 then char_of (48 + n) else char_of (87 + n))"

definition hex_word :: "w32 \<Rightarrow> string" where
  "hex_word w = map (\<lambda>i. hex_digit (unat (drop_bit (28 - 4 * i) w AND 15))) [0..<8]"

text \<open>\<^verbatim>\<open>hex.EncodeToString(sum[:])\<close> for \<^verbatim>\<open>sum := sha256.Sum256([]byte(value))\<close>\<close>

definition sha256_hex :: "string \<Rightarrow> string" where
  "sha256_hex s = concat (map hex_word (Sum256 s))"

lemma length_sha_words [simp]: "length (sha_words st) = 8"
  by (cases st rule: sha_words.cases) simp

lemma length_sha_block: "length hs = 8 \<Longrightarrow> length (sha_block hs b) = 8"
  by (simp add: sha_block_def Let_def)

lemma sha_primes_length: "length sha_primes = 64"
  by code_simp

lemma length_Sum256 [simp]: "length (Sum256 s) = 8"
proof -
  have "length (foldl sha_block hs bs) = 8" if "length hs = 8" for hs bs
    using that by (induction bs arbitrary: hs) (simp_all add: length_sha_block)
  moreover have "length sha_init = 8" by (simp add: sha_init_def sha_primes_length)
  ultimately show ?thesis by (simp add: Sum256_def)
qed

lemma length_sha256_hex [simp]: "length (sha256_hex s) = 64"
proof -
  have "length (concat (map hex_word ws)) = 8 * length ws" for ws
    by (induction ws) (simp_all add: hex_word_def)
  then show ?thesis by (simp add: sha256_hex_def)
qed

lemma unat_and_15: "unat (w AND 15 :: w32) < 16"
proof -
  have "w AND 15 \<le> 15" by (rule word_and_le1)
  then show ?thesis by (simp add: word_le_nat_alt)
qed

lemma sha256_hex_digits: "c \<in> set (sha256_hex s) \<Longrightarrow> \<exists>n<16. c = hex_digit n"
  using unat_and_15 by (fastforce simp: sha256_hex_def hex_word_def)

end
