(* ===== verification/Conversation_Builders.thy ===== *)
theory Conversation_Builders
  imports Conversation Go_SHA256
begin

text \<open>
  The event builders of the control plane
  (\<^verbatim>\<open>backend-go/internal/conversation/builders.go\<close>). Each builder takes the readings of
  \<^verbatim>\<open>time.Now()\<close> it makes and the value of the process-wide \<open>eventSequence\<close> counter before the call,
  and returns the event with the counter after it; the panics of \<open>StampEventMap\<close> are errors.
  The theory shows that what the builders emit passes the validator of \<open>Conversation\<close>, and
  that stamps taken one after the other are ordered by their order keys.
\<close>

section \<open>Turn identifiers\<close>

definition safe_char :: "char \<Rightarrow> bool" where
  "safe_char c \<longleftrightarrow>
     65 \<le> byte_of c \<and> byte_of c \<le> 90 \<or> 97 \<le> byte_of c \<and> byte_of c \<le> 122 \<or>
     48 \<le> byte_of c \<and> byte_of c \<le> 57 \<or> c \<in> {CHR ''_'', CHR ''.'', CHR '':'', CHR ''-''}"

text \<open>\<^verbatim>\<open>ReplaceAllString(s, "-")\<close> for the pattern \<open>P+\<close>: one dash per maximal run.\<close>

fun replace_runs :: "(char \<Rightarrow> bool) \<Rightarrow> bool \<Rightarrow> string \<Rightarrow> string" where
  "replace_runs P inrun [] = []"
| "replace_runs P inrun (c # cs) =
     (if P c then (if inrun then [] else ''-'') @ replace_runs P True cs
      else c # replace_runs P False cs)"

definition TrimDashes :: "string \<Rightarrow> string" where
  "TrimDashes s = rev (dropWhile (\<lambda>c. c = CHR ''-'') (rev (dropWhile (\<lambda>c. c = CHR ''-'') s)))"

definition stableIDPart :: "string \<Rightarrow> string" where
  "stableIDPart value =
     (let trimmed = TrimSpace value;
          safe = replace_runs (\<lambda>c. \<not> safe_char c) False trimmed;
          safe = replace_runs (\<lambda>c. c = CHR ''-'') False safe;
          safe = TrimDashes safe;
          hash = take 12 (sha256_hex value)
      in if 6 \<le> length safe \<and> length safe \<le> 80 then safe
         else if 80 < length safe then take 64 safe @ ''-'' @ hash
         else hash)"

definition TurnIDForClientNonce :: "string \<Rightarrow> string" where
  "TurnIDForClientNonce clientNonce = ''turn_'' @ stableIDPart clientNonce"

section \<open>Stamping\<close>

datatype build_error =
    TextRequired
  | ClientNonceRequired
  | RuntimeRequired
  | SkillNameInvalid
  | StampPanic string      \<comment> \<open>StampEventMap: field is required\<close>

text \<open>\<^verbatim>\<open>atomic.Int64.Add(1)\<close>\<close>

definition add1_int64 :: "int \<Rightarrow> int" where
  "add1_int64 n = (n + 1 + 2 ^ 63) mod 2 ^ 64 - 2 ^ 63"

fun as_int64 :: "goany option \<Rightarrow> int option" where
  "as_int64 (Some (GInt64 n)) = Some n"
| "as_int64 _ = None"

definition order_key_for :: "gotime \<Rightarrow> int \<Rightarrow> string \<Rightarrow> string" where
  "order_key_for now seq uuid =
     int_dec_pad 13 (UnixMilli now) @ ''-'' @ int_dec_pad 8 seq @ ''-'' @ uuid"

text \<open>\<^verbatim>\<open>if cond { event[k] = v }\<close>\<close>

definition set_if :: "bool \<Rightarrow> string \<Rightarrow> goany \<Rightarrow> gomap \<Rightarrow> gomap" where
  "set_if c k v m = (if c then mset_key k v m else m)"

text \<open>The body of \<^verbatim>\<open>StampEventMap\<close> after its two checks, with the counter already advanced.\<close>

definition stamp_out :: "gotime \<Rightarrow> int \<Rightarrow> gomap \<Rightarrow> gomap" where
  "stamp_out now seq event =
     (let uuid = (if string_at event ''uuid'' = [] then string_at event ''event_id''
                  else string_at event ''uuid'');
          writtenAt = (if string_at event ''written_at'' = [] then FormatRFC3339Nano now
                       else string_at event ''written_at'');
          out = mset_key ''uuid'' (GStr uuid) event;
          out = mset_key ''id'' (GStr uuid) out;
          out = mset_key ''written_at'' (GStr writtenAt) out;
          out = set_if (as_string (mget out ''order_key'') = None)
                  ''order_key'' (GStr (order_key_for now seq uuid)) out;
          out = set_if (as_int64 (mget out ''sequence'') = None) ''sequence'' (GInt64 seq) out
      in set_if (as_string (mget out ''created_at'') = None) ''created_at'' (GStr writtenAt) out)"

definition StampEventMap :: "gotime \<Rightarrow> int \<Rightarrow> gomap \<Rightarrow> build_error + (gomap \<times> int)" where
  "StampEventMap now eventSequence event =
     (if string_at event ''event_id'' = [] then Inl (StampPanic ''event_id'')
      else if string_at event ''visibility'' = [] then Inl (StampPanic ''visibility'')
      else (let seq = add1_int64 eventSequence in Inr (stamp_out now seq event, seq)))"

text \<open>The four identity fields most builders add.\<close>

definition add_identity :: "string \<Rightarrow> string \<Rightarrow> string \<Rightarrow> string \<Rightarrow> gomap \<Rightarrow> gomap" where
  "add_identity storageKey sessionID email runtime event =
     set_if (runtime \<noteq> []) ''runtime'' (GStr runtime)
       (set_if (email \<noteq> []) ''email'' (GStr email)
         (set_if (sessionID \<noteq> []) ''tank_public_session_id'' (GStr sessionID)
           (set_if (storageKey \<noteq> []) ''tank_session_id'' (GStr storageKey) event)))"

definition producer_for :: "string \<Rightarrow> gomap" where
  "producer_for runtime = set_if (runtime \<noteq> []) ''runtime'' (GStr runtime) [(''name'', GStr ''tank-operator'')]"

definition default_now :: "gotime \<Rightarrow> gotime \<Rightarrow> gotime" where
  "default_now clock t = (if IsZero t then clock else t)"

definition map_event :: "(gomap \<Rightarrow> gomap) \<Rightarrow> 'e + (gomap \<times> int) \<Rightarrow> 'e + (gomap \<times> int)" where
  "map_event f r = map_sum id (map_prod f id) r"

section \<open>User submissions\<close>

record UserMessageAttachment =
  att_Label :: string
  att_Name :: string
  att_Kind :: string
  att_Path :: string
  att_AbsPath :: string
  att_Size :: int

record UserSubmissionArgs =
  us_SessionID :: string
  us_SessionStorageKey :: string
  us_Email :: string
  us_ClientNonce :: string
  us_Text :: string
  us_Message :: "goany option"
  us_Attachments :: "UserMessageAttachment list"
  us_Runtime :: string
  us_SkillName :: string
  us_Model :: string
  us_Effort :: string
  us_Display :: "gomap option"
  us_OriginSessionID :: string
  us_OriginSessionAvatarID :: string
  us_AuthorKind :: string
  us_Now :: gotime

definition firstNonEmpty :: "string list \<Rightarrow> string" where
  "firstNonEmpty vs = (case find (\<lambda>v. v \<noteq> []) vs of Some v \<Rightarrow> v | None \<Rightarrow> [])"

definition attachment_item :: "UserMessageAttachment \<Rightarrow> gomap" where
  "attachment_item a =
     (let label = TrimSpace (att_Label a); name = TrimSpace (att_Name a);
          kind = (if TrimSpace (att_Kind a) \<noteq> ''image'' then ''file'' else TrimSpace (att_Kind a));
          path = TrimSpace (att_Path a); absPath = TrimSpace (att_AbsPath a)
      in set_if (att_Size a > 0) ''size'' (GInt64 (att_Size a))
           (set_if (absPath \<noteq> []) ''absPath'' (GStr absPath)
             (set_if (path \<noteq> []) ''path'' (GStr path)
               [(''label'', GStr (firstNonEmpty [label, name])),
                (''name'', GStr (firstNonEmpty [name, label])),
                (''kind'', GStr kind)])))"

definition userMessageAttachments :: "UserMessageAttachment list \<Rightarrow> gomap list" where
  "userMessageAttachments input =
     map attachment_item
       (filter (\<lambda>a. \<not> (TrimSpace (att_Label a) = [] \<and> TrimSpace (att_Name a) = [])) input)"

definition re_space :: "char \<Rightarrow> bool" where
  "re_space c \<longleftrightarrow> c \<in> {CHR 0x09, CHR 0x0A, CHR 0x0C, CHR 0x0D, CHR 0x20}"

text \<open>The trigger pattern of a skill: a dollar or slash, the name, and the white space after it.\<close>

definition strip_trigger :: "string \<Rightarrow> string \<Rightarrow> string" where
  "strip_trigger skillName text =
     (case text of
        c # cs \<Rightarrow>
          if c \<in> {CHR ''$'', CHR ''/''}
          then (case fold_prefix skillName cs of Some r \<Rightarrow> dropWhile re_space r | None \<Rightarrow> text)
          else text
      | [] \<Rightarrow> text)"

definition userMessageDisplay :: "string \<Rightarrow> string \<Rightarrow> build_error + gomap" where
  "userMessageDisplay skillName text =
     (let skillName = TrimSpace skillName
      in if skillName = [] then Inr [(''kind'', GStr ''plain'')]
         else if \<not> skillNamePattern skillName then Inl SkillNameInvalid
         else Inr [(''kind'', GStr ''skill_invocation''),
                   (''skill_name'', GStr skillName),
                   (''supplemental_text'', GStr (TrimSpace (strip_trigger skillName (TrimSpace text))))])"

definition update_payload :: "(gomap \<Rightarrow> gomap) \<Rightarrow> gomap \<Rightarrow> gomap" where
  "update_payload f event =
     (case as_map (mget event ''payload'') of
        Some p \<Rightarrow> mset_key ''payload'' (GMap (f p)) event
      | None \<Rightarrow> event)"

text \<open>The stamps put on both boundary events after they are built.\<close>

definition add_run_config :: "string \<Rightarrow> string \<Rightarrow> gomap \<Rightarrow> gomap" where
  "add_run_config model effort event =
     update_payload (\<lambda>p. set_if (effort \<noteq> []) ''effort'' (GStr effort)
                          (set_if (model \<noteq> []) ''model'' (GStr model) p)) event"

definition add_submission_identity :: "UserSubmissionArgs \<Rightarrow> gomap \<Rightarrow> gomap" where
  "add_submission_identity args event =
     (let origin = TrimSpace (us_OriginSessionID args);
          avatar = TrimSpace (us_OriginSessionAvatarID args);
          authorKind = TrimSpace (us_AuthorKind args);
          e = set_if (us_SessionStorageKey args \<noteq> []) ''tank_session_id'' (GStr (us_SessionStorageKey args)) event;
          e = set_if (us_SessionID args \<noteq> []) ''tank_public_session_id'' (GStr (us_SessionID args)) e;
          e = set_if (us_Email args \<noteq> []) ''email'' (GStr (us_Email args)) e;
          e = mset_key ''runtime'' (GStr (TrimSpace (us_Runtime args))) e;
          foreign = (origin \<noteq> [] \<and> origin \<noteq> us_SessionID args);
          e = set_if foreign ''origin_session_id'' (GStr origin) e;
          e = set_if (foreign \<and> avatar \<noteq> []) ''origin_session_avatar_id'' (GStr avatar) e
      in set_if (authorKind \<noteq> []) ''author_kind'' (GStr authorKind) e)"

definition submission_finish :: "UserSubmissionArgs \<Rightarrow> gomap \<Rightarrow> gomap" where
  "submission_finish args =
     add_submission_identity args \<circ> add_run_config (TrimSpace (us_Model args)) (TrimSpace (us_Effort args))"

definition submission_user_message :: "UserSubmissionArgs \<Rightarrow> gotime \<Rightarrow> gomap \<Rightarrow> gomap" where
  "submission_user_message args createdAt display =
     (let text = TrimSpace (us_Text args); clientNonce = TrimSpace (us_ClientNonce args);
          turnID = TurnIDForClientNonce clientNonce
      in [(''event_id'', GStr (turnID @ '':user_message.created'')),
          (''conversation_id'', GStr (us_SessionID args)),
          (''session_id'', GStr (us_SessionID args)),
          (''turn_id'', GStr turnID),
          (''timeline_id'', GStr (turnID @ '':user'')),
          (''client_nonce'', GStr clientNonce),
          (''actor'', GStr (actor_wire ActorUser)),
          (''source'', GStr (source_wire SourceTank)),
          (''type'', GStr (event_wire EventUserMessageCreated)),
          (''created_at'', GStr (FormatRFC3339Nano createdAt)),
          (''producer'', GMap [(''name'', GStr ''tank-operator''), (''runtime'', GStr (TrimSpace (us_Runtime args)))]),
          (''visibility'', GStr (visibility_wire VisibilityDurable)),
          (''payload'', GMap
            [(''text'', GStr text),
             (''message'', (case us_Message args of
                Some m \<Rightarrow> m
              | None \<Rightarrow> GMap [(''role'', GStr ''user''), (''content'', GStr text)])),
             (''display'', GMap display)])])"

definition submission_turn_submitted :: "UserSubmissionArgs \<Rightarrow> gotime \<Rightarrow> gomap" where
  "submission_turn_submitted args createdAt =
     (let clientNonce = TrimSpace (us_ClientNonce args); turnID = TurnIDForClientNonce clientNonce
      in [(''event_id'', GStr (turnID @ '':turn.submitted'')),
          (''conversation_id'', GStr (us_SessionID args)),
          (''session_id'', GStr (us_SessionID args)),
          (''turn_id'', GStr turnID),
          (''client_nonce'', GStr clientNonce),
          (''actor'', GStr (actor_wire ActorRunner)),
          (''source'', GStr (source_wire SourceTank)),
          (''type'', GStr (event_wire EventTurnSubmitted)),
          (''created_at'', GStr (FormatRFC3339Nano createdAt)),
          (''producer'', GMap [(''name'', GStr ''tank-operator''), (''runtime'', GStr (TrimSpace (us_Runtime args)))]),
          (''visibility'', GStr (visibility_wire VisibilityDurable)),
          (''payload'', GMap [(''status'', GStr ''submitted'')])])"

definition UserSubmissionEventMaps ::
  "gotime \<Rightarrow> gotime \<Rightarrow> gotime \<Rightarrow> int \<Rightarrow> UserSubmissionArgs \<Rightarrow> build_error + (string \<times> gomap list \<times> int)" where
  "UserSubmissionEventMaps clock0 clock1 clock2 eventSequence args =
     (if TrimSpace (us_Text args) = [] then Inl TextRequired
      else if TrimSpace (us_ClientNonce args) = [] then Inl ClientNonceRequired
      else if TrimSpace (us_Runtime args) \<noteq> source_wire SourceClaude \<and>
              TrimSpace (us_Runtime args) \<noteq> source_wire SourceCodex
      then Inl RuntimeRequired
      else
        (let createdAt = default_now clock0 (us_Now args)
         in case (case us_Display args of
                    Some d \<Rightarrow> Inr d
                  | None \<Rightarrow> userMessageDisplay (us_SkillName args) (TrimSpace (us_Text args))) of
              Inl e \<Rightarrow> Inl e
            | Inr display \<Rightarrow>
                (case StampEventMap clock1 eventSequence (submission_user_message args createdAt display) of
                   Inl e \<Rightarrow> Inl e
                 | Inr (m, seq1) \<Rightarrow>
                     (case StampEventMap clock2 seq1 (submission_turn_submitted args createdAt) of
                        Inl e \<Rightarrow> Inl e
                      | Inr (s, seq2) \<Rightarrow>
                          (let attachments = userMessageAttachments (us_Attachments args);
                               m = (if attachments \<noteq> []
                                    then update_payload (mset_key ''attachments'' (GMaps attachments)) m else m)
                           in Inr (TurnIDForClientNonce (TrimSpace (us_ClientNonce args)),
                                   [submission_finish args m, submission_finish args s], seq2))))))"

section \<open>System events\<close>

record ScheduledWakeupUpdatedArgs =
  sw_SessionID :: string
  sw_SessionStorageKey :: string
  sw_Email :: string
  sw_Runtime :: string
  sw_WakeupID :: string
  sw_Status :: string
  sw_Prompt :: string
  sw_ClientNonce :: string
  sw_ScheduledTurnID :: string
  sw_ProviderItemID :: string
  sw_ScheduledAt :: gotime
  sw_DueAt :: gotime
  sw_AttemptCount :: int
  sw_FiredTurnID :: string
  sw_LastError :: string
  sw_Now :: gotime

definition ScheduledWakeupUpdatedEventMap ::
  "gotime \<Rightarrow> gotime \<Rightarrow> int \<Rightarrow> ScheduledWakeupUpdatedArgs \<Rightarrow> build_error + (gomap \<times> int)" where
  "ScheduledWakeupUpdatedEventMap clock0 clock1 eventSequence args =
     (let createdAt = default_now clock0 (sw_Now args);
          wakeupID = TrimSpace (sw_WakeupID args);
          status = TrimSpace (sw_Status args);
          clientNonce = TrimSpace (sw_ClientNonce args);
          timelineID = ''scheduled-wakeup:'' @ wakeupID;
          payload =
            [(''kind'', GStr ''scheduled_wakeup''),
             (''wakeup_id'', GStr wakeupID),
             (''status'', GStr status),
             (''prompt'', GStr (TrimSpace (sw_Prompt args))),
             (''scheduled_turn_id'', GStr (TrimSpace (sw_ScheduledTurnID args))),
             (''provider_item_id'', GStr (TrimSpace (sw_ProviderItemID args))),
             (''scheduled_at'', GStr (FormatRFC3339Nano (sw_ScheduledAt args))),
             (''due_at'', GStr (FormatRFC3339Nano (sw_DueAt args))),
             (''attempt_count'', GInt (sw_AttemptCount args)),
             (''fired_turn_id'', GStr (TrimSpace (sw_FiredTurnID args))),
             (''last_error'', GStr (TrimSpace (sw_LastError args)))]
      in map_event
           (set_if (TrimSpace (sw_ProviderItemID args) \<noteq> []) ''provider_item_id''
              (GStr (TrimSpace (sw_ProviderItemID args))) \<circ>
            add_identity (sw_SessionStorageKey args) (sw_SessionID args) (sw_Email args) (sw_Runtime args))
           (StampEventMap clock1 eventSequence
             [(''event_id'', GStr (timelineID @ '':'' @ status @ '':'' @ int_dec (UnixNano createdAt))),
              (''conversation_id'', GStr (sw_SessionID args)),
              (''session_id'', GStr (sw_SessionID args)),
              (''turn_id'', GStr (TrimSpace (sw_ScheduledTurnID args))),
              (''timeline_id'', GStr timelineID),
              (''client_nonce'', GStr clientNonce),
              (''actor'', GStr (actor_wire ActorSystem)),
              (''source'', GStr (source_wire SourceTank)),
              (''type'', GStr (event_wire EventScheduledWakeupUpdated)),
              (''created_at'', GStr (FormatRFC3339Nano createdAt)),
              (''producer'', GMap (producer_for (sw_Runtime args))),
              (''visibility'', GStr (visibility_wire VisibilityDurable)),
              (''payload'', GMap payload)]))"

record CIStatusUpdatedArgs =
  ci_SessionID :: string
  ci_SessionStorageKey :: string
  ci_Email :: string
  ci_Runtime :: string
  ci_Repo :: string
  ci_PRNumber :: int
  ci_PRURL :: string
  ci_HeadSHA :: string
  ci_State :: string
  ci_MergeCommit :: string
  ci_Detail :: string
  ci_ClientNonce :: string
  ci_Now :: gotime

definition CIStatusUpdatedEventMap ::
  "gotime \<Rightarrow> gotime \<Rightarrow> int \<Rightarrow> CIStatusUpdatedArgs \<Rightarrow> build_error + (gomap \<times> int)" where
  "CIStatusUpdatedEventMap clock0 clock1 eventSequence args =
     (let createdAt = default_now clock0 (ci_Now args);
          state = TrimSpace (ci_State args);
          repo = TrimSpace (ci_Repo args);
          timelineID = ''ci-status:'' @ repo @ '':'' @ int_dec (ci_PRNumber args);
          clientNonce = (if TrimSpace (ci_ClientNonce args) = [] then ''ci-status-'' @ timelineID
                         else TrimSpace (ci_ClientNonce args));
          payload =
            [(''kind'', GStr ''ci_status''),
             (''repo'', GStr repo),
             (''pr_number'', GInt (ci_PRNumber args)),
             (''pr_url'', GStr (TrimSpace (ci_PRURL args))),
             (''head_sha'', GStr (TrimSpace (ci_HeadSHA args))),
             (''state'', GStr state),
             (''merge_commit'', GStr (TrimSpace (ci_MergeCommit args))),
             (''detail'', GStr (TrimSpace (ci_Detail args)))]
      in map_event
           (add_identity (ci_SessionStorageKey args) (ci_SessionID args) (ci_Email args) (ci_Runtime args))
           (StampEventMap clock1 eventSequence
             [(''event_id'', GStr (timelineID @ '':'' @ state @ '':'' @ int_dec (UnixNano createdAt))),
              (''conversation_id'', GStr (ci_SessionID args)),
              (''session_id'', GStr (ci_SessionID args)),
              (''timeline_id'', GStr timelineID),
              (''client_nonce'', GStr clientNonce),
              (''actor'', GStr (actor_wire ActorSystem)),
              (''source'', GStr (source_wire SourceTank)),
              (''type'', GStr (event_wire EventCIStatusUpdated)),
              (''created_at'', GStr (FormatRFC3339Nano createdAt)),
              (''producer'', GMap (producer_for (ci_Runtime args))),
              (''visibility'', GStr (visibility_wire VisibilityDurable)),
              (''payload'', GMap payload)]))"

record TestProvisionUpdatedArgs =
  tp_SessionID :: string
  tp_SessionStorageKey :: string
  tp_Email :: string
  tp_Runtime :: string
  tp_RunID :: string
  tp_Phase :: string
  tp_Text :: string
  tp_Severity :: string
  tp_Repo :: string
  tp_Branch :: string
  tp_URL :: string
  tp_Now :: gotime

definition TestProvisionUpdatedEventMap ::
  "gotime \<Rightarrow> gotime \<Rightarrow> int \<Rightarrow> TestProvisionUpdatedArgs \<Rightarrow> build_error + (gomap \<times> int)" where
  "TestProvisionUpdatedEventMap clock0 clock1 eventSequence args =
     (let createdAt = default_now clock0 (tp_Now args);
          runID = TrimSpace (tp_RunID args);
          phase = TrimSpace (tp_Phase args);
          severity = (if TrimSpace (tp_Severity args) = [] then ''info'' else TrimSpace (tp_Severity args));
          timelineID = ''test-provision:'' @ runID @ '':'' @ phase;
          clientNonce = ''test-provision-'' @ runID;
          payload =
            [(''kind'', GStr ''test_provision''),
             (''run_id'', GStr runID),
             (''phase'', GStr phase),
             (''text'', GStr (TrimSpace (tp_Text args))),
             (''severity'', GStr severity),
             (''repo'', GStr (TrimSpace (tp_Repo args))),
             (''branch'', GStr (TrimSpace (tp_Branch args))),
             (''url'', GStr (TrimSpace (tp_URL args)))]
      in map_event
           (add_identity (tp_SessionStorageKey args) (tp_SessionID args) (tp_Email args) (tp_Runtime args))
           (StampEventMap clock1 eventSequence
             [(''event_id'', GStr (timelineID @ '':'' @ int_dec (UnixNano createdAt))),
              (''conversation_id'', GStr (tp_SessionID args)),
              (''session_id'', GStr (tp_SessionID args)),
              (''timeline_id'', GStr timelineID),
              (''client_nonce'', GStr clientNonce),
              (''actor'', GStr (actor_wire ActorSystem)),
              (''source'', GStr (source_wire SourceTank)),
              (''type'', GStr (event_wire EventTestProvisionUpdated)),
              (''created_at'', GStr (FormatRFC3339Nano createdAt)),
              (''producer'', GMap (producer_for (tp_Runtime args))),
              (''visibility'', GStr (visibility_wire VisibilityDurable)),
              (''payload'', GMap payload)]))"

section \<open>Turn events of the control plane\<close>

record TurnCommandFailedArgs =
  cf_SessionID :: string
  cf_SessionStorageKey :: string
  cf_Email :: string
  cf_TurnID :: string
  cf_ClientNonce :: string
  cf_Runtime :: string
  cf_Reason :: string
  cf_Now :: gotime

definition TurnCommandFailedEventMap ::
  "gotime \<Rightarrow> gotime \<Rightarrow> int \<Rightarrow> TurnCommandFailedArgs \<Rightarrow> build_error + (gomap \<times> int)" where
  "TurnCommandFailedEventMap clock0 clock1 eventSequence args =
     (let createdAt = default_now clock0 (cf_Now args)
      in map_event
           (add_identity (cf_SessionStorageKey args) (cf_SessionID args) (cf_Email args) (cf_Runtime args))
           (StampEventMap clock1 eventSequence
             [(''event_id'', GStr (cf_TurnID args @ '':turn.command_failed'')),
              (''conversation_id'', GStr (cf_SessionID args)),
              (''session_id'', GStr (cf_SessionID args)),
              (''turn_id'', GStr (cf_TurnID args)),
              (''client_nonce'', GStr (cf_ClientNonce args)),
              (''actor'', GStr (actor_wire ActorSystem)),
              (''source'', GStr (source_wire SourceTank)),
              (''type'', GStr (event_wire EventTurnCommandFailed)),
              (''created_at'', GStr (FormatRFC3339Nano createdAt)),
              (''producer'', GMap (producer_for (cf_Runtime args))),
              (''visibility'', GStr (visibility_wire VisibilityDurable)),
              (''payload'', GMap [(''reason'', GStr (cf_Reason args))])]))"

record TurnInterruptRequestedArgs =
  ir_SessionID :: string
  ir_SessionStorageKey :: string
  ir_Email :: string
  ir_TurnID :: string
  ir_ClientNonce :: string
  ir_Runtime :: string
  ir_Now :: gotime

definition TurnInterruptRequestedEventMap ::
  "gotime \<Rightarrow> gotime \<Rightarrow> int \<Rightarrow> TurnInterruptRequestedArgs \<Rightarrow> build_error + (gomap \<times> int)" where
  "TurnInterruptRequestedEventMap clock0 clock1 eventSequence args =
     (let createdAt = default_now clock0 (ir_Now args)
      in map_event
           (add_identity (ir_SessionStorageKey args) (ir_SessionID args) (ir_Email args) (ir_Runtime args))
           (StampEventMap clock1 eventSequence
             [(''event_id'', GStr (ir_TurnID args @ '':turn.interrupt_requested'')),
              (''conversation_id'', GStr (ir_SessionID args)),
              (''session_id'', GStr (ir_SessionID args)),
              (''turn_id'', GStr (ir_TurnID args)),
              (''client_nonce'', GStr (ir_ClientNonce args)),
              (''actor'', GStr (actor_wire ActorSystem)),
              (''source'', GStr (source_wire SourceTank)),
              (''type'', GStr (event_wire EventTurnInterruptRequested)),
              (''created_at'', GStr (FormatRFC3339Nano createdAt)),
              (''producer'', GMap (producer_for (ir_Runtime args))),
              (''visibility'', GStr (visibility_wire VisibilityDurable))]))"

record TurnInputAnsweredArgs =
  ia_SessionID :: string
  ia_SessionStorageKey :: string
  ia_Email :: string
  ia_TurnID :: string
  ia_ClientNonce :: string
  ia_ProviderItemID :: string
  ia_QuestionTimelineID :: string
  ia_Answers :: "(string \<times> string list) list"
  ia_Annotations :: gomap
  ia_Attachments :: "UserMessageAttachment list"
  ia_Now :: gotime

definition stringSlicesToAnyMap :: "(string \<times> string list) list \<Rightarrow> gomap" where
  "stringSlicesToAnyMap xs = map (\<lambda>(k, vs). (k, GAnys (map GStr vs))) xs"

definition TurnInputAnsweredEventMap ::
  "gotime \<Rightarrow> gotime \<Rightarrow> int \<Rightarrow> TurnInputAnsweredArgs \<Rightarrow> build_error + (gomap \<times> int)" where
  "TurnInputAnsweredEventMap clock0 clock1 eventSequence args =
     (let now = default_now clock0 (ia_Now args);
          payload =
            [(''question_timeline_id'', GStr (ia_QuestionTimelineID args)),
             (''provider_item_id'', GStr (ia_ProviderItemID args)),
             (''answers'', GMap (stringSlicesToAnyMap (ia_Answers args)))];
          payload = set_if (ia_Annotations args \<noteq> []) ''annotations'' (GMap (ia_Annotations args)) payload;
          attachments = userMessageAttachments (ia_Attachments args);
          payload = set_if (attachments \<noteq> []) ''attachments'' (GMaps attachments) payload
      in StampEventMap clock1 eventSequence
           [(''event_id'', GStr (ia_TurnID args @ '':turn.input_answered:'' @ ia_ClientNonce args)),
            (''conversation_id'', GStr (ia_SessionID args)),
            (''session_id'', GStr (ia_SessionID args)),
            (''tank_session_id'', GStr (ia_SessionStorageKey args)),
            (''email'', GStr (ia_Email args)),
            (''turn_id'', GStr (ia_TurnID args)),
            (''timeline_id'', GStr (ia_QuestionTimelineID args @ '':answer'')),
            (''provider_item_id'', GStr (ia_ProviderItemID args)),
            (''client_nonce'', GStr (ia_ClientNonce args)),
            (''actor'', GStr (actor_wire ActorUser)),
            (''source'', GStr (source_wire SourceTank)),
            (''type'', GStr (event_wire EventTurnInputAnswered)),
            (''created_at'', GStr (FormatRFC3339Nano now)),
            (''visibility'', GStr (visibility_wire VisibilityDurable)),
            (''payload'', GMap payload)])"

section \<open>Stamping completes a draft\<close>

text \<open>A draft has everything a well-formed event has except its order key.\<close>

definition draft_ok :: "EventType \<Rightarrow> gomap \<Rightarrow> bool" where
  "draft_ok ty e \<longleftrightarrow>
     (\<forall>f\<in>set envelope_fields. has e f) \<and> mget e ''order_key'' = None \<and>
     ParseRFC3339 (string_at e ''created_at'') \<noteq> None \<and>
     validActor (string_at e ''actor'') \<and> validSource (string_at e ''source'') \<and>
     string_at e ''visibility'' = ''durable'' \<and> event_type_of e = event_wire ty \<and> typed_event_ok ty e"

text \<open>The fields the contract reads, apart from the order key.\<close>

definition contract_fields :: "string list" where
  "contract_fields =
     envelope_fields @ [''turn_id'', ''timeline_id'', ''client_nonce'', ''task_id'', ''author_kind'', ''payload'']"

definition stamp_fields :: "string list" where
  "stamp_fields = [''uuid'', ''id'', ''written_at'', ''order_key'', ''sequence'', ''created_at'']"

lemma mget_set_if [simp, field_simps_go]:
  "mget (set_if c k v m) k' = (if c \<and> k' = k then Some v else mget m k')"
  by (simp add: set_if_def)

lemma string_at_set_if [simp, field_simps_go]:
  "string_at (set_if c k v m) k' =
     (if c \<and> k' = k then (case as_string (Some v) of Some s \<Rightarrow> s | None \<Rightarrow> []) else string_at m k')"
  by (simp add: set_if_def)

lemma order_key_for_nonempty [simp]: "order_key_for now seq uuid \<noteq> []"
  by (simp add: order_key_for_def)

lemma stamp_out_frame: "k \<notin> set stamp_fields \<Longrightarrow> mget (stamp_out now seq e) k = mget e k"
  by (simp add: stamp_out_def Let_def stamp_fields_def)

lemma stamp_out_created_at:
  "has e ''created_at'' \<Longrightarrow> mget (stamp_out now seq e) ''created_at'' = mget e ''created_at''"
  using string_at_nonempty [of e "''created_at''"] by (auto simp: stamp_out_def Let_def has_def)

lemma stamp_out_order_key:
  "mget e ''order_key'' = None \<Longrightarrow>
   string_at (stamp_out now seq e) ''order_key'' =
     order_key_for now seq (if has e ''uuid'' then string_at e ''uuid'' else string_at e ''event_id'')"
  by (simp add: stamp_out_def Let_def has_def)

lemma typed_event_ok_frame:
  assumes "\<And>k. k \<in> set contract_fields \<Longrightarrow> mget b k = mget a k"
  shows "typed_event_ok ty b = typed_event_ok ty a"
proof -
  have eq: "string_at b k = string_at a k" if "k \<in> set contract_fields" for k
    using assms [OF that] by (simp add: string_at_def)
  have "set (required_fields ty) \<subseteq> set contract_fields"
    by (cases ty) (simp_all add: contract_fields_def)
  then have "(\<forall>f\<in>set (required_fields ty). has b f) = (\<forall>f\<in>set (required_fields ty). has a f)"
    using eq by (auto simp: has_def subset_eq)
  moreover have "role_ok ty b = role_ok ty a" "mget b ''payload'' = mget a ''payload''"
    using eq assms by (simp_all add: role_ok_def actor_is_def source_is_def contract_fields_def
        envelope_fields_def split: option.splits)
  ultimately show ?thesis by (simp add: typed_event_ok_def)
qed

lemma draft_complete:
  assumes draft: "draft_ok ty e"
    and same: "\<And>k. k \<in> set contract_fields \<Longrightarrow> mget out k = mget e k"
    and key: "has out ''order_key''"
  shows "well_formed_event out"
proof -
  have eq: "string_at out k = string_at e k" if "k \<in> set contract_fields" for k
    using same [OF that] by (simp add: string_at_def)
  then have "envelope_ok out"
    using draft key
    by (simp add: draft_ok_def envelope_ok_def has_def contract_fields_def envelope_fields_def)
  moreover have "event_type_of out = event_wire ty"
    using draft eq by (simp add: draft_ok_def event_type_of_def contract_fields_def envelope_fields_def)
  moreover have "typed_event_ok ty out"
    using draft typed_event_ok_frame [OF same] by (simp add: draft_ok_def)
  ultimately show ?thesis by (auto simp: well_formed_event_def)
qed

text \<open>
  What the builders do to an event after stamping it: they set fields one by one, and leave
  alone the fields the stamp reads or writes.
\<close>

definition stamp_reads :: "string list" where
  "stamp_reads = [''event_id'', ''visibility''] @ stamp_fields"

definition field_update :: "(gomap \<Rightarrow> gomap) \<Rightarrow> bool" where
  "field_update f \<longleftrightarrow>
     (\<forall>m m' k. mget m k = mget m' k \<longrightarrow> mget (f m) k = mget (f m') k) \<and>
     (\<forall>m. \<forall>k\<in>set stamp_reads. mget (f m) k = mget m k)"

lemma field_updateI:
  assumes "\<And>m m' k. mget m k = mget m' k \<Longrightarrow> mget (f m) k = mget (f m') k"
    and "\<And>m k. k \<in> set stamp_reads \<Longrightarrow> mget (f m) k = mget m k"
  shows "field_update f"
  using assms unfolding field_update_def by blast

lemma field_update_pointwise:
  "field_update f \<Longrightarrow> mget m k = mget m' k \<Longrightarrow> mget (f m) k = mget (f m') k"
  unfolding field_update_def by blast

lemma field_update_kept: "field_update f \<Longrightarrow> k \<in> set stamp_reads \<Longrightarrow> mget (f m) k = mget m k"
  unfolding field_update_def by blast

lemma field_update_base: "field_update (\<lambda>m. m)"
  by (rule field_updateI) simp_all

lemma field_update_comp:
  assumes "field_update f" "field_update g"
  shows "field_update (\<lambda>m. f (g m))"
  by (rule field_updateI) (use assms in \<open>auto intro: field_update_pointwise simp: field_update_kept\<close>)

lemma field_update_set_if:
  assumes "field_update g" "k \<notin> set stamp_reads"
  shows "field_update (\<lambda>m. set_if c k v (g m))"
  by (rule field_updateI) (use assms in \<open>auto dest: field_update_pointwise simp: field_update_kept\<close>)

lemma field_update_mset_key:
  assumes "field_update g" "k \<notin> set stamp_reads"
  shows "field_update (\<lambda>m. mset_key k v (g m))"
  by (rule field_updateI) (use assms in \<open>auto dest: field_update_pointwise simp: field_update_kept\<close>)

lemmas stamp_reads_simps = stamp_reads_def stamp_fields_def

lemma mget_update_payload:
  "mget (update_payload f m) k =
     (if k = ''payload'' then map_option (\<lambda>v. case v of GMap p \<Rightarrow> GMap (f p) | _ \<Rightarrow> v) (mget m ''payload'')
      else mget m k)"
proof (cases "as_map (mget m ''payload'')")
  case None
  then show ?thesis
    by (cases "mget m ''payload''" rule: as_map.cases) (auto simp: update_payload_def)
next
  case (Some p)
  then show ?thesis by (auto simp: update_payload_def as_map_cases)
qed

lemma stamp_draft_reads:
  assumes upd: "field_update f" and draft: "draft_ok ty (f e)"
  shows "\<exists>out. StampEventMap now s e = Inr (out, add1_int64 s) \<and> well_formed_event (f out) \<and>
    (\<forall>k\<in>set contract_fields. string_at (f out) k = string_at (f e) k)"
proof -
  let ?out = "stamp_out now (add1_int64 s) e"
  note kept = field_update_kept [OF upd]
  have present: "has e ''event_id''" "has e ''visibility''" "has e ''created_at''" "mget e ''order_key'' = None"
    using draft kept [of "''event_id''" e] kept [of "''visibility''" e] kept [of "''created_at''" e]
      kept [of "''order_key''" e]
    by (simp_all add: draft_ok_def envelope_fields_def has_def string_at_def stamp_reads_simps)
  have "mget ?out k = mget e k" if "k \<in> set contract_fields" for k
  proof (cases "k = ''created_at''")
    case True
    then show ?thesis using stamp_out_created_at present by simp
  next
    case False
    then have "k \<notin> set stamp_fields"
      using that by (auto simp: contract_fields_def envelope_fields_def stamp_fields_def)
    then show ?thesis by (rule stamp_out_frame)
  qed
  then have same: "mget (f ?out) k = mget (f e) k" if "k \<in> set contract_fields" for k
    using that field_update_pointwise [OF upd] by blast
  have "has (f ?out) ''order_key''"
    using kept [of "''order_key''" ?out] stamp_out_order_key [of e now "add1_int64 s"] present
    by (simp add: has_def string_at_def stamp_reads_simps)
  then have "well_formed_event (f ?out)" using draft_complete [OF draft same] by blast
  moreover have "string_at (f ?out) k = string_at (f e) k" if "k \<in> set contract_fields" for k
    using same [OF that] by (simp add: string_at_def)
  ultimately show ?thesis using present by (simp add: StampEventMap_def Let_def has_def)
qed

lemma stamp_draft:
  assumes "field_update f" "draft_ok ty (f e)"
  shows "\<exists>out. StampEventMap now s e = Inr (out, add1_int64 s) \<and> well_formed_event (f out)"
  using stamp_draft_reads [OF assms] by blast

section \<open>The builders emit valid events\<close>

lemma FormatRFC3339Nano_nonempty [simp]: "FormatRFC3339Nano t \<noteq> []"
  by (simp add: FormatRFC3339Nano_def)

lemma default_now_valid: "valid_gotime a \<Longrightarrow> valid_gotime b \<Longrightarrow> valid_gotime (default_now a b)"
  by (simp add: default_now_def)

lemma draft_ok_code:
  "draft_ok ty e \<longleftrightarrow>
     list_all (has e) envelope_fields \<and> list_all (has e) (required_fields ty) \<and>
     mget e ''order_key'' = None \<and> ParseRFC3339 (string_at e ''created_at'') \<noteq> None \<and>
     validActor (string_at e ''actor'') \<and> validSource (string_at e ''source'') \<and>
     string_at e ''visibility'' = ''durable'' \<and> event_type_of e = event_wire ty \<and>
     role_ok ty e \<and> payload_ok ty (mget e ''payload'')"
  by (auto simp: draft_ok_def typed_event_ok_def list_all_iff)

lemmas draft_defs =
  draft_ok_code role_ok_def required_actor_def tank_sourced_def actor_is_def
  source_is_def validActor_def validSource_def has_def envelope_fields_def event_type_of_def
  object_with_def optional_with_def add_identity_def

lemma map_event_Inr:
  "(\<exists>out. r = Inr (out, s') \<and> P (f out)) \<Longrightarrow> \<exists>out. map_event f r = Inr (out, s') \<and> P out"
  by (auto simp: map_event_def)

lemma field_update_add_identity: "field_update (add_identity key sid email runtime)"
  unfolding add_identity_def [abs_def]
  by (rule field_update_set_if field_update_base | simp add: stamp_reads_simps)+

lemma CIStatusUpdated_valid:
  assumes "valid_gotime clock0" "valid_gotime (ci_Now args)"
    and "ci_SessionID args \<noteq> []" "TrimSpace (ci_PRURL args) \<noteq> []"
    and "TrimSpace (ci_State args) \<in> {''merged'', ''ready'', ''failed'', ''conflict''}"
  shows "\<exists>out. CIStatusUpdatedEventMap clock0 clock1 s args = Inr (out, add1_int64 s) \<and>
               well_formed_event out"
  unfolding CIStatusUpdatedEventMap_def Let_def
  by (rule map_event_Inr, rule stamp_draft [OF field_update_add_identity, where ty = EventCIStatusUpdated])
    (use assms ParseRFC3339_Format [OF default_now_valid [OF assms(1,2)]] in \<open>auto simp: draft_defs\<close>)

lemma TestProvisionUpdated_valid:
  assumes "valid_gotime clock0" "valid_gotime (tp_Now args)"
    and "tp_SessionID args \<noteq> []" "TrimSpace (tp_Text args) \<noteq> []"
    and "TrimSpace (tp_Phase args) \<in> {''creating'', ''validating'', ''waiting'', ''ready'', ''error''}"
  shows "\<exists>out. TestProvisionUpdatedEventMap clock0 clock1 s args = Inr (out, add1_int64 s) \<and>
               well_formed_event out"
  unfolding TestProvisionUpdatedEventMap_def Let_def
  by (rule map_event_Inr, rule stamp_draft [OF field_update_add_identity, where ty = EventTestProvisionUpdated])
    (use assms ParseRFC3339_Format [OF default_now_valid [OF assms(1,2)]] in \<open>auto simp: draft_defs\<close>)

lemma ScheduledWakeupUpdated_valid:
  assumes "valid_gotime clock0" "valid_gotime (sw_Now args)"
    and "sw_SessionID args \<noteq> []" "TrimSpace (sw_WakeupID args) \<noteq> []" "TrimSpace (sw_ClientNonce args) \<noteq> []"
    and "TrimSpace (sw_Status args) \<in> {''scheduled'', ''claiming'', ''fired'', ''failed'', ''cancelled''}"
  shows "\<exists>out. ScheduledWakeupUpdatedEventMap clock0 clock1 s args = Inr (out, add1_int64 s) \<and>
               well_formed_event out"
proof -
  let ?p = "TrimSpace (sw_ProviderItemID args)"
  let ?f = "set_if (?p \<noteq> []) ''provider_item_id'' (GStr ?p) \<circ>
    add_identity (sw_SessionStorageKey args) (sw_SessionID args) (sw_Email args) (sw_Runtime args)"
  have upd: "field_update ?f"
    unfolding comp_def
    by (rule field_update_set_if field_update_add_identity | simp add: stamp_reads_simps)+
  show ?thesis
    unfolding ScheduledWakeupUpdatedEventMap_def Let_def
    by (rule map_event_Inr, rule stamp_draft [OF upd, where ty = EventScheduledWakeupUpdated])
      (use assms ParseRFC3339_Format [OF default_now_valid [OF assms(1,2)]] in \<open>auto simp: draft_defs\<close>)
qed

lemma TurnCommandFailed_valid:
  assumes "valid_gotime clock0" "valid_gotime (cf_Now args)"
    and "cf_SessionID args \<noteq> []" "cf_TurnID args \<noteq> []" "cf_Reason args \<noteq> []"
  shows "\<exists>out. TurnCommandFailedEventMap clock0 clock1 s args = Inr (out, add1_int64 s) \<and>
               well_formed_event out"
  unfolding TurnCommandFailedEventMap_def Let_def
  by (rule map_event_Inr, rule stamp_draft [OF field_update_add_identity, where ty = EventTurnCommandFailed])
    (use assms ParseRFC3339_Format [OF default_now_valid [OF assms(1,2)]] in \<open>auto simp: draft_defs\<close>)

lemma TurnInterruptRequested_valid:
  assumes "valid_gotime clock0" "valid_gotime (ir_Now args)"
    and "ir_SessionID args \<noteq> []" "ir_TurnID args \<noteq> []"
  shows "\<exists>out. TurnInterruptRequestedEventMap clock0 clock1 s args = Inr (out, add1_int64 s) \<and>
               well_formed_event out"
  unfolding TurnInterruptRequestedEventMap_def Let_def
  by (rule map_event_Inr, rule stamp_draft [OF field_update_add_identity, where ty = EventTurnInterruptRequested])
    (use assms ParseRFC3339_Format [OF default_now_valid [OF assms(1,2)]] in \<open>auto simp: draft_defs\<close>)

lemma field_update_id: "field_update id"
  by (rule field_updateI) simp_all

lemma TurnInputAnswered_valid:
  assumes "valid_gotime clock0" "valid_gotime (ia_Now args)"
    and "ia_SessionID args \<noteq> []" "ia_TurnID args \<noteq> []" "ia_ClientNonce args \<noteq> []"
    and "ia_ProviderItemID args \<noteq> []" "ia_QuestionTimelineID args \<noteq> []" "ia_Answers args \<noteq> []"
  shows "\<exists>out. TurnInputAnsweredEventMap clock0 clock1 s args = Inr (out, add1_int64 s) \<and>
               well_formed_event out"
proof -
  have "\<exists>out. TurnInputAnsweredEventMap clock0 clock1 s args = Inr (out, add1_int64 s) \<and>
               well_formed_event (id out)"
    unfolding TurnInputAnsweredEventMap_def Let_def
    by (rule stamp_draft [OF field_update_id, where ty = EventTurnInputAnswered])
      (use assms ParseRFC3339_Format [OF default_now_valid [OF assms(1,2)]] in \<open>auto simp: draft_defs stringSlicesToAnyMap_def\<close>)
  then show ?thesis by simp
qed

section \<open>User submissions are valid\<close>

lemma attachment_item_ok:
  assumes "\<not> (TrimSpace (att_Label a) = [] \<and> TrimSpace (att_Name a) = [])"
  shows "attachment_ok (attachment_item a)"
proof -
  let ?i = "attachment_item a"
  have "has ?i ''label''" "has ?i ''name''" "string_at ?i ''kind'' \<in> {''image'', ''file''}"
    using assms by (auto simp: attachment_item_def Let_def has_def firstNonEmpty_def)
  moreover have "optional_with non_blank (mget ?i ''path'')" "optional_with non_blank (mget ?i ''absPath'')"
    by (simp_all add: attachment_item_def Let_def optional_with_def non_blank_def)
  moreover have "optional_with non_negative (mget ?i ''size'')"
    by (simp add: attachment_item_def Let_def optional_with_def non_negative_def numericField_def)
  ultimately show ?thesis by (simp add: attachment_ok_def)
qed

lemma userMessageAttachments_ok:
  assumes "length input \<le> 32"
  shows "attachments_ok (Some (GMaps (userMessageAttachments input)))"
proof -
  have "length (userMessageAttachments input) \<le> 32"
    using assms by (simp add: userMessageAttachments_def) (meson length_filter_le order_trans)
  then show ?thesis
    by (auto simp: attachments_ok_def userMessageAttachments_def attachment_item_ok)
qed

lemma userMessageDisplay_ok:
  "userMessageDisplay skill text = Inr d \<Longrightarrow> display_ok d"
  by (auto simp: userMessageDisplay_def display_ok_def optional_with_def Let_def split: if_splits)

lemma field_update_payload: "field_update (update_payload f)"
  by (rule field_updateI) (auto simp: mget_update_payload stamp_reads_simps)

lemma field_update_submission: "field_update (add_submission_identity args)"
  unfolding add_submission_identity_def [abs_def] Let_def
  by (rule field_update_set_if field_update_mset_key field_update_base | simp add: stamp_reads_simps)+

lemma field_update_finish: "field_update (submission_finish args)"
  unfolding submission_finish_def comp_def add_run_config_def
  by (rule field_update_comp [OF field_update_submission field_update_payload])

text \<open>What a submission must satisfy beyond the checks the builder itself makes.\<close>

definition submission_inputs_ok :: "UserSubmissionArgs \<Rightarrow> bool" where
  "submission_inputs_ok args \<longleftrightarrow>
     us_SessionID args \<noteq> [] \<and> TrimSpace (us_Text args) \<noteq> [] \<and> TrimSpace (us_ClientNonce args) \<noteq> [] \<and>
     TrimSpace (us_Runtime args) \<in> {''claude'', ''codex''} \<and>
     TrimSpace (us_AuthorKind args) \<in> {[], ''system''} \<and> length (us_Attachments args) \<le> 32 \<and>
     (case us_Display args of
        Some d \<Rightarrow> display_ok d
      | None \<Rightarrow> TrimSpace (us_SkillName args) = [] \<or> skillNamePattern (TrimSpace (us_SkillName args)))"

lemma submission_display:
  assumes "submission_inputs_ok args"
  shows "\<exists>d. (case us_Display args of Some d \<Rightarrow> Inr d
             | None \<Rightarrow> userMessageDisplay (us_SkillName args) (TrimSpace (us_Text args))) = Inr d \<and> display_ok d"
proof (cases "us_Display args")
  case None
  then have "TrimSpace (us_SkillName args) = [] \<or> skillNamePattern (TrimSpace (us_SkillName args))"
    using assms by (simp add: submission_inputs_ok_def)
  then have "\<exists>d. userMessageDisplay (us_SkillName args) (TrimSpace (us_Text args)) = Inr d"
    by (cases "TrimSpace (us_SkillName args) = []") (simp_all add: userMessageDisplay_def Let_def)
  then show ?thesis using None userMessageDisplay_ok by auto
next
  case (Some d)
  then show ?thesis using assms by (simp add: submission_inputs_ok_def)
qed

definition submission_decorate :: "UserSubmissionArgs \<Rightarrow> gomap \<Rightarrow> gomap" where
  "submission_decorate args m =
     submission_finish args
       (if userMessageAttachments (us_Attachments args) \<noteq> []
        then update_payload (mset_key ''attachments'' (GMaps (userMessageAttachments (us_Attachments args)))) m
        else m)"

lemma field_update_decorate: "field_update (submission_decorate args)"
  using field_update_comp [OF field_update_finish field_update_payload] field_update_finish
  unfolding submission_decorate_def [abs_def]
  by (cases "userMessageAttachments (us_Attachments args) = []") simp_all

lemmas finish_defs = submission_finish_def add_submission_identity_def add_run_config_def

lemma submission_finish_read:
  assumes "k \<notin> set [''payload'', ''tank_session_id'', ''tank_public_session_id'', ''email'', ''runtime'',
    ''origin_session_id'', ''origin_session_avatar_id'', ''author_kind'']"
  shows "mget (submission_finish args m) k = mget m k"
  using assms by (simp add: finish_defs Let_def mget_update_payload)

lemma submission_finish_author:
  "string_at (submission_finish args m) ''author_kind'' =
     (if TrimSpace (us_AuthorKind args) = [] then string_at m ''author_kind'' else TrimSpace (us_AuthorKind args))"
  by (simp add: finish_defs Let_def string_at_def mget_update_payload)

lemma submission_finish_payload:
  "mget m ''payload'' = Some (GMap p) \<Longrightarrow>
   mget (submission_finish args m) ''payload'' =
     Some (GMap (set_if (TrimSpace (us_Effort args) \<noteq> []) ''effort'' (GStr (TrimSpace (us_Effort args)))
       (set_if (TrimSpace (us_Model args) \<noteq> []) ''model'' (GStr (TrimSpace (us_Model args))) p)))"
  by (simp add: finish_defs Let_def mget_update_payload)

lemma submission_finish_string:
  assumes "k \<in> set ([''order_key'', ''turn_id'', ''timeline_id'', ''client_nonce'', ''task_id''] @ envelope_fields)"
  shows "string_at (submission_finish args m) k = string_at m k"
  using assms submission_finish_read [of k args m] by (auto simp: string_at_def envelope_fields_def)

lemma submission_turn_submitted_fields:
  fixes args createdAt
  defines "e \<equiv> submission_turn_submitted args createdAt"
  defines "turnID \<equiv> TurnIDForClientNonce (TrimSpace (us_ClientNonce args))"
  shows "string_at e ''event_id'' = turnID @ '':turn.submitted''"
    and "string_at e ''session_id'' = us_SessionID args" and "string_at e ''turn_id'' = turnID"
    and "string_at e ''client_nonce'' = TrimSpace (us_ClientNonce args)"
    and "string_at e ''actor'' = ''runner''" and "string_at e ''source'' = ''tank''"
    and "string_at e ''type'' = ''turn.submitted''"
    and "string_at e ''created_at'' = FormatRFC3339Nano createdAt" and "string_at e ''visibility'' = ''durable''"
    and "mget e ''order_key'' = None" and "mget e ''payload'' = Some (GMap [(''status'', GStr ''submitted'')])"
  by (simp_all add: e_def turnID_def submission_turn_submitted_def Let_def)

lemma submission_draft_submitted:
  assumes ok: "submission_inputs_ok args" and t: "valid_gotime createdAt"
  shows "draft_ok EventTurnSubmitted (submission_finish args (submission_turn_submitted args createdAt))"
proof -
  define e where "e = submission_turn_submitted args createdAt"
  note fs = submission_turn_submitted_fields [of args createdAt, folded e_def]
  have "payload_ok EventTurnSubmitted (mget (submission_finish args e) ''payload'')"
    by (simp add: submission_finish_payload [OF fs(11)] object_with_def has_def)
  then show ?thesis
    using ok ParseRFC3339_Format [OF t]
    by (simp add: draft_ok_code role_ok_def required_actor_def tank_sourced_def actor_is_def source_is_def
        validActor_def validSource_def has_def envelope_fields_def event_type_of_def e_def [symmetric]
        submission_finish_string submission_finish_read fs(1-10)
        submission_inputs_ok_def TurnIDForClientNonce_def del: payload_ok.simps)
qed

lemma submission_user_message_fields:
  fixes args createdAt d
  defines "e \<equiv> submission_user_message args createdAt d"
  defines "turnID \<equiv> TurnIDForClientNonce (TrimSpace (us_ClientNonce args))"
  shows "string_at e ''event_id'' = turnID @ '':user_message.created''"
    and "string_at e ''session_id'' = us_SessionID args" and "string_at e ''turn_id'' = turnID"
    and "string_at e ''timeline_id'' = turnID @ '':user''"
    and "string_at e ''client_nonce'' = TrimSpace (us_ClientNonce args)"
    and "string_at e ''actor'' = ''user''" and "string_at e ''source'' = ''tank''"
    and "string_at e ''type'' = ''user_message.created''"
    and "string_at e ''created_at'' = FormatRFC3339Nano createdAt" and "string_at e ''visibility'' = ''durable''"
    and "string_at e ''author_kind'' = []" and "mget e ''order_key'' = None"
  by (simp_all add: e_def turnID_def submission_user_message_def Let_def)

lemma submission_draft_message:
  assumes ok: "submission_inputs_ok args" and t: "valid_gotime createdAt" and d: "display_ok d"
  shows "draft_ok EventUserMessageCreated (submission_decorate args (submission_user_message args createdAt d))"
proof -
  define as where "as = userMessageAttachments (us_Attachments args)"
  define e where "e = submission_user_message args createdAt d"
  define m where "m = (if as \<noteq> [] then update_payload (mset_key ''attachments'' (GMaps as)) e else e)"
  define p where "p = set_if (as \<noteq> []) ''attachments'' (GMaps as)
    [(''text'', GStr (TrimSpace (us_Text args))),
     (''message'', case us_Message args of Some m \<Rightarrow> m
        | None \<Rightarrow> GMap [(''role'', GStr ''user''), (''content'', GStr (TrimSpace (us_Text args)))]),
     (''display'', GMap d)]"
  have mp: "mget m ''payload'' = Some (GMap p)"
    by (simp add: m_def p_def e_def submission_user_message_def Let_def mget_update_payload set_if_def)
  have same: "mget m k = mget e k" if "k \<noteq> ''payload''" for k
    using that by (simp add: m_def mget_update_payload)
  have read: "string_at m k = string_at e k" if "k \<noteq> ''payload''" for k
    using same [OF that] by (simp add: string_at_def)
  note fs = submission_user_message_fields [of args createdAt d, folded e_def]
  have att: "attachments_ok (Some (GMaps as))"
    using ok userMessageAttachments_ok by (simp add: submission_inputs_ok_def as_def)
  have att': "attachments_ok None" by (simp add: attachments_ok_def)
  have "payload_ok EventUserMessageCreated (mget (submission_finish args m) ''payload'')"
    using ok d att att'
    by (simp add: submission_finish_payload [OF mp] object_with_def user_message_payload_ok_def has_def
        submission_inputs_ok_def p_def)
  moreover have "string_at (submission_finish args m) ''author_kind'' \<in> {[], ''system''}"
    using ok by (auto simp: submission_finish_author submission_inputs_ok_def read fs)
  moreover have "submission_decorate args e = submission_finish args m"
    by (simp add: submission_decorate_def m_def as_def)
  ultimately show ?thesis
    using ok ParseRFC3339_Format [OF t]
    by (simp add: draft_ok_code role_ok_def required_actor_def tank_sourced_def actor_is_def source_is_def
        validActor_def validSource_def has_def envelope_fields_def event_type_of_def e_def [symmetric]
        submission_finish_string submission_finish_read read same fs
        submission_inputs_ok_def TurnIDForClientNonce_def del: payload_ok.simps)
qed

lemma submission_events_valid:
  assumes "submission_inputs_ok args" "valid_gotime clock0" "valid_gotime (us_Now args)"
  shows "\<exists>m t. UserSubmissionEventMaps clock0 clock1 clock2 s args =
      Inr (TurnIDForClientNonce (TrimSpace (us_ClientNonce args)), [m, t], add1_int64 (add1_int64 s)) \<and>
    ValidateEventMap (Some m) = None \<and> ValidateEventMap (Some t) = None \<and>
    event_type_of m = event_wire EventUserMessageCreated \<and> event_type_of t = event_wire EventTurnSubmitted \<and>
    string_at m ''turn_id'' = TurnIDForClientNonce (TrimSpace (us_ClientNonce args)) \<and>
    string_at t ''turn_id'' = TurnIDForClientNonce (TrimSpace (us_ClientNonce args))"
proof -
  define createdAt where "createdAt = default_now clock0 (us_Now args)"
  have t: "valid_gotime createdAt" using assms default_now_valid by (simp add: createdAt_def)
  obtain d where d: "(case us_Display args of Some d \<Rightarrow> Inr d
      | None \<Rightarrow> userMessageDisplay (us_SkillName args) (TrimSpace (us_Text args))) = Inr d" "display_ok d"
    using submission_display [OF assms(1)] by blast
  note em = submission_user_message_fields [of args createdAt d]
  note et = submission_turn_submitted_fields [of args createdAt]
  obtain m where m: "StampEventMap clock1 s (submission_user_message args createdAt d) = Inr (m, add1_int64 s)"
    "well_formed_event (submission_decorate args m)"
    "\<forall>k\<in>set contract_fields. string_at (submission_decorate args m) k =
       string_at (submission_decorate args (submission_user_message args createdAt d)) k"
    using stamp_draft_reads [OF field_update_decorate submission_draft_message [OF assms(1) t d(2)]] by blast
  obtain u where u: "StampEventMap clock2 (add1_int64 s) (submission_turn_submitted args createdAt) =
      Inr (u, add1_int64 (add1_int64 s))"
    "well_formed_event (submission_finish args u)"
    "\<forall>k\<in>set contract_fields. string_at (submission_finish args u) k =
       string_at (submission_finish args (submission_turn_submitted args createdAt)) k"
    using stamp_draft_reads [OF field_update_finish submission_draft_submitted [OF assms(1) t]] by blast
  have "UserSubmissionEventMaps clock0 clock1 clock2 s args =
      Inr (TurnIDForClientNonce (TrimSpace (us_ClientNonce args)),
        [submission_decorate args m, submission_finish args u], add1_int64 (add1_int64 s))"
    using assms(1) d(1) m(1) u(1)
    by (auto simp: UserSubmissionEventMaps_def submission_inputs_ok_def submission_decorate_def Let_def
        createdAt_def)
  moreover have "string_at (submission_decorate args e) k = string_at e k"
    if "k \<in> {''turn_id'', ''type''}" for e k
    using that submission_finish_string
    by (auto simp: submission_decorate_def string_at_def mget_update_payload envelope_fields_def
        submission_finish_read)
  ultimately show ?thesis
    using m(2,3) u(2,3) em et
    by (simp add: ValidateEventMap_iff event_type_of_def contract_fields_def submission_finish_string
        envelope_fields_def)
qed

text \<open>
  for a submission whose session id, text, client nonce, runtime, author kind, attachments and
  display are acceptable, the builder succeeds, consumes two sequence numbers and returns the
  turn's two boundary events, both of which the validator accepts and both of which carry the turn
  id derived from the client nonce.
\<close>

theorem UserSubmissionEventMaps_valid:
  assumes "submission_inputs_ok args" "valid_gotime clock0" "valid_gotime (us_Now args)"
  shows "\<exists>m t. UserSubmissionEventMaps clock0 clock1 clock2 s args =
      Inr (TurnIDForClientNonce (TrimSpace (us_ClientNonce args)), [m, t], add1_int64 (add1_int64 s)) \<and>
    ValidateEventMap (Some m) = None \<and> ValidateEventMap (Some t) = None \<and>
    event_type_of m = event_wire EventUserMessageCreated \<and> event_type_of t = event_wire EventTurnSubmitted \<and>
    string_at m ''turn_id'' = TurnIDForClientNonce (TrimSpace (us_ClientNonce args)) \<and>
    string_at t ''turn_id'' = TurnIDForClientNonce (TrimSpace (us_ClientNonce args))"
  by (rule submission_events_valid [OF assms])

definition sample_now :: gotime where
  "sample_now = \<lparr>t_year = 2026, t_month = 6, t_day = 12, t_hour = 10, t_min = 0, t_sec = 0, t_nsec = 500000000\<rparr>"

definition sample_submission :: UserSubmissionArgs where
  "sample_submission =
     \<lparr>us_SessionID = ''s1'', us_SessionStorageKey = ''s1'', us_Email = ''a@b.c'', us_ClientNonce = '' nonce-001 '',
      us_Text = ''hello'', us_Message = None,
      us_Attachments = [\<lparr>att_Label = ''a.png'', att_Name = '''', att_Kind = ''image'', att_Path = ''p'',
                         att_AbsPath = '''', att_Size = 3\<rparr>],
      us_Runtime = ''codex'', us_SkillName = ''review'', us_Model = ''m'', us_Effort = '''', us_Display = None,
      us_OriginSessionID = ''s2'', us_OriginSessionAvatarID = '''', us_AuthorKind = '''', us_Now = sample_now\<rparr>"

lemma sample_now_valid: "valid_gotime sample_now"
  by (simp add: sample_now_def valid_gotime_def days_in_def)

theorem UserSubmissionEventMaps_valid_witness:
  "submission_inputs_ok sample_submission \<and>
   (\<exists>m t. UserSubmissionEventMaps sample_now sample_now sample_now 41 sample_submission =
      Inr (TurnIDForClientNonce ''nonce-001'', [m, t], 43) \<and>
    ValidateEventMap (Some m) = None \<and> ValidateEventMap (Some t) = None \<and>
    string_at m ''turn_id'' = TurnIDForClientNonce ''nonce-001'')"
proof -
  have trims: "TrimSpace '' nonce-001 '' = ''nonce-001''" "TrimSpace ''hello'' = ''hello''"
    "TrimSpace ''codex'' = ''codex''" "TrimSpace ''review'' = ''review''" by code_simp+
  have "skillNamePattern ''review''" by code_simp
  then have ok: "submission_inputs_ok sample_submission"
    by (simp add: submission_inputs_ok_def sample_submission_def trims)
  have "TrimSpace (us_ClientNonce sample_submission) = ''nonce-001''"
    by (simp add: sample_submission_def trims)
  moreover have "us_Now sample_submission = sample_now" by (simp add: sample_submission_def)
  moreover have "add1_int64 (add1_int64 41) = 43" by (simp add: add1_int64_def)
  ultimately show ?thesis
    using ok UserSubmissionEventMaps_valid [OF ok, of sample_now sample_now sample_now 41] sample_now_valid
    by fastforce
qed

section \<open>Turn identifiers\<close>

lemma replace_runs_safe:
  assumes "\<And>c. c \<in> set s \<Longrightarrow> \<not> P c \<Longrightarrow> safe_char c"
  shows "list_all safe_char (replace_runs P b s)"
proof -
  have dash: "safe_char (CHR ''-'')" by (simp add: safe_char_def)
  show ?thesis using assms by (induction s arbitrary: b) (auto simp: dash)
qed

lemma list_all_dropWhile: "list_all Q s \<Longrightarrow> list_all Q (dropWhile P s)"
  by (induction s) auto

lemma TrimDashes_safe: "list_all safe_char s \<Longrightarrow> list_all safe_char (TrimDashes s)"
  by (simp add: TrimDashes_def list_all_dropWhile)

lemma hash_safe: "list_all safe_char (take 12 (sha256_hex v))"
proof -
  have "safe_char (hex_digit n)" if "n < 16" for n
    using that by (auto simp: hex_digit_def safe_char_def byte_of_def)
  then have "list_all safe_char (sha256_hex v)"
    using sha256_hex_digits by (auto simp: list_all_iff)
  then show ?thesis by (metis append_take_drop_id list_all_append)
qed

definition canonical_nonce :: "string \<Rightarrow> bool" where
  "canonical_nonce n \<longleftrightarrow>
     list_all safe_char n \<and> 6 \<le> length n \<and> length n \<le> 80 \<and>
     hd n \<noteq> CHR ''-'' \<and> last n \<noteq> CHR ''-'' \<and> \<not> sublist ''--'' n"

lemma replace_runs_none: "list_all (\<lambda>c. \<not> P c) s \<Longrightarrow> replace_runs P b s = s"
  by (induction s arbitrary: b) auto

lemma replace_runs_dashes:
  "\<not> sublist ''--'' s \<Longrightarrow> (b \<longrightarrow> s = [] \<or> hd s \<noteq> CHR ''-'') \<Longrightarrow> replace_runs (\<lambda>c. c = CHR ''-'') b s = s"
proof (induction s arbitrary: b)
  case (Cons c cs)
  have "\<not> sublist ''--'' cs" using Cons.prems by (meson sublist_Cons_right)
  moreover have "c = CHR ''-'' \<Longrightarrow> cs = [] \<or> hd cs \<noteq> CHR ''-''"
    using Cons.prems by (cases cs) (auto simp: sublist_Cons_right)
  ultimately show ?case using Cons by auto
qed simp

lemma dropWhile_hd: "s = [] \<or> \<not> P (hd s) \<Longrightarrow> dropWhile P s = s"
  by (cases s) auto

lemma TrimDashes_id: "s \<noteq> [] \<Longrightarrow> hd s \<noteq> CHR ''-'' \<Longrightarrow> last s \<noteq> CHR ''-'' \<Longrightarrow> TrimDashes s = s"
  by (simp add: TrimDashes_def dropWhile_hd hd_rev)

lemma safe_char_visible: "safe_char c \<Longrightarrow> visible c"
  by (auto simp: safe_char_def visible_def byte_of_def)

lemma TrimSpace_safe: "list_all safe_char s \<Longrightarrow> TrimSpace s = s"
  by (rule TrimSpace_visible) (auto simp: list_all_iff safe_char_visible)

text \<open>
  A turn id is \<open>turn_\<close> followed by 6 to 80 characters of the safe alphabet, whatever the
  client nonce is; and a nonce that is already canonical (6 to 80 safe characters, no dash at
  either end, no two dashes in a row, as a UUID is) is kept as it is, so that distinct canonical
  nonces give distinct turns.
\<close>

lemma TurnIDForClientNonce_shape:
  "(\<exists>p. TurnIDForClientNonce n = ''turn_'' @ p \<and> list_all safe_char p \<and> 6 \<le> length p \<and> length p \<le> 80) \<and>
   (canonical_nonce n \<longrightarrow> TurnIDForClientNonce n = ''turn_'' @ n)"
proof (intro conjI impI)
  define safe where "safe = TrimDashes (replace_runs (\<lambda>c. c = CHR ''-'') False
    (replace_runs (\<lambda>c. \<not> safe_char c) False (TrimSpace n)))"
  have "list_all safe_char (replace_runs (\<lambda>c. \<not> safe_char c) False (TrimSpace n))"
    by (rule replace_runs_safe) simp
  then have safe: "list_all safe_char safe"
    unfolding safe_def by (intro TrimDashes_safe replace_runs_safe) (simp add: list_all_iff)
  then have "list_all safe_char (take 64 safe)" by (metis append_take_drop_id list_all_append)
  moreover have "safe_char (CHR ''-'')" by (simp add: safe_char_def)
  moreover have "stableIDPart n = (if 6 \<le> length safe \<and> length safe \<le> 80 then safe
      else if 80 < length safe then take 64 safe @ ''-'' @ take 12 (sha256_hex n) else take 12 (sha256_hex n))"
    by (simp add: stableIDPart_def Let_def safe_def)
  ultimately have "list_all safe_char (stableIDPart n) \<and> 6 \<le> length (stableIDPart n) \<and> length (stableIDPart n) \<le> 80"
    using safe hash_safe [of n] by auto
  then show "\<exists>p. TurnIDForClientNonce n = ''turn_'' @ p \<and> list_all safe_char p \<and> 6 \<le> length p \<and> length p \<le> 80"
    by (auto simp: TurnIDForClientNonce_def)
next
  assume n: "canonical_nonce n"
  then have "replace_runs (\<lambda>c. c = CHR ''-'') False (replace_runs (\<lambda>c. \<not> safe_char c) False (TrimSpace n)) = n"
    by (simp add: canonical_nonce_def TrimSpace_safe replace_runs_none replace_runs_dashes)
  moreover have "TrimDashes n = n" using n by (auto simp: canonical_nonce_def intro!: TrimDashes_id)
  ultimately show "TurnIDForClientNonce n = ''turn_'' @ n"
    using n by (simp add: TurnIDForClientNonce_def stableIDPart_def Let_def canonical_nonce_def)
qed

section \<open>Order keys\<close>

lemma add1_int64_small: "0 \<le> n \<Longrightarrow> n < 2 ^ 63 - 1 \<Longrightarrow> add1_int64 n = n + 1"
  by (simp add: add1_int64_def)

text \<open>
  stamps made one after the other, with the sequence counter not going back and the
  clock not going back by a millisecond, have increasing order keys in byte order, as long as the
  millisecond clock fits its 13 digits and the counter its 8.
\<close>

theorem StampEventMap_order:
  assumes "StampEventMap now s e = Inr (out, s1)" "StampEventMap now' s' e' = Inr (out', s2)"
    and "mget e ''order_key'' = None" "mget e' ''order_key'' = None"
    and "0 \<le> UnixMilli now" "UnixMilli now \<le> UnixMilli now'" "UnixMilli now' < 10 ^ 13"
    and "0 \<le> s" "s < s'" "s' < 10 ^ 8 - 1"
  shows "string_at out ''order_key'' < string_at out' ''order_key''"
proof -
  have out: "s1 = s + 1" "out = stamp_out now (s + 1) e" "s2 = s' + 1" "out' = stamp_out now' (s' + 1) e'"
    using assms add1_int64_small [of s] add1_int64_small [of s']
    by (auto simp: StampEventMap_def Let_def split: if_splits)
  define ms ms' where "ms = nat (UnixMilli now)" and "ms' = nat (UnixMilli now')"
  have ms: "ms \<le> ms'" "ms' < 10 ^ 13" using assms by (auto simp: ms_def ms'_def nat_less_iff)
  have sq: "nat (s + 1) < nat (s' + 1)" "nat (s' + 1) < 10 ^ 8" using assms by (auto simp: nat_less_iff)
  obtain u u' where keys: "string_at out ''order_key'' = dec_pad 13 ms @ ''-'' @ dec_pad 8 (nat (s + 1)) @ ''-'' @ u"
    "string_at out' ''order_key'' = dec_pad 13 ms' @ ''-'' @ dec_pad 8 (nat (s' + 1)) @ ''-'' @ u'"
    using assms by (simp add: out stamp_out_order_key order_key_for_def int_dec_pad_nonneg ms_def ms'_def)
  show ?thesis
  proof (cases "ms = ms'")
    case True
    have "dec_pad 8 (nat (s + 1)) < dec_pad 8 (nat (s' + 1))" using sq dec_pad_less by simp
    moreover have "length (dec_pad 8 (nat (s + 1))) = length (dec_pad 8 (nat (s' + 1)))"
      using sq dec_pad_length [of "nat (s + 1)" 8] dec_pad_length [of "nat (s' + 1)" 8] by linarith
    ultimately show ?thesis using True by (simp add: keys append_less_same append_less)
  next
    case False
    then have "dec_pad 13 ms < dec_pad 13 ms'" using ms dec_pad_less by simp
    moreover have "length (dec_pad 13 ms) = length (dec_pad 13 ms')"
      using ms dec_pad_length [of _ 13] by simp
    ultimately show ?thesis by (simp add: keys append_less)
  qed
qed

definition sample_draft :: "string \<Rightarrow> gomap" where
  "sample_draft eid = [(''event_id'', GStr eid), (''visibility'', GStr ''durable'')]"

lemma sample_now_millis: "UnixMilli sample_now = 1781258400500"
  by (simp add: UnixMilli_def UnixNano_def instant_def days_from_civil_def sample_now_def)

theorem StampEventMap_order_witness:
  "\<exists>a b. StampEventMap sample_now 7 (sample_draft ''z'') = Inr (a, 8) \<and>
         StampEventMap sample_now 9 (sample_draft ''a'') = Inr (b, 10) \<and>
         string_at a ''order_key'' < string_at b ''order_key''"
proof -
  have z: "StampEventMap sample_now 7 (sample_draft ''z'') = Inr (stamp_out sample_now 8 (sample_draft ''z''), 8)"
    and a: "StampEventMap sample_now 9 (sample_draft ''a'') = Inr (stamp_out sample_now 10 (sample_draft ''a''), 10)"
    by (simp_all add: StampEventMap_def sample_draft_def add1_int64_def Let_def)
  have "string_at (stamp_out sample_now 8 (sample_draft ''z'')) ''order_key'' <
        string_at (stamp_out sample_now 10 (sample_draft ''a'')) ''order_key''"
    by (rule StampEventMap_order [OF z a]) (simp_all add: sample_draft_def sample_now_millis)
  then show ?thesis using z a by blast
qed

section \<open>System and turn events are valid\<close>

text \<open>A request to any of the six builders, the inputs it must carry, and its dispatch.\<close>

datatype control_request =
    CommandFailed TurnCommandFailedArgs
  | InterruptRequested TurnInterruptRequestedArgs
  | InputAnswered TurnInputAnsweredArgs
  | WakeupUpdated ScheduledWakeupUpdatedArgs
  | CIUpdated CIStatusUpdatedArgs
  | ProvisionUpdated TestProvisionUpdatedArgs

fun control_inputs_ok :: "control_request \<Rightarrow> bool" where
  "control_inputs_ok (CommandFailed a) \<longleftrightarrow>
     valid_gotime (cf_Now a) \<and> cf_SessionID a \<noteq> [] \<and> cf_TurnID a \<noteq> [] \<and> cf_Reason a \<noteq> []"
| "control_inputs_ok (InterruptRequested a) \<longleftrightarrow>
     valid_gotime (ir_Now a) \<and> ir_SessionID a \<noteq> [] \<and> ir_TurnID a \<noteq> []"
| "control_inputs_ok (InputAnswered a) \<longleftrightarrow>
     valid_gotime (ia_Now a) \<and> ia_SessionID a \<noteq> [] \<and> ia_TurnID a \<noteq> [] \<and> ia_ClientNonce a \<noteq> [] \<and>
     ia_ProviderItemID a \<noteq> [] \<and> ia_QuestionTimelineID a \<noteq> [] \<and> ia_Answers a \<noteq> []"
| "control_inputs_ok (WakeupUpdated a) \<longleftrightarrow>
     valid_gotime (sw_Now a) \<and> sw_SessionID a \<noteq> [] \<and> TrimSpace (sw_WakeupID a) \<noteq> [] \<and>
     TrimSpace (sw_ClientNonce a) \<noteq> [] \<and>
     TrimSpace (sw_Status a) \<in> {''scheduled'', ''claiming'', ''fired'', ''failed'', ''cancelled''}"
| "control_inputs_ok (CIUpdated a) \<longleftrightarrow>
     valid_gotime (ci_Now a) \<and> ci_SessionID a \<noteq> [] \<and> TrimSpace (ci_PRURL a) \<noteq> [] \<and>
     TrimSpace (ci_State a) \<in> {''merged'', ''ready'', ''failed'', ''conflict''}"
| "control_inputs_ok (ProvisionUpdated a) \<longleftrightarrow>
     valid_gotime (tp_Now a) \<and> tp_SessionID a \<noteq> [] \<and> TrimSpace (tp_Text a) \<noteq> [] \<and>
     TrimSpace (tp_Phase a) \<in> {''creating'', ''validating'', ''waiting'', ''ready'', ''error''}"

fun build_control :: "gotime \<Rightarrow> gotime \<Rightarrow> int \<Rightarrow> control_request \<Rightarrow> build_error + (gomap \<times> int)" where
  "build_control clock0 clock1 s (CommandFailed a) = TurnCommandFailedEventMap clock0 clock1 s a"
| "build_control clock0 clock1 s (InterruptRequested a) = TurnInterruptRequestedEventMap clock0 clock1 s a"
| "build_control clock0 clock1 s (InputAnswered a) = TurnInputAnsweredEventMap clock0 clock1 s a"
| "build_control clock0 clock1 s (WakeupUpdated a) = ScheduledWakeupUpdatedEventMap clock0 clock1 s a"
| "build_control clock0 clock1 s (CIUpdated a) = CIStatusUpdatedEventMap clock0 clock1 s a"
| "build_control clock0 clock1 s (ProvisionUpdated a) = TestProvisionUpdatedEventMap clock0 clock1 s a"

text \<open>
  every event the control plane writes on its own behalf (a failed command, a requested
  interrupt, an answered question, a wakeup, a CI or a provisioning update) whose inputs are
  present and whose status is one of the listed ones is built without a panic, consumes one
  sequence number, and passes the validator.
\<close>

theorem control_plane_events_valid:
  assumes "valid_gotime clock0" "control_inputs_ok req"
  shows "\<exists>out. build_control clock0 clock1 s req = Inr (out, add1_int64 s) \<and> ValidateEventMap (Some out) = None"
  using assms(2)
  by (cases req)
     (simp_all add: ValidateEventMap_iff assms(1) TurnCommandFailed_valid TurnInterruptRequested_valid
        TurnInputAnswered_valid ScheduledWakeupUpdated_valid CIStatusUpdated_valid TestProvisionUpdated_valid)

definition sample_command_failed :: TurnCommandFailedArgs where
  "sample_command_failed =
     \<lparr>cf_SessionID = ''s1'', cf_SessionStorageKey = ''s1'', cf_Email = '''', cf_TurnID = ''turn_nonce-001'',
      cf_ClientNonce = ''nonce-001'', cf_Runtime = ''codex'', cf_Reason = ''publish failed'', cf_Now = zero_time\<rparr>"

theorem control_plane_events_valid_witness:
  "control_inputs_ok (CommandFailed sample_command_failed) \<and>
   (\<exists>out. build_control sample_now sample_now 0 (CommandFailed sample_command_failed) = Inr (out, 1) \<and>
          ValidateEventMap (Some out) = None)"
proof -
  have "control_inputs_ok (CommandFailed sample_command_failed)"
    by (simp add: sample_command_failed_def valid_gotime_def zero_time_def days_in_def)
  moreover have "add1_int64 0 = 1" by (simp add: add1_int64_def)
  ultimately show ?thesis
    using control_plane_events_valid [OF sample_now_valid, of "CommandFailed sample_command_failed" sample_now 0]
    by simp
qed

end
