(* ===== verification/Session_Ledger.thy ===== *)
theory Session_Ledger
  imports Conversation
begin

text \<open>
  The durable event ledger and its write path: \<open>SessionStorageKey\<close>
  (\<^verbatim>\<open>internal/sessionmodel/sessionmodel.go\<close>), \<open>Upsert\<close> and \<open>decodeStoredSessionEvent\<close>
  (\<^verbatim>\<open>internal/store/session_events.go\<close>). The table \<^verbatim>\<open>session_events\<close> is a list of rows; its primary
  key and its unique index on event identities are written out in \<open>Upsert\<close> as Postgres
  enforces them. A stored payload is the document after a JSON round trip (\<open>json_doc\<close>).
  The theory shows that every reachable ledger keeps both keys unique and holds only rows
  that the validator accepts on the way back.
\<close>

section \<open>Storage keys\<close>

definition SessionStorageKey :: "string \<Rightarrow> string \<Rightarrow> string" where
  "SessionStorageKey scope sessionID =
     (let sessionID = TrimSpace sessionID; scope = TrimSpace scope
      in if scope = [] \<or> scope = ''default'' then sessionID else scope @ '':'' @ sessionID)"

section \<open>Documents through JSON\<close>

text \<open>
  \<^verbatim>\<open>json.Unmarshal(json.Marshal(v))\<close> into \<^verbatim>\<open>any\<close>: numbers come back as \<^verbatim>\<open>float64\<close> and typed slices
  as \<^verbatim>\<open>[]any\<close>. Strings are taken to be valid UTF-8 and integers to be exact in a \<^verbatim>\<open>float64\<close>,
  as they are in the documents the producers send.
\<close>

primrec json_any :: "goany \<Rightarrow> goany" where
  "json_any GNil = GNil"
| "json_any (GBool b) = GBool b"
| "json_any (GFloat q) = GFloat q"
| "json_any (GInt n) = GFloat (of_int n)"
| "json_any (GInt64 n) = GFloat (of_int n)"
| "json_any (GStr s) = GStr s"
| "json_any (GAnys vs) = GAnys (map json_any vs)"
| "json_any (GStrs ss) = GAnys (map GStr ss)"
| "json_any (GMap m) = GMap (map (map_prod id json_any) m)"
| "json_any (GMaps ms) = GAnys (map GMap (map (map (map_prod id json_any)) ms))"

definition json_doc :: "gomap \<Rightarrow> gomap" where
  "json_doc m = map (map_prod id json_any) m"

section \<open>Rows\<close>

record event_row =
  er_tank_session_id :: string
  er_order_key :: string
  er_event_id :: string
  er_turn_id :: "string option"
  er_event_type :: "string option"
  er_payload :: gomap
  er_created_at :: int

type_synonym ledger = "event_row list"

text \<open>\<^verbatim>\<open>NULLIF(x, '')\<close>\<close>

definition nullif_empty :: "string \<Rightarrow> string option" where
  "nullif_empty s = (if s = [] then None else Some s)"

section \<open>Writing\<close>

datatype upsert_error =
    UpsertInvalid schema_error
  | UpsertMissing string      \<comment> \<open>session event field is required\<close>

definition same_key :: "string \<Rightarrow> string \<Rightarrow> event_row \<Rightarrow> bool" where
  "same_key sid key r \<longleftrightarrow> er_tank_session_id r = sid \<and> er_order_key r = key"

text \<open>
  \<^verbatim>\<open>INSERT ... ON CONFLICT (tank_session_id, order_key) DO UPDATE\<close> on a table that also has the unique
  index on \<^verbatim>\<open>(tank_session_id, event_id)\<close>: a violation of the index rejects the statement and is
  reported as not inserted; a conflict on the key overwrites the row and keeps its \<^verbatim>\<open>created_at\<close>.
\<close>

definition replace_row :: "event_row \<Rightarrow> ledger \<Rightarrow> ledger" where
  "replace_row row L =
     map (\<lambda>r. if same_key (er_tank_session_id row) (er_order_key row) r
               then row\<lparr>er_created_at := er_created_at r\<rparr> else r) L"

definition identity_clash :: "event_row \<Rightarrow> ledger \<Rightarrow> bool" where
  "identity_clash row L \<longleftrightarrow>
     (\<exists>r\<in>set L. er_tank_session_id r = er_tank_session_id row \<and> er_event_id r = er_event_id row \<and>
                er_order_key r \<noteq> er_order_key row)"

definition key_taken :: "event_row \<Rightarrow> ledger \<Rightarrow> bool" where
  "key_taken row L \<longleftrightarrow> (\<exists>r\<in>set L. same_key (er_tank_session_id row) (er_order_key row) r)"

definition insert_row :: "event_row \<Rightarrow> ledger \<Rightarrow> bool \<times> ledger" where
  "insert_row row L =
     (if identity_clash row L then (False, L)
      else if key_taken row L then (False, replace_row row L)
      else (True, L @ [row]))"

definition event_identity :: "gomap \<Rightarrow> string" where
  "event_identity doc =
     (if trimmed_at doc ''id'' \<noteq> [] then trimmed_at doc ''id''
      else if trimmed_at doc ''uuid'' \<noteq> [] then trimmed_at doc ''uuid''
      else trimmed_at doc ''event_id'')"

definition storage_key_of :: "string \<Rightarrow> gomap \<Rightarrow> string" where
  "storage_key_of scope doc =
     (if trimmed_at doc ''tank_session_id'' = []
      then SessionStorageKey scope (trimmed_at doc ''session_id'') else trimmed_at doc ''tank_session_id'')"

text \<open>The document as it is marshalled: identity and session key filled in.\<close>

definition stored_doc :: "string \<Rightarrow> gomap \<Rightarrow> gomap" where
  "stored_doc scope event =
     (let doc = mset_key ''tank_session_id'' (GStr (storage_key_of scope event))
                  (mset_key ''id'' (GStr (event_identity event)) event);
          publicID = trimmed_at event ''session_id''
      in if mget doc ''tank_public_session_id'' = None \<and> publicID \<noteq> []
         then mset_key ''tank_public_session_id'' (GStr publicID) doc else doc)"

definition row_of :: "string \<Rightarrow> int \<Rightarrow> gomap \<Rightarrow> event_row" where
  "row_of scope now event =
     \<lparr>er_tank_session_id = storage_key_of scope event,
      er_order_key = trimmed_at event ''order_key'',
      er_event_id = event_identity event,
      er_turn_id = nullif_empty (trimmed_at event ''turn_id''),
      er_event_type = nullif_empty (trimmed_at event ''type''),
      er_payload = json_doc (stored_doc scope event),
      er_created_at = now\<rparr>"

definition Upsert :: "string \<Rightarrow> int \<Rightarrow> gomap \<Rightarrow> ledger \<Rightarrow> (upsert_error + bool) \<times> ledger" where
  "Upsert scope now event L =
     (case ValidateEventMap (Some event) of
        Some e \<Rightarrow> (Inl (UpsertInvalid e), L)
      | None \<Rightarrow>
          if storage_key_of scope event = [] then (Inl (UpsertMissing ''tank_session_id''), L)
          else if event_identity event = [] then (Inl (UpsertMissing ''id''), L)
          else if trimmed_at event ''order_key'' = [] then (Inl (UpsertMissing ''order_key''), L)
          else (case insert_row (row_of scope now event) L of (inserted, L') \<Rightarrow> (Inr inserted, L')))"

section \<open>Reading a stored row\<close>

definition decodeStoredSessionEvent :: "gomap \<Rightarrow> string \<Rightarrow> gomap option" where
  "decodeStoredSessionEvent payload tankSessionID =
     (if ValidateEventMap (Some payload) \<noteq> None then None
      else Some (mset_key ''tank_session_id'' (GStr tankSessionID) payload))"

section \<open>Reachable ledgers\<close>

text \<open>The ledgers that a sequence of upserts, by any writers, can produce.\<close>

inductive ledger_reach :: "ledger \<Rightarrow> bool" where
  empty: "ledger_reach []"
| upsert: "ledger_reach L \<Longrightarrow> ledger_reach (snd (Upsert scope now event L))"

definition unique_keys :: "ledger \<Rightarrow> bool" where
  "unique_keys L \<longleftrightarrow> distinct (map (\<lambda>r. (er_tank_session_id r, er_order_key r)) L)"

definition unique_identities :: "ledger \<Rightarrow> bool" where
  "unique_identities L \<longleftrightarrow> distinct (map (\<lambda>r. (er_tank_session_id r, er_event_id r)) L)"

text \<open>A row whose columns are those of its payload, and whose payload is valid.\<close>

definition row_ok :: "event_row \<Rightarrow> bool" where
  "row_ok r \<longleftrightarrow>
     er_tank_session_id r \<noteq> [] \<and> er_order_key r \<noteq> [] \<and> er_event_id r \<noteq> [] \<and>
     ValidateEventMap (Some (er_payload r)) = None \<and>
     er_order_key r = trimmed_at (er_payload r) ''order_key'' \<and>
     er_event_id r = trimmed_at (er_payload r) ''id'' \<and>
     er_turn_id r = nullif_empty (trimmed_at (er_payload r) ''turn_id'') \<and>
     er_event_type r = Some (event_type_of (er_payload r))"

definition ledger_ok :: "ledger \<Rightarrow> bool" where
  "ledger_ok L \<longleftrightarrow> unique_keys L \<and> unique_identities L \<and> (\<forall>r\<in>set L. row_ok r)"

section \<open>Validity survives the round trip\<close>

lemma mget_json_doc [simp]: "mget (json_doc m) k = map_option json_any (mget m k)"
  by (induction m) (auto simp: json_doc_def)

lemma as_string_json [simp]: "as_string (Some (json_any v)) = as_string (Some v)"
  by (cases v) simp_all

lemma as_string_map_json [simp]: "as_string (map_option json_any v) = as_string v"
  by (cases v) simp_all

lemma string_at_json [simp]: "string_at (json_doc m) k = string_at m k"
  by (simp add: string_at_def)

lemma trimmed_at_json [simp]: "trimmed_at (json_doc m) k = trimmed_at m k"
  by (simp add: trimmed_at_def)

lemma json_any_GMap [simp]: "json_any (GMap m) = GMap (json_doc m)"
  by (simp add: json_doc_def)

lemma as_map_json [simp]: "as_map (Some (json_any v)) = map_option json_doc (as_map (Some v))"
  by (cases v) (simp_all add: json_doc_def)

lemma as_map_map_json [simp]: "as_map (map_option json_any v) = map_option json_doc (as_map v)"
  by (cases v) simp_all

lemma has_json [simp]: "has (json_doc m) k = has m k"
  by (simp add: has_def)

lemma numericField_json [simp]: "numericField (json_any v) = numericField v"
  by (cases v) (simp_all add: numericField_def)

lemma non_negative_json [simp]: "non_negative (json_any v) = non_negative v"
  by (simp add: non_negative_def)

lemma non_blank_json [simp]: "non_blank (json_any v) = non_blank v"
  by (cases v) (simp_all add: non_blank_def)

lemma optional_with_json [simp]: "optional_with P (map_option json_any v) = optional_with (P \<circ> json_any) v"
  by (cases v) (simp_all add: optional_with_def)

lemma object_with_json [simp]: "object_with P (map_option json_any v) = object_with (P \<circ> json_doc) v"
  by (simp add: object_with_def split: option.splits)

lemma object_with_Some_json [simp]: "object_with P (Some (json_any v)) = object_with (P \<circ> json_doc) (Some v)"
  by (simp add: object_with_def split: option.splits)

lemma attachment_ok_json [simp]: "attachment_ok (json_doc a) = attachment_ok a"
  by (simp add: attachment_ok_def comp_def)

lemma string_array_ok_json: "string_array_ok v \<Longrightarrow> string_array_ok (json_any v)"
  by (cases v) (auto simp: string_array_ok_def string_items_def list_all_iff comp_def split: if_splits)

lemma attachments_ok_json: "attachments_ok v \<Longrightarrow> attachments_ok (map_option json_any v)"
proof -
  assume v: "attachments_ok v"
  then consider "v = None" | "v = Some GNil"
    | as where "v = Some (GMaps as) \<or> v = Some (GAnys (map GMap as))" "length as \<le> 32" "\<forall>a\<in>set as. attachment_ok a"
    unfolding attachments_ok_def by blast
  then show ?thesis
  proof cases
    case (3 as)
    then have "map_option json_any v = Some (GAnys (map GMap (map json_doc as)))"
      by (auto simp: json_doc_def comp_def)
    moreover have "length (map json_doc as) \<le> 32" "\<forall>a\<in>set (map json_doc as). attachment_ok a" using 3 by auto
    ultimately show ?thesis unfolding attachments_ok_def by blast
  qed (simp_all add: attachments_ok_def)
qed

lemma questions_json:
  "mget p ''questions'' = Some (GMaps qs) \<or> mget p ''questions'' = Some (GAnys (map GMap qs)) \<Longrightarrow>
   mget (json_doc p) ''questions'' = Some (GAnys (map GMap (map json_doc qs)))"
  by (auto simp: json_doc_def [symmetric] comp_def)

lemma questions_ok_json: "questions_ok p \<Longrightarrow> questions_ok (json_doc p)"
proof -
  assume "questions_ok p"
  then obtain qs where qs: "qs \<noteq> []" "\<forall>q\<in>set qs. has q ''question''"
    "mget p ''questions'' = Some (GMaps qs) \<or> mget p ''questions'' = Some (GAnys (map GMap qs))"
    unfolding questions_ok_def by blast
  then have "map json_doc qs \<noteq> []" "\<forall>q\<in>set (map json_doc qs). has q ''question''" by auto
  then show ?thesis using questions_json [OF qs(3)] unfolding questions_ok_def by blast
qed

lemma questions_present_json: "questions_present p \<Longrightarrow> questions_present (json_doc p)"
  by (auto simp: questions_present_def)

lemma object_with_mono: "object_with P v \<Longrightarrow> (\<And>m. P m \<Longrightarrow> Q m) \<Longrightarrow> object_with Q v"
  by (auto simp: object_with_def split: option.splits)

lemma optional_with_mono: "optional_with P v \<Longrightarrow> (\<And>x. P x \<Longrightarrow> Q x) \<Longrightarrow> optional_with Q v"
  by (auto simp: optional_with_def split: option.splits)

lemma failed_status_json: "failed_status_ok (json_doc p) = failed_status_ok p"
  by (simp add: failed_status_ok_def comp_def)

lemma outcome_json [simp]: "outcome_ok (json_doc p) = outcome_ok p"
  by (simp add: outcome_ok_def)

lemma display_ok_json [simp]: "display_ok (json_doc d) = display_ok d"
  by (simp add: display_ok_def comp_def)

lemma user_message_json: "user_message_payload_ok p \<Longrightarrow> user_message_payload_ok (json_doc p)"
  by (simp add: user_message_payload_ok_def attachments_ok_json comp_def)

lemma assistant_message_json: "assistant_message_payload_ok p \<Longrightarrow> assistant_message_payload_ok (json_doc p)"
  by (auto simp: assistant_message_payload_ok_def comp_def
      elim!: optional_with_mono object_with_mono intro: questions_present_json)

lemma final_answer_json: "final_answer_ok f \<Longrightarrow> final_answer_ok (json_doc f)"
  by (auto simp: final_answer_ok_def comp_def string_array_ok_json elim!: optional_with_mono)

lemma json_doc_empty: "json_doc m = [] \<longleftrightarrow> m = []"
  by (simp add: json_doc_def)

lemma payload_ok_json: "payload_ok ty v \<Longrightarrow> payload_ok ty (map_option json_any v)"
proof (cases ty)
  case EventTurnCompleted
  then show "payload_ok ty v \<Longrightarrow> ?thesis"
    by (auto simp: comp_def elim!: optional_with_mono object_with_mono intro: final_answer_json)
qed (auto simp: comp_def failed_status_json json_doc_empty
     elim!: object_with_mono intro: user_message_json assistant_message_json questions_ok_json)

lemma well_formed_json: "well_formed_event e \<Longrightarrow> well_formed_event (json_doc e)"
  by (auto simp: well_formed_event_def envelope_ok_def typed_event_ok_def role_ok_def actor_is_def source_is_def
      event_type_of_def payload_ok_json split: option.splits)

section \<open>The ledger invariant\<close>

lemma stored_doc_frame:
  "k \<notin> {''tank_session_id'', ''id'', ''tank_public_session_id''} \<Longrightarrow> mget (stored_doc scope e) k = mget e k"
  by (simp add: stored_doc_def Let_def)

lemma string_at_stored_doc:
  "k \<notin> {''tank_session_id'', ''id'', ''tank_public_session_id''} \<Longrightarrow> string_at (stored_doc scope e) k = string_at e k"
  by (simp add: string_at_def stored_doc_frame)

lemma stored_doc_id: "string_at (stored_doc scope e) ''id'' = event_identity e"
  by (simp add: stored_doc_def Let_def)

lemma has_stored_doc:
  "k \<notin> {''tank_session_id'', ''id'', ''tank_public_session_id''} \<Longrightarrow> has (stored_doc scope e) k = has e k"
  by (simp add: has_def string_at_stored_doc)

lemma has_stored_doc_all:
  assumes "F \<inter> {''tank_session_id'', ''id'', ''tank_public_session_id''} = {}" "\<forall>f\<in>F. has e f"
  shows "\<forall>f\<in>F. has (stored_doc scope e) f"
proof
  fix f assume f: "f \<in> F"
  then have "f \<notin> {''tank_session_id'', ''id'', ''tank_public_session_id''}" using assms(1) by blast
  then show "has (stored_doc scope e) f" using has_stored_doc assms(2) f by blast
qed

lemma required_fields_disjoint:
  "set (required_fields ty) \<inter> {''tank_session_id'', ''id'', ''tank_public_session_id''} = {}"
  by (cases ty) simp_all

lemma envelope_fields_disjoint:
  "set (''order_key'' # envelope_fields) \<inter> {''tank_session_id'', ''id'', ''tank_public_session_id''} = {}"
  by (simp add: envelope_fields_def)

lemma well_formed_stored_doc: "well_formed_event e \<Longrightarrow> well_formed_event (stored_doc scope e)"
proof -
  assume "well_formed_event e"
  then obtain ty where ty: "envelope_ok e" "event_type_of e = event_wire ty" "typed_event_ok ty e"
    unfolding well_formed_event_def by blast
  have "\<forall>f\<in>set (required_fields ty). has (stored_doc scope e) f"
    using ty(3) unfolding typed_event_ok_def by (intro has_stored_doc_all [OF required_fields_disjoint]) blast
  moreover have "role_ok ty (stored_doc scope e)"
    using ty(3) by (simp add: typed_event_ok_def role_ok_def actor_is_def source_is_def string_at_stored_doc
        split: option.splits)
  moreover have "payload_ok ty (mget (stored_doc scope e) ''payload'')"
    using ty(3) by (simp add: typed_event_ok_def stored_doc_frame)
  moreover have "envelope_ok (stored_doc scope e)"
  proof -
    have "\<forall>f\<in>set (''order_key'' # envelope_fields). has e f" using ty(1) unfolding envelope_ok_def by blast
    then have "\<forall>f\<in>set (''order_key'' # envelope_fields). has (stored_doc scope e) f"
      by (rule has_stored_doc_all [OF envelope_fields_disjoint])
    moreover have same: "string_at (stored_doc scope e) ''created_at'' = string_at e ''created_at''"
      "string_at (stored_doc scope e) ''actor'' = string_at e ''actor''"
      "string_at (stored_doc scope e) ''source'' = string_at e ''source''"
      "string_at (stored_doc scope e) ''visibility'' = string_at e ''visibility''"
      by (simp_all add: string_at_stored_doc)
    ultimately show ?thesis using ty(1) unfolding envelope_ok_def same by blast
  qed
  moreover have "event_type_of (stored_doc scope e) = event_wire ty"
    using ty(2) by (simp add: event_type_of_def string_at_stored_doc)
  ultimately show ?thesis unfolding well_formed_event_def typed_event_ok_def by blast
qed

lemma TrimSpace_event_wire: "TrimSpace (event_wire ty) = event_wire ty"
proof -
  have "\<forall>t\<in>set all_event_types. list_all visible (event_wire t)" by code_simp
  then show ?thesis using all_event_types_complete TrimSpace_visible by blast
qed

lemma event_identity_trimmed [simp]: "TrimSpace (event_identity e) = event_identity e"
  by (simp add: event_identity_def trimmed_at_def)

lemma row_of_ok:
  assumes "well_formed_event e" "storage_key_of scope e \<noteq> []" "event_identity e \<noteq> []"
    "trimmed_at e ''order_key'' \<noteq> []"
  shows "row_ok (row_of scope now e)"
proof -
  obtain ty where ty: "event_type_of e = event_wire ty" using assms(1) by (auto simp: well_formed_event_def)
  have "trimmed_at e ''type'' = event_wire ty"
    using ty by (simp add: trimmed_at_def event_type_of_def TrimSpace_event_wire)
  moreover have "string_at (stored_doc scope e) ''type'' = event_wire ty"
    using ty by (simp add: string_at_stored_doc event_type_of_def)
  ultimately show ?thesis
    using assms well_formed_json [OF well_formed_stored_doc [OF assms(1)]]
    by (simp add: row_ok_def row_of_def ValidateEventMap_iff trimmed_at_def string_at_stored_doc stored_doc_id
        event_type_of_def nullif_empty_def)
qed

lemma row_ok_created [simp]: "row_ok (r\<lparr>er_created_at := t\<rparr>) = row_ok r"
  by (simp add: row_ok_def)

abbreviation row_key :: "event_row \<Rightarrow> string \<times> string" where
  "row_key r \<equiv> (er_tank_session_id r, er_order_key r)"

abbreviation row_identity :: "event_row \<Rightarrow> string \<times> string" where
  "row_identity r \<equiv> (er_tank_session_id r, er_event_id r)"

lemma replace_row_keys: "map row_key (replace_row row L) = map row_key L"
  by (simp add: replace_row_def same_key_def)

lemma unique_keys_inj: "unique_keys L \<Longrightarrow> r \<in> set L \<Longrightarrow> r' \<in> set L \<Longrightarrow> row_key r = row_key r' \<Longrightarrow> r = r'"
  unfolding unique_keys_def by (meson distinct_map inj_onD)

lemma unique_identities_inj:
  "unique_identities L \<Longrightarrow> r \<in> set L \<Longrightarrow> r' \<in> set L \<Longrightarrow> row_identity r = row_identity r' \<Longrightarrow> r = r'"
  unfolding unique_identities_def by (meson distinct_map inj_onD)

lemma replace_row_cases:
  assumes "x \<in> set (replace_row row L)"
  shows "(x \<in> set L \<and> row_key x \<noteq> row_key row) \<or>
    (\<exists>r\<in>set L. row_key r = row_key row \<and> x = row\<lparr>er_created_at := er_created_at r\<rparr>)"
  using assms by (auto simp: replace_row_def same_key_def)

lemma replace_row_identities:
  assumes keys: "unique_keys L" and ids: "unique_identities L"
    and free: "\<not> identity_clash row L"
  shows "unique_identities (replace_row row L)"
  unfolding unique_identities_def distinct_map
proof
  have "distinct (map row_key (replace_row row L))" using keys by (simp add: replace_row_keys unique_keys_def)
  then show "distinct (replace_row row L)" by (simp only: distinct_map)
  show "inj_on row_identity (set (replace_row row L))"
  proof (rule inj_onI)
    fix x y assume xy: "x \<in> set (replace_row row L)" "y \<in> set (replace_row row L)" "row_identity x = row_identity y"
    show "x = y"
      using replace_row_cases [OF xy(1)] replace_row_cases [OF xy(2)]
    proof (elim disjE conjE bexE)
      fix r r' assume "r \<in> set L" "r' \<in> set L" "row_key r = row_key row" "row_key r' = row_key row"
        "x = row\<lparr>er_created_at := er_created_at r\<rparr>" "y = row\<lparr>er_created_at := er_created_at r'\<rparr>"
      then show "x = y" using unique_keys_inj [OF keys, of r r'] by simp
    next
      assume "x \<in> set L" "y \<in> set L"
      then show "x = y" using unique_identities_inj [OF ids] xy(3) by blast
    qed (use free xy(3) in \<open>auto simp: identity_clash_def\<close>)
  qed
qed

lemma insert_row_ok:
  assumes "ledger_ok L" "row_ok row"
  shows "ledger_ok (snd (insert_row row L))"
proof -
  consider "identity_clash row L" | "\<not> identity_clash row L" "key_taken row L"
    | "\<not> identity_clash row L" "\<not> key_taken row L" by blast
  then show ?thesis
  proof cases
    case 1
    then show ?thesis using assms by (simp add: insert_row_def)
  next
    case 2
    then have "snd (insert_row row L) = replace_row row L" by (simp add: insert_row_def)
    moreover have "unique_keys (replace_row row L)"
      using assms(1) by (simp add: ledger_ok_def unique_keys_def replace_row_keys)
    moreover have "unique_identities (replace_row row L)"
      using 2 assms(1) by (intro replace_row_identities) (auto simp: ledger_ok_def)
    moreover have "\<forall>r\<in>set (replace_row row L). row_ok r"
      using assms by (auto simp: ledger_ok_def dest!: replace_row_cases)
    ultimately show ?thesis by (simp add: ledger_ok_def)
  next
    case 3
    then have "snd (insert_row row L) = L @ [row]" by (simp add: insert_row_def)
    moreover have "unique_keys (L @ [row])" "unique_identities (L @ [row])"
      using 3 assms(1)
      by (auto simp: ledger_ok_def unique_keys_def unique_identities_def same_key_def key_taken_def
          identity_clash_def)
    ultimately show ?thesis using assms by (simp add: ledger_ok_def)
  qed
qed

text \<open>An accepted event is one that reaches the insert statement.\<close>

definition storable :: "string \<Rightarrow> gomap \<Rightarrow> bool" where
  "storable scope e \<longleftrightarrow>
     ValidateEventMap (Some e) = None \<and> storage_key_of scope e \<noteq> [] \<and> event_identity e \<noteq> [] \<and>
     trimmed_at e ''order_key'' \<noteq> []"

lemma Upsert_storable:
  "storable scope e \<Longrightarrow> Upsert scope now e L =
     (Inr (fst (insert_row (row_of scope now e) L)), snd (insert_row (row_of scope now e) L))"
  by (simp add: storable_def Upsert_def split: prod.split)

lemma Upsert_not_storable: "\<not> storable scope e \<Longrightarrow> \<exists>err. Upsert scope now e L = (Inl err, L)"
  by (auto simp: storable_def Upsert_def split: option.split)

lemma storable_row_ok: "storable scope e \<Longrightarrow> row_ok (row_of scope now e)"
  by (simp add: storable_def ValidateEventMap_iff row_of_ok)

lemma Upsert_ok: "ledger_ok L \<Longrightarrow> ledger_ok (snd (Upsert scope now e L))"
  using Upsert_not_storable [of scope e now L]
  by (cases "storable scope e") (auto simp: Upsert_storable insert_row_ok storable_row_ok)

lemma reachable_ledger_ok: "ledger_reach L \<Longrightarrow> ledger_ok L"
  by (induction rule: ledger_reach.induct)
     (simp_all add: Upsert_ok, simp add: ledger_ok_def unique_keys_def unique_identities_def)


definition sample_stored :: gomap where
  "sample_stored =
     [(''event_id'', GStr ''e1''), (''session_id'', GStr ''s1''), (''turn_id'', GStr ''t1''),
      (''actor'', GStr ''runner''), (''source'', GStr ''claude''), (''type'', GStr ''turn.started''),
      (''created_at'', GStr ''2026-06-12T10:00:00Z''), (''visibility'', GStr ''durable''),
      (''order_key'', GStr ''k1'')]"

lemma sample_stored_storable: "storable ''default'' sample_stored"
proof -
  have "ParseRFC3339 ''2026-06-12T10:00:00Z'' \<noteq> None" by code_simp
  then have "well_formed_event sample_stored"
    unfolding well_formed_event_def envelope_ok_def typed_event_ok_def envelope_fields_def
    by (intro conjI exI [of _ EventTurnStarted])
       (simp_all add: sample_stored_def has_def validActor_def validSource_def event_type_of_def role_ok_def
          required_actor_def tank_sourced_def actor_is_def)
  moreover have "TrimSpace ''e1'' = ''e1''" "TrimSpace ''s1'' = ''s1''" "TrimSpace ''k1'' = ''k1''"
    "TrimSpace ''default'' = ''default''" by code_simp+
  ultimately show ?thesis
    by (simp add: storable_def ValidateEventMap_iff storage_key_of_def SessionStorageKey_def event_identity_def
        trimmed_at_def sample_stored_def)
qed

definition sample_ledger :: ledger where
  "sample_ledger = snd (Upsert ''default'' 0 sample_stored [])"

lemma sample_ledger_reach: "ledger_reach sample_ledger"
  unfolding sample_ledger_def by (intro ledger_reach.intros)

lemma sample_ledger_rows: "sample_ledger = [row_of ''default'' 0 sample_stored]"
  by (simp add: sample_ledger_def Upsert_storable sample_stored_storable insert_row_def identity_clash_def key_taken_def)


section \<open>The effect of a write\<close>

definition find_row :: "ledger \<Rightarrow> string \<Rightarrow> string \<Rightarrow> event_row option" where
  "find_row L sid key = find (same_key sid key) L"

lemma same_key_replace [simp]:
  "same_key sid key (if same_key (er_tank_session_id row) (er_order_key row) r
     then row\<lparr>er_created_at := t\<rparr> else r) = same_key sid key r"
  by (auto simp: same_key_def)

lemma find_row_replace:
  "find_row (replace_row row L) sid key =
     (if same_key sid key row then map_option (\<lambda>r. row\<lparr>er_created_at := er_created_at r\<rparr>) (find_row L sid key)
      else find_row L sid key)"
proof -
  have "find_row (replace_row row L) sid key = map_option (\<lambda>r. if same_key (er_tank_session_id row) (er_order_key row) r
      then row\<lparr>er_created_at := er_created_at r\<rparr> else r) (find_row L sid key)"
    unfolding find_row_def replace_row_def by (rule find_map_same) simp
  moreover have "same_key sid key r" if "find_row L sid key = Some r" for r
    using that by (auto simp: find_row_def find_Some_iff)
  ultimately show ?thesis
    by (cases "find_row L sid key") (auto simp: same_key_def)
qed

lemma find_row_append:
  "find_row (L @ [row]) sid key =
     (case find_row L sid key of Some r \<Rightarrow> Some r | None \<Rightarrow> if same_key sid key row then Some row else None)"
  by (simp add: find_row_def find_append split: option.split)

lemma key_taken_find: "key_taken row L \<longleftrightarrow> find_row L (er_tank_session_id row) (er_order_key row) \<noteq> None"
  by (auto simp: key_taken_def find_row_def find_None_iff)

text \<open>
  a write that reaches the table either finds the event's identity under another order key, and
  then changes nothing, or makes the document readable under its session and order key; it reports
  an insertion exactly when neither the key nor the identity was present, and it never changes
  or removes a row under another key.
\<close>

theorem Upsert_effect:
  assumes "storable scope e"
  shows "\<exists>inserted L'. Upsert scope now e L = (Inr inserted, L') \<and>
    (inserted \<longleftrightarrow> \<not> identity_clash (row_of scope now e) L \<and> \<not> key_taken (row_of scope now e) L) \<and>
    (identity_clash (row_of scope now e) L \<longrightarrow> L' = L) \<and>
    (\<not> identity_clash (row_of scope now e) L \<longrightarrow>
       map_option er_payload (find_row L' (storage_key_of scope e) (trimmed_at e ''order_key'')) =
         Some (json_doc (stored_doc scope e))) \<and>
    (\<forall>sid key. (sid, key) \<noteq> (storage_key_of scope e, trimmed_at e ''order_key'') \<longrightarrow>
       find_row L' sid key = find_row L sid key)"
proof -
  define row where "row = row_of scope now e"
  have row: "er_tank_session_id row = storage_key_of scope e" "er_order_key row = trimmed_at e ''order_key''"
    "er_payload row = json_doc (stored_doc scope e)" by (simp_all add: row_def row_of_def)
  have key: "same_key sid key row \<longleftrightarrow> (sid, key) = (storage_key_of scope e, trimmed_at e ''order_key'')" for sid key
    using row by (auto simp: same_key_def)
  show ?thesis
    using key_taken_find [of row L] row
    unfolding Upsert_storable [OF assms] row_def [symmetric]
    by (auto simp: insert_row_def find_row_replace find_row_append key split: option.split)
qed

theorem Upsert_effect_witness:
  "storable ''default'' sample_stored \<and>
   (\<exists>inserted L'. Upsert ''default'' 0 sample_stored [] = (Inr inserted, L') \<and> inserted)"
  using Upsert_effect [OF sample_stored_storable, of 0 "[]"] sample_stored_storable
  by (auto simp: identity_clash_def key_taken_def)

section \<open>Redelivery\<close>

lemma replace_row_again:
  assumes "\<forall>r\<in>set L. same_key (er_tank_session_id row) (er_order_key row) r \<longrightarrow> (\<exists>t. r = row\<lparr>er_created_at := t\<rparr>)"
  shows "replace_row (row\<lparr>er_created_at := t'\<rparr>) L = L"
  unfolding replace_row_def
proof (rule map_idI)
  fix r assume "r \<in> set L"
  then show "(if same_key (er_tank_session_id (row\<lparr>er_created_at := t'\<rparr>)) (er_order_key (row\<lparr>er_created_at := t'\<rparr>)) r
      then row\<lparr>er_created_at := t', er_created_at := er_created_at r\<rparr> else r) = r"
    using assms by auto
qed

lemma identity_clash_created [simp]: "identity_clash (row\<lparr>er_created_at := t\<rparr>) L = identity_clash row L"
  by (simp add: identity_clash_def)

lemma key_taken_created [simp]: "key_taken (row\<lparr>er_created_at := t\<rparr>) L = key_taken row L"
  by (simp add: key_taken_def)

lemma row_of_now: "row_of scope now' e = (row_of scope now e)\<lparr>er_created_at := now'\<rparr>"
  by (simp add: row_of_def)

lemma insert_row_redelivery:
  "insert_row (row\<lparr>er_created_at := t\<rparr>) (snd (insert_row row L)) = (False, snd (insert_row row L))"
proof -
  let ?L' = "snd (insert_row row L)"
  consider (clash) "identity_clash row L" | (taken) "\<not> identity_clash row L" "key_taken row L"
    | (fresh) "\<not> identity_clash row L" "\<not> key_taken row L" by blast
  then show ?thesis
  proof cases
    case clash
    then show ?thesis by (simp add: insert_row_def)
  next
    case taken
    have "\<not> identity_clash row (replace_row row L)"
      using taken by (auto simp: identity_clash_def dest!: replace_row_cases)
    moreover have "key_taken row (replace_row row L)"
      using taken by (simp add: key_taken_find find_row_replace same_key_def)
    moreover have "\<forall>r\<in>set (replace_row row L). same_key (er_tank_session_id row) (er_order_key row) r \<longrightarrow>
        (\<exists>t. r = row\<lparr>er_created_at := t\<rparr>)"
      by (auto simp: same_key_def dest!: replace_row_cases)
    ultimately show ?thesis using taken replace_row_again [of "replace_row row L" row t]
      by (simp add: insert_row_def)
  next
    case fresh
    have "\<not> identity_clash row (L @ [row])" using fresh by (simp add: identity_clash_def)
    moreover have "key_taken row (L @ [row])" by (simp add: key_taken_def same_key_def)
    moreover have "\<exists>t. row = row\<lparr>er_created_at := t\<rparr>" by (rule exI [of _ "er_created_at row"]) simp
    then have "\<forall>r\<in>set (L @ [row]). same_key (er_tank_session_id row) (er_order_key row) r \<longrightarrow>
        (\<exists>t. r = row\<lparr>er_created_at := t\<rparr>)"
      using fresh by (auto simp: key_taken_def)
    ultimately show ?thesis using fresh replace_row_again [of "L @ [row]" row t] by (simp add: insert_row_def)
  qed
qed

text \<open>
  delivering an event again, at any later time, reports that nothing was inserted and leaves the
  ledger exactly as the first delivery left it.
\<close>

theorem Upsert_redelivery:
  assumes "storable scope e"
  shows "Upsert scope now' e (snd (Upsert scope now e L)) = (Inr False, snd (Upsert scope now e L))"
  unfolding Upsert_storable [OF assms] using insert_row_redelivery [where t = now' and row = "row_of scope now e" and L = L]
  by (simp add: row_of_now [of scope now' e now])

theorem Upsert_redelivery_witness:
  "storable ''default'' sample_stored \<and>
   Upsert ''default'' 7 sample_stored sample_ledger = (Inr False, sample_ledger)"
  using Upsert_redelivery [OF sample_stored_storable, of 7 0 "[]"] sample_stored_storable
  by (simp add: sample_ledger_def)

end
