(* ===== verification/Session_Activity.thy ===== *)
theory Session_Activity
  imports Conversation
begin

text \<open>
  The fold from lifecycle events to the sidebar's activity summary
  (\<^verbatim>\<open>backend-go/internal/sessionactivity/activity.go\<close>). A \<^verbatim>\<open>*string\<close> is a \<open>string option\<close>. One
  step of the loop of \<open>DeriveActivitySummaryWithStats\<close> is \<open>activity_step\<close>, over a record of the
  loop's local variables. The theory shows that the summary is always consistent, that a finished
  turn is never reopened by its late events, and what the fold reports last.
\<close>

section \<open>Summaries\<close>

record ActivitySummary =
  as_Status :: string
  as_ActiveTurnID :: "string option"
  as_NeedsInput :: bool
  as_Failed :: bool
  as_AwayError :: bool
  as_LastOrderKey :: "string option"
  as_UnreadCount :: int
  as_UpdatedAt :: "string option"

record ActivityFoldStats =
  st_LateInterruptIgnoredStatuses :: "string list"
  st_BackgroundWorkPending :: bool

definition zero_summary :: "string \<Rightarrow> ActivitySummary" where
  "zero_summary status =
     \<lparr>as_Status = status, as_ActiveTurnID = None, as_NeedsInput = False, as_Failed = False,
      as_AwayError = False, as_LastOrderKey = None, as_UnreadCount = 0, as_UpdatedAt = None\<rparr>"

section \<open>Event fields\<close>

definition firstStringField :: "gomap \<Rightarrow> string list \<Rightarrow> string" where
  "firstStringField m keys =
     (case find (\<lambda>k. trimmed_at m k \<noteq> []) keys of Some k \<Rightarrow> trimmed_at m k | None \<Rightarrow> [])"

definition optionalStringField :: "gomap \<Rightarrow> string \<Rightarrow> string option" where
  "optionalStringField m key = (if trimmed_at m key \<noteq> [] then Some (trimmed_at m key) else None)"

definition canTransitionToStopping :: "string \<Rightarrow> bool" where
  "canTransitionToStopping status \<longleftrightarrow>
     status \<in> {''submitted'', ''claimed'', ''streaming'', ''needs_input'', ''stopping''}"

definition AwayErrorReasonScheduledWakeup :: string where
  "AwayErrorReasonScheduledWakeup = ''schedule_wakeup_fire_failed''"

definition AwayErrorReasonBackgroundTaskWake :: string where
  "AwayErrorReasonBackgroundTaskWake = ''background_task_wake_fire_failed''"

definition AwayErrorReasonStrandedContinuation :: string where
  "AwayErrorReasonStrandedContinuation = ''stranded_continuation_swept''"

definition isAwayErrorReason :: "string \<Rightarrow> bool" where
  "isAwayErrorReason reason \<longleftrightarrow>
     TrimSpace reason \<in>
       {AwayErrorReasonScheduledWakeup, AwayErrorReasonBackgroundTaskWake, AwayErrorReasonStrandedContinuation}"

definition terminalReason :: "gomap \<Rightarrow> string" where
  "terminalReason event =
     (case as_map (mget event ''payload'') of None \<Rightarrow> [] | Some payload \<Rightarrow> TrimSpace (string_at payload ''reason''))"

definition backgroundWorkPendingField :: "gomap \<Rightarrow> bool" where
  "backgroundWorkPendingField event =
     (case as_map (mget event ''payload'') of
        None \<Rightarrow> False
      | Some payload \<Rightarrow>
          (case as_bool (mget payload ''background_work_pending'') of None \<Rightarrow> False | Some b \<Rightarrow> b))"

section \<open>The fold\<close>

record fold_state =
  fs_out :: ActivitySummary
  fs_late :: "string list"
  fs_terminalTurns :: "string list"
  fs_bgPending :: bool

text \<open>The order key and the time stamp are taken from every event before the switch.\<close>

definition note_event :: "gomap \<Rightarrow> ActivitySummary \<Rightarrow> ActivitySummary" where
  "note_event event out =
     (let out = (if trimmed_at event ''order_key'' \<noteq> []
                 then out\<lparr>as_LastOrderKey := Some (trimmed_at event ''order_key'')\<rparr> else out);
          updatedAt = firstStringField event [''created_at'', ''written_at'', ''timestamp'', ''time'']
      in if updatedAt \<noteq> [] then out\<lparr>as_UpdatedAt := Some updatedAt\<rparr> else out)"

definition open_turn :: "string \<Rightarrow> bool \<Rightarrow> gomap \<Rightarrow> ActivitySummary \<Rightarrow> ActivitySummary" where
  "open_turn status needsInput event out =
     out\<lparr>as_Status := status,
         as_ActiveTurnID := (case optionalStringField event ''turn_id'' of
                               Some i \<Rightarrow> Some i | None \<Rightarrow> as_ActiveTurnID out),
         as_NeedsInput := needsInput, as_Failed := False\<rparr>"

definition close_turn :: "string \<Rightarrow> bool \<Rightarrow> ActivitySummary \<Rightarrow> ActivitySummary" where
  "close_turn status failed out =
     out\<lparr>as_Status := status, as_ActiveTurnID := None, as_NeedsInput := False, as_Failed := failed\<rparr>"

definition activity_step :: "gomap \<Rightarrow> fold_state \<Rightarrow> fold_state" where
  "activity_step event st =
     (let out = note_event event (fs_out st);
          st = st\<lparr>fs_out := out\<rparr>;
          ty = trimmed_at event ''type'';
          turn = trimmed_at event ''turn_id'';
          finished = turn \<in> set (fs_terminalTurns st);
          ends = st\<lparr>fs_terminalTurns := turn # fs_terminalTurns st\<rparr>
      in if ty = event_wire EventTurnSubmitted
         then (if finished then st else st\<lparr>fs_out := open_turn ''submitted'' False event out\<rparr>)
         else if ty = event_wire EventTurnClaimed
         then (if finished then st else st\<lparr>fs_out := open_turn ''claimed'' False event out\<rparr>)
         else if ty = event_wire EventTurnStarted
         then (if finished then st else st\<lparr>fs_out := open_turn ''streaming'' False event out\<rparr>)
         else if ty = event_wire EventTurnCompleted
         then ends\<lparr>fs_out := close_turn ''ready'' False out, fs_bgPending := backgroundWorkPendingField event\<rparr>
         else if ty = event_wire EventTurnFailed \<or> ty = event_wire EventTurnCommandFailed
         then ends\<lparr>fs_out := (close_turn ''error'' True out)
                     \<lparr>as_AwayError := isAwayErrorReason (terminalReason event)\<rparr>\<rparr>
         else if ty = event_wire EventTurnInterruptRequested
         then (if canTransitionToStopping (as_Status out)
               then st\<lparr>fs_out := out\<lparr>as_Status := ''stopping'', as_NeedsInput := False, as_Failed := False\<rparr>\<rparr>
               else st\<lparr>fs_late := fs_late st @ [as_Status out]\<rparr>)
         else if ty = event_wire EventTurnInterrupted
         then ends\<lparr>fs_out := close_turn ''stopped'' False out\<rparr>
         else if ty = event_wire EventTurnAwaitingInput
         then st\<lparr>fs_out := open_turn ''needs_input'' True event out\<rparr>
         else if ty = event_wire EventTurnInputAnswered
         then st\<lparr>fs_out := close_turn ''ready'' False out, fs_bgPending := False\<rparr>
         else st)"

definition fold_init :: "ActivitySummary option \<Rightarrow> fold_state" where
  "fold_init prior =
     \<lparr>fs_out = (case prior of Some p \<Rightarrow> p | None \<Rightarrow> zero_summary ''ready''),
      fs_late = [], fs_terminalTurns = [], fs_bgPending = False\<rparr>"

definition fold_finish :: "int \<Rightarrow> bool \<Rightarrow> fold_state \<Rightarrow> ActivitySummary \<times> ActivityFoldStats" where
  "fold_finish unreadCount failedFromPod st =
     (let out = fs_out st;
          stats = \<lparr>st_LateInterruptIgnoredStatuses = fs_late st,
                   st_BackgroundWorkPending = (as_Status out = ''ready'' \<and> fs_bgPending st)\<rparr>;
          out = out\<lparr>as_UnreadCount := unreadCount\<rparr>;
          out = (if failedFromPod
                 then (if as_Status out \<noteq> ''error'' \<and> as_Status out \<noteq> ''needs_input''
                       then out\<lparr>as_Failed := True, as_Status := ''error''\<rparr>
                       else out\<lparr>as_Failed := True\<rparr>)
                 else out);
          out = (if as_Status out \<noteq> ''error'' then out\<lparr>as_AwayError := False\<rparr> else out)
      in (out, stats))"

definition DeriveActivitySummaryWithStats ::
  "ActivitySummary option \<Rightarrow> gomap list \<Rightarrow> int \<Rightarrow> bool \<Rightarrow> ActivitySummary \<times> ActivityFoldStats" where
  "DeriveActivitySummaryWithStats prior events unreadCount failedFromPod =
     fold_finish unreadCount failedFromPod (fold activity_step events (fold_init prior))"

definition DeriveActivitySummary ::
  "ActivitySummary option \<Rightarrow> gomap list \<Rightarrow> int \<Rightarrow> bool \<Rightarrow> ActivitySummary" where
  "DeriveActivitySummary prior events unreadCount failedFromPod =
     fst (DeriveActivitySummaryWithStats prior events unreadCount failedFromPod)"

definition ActivitySummariesEqual :: "ActivitySummary \<Rightarrow> ActivitySummary \<Rightarrow> bool" where
  "ActivitySummariesEqual a b \<longleftrightarrow>
     (if as_Status a \<noteq> as_Status b then False
      else if as_ActiveTurnID a \<noteq> as_ActiveTurnID b then False
      else if as_NeedsInput a \<noteq> as_NeedsInput b then False
      else if as_Failed a \<noteq> as_Failed b then False
      else if as_AwayError a \<noteq> as_AwayError b then False
      else if as_LastOrderKey a \<noteq> as_LastOrderKey b then False
      else if as_UnreadCount a \<noteq> as_UnreadCount b then False
      else True)"

section \<open>Delta classes\<close>

definition LifecycleChatEventTypes :: "string list" where
  "LifecycleChatEventTypes =
     map event_wire
       [EventTurnSubmitted, EventTurnClaimed, EventTurnStarted, EventTurnCompleted, EventTurnFailed,
        EventTurnCommandFailed, EventTurnInterruptRequested, EventTurnInterrupted, EventTurnAwaitingInput,
        EventTurnInputAnswered]"

definition IsLifecycleChatEventType :: "string \<Rightarrow> bool" where
  "IsLifecycleChatEventType eventType \<longleftrightarrow> eventType \<in> set LifecycleChatEventTypes"

text \<open>The class constants; the empty class of the source is \<open>None\<close>.\<close>

datatype activity_class = ActivityClassLifecycle | ActivityClassCompaction | ActivityClassUserMessage

definition ChatActivityDeltaClass :: "string \<Rightarrow> activity_class option" where
  "ChatActivityDeltaClass eventType =
     (if eventType = event_wire EventContextCompacted then Some ActivityClassCompaction
      else if eventType = event_wire EventUserMessageCreated then Some ActivityClassUserMessage
      else if IsLifecycleChatEventType eventType then Some ActivityClassLifecycle
      else None)"

section \<open>One step, by event type\<close>

named_theorems step_by_type "the step of the fold on an event of a given type"

lemma step_submitted [step_by_type]:
  "trimmed_at e ''type'' = ''turn.submitted'' \<Longrightarrow> activity_step e st =
     (if trimmed_at e ''turn_id'' \<in> set (fs_terminalTurns st) then st\<lparr>fs_out := note_event e (fs_out st)\<rparr>
      else st\<lparr>fs_out := open_turn ''submitted'' False e (note_event e (fs_out st))\<rparr>)"
  by (simp add: activity_step_def Let_def)

lemma step_claimed [step_by_type]:
  "trimmed_at e ''type'' = ''turn.claimed'' \<Longrightarrow> activity_step e st =
     (if trimmed_at e ''turn_id'' \<in> set (fs_terminalTurns st) then st\<lparr>fs_out := note_event e (fs_out st)\<rparr>
      else st\<lparr>fs_out := open_turn ''claimed'' False e (note_event e (fs_out st))\<rparr>)"
  by (simp add: activity_step_def Let_def)

lemma step_started [step_by_type]:
  "trimmed_at e ''type'' = ''turn.started'' \<Longrightarrow> activity_step e st =
     (if trimmed_at e ''turn_id'' \<in> set (fs_terminalTurns st) then st\<lparr>fs_out := note_event e (fs_out st)\<rparr>
      else st\<lparr>fs_out := open_turn ''streaming'' False e (note_event e (fs_out st))\<rparr>)"
  by (simp add: activity_step_def Let_def)

lemma step_completed [step_by_type]:
  "trimmed_at e ''type'' = ''turn.completed'' \<Longrightarrow> activity_step e st =
     st\<lparr>fs_terminalTurns := trimmed_at e ''turn_id'' # fs_terminalTurns st,
        fs_out := close_turn ''ready'' False (note_event e (fs_out st)),
        fs_bgPending := backgroundWorkPendingField e\<rparr>"
  by (simp add: activity_step_def Let_def)

lemma step_failed [step_by_type]:
  "trimmed_at e ''type'' = ''turn.failed'' \<or> trimmed_at e ''type'' = ''turn.command_failed'' \<Longrightarrow> activity_step e st =
     st\<lparr>fs_terminalTurns := trimmed_at e ''turn_id'' # fs_terminalTurns st,
        fs_out := (close_turn ''error'' True (note_event e (fs_out st)))
          \<lparr>as_AwayError := isAwayErrorReason (terminalReason e)\<rparr>\<rparr>"
  by (elim disjE) (simp_all add: activity_step_def Let_def)

lemma step_interrupt_requested [step_by_type]:
  "trimmed_at e ''type'' = ''turn.interrupt_requested'' \<Longrightarrow> activity_step e st =
     (let out = note_event e (fs_out st)
      in if canTransitionToStopping (as_Status out)
         then st\<lparr>fs_out := out\<lparr>as_Status := ''stopping'', as_NeedsInput := False, as_Failed := False\<rparr>\<rparr>
         else st\<lparr>fs_out := out, fs_late := fs_late st @ [as_Status out]\<rparr>)"
  by (simp add: activity_step_def Let_def)

lemma step_interrupted [step_by_type]:
  "trimmed_at e ''type'' = ''turn.interrupted'' \<Longrightarrow> activity_step e st =
     st\<lparr>fs_terminalTurns := trimmed_at e ''turn_id'' # fs_terminalTurns st,
        fs_out := close_turn ''stopped'' False (note_event e (fs_out st))\<rparr>"
  by (simp add: activity_step_def Let_def)

lemma step_awaiting_input [step_by_type]:
  "trimmed_at e ''type'' = ''turn.awaiting_input'' \<Longrightarrow> activity_step e st =
     st\<lparr>fs_out := open_turn ''needs_input'' True e (note_event e (fs_out st))\<rparr>"
  by (simp add: activity_step_def Let_def)

lemma step_input_answered [step_by_type]:
  "trimmed_at e ''type'' = ''turn.input_answered'' \<Longrightarrow> activity_step e st =
     st\<lparr>fs_out := close_turn ''ready'' False (note_event e (fs_out st)), fs_bgPending := False\<rparr>"
  by (simp add: activity_step_def Let_def)

lemma step_inert [step_by_type]:
  assumes "\<not> IsLifecycleChatEventType (trimmed_at e ''type'')"
  shows "activity_step e st = st\<lparr>fs_out := note_event e (fs_out st)\<rparr>"
  using assms
  by (simp add: activity_step_def Let_def IsLifecycleChatEventType_def LifecycleChatEventTypes_def)

lemma lifecycle_types:
  "set LifecycleChatEventTypes = {''turn.submitted'', ''turn.claimed'', ''turn.started'', ''turn.completed'',
     ''turn.failed'', ''turn.command_failed'', ''turn.interrupt_requested'', ''turn.interrupted'',
     ''turn.awaiting_input'', ''turn.input_answered''}"
  by (simp add: LifecycleChatEventTypes_def)

lemma lifecycle_cases:
  obtains (other) "\<not> IsLifecycleChatEventType ty"
  | (submitted) "ty = ''turn.submitted''" | (claimed) "ty = ''turn.claimed''" | (started) "ty = ''turn.started''"
  | (completed) "ty = ''turn.completed''" | (failed) "ty = ''turn.failed'' \<or> ty = ''turn.command_failed''"
  | (requested) "ty = ''turn.interrupt_requested''" | (interrupted) "ty = ''turn.interrupted''"
  | (awaiting) "ty = ''turn.awaiting_input''" | (answered) "ty = ''turn.input_answered''"
proof (cases "IsLifecycleChatEventType ty")
  case True
  then show thesis
    unfolding IsLifecycleChatEventType_def lifecycle_types using that by (elim insertE emptyE) blast+
qed (rule other)

section \<open>The summary is consistent\<close>

text \<open>
  What the sidebar relies on: the status is a known one, the input flag and the needs-input status
  agree, an idle status has no active turn, and the failure flags belong to the error status.
\<close>

definition idle_statuses :: "string set" where
  "idle_statuses = {''ready'', ''error'', ''stopped''}"

definition active_statuses :: "string set" where
  "active_statuses = {''submitted'', ''claimed'', ''streaming'', ''needs_input'', ''stopping''}"

definition summary_ok :: "ActivitySummary \<Rightarrow> bool" where
  "summary_ok s \<longleftrightarrow>
     as_Status s \<in> idle_statuses \<union> active_statuses \<and>
     (as_NeedsInput s \<longleftrightarrow> as_Status s = ''needs_input'') \<and>
     (as_Failed s \<longleftrightarrow> as_Status s = ''error'') \<and>
     (as_Status s \<in> idle_statuses \<longrightarrow> as_ActiveTurnID s = None)"

lemmas status_sets = idle_statuses_def active_statuses_def

lemma note_event_fields [simp]:
  "as_Status (note_event e out) = as_Status out"
  "as_ActiveTurnID (note_event e out) = as_ActiveTurnID out"
  "as_NeedsInput (note_event e out) = as_NeedsInput out"
  "as_Failed (note_event e out) = as_Failed out"
  "as_AwayError (note_event e out) = as_AwayError out"
  by (simp_all add: note_event_def Let_def)

lemma summary_ok_note [simp]: "summary_ok (note_event e out) = summary_ok out"
  by (simp add: summary_ok_def)

lemma summary_ok_open:
  "status \<in> active_statuses \<Longrightarrow> n = (status = ''needs_input'') \<Longrightarrow> summary_ok (open_turn status n e out)"
  by (auto simp: summary_ok_def open_turn_def status_sets)

lemma summary_ok_close:
  "status \<in> idle_statuses \<Longrightarrow> b = (status = ''error'') \<Longrightarrow> summary_ok (close_turn status b out)"
  by (auto simp: summary_ok_def close_turn_def status_sets)

lemma summary_ok_stopping:
  "summary_ok out \<Longrightarrow> summary_ok (out\<lparr>as_Status := ''stopping'', as_NeedsInput := False, as_Failed := False\<rparr>)"
  by (simp add: summary_ok_def status_sets)

lemma summary_ok_away [simp]: "summary_ok (out\<lparr>as_AwayError := b\<rparr>) = summary_ok out"
  by (simp add: summary_ok_def)

lemma activity_step_ok: "summary_ok (fs_out st) \<Longrightarrow> summary_ok (fs_out (activity_step e st))"
  by (cases "trimmed_at e ''type''" rule: lifecycle_cases)
     (simp_all add: step_by_type Let_def summary_ok_open summary_ok_close summary_ok_stopping status_sets)

lemma fold_activity_ok: "summary_ok (fs_out st) \<Longrightarrow> summary_ok (fs_out (fold activity_step es st))"
  by (induction es arbitrary: st) (simp_all add: activity_step_ok)

lemma fold_init_ok: "(case prior of None \<Rightarrow> True | Some p \<Rightarrow> summary_ok p) \<Longrightarrow> summary_ok (fs_out (fold_init prior))"
  by (auto simp: fold_init_def zero_summary_def summary_ok_def status_sets split: option.splits)

text \<open>
  starting from no summary or from a consistent one, the fold returns a consistent summary when
  the pod is healthy; when the pod has failed the summary is marked failed and shows the error status,
  unless the agent is waiting for the user. In both cases the input flag and the needs-input status
  agree, the away-error mark occurs in the error status only, and the unread count is the one passed in.
\<close>

theorem DeriveActivitySummary_consistent:
  assumes "case prior of None \<Rightarrow> True | Some p \<Rightarrow> summary_ok p"
  shows "let s = DeriveActivitySummary prior events unreadCount failedFromPod in
    (\<not> failedFromPod \<longrightarrow> summary_ok s) \<and>
    (failedFromPod \<longrightarrow> as_Failed s \<and> as_Status s \<in> {''error'', ''needs_input''}) \<and>
    (as_NeedsInput s \<longleftrightarrow> as_Status s = ''needs_input'') \<and>
    (as_AwayError s \<longrightarrow> as_Status s = ''error'') \<and> as_UnreadCount s = unreadCount"
proof -
  define r where "r = fs_out (fold activity_step events (fold_init prior))"
  have "summary_ok r" unfolding r_def by (intro fold_activity_ok fold_init_ok assms(1))
  then show ?thesis
    unfolding DeriveActivitySummary_def DeriveActivitySummaryWithStats_def fold_finish_def Let_def
    by (auto simp: r_def [symmetric] summary_ok_def status_sets)
qed

definition sample_event :: "string \<Rightarrow> string \<Rightarrow> string \<Rightarrow> gomap" where
  "sample_event ty turn key =
     [(''type'', GStr ty), (''turn_id'', GStr turn), (''order_key'', GStr key),
      (''payload'', GMap [(''reason'', GStr ''schedule_wakeup_fire_failed'')])]"

lemma sample_event_fields:
  "trimmed_at (sample_event ty turn key) ''type'' = TrimSpace ty"
  "trimmed_at (sample_event ty turn key) ''turn_id'' = TrimSpace turn"
  "trimmed_at (sample_event ty turn key) ''order_key'' = TrimSpace key"
  "mget (sample_event ty turn key) ''payload'' = Some (GMap [(''reason'', GStr ''schedule_wakeup_fire_failed'')])"
  by (simp_all add: sample_event_def trimmed_at_def)

lemma sample_trims:
  "TrimSpace ''turn.submitted'' = ''turn.submitted''" "TrimSpace ''turn.claimed'' = ''turn.claimed''"
  "TrimSpace ''turn.completed'' = ''turn.completed''" "TrimSpace ''turn.command_failed'' = ''turn.command_failed''"
  "TrimSpace ''turn.interrupt_requested'' = ''turn.interrupt_requested''"
  "TrimSpace ''t1'' = ''t1''" "TrimSpace ''t2'' = ''t2''"
  "TrimSpace ''schedule_wakeup_fire_failed'' = ''schedule_wakeup_fire_failed''"
  by code_simp+

theorem DeriveActivitySummary_consistent_witness:
  "summary_ok (zero_summary ''ready'') \<and>
   summary_ok (DeriveActivitySummary (Some (zero_summary ''ready''))
     [sample_event ''turn.submitted'' ''t1'' ''k1'', sample_event ''turn.awaiting_input'' ''t1'' ''k2''] 4 False) \<and>
   as_UnreadCount (DeriveActivitySummary (Some (zero_summary ''ready''))
     [sample_event ''turn.submitted'' ''t1'' ''k1'', sample_event ''turn.awaiting_input'' ''t1'' ''k2''] 4 False) = 4"
proof -
  have "summary_ok (zero_summary ''ready'')" by (simp add: summary_ok_def zero_summary_def status_sets)
  then show ?thesis
    using DeriveActivitySummary_consistent [of "Some (zero_summary ''ready'')"
        "[sample_event ''turn.submitted'' ''t1'' ''k1'', sample_event ''turn.awaiting_input'' ''t1'' ''k2'']" 4 False]
    by (simp add: Let_def)
qed

section \<open>Finished turns stay finished\<close>

text \<open>The part of a summary that the pill and its badges show.\<close>

definition pill :: "ActivitySummary \<Rightarrow> string \<times> string option \<times> bool \<times> bool \<times> bool" where
  "pill s = (as_Status s, as_ActiveTurnID s, as_NeedsInput s, as_Failed s, as_AwayError s)"

definition fold_pill :: "fold_state \<Rightarrow> (string \<times> string option \<times> bool \<times> bool \<times> bool) \<times> bool" where
  "fold_pill st = (pill (fs_out st), fs_bgPending st)"

lemma pill_note [simp]: "pill (note_event e out) = pill out"
  by (simp add: pill_def)

lemma fold_finish_pill:
  assumes "fold_pill a = fold_pill b"
  shows "pill (fst (fold_finish u p a)) = pill (fst (fold_finish u p b))"
  using assms by (auto simp: fold_pill_def pill_def fold_finish_def Let_def)

text \<open>An event that arrives late for turn \<open>turn\<close>: a progress event of that turn, a stop request, or an
  event the fold does not react to.\<close>

definition late_event :: "string \<Rightarrow> gomap \<Rightarrow> bool" where
  "late_event turn e \<longleftrightarrow>
     (trimmed_at e ''turn_id'' = turn \<and>
      trimmed_at e ''type'' \<in> set (map event_wire [EventTurnSubmitted, EventTurnClaimed, EventTurnStarted])) \<or>
     trimmed_at e ''type'' = event_wire EventTurnInterruptRequested \<or>
     \<not> IsLifecycleChatEventType (trimmed_at e ''type'')"

definition finished_in :: "string \<Rightarrow> fold_state \<Rightarrow> bool" where
  "finished_in turn st \<longleftrightarrow> turn \<in> set (fs_terminalTurns st) \<and> as_Status (fs_out st) \<in> idle_statuses"

lemma step_late:
  assumes "late_event turn e" "finished_in turn st"
  shows "finished_in turn (activity_step e st) \<and> fold_pill (activity_step e st) = fold_pill st"
proof (cases "IsLifecycleChatEventType (trimmed_at e ''type'')")
  case False
  then show ?thesis using assms(2) by (simp add: step_inert finished_in_def fold_pill_def)
next
  case True
  then have "trimmed_at e ''turn_id'' = turn \<and>
      trimmed_at e ''type'' \<in> {''turn.submitted'', ''turn.claimed'', ''turn.started''} \<or>
    trimmed_at e ''type'' = ''turn.interrupt_requested''"
    using assms(1) by (auto simp: late_event_def)
  then show ?thesis
    using assms(2)
    by (elim disjE conjE insertE emptyE)
       (auto simp: step_by_type Let_def finished_in_def fold_pill_def canTransitionToStopping_def status_sets)
qed

lemma fold_late:
  "\<forall>e\<in>set late. late_event turn e \<Longrightarrow> finished_in turn st \<Longrightarrow> fold_pill (fold activity_step late st) = fold_pill st"
proof (induction late arbitrary: st)
  case (Cons e late)
  then have "finished_in turn (activity_step e st) \<and> fold_pill (activity_step e st) = fold_pill st"
    by (intro step_late) auto
  then show ?case using Cons by simp
qed simp

lemma step_terminal:
  assumes "IsTurnTerminalEvent (trimmed_at e ''type'')"
  shows "finished_in (trimmed_at e ''turn_id'') (activity_step e st)"
proof -
  have "trimmed_at e ''type'' \<in> {''turn.completed'', ''turn.failed'', ''turn.command_failed'', ''turn.interrupted''}"
    using assms by (simp add: IsTurnTerminalEvent_def)
  then show ?thesis
    by (elim insertE emptyE)
       (simp_all add: step_by_type finished_in_def close_turn_def status_sets)
qed

text \<open>
  C38: once the terminal event of a turn has been folded, progress events of the same turn, stop
  requests and events outside the lifecycle that follow it leave the pill as it is: status, active
  turn, input, failure and away-error marks do not change, so a finished turn is never reopened.
\<close>

theorem finished_turn_stays_finished:
  assumes "IsTurnTerminalEvent (trimmed_at e ''type'')"
    and "\<forall>l\<in>set late. late_event (trimmed_at e ''turn_id'') l"
  shows "pill (DeriveActivitySummary prior (es @ e # late) u p) = pill (DeriveActivitySummary prior (es @ [e]) u p)"
proof -
  let ?st = "activity_step e (fold activity_step es (fold_init prior))"
  have "fold_pill (fold activity_step late ?st) = fold_pill ?st"
    by (rule fold_late [OF assms(2) step_terminal [OF assms(1)]])
  then show ?thesis
    using fold_finish_pill [of "fold activity_step late ?st" ?st u p]
    by (simp add: DeriveActivitySummary_def DeriveActivitySummaryWithStats_def)
qed

theorem finished_turn_stays_finished_witness:
  "pill (DeriveActivitySummary None
     ([sample_event ''turn.started'' ''t1'' ''k1''] @ sample_event ''turn.completed'' ''t1'' ''k2'' #
      [sample_event ''turn.claimed'' ''t1'' ''k3'', sample_event ''turn.interrupt_requested'' ''t1'' ''k4'']) 0 False) =
   pill (DeriveActivitySummary None
     ([sample_event ''turn.started'' ''t1'' ''k1''] @ [sample_event ''turn.completed'' ''t1'' ''k2'']) 0 False)"
proof (rule finished_turn_stays_finished)
  show "IsTurnTerminalEvent (trimmed_at (sample_event ''turn.completed'' ''t1'' ''k2'') ''type'')"
    by (simp add: sample_event_fields sample_trims IsTurnTerminalEvent_def)
  show "\<forall>l\<in>set [sample_event ''turn.claimed'' ''t1'' ''k3'', sample_event ''turn.interrupt_requested'' ''t1'' ''k4''].
      late_event (trimmed_at (sample_event ''turn.completed'' ''t1'' ''k2'') ''turn_id'') l"
    by (simp add: sample_event_fields sample_trims late_event_def)
qed

section \<open>The allow list is complete\<close>

lemma fold_pill_note: "fold_pill (st\<lparr>fs_out := note_event e (fs_out st)\<rparr>) = fold_pill st"
  by (simp add: fold_pill_def)

definition same_view :: "fold_state \<Rightarrow> fold_state \<Rightarrow> bool" where
  "same_view a b \<longleftrightarrow> fold_pill a = fold_pill b \<and> fs_terminalTurns a = fs_terminalTurns b"

lemma step_same_view: "same_view a b \<Longrightarrow> same_view (activity_step e a) (activity_step e b)"
  by (cases "trimmed_at e ''type''" rule: lifecycle_cases)
     (simp_all add: step_by_type Let_def same_view_def fold_pill_def pill_def open_turn_def close_turn_def
       split: option.split)

lemma step_inert_view:
  "\<not> IsLifecycleChatEventType (trimmed_at e ''type'') \<Longrightarrow> same_view a b \<Longrightarrow> same_view (activity_step e a) b"
  by (simp add: step_inert same_view_def fold_pill_def)

lemma fold_filter_view:
  "same_view a b \<Longrightarrow>
   same_view (fold activity_step es a)
     (fold activity_step (filter (\<lambda>e. IsLifecycleChatEventType (trimmed_at e ''type'')) es) b)"
  by (induction es arbitrary: a b) (auto intro: step_same_view step_inert_view)

text \<open>
  the lifecycle allow list covers every event the fold reacts to: folding only the allow-listed
  events of a history shows the same pill as folding the whole history, and the classifier's
  lifecycle class is exactly that allow list.
\<close>

theorem lifecycle_allow_list_complete:
  "pill (DeriveActivitySummary prior (filter (\<lambda>e. IsLifecycleChatEventType (trimmed_at e ''type'')) es) u p) =
     pill (DeriveActivitySummary prior es u p) \<and>
   (ChatActivityDeltaClass ty = Some ActivityClassLifecycle) = IsLifecycleChatEventType ty"
proof
  have "same_view (fold_init prior) (fold_init prior)" by (simp add: same_view_def)
  from fold_filter_view [OF this, of es] have "fold_pill (fold activity_step
      (filter (\<lambda>e. IsLifecycleChatEventType (trimmed_at e ''type'')) es) (fold_init prior)) =
    fold_pill (fold activity_step es (fold_init prior))" by (simp add: same_view_def)
  from fold_finish_pill [OF this, of u p] show "pill (DeriveActivitySummary prior
      (filter (\<lambda>e. IsLifecycleChatEventType (trimmed_at e ''type'')) es) u p) = pill (DeriveActivitySummary prior es u p)"
    by (simp add: DeriveActivitySummary_def DeriveActivitySummaryWithStats_def)
  show "(ChatActivityDeltaClass ty = Some ActivityClassLifecycle) = IsLifecycleChatEventType ty"
    by (auto simp: ChatActivityDeltaClass_def IsLifecycleChatEventType_def LifecycleChatEventTypes_def)
qed

section \<open>The away-error mark\<close>

text \<open>
  the away-error mark of a broken self-resume is kept across a later turn that completed: when the
  pod has failed by the end of the fold, the summary reports the away error although the session had
  moved off the error status, while with a healthy pod the same history clears the mark.
\<close>

theorem away_error_stale_after_recovery:
  "let es = [sample_event ''turn.command_failed'' ''t1'' ''k1'', sample_event ''turn.submitted'' ''t2'' ''k2'',
             sample_event ''turn.completed'' ''t2'' ''k3'']
   in as_AwayError (DeriveActivitySummary None es 0 True) \<and>
      \<not> as_AwayError (DeriveActivitySummary None es 0 False) \<and>
      as_Status (DeriveActivitySummary None es 0 False) = ''ready''"
proof -
  define e1 e2 e3 where "e1 = sample_event ''turn.command_failed'' ''t1'' ''k1''"
    and "e2 = sample_event ''turn.submitted'' ''t2'' ''k2''" and "e3 = sample_event ''turn.completed'' ''t2'' ''k3''"
  note fs = sample_event_fields sample_trims
  let ?a = "activity_step e1 (fold_init None)"
  have a: "as_Status (fs_out ?a) = ''error''" "as_AwayError (fs_out ?a)" "fs_terminalTurns ?a = [''t1'']"
    by (simp_all add: step_by_type e1_def fs fold_init_def close_turn_def isAwayErrorReason_def
        terminalReason_def AwayErrorReasonScheduledWakeup_def)
  let ?b = "activity_step e2 ?a"
  have b: "as_Status (fs_out ?b) = ''submitted''" "as_AwayError (fs_out ?b)"
    using a step_submitted [of e2 ?a] by (simp_all add: e2_def fs open_turn_def)
  let ?c = "activity_step e3 ?b"
  have "as_Status (fs_out ?c) = ''ready''" "as_AwayError (fs_out ?c)"
    using b step_completed [of e3 ?b] by (simp_all add: e3_def fs close_turn_def)
  then show ?thesis
    by (simp add: DeriveActivitySummary_def DeriveActivitySummaryWithStats_def fold_finish_def Let_def
        e1_def e2_def e3_def)
qed

end
