(* ===== verification/Session_Events.thy ===== *)
theory Session_Events
  imports Session_Ledger Session_Activity
begin

text \<open>
  The read paths of the event store (\<^verbatim>\<open>internal/store/session_events.go\<close>): pages of a session and of
  a turn, the terminal of a turn, the lifecycle window, unread counts, and the cross-session scans
  that back the stranded-turn sweeps. Each query is the function of the table that its SQL
  denotes. Postgres orders text by the collation of the database, so the order \<open>le\<close> of the keys is
  an argument, with the laws of the locale \<open>collation\<close>; \<open>render\<close> is Postgres' text form of a JSON
  value that is not a string.
\<close>

section \<open>Event types\<close>

definition LifecycleEventTypes :: "string list" where
  "LifecycleEventTypes =
     [''turn.submitted'', ''turn.claimed'', ''turn.started'', ''turn.completed'', ''turn.failed'',
      ''turn.command_failed'', ''turn.interrupt_requested'', ''turn.interrupted'', ''turn.awaiting_input'',
      ''turn.input_answered'']"

definition UnreadOutputItemTypes :: "string list" where
  "UnreadOutputItemTypes =
     [''item.started'', ''item.completed'', ''item.failed'', ''shell_task.started'', ''shell_task.updated'',
      ''shell_task.exited'']"

definition UnreadOutputTurnTypes :: "string list" where
  "UnreadOutputTurnTypes = [''turn.failed'', ''turn.command_failed'', ''turn.interrupted'', ''turn.awaiting_input'']"

definition runnerProgressEventTypes :: "string list" where
  "runnerProgressEventTypes =
     [''turn.claimed'', ''turn.started'', ''turn.usage'', ''turn.awaiting_input'', ''assistant_message.created'',
      ''item.started'', ''item.completed'', ''item.failed'', ''shell_task.started'', ''shell_task.updated'',
      ''shell_task.exited'', ''context.compacted'']"

definition type_in :: "string list \<Rightarrow> event_row \<Rightarrow> bool" where
  "type_in types r = (case er_event_type r of None \<Rightarrow> False | Some t \<Rightarrow> t \<in> set types)"

section \<open>Selecting rows\<close>

definition key_lt :: "(string \<Rightarrow> string \<Rightarrow> bool) \<Rightarrow> string \<Rightarrow> string \<Rightarrow> bool" where
  "key_lt le a b \<longleftrightarrow> le a b \<and> a \<noteq> b"

text \<open>\<^verbatim>\<open>WHERE tank_session_id = sid AND p ORDER BY order_key ASC\<close>\<close>

definition rows_asc :: "(string \<Rightarrow> string \<Rightarrow> bool) \<Rightarrow> string \<Rightarrow> (event_row \<Rightarrow> bool) \<Rightarrow> ledger \<Rightarrow> event_row list" where
  "rows_asc le sid p L = sort_by le er_order_key (filter (\<lambda>r. er_tank_session_id r = sid \<and> p r) L)"

definition decode_rows :: "string \<Rightarrow> event_row list \<Rightarrow> gomap list" where
  "decode_rows sid rs = List.map_filter (\<lambda>r. decodeStoredSessionEvent (er_payload r) sid) rs"

section \<open>Pages\<close>

record SessionEventCursor =
  cu_AfterOrderKey :: string
  cu_BeforeOrderKey :: string
  cu_Direction :: string

record SessionEventPage =
  pg_Events :: "gomap list"
  pg_NextOrderKey :: string
  pg_PrevOrderKey :: string
  pg_HasMore :: bool
  pg_FoundOldest :: bool
  pg_FoundNewest :: bool

definition normalizeSessionEventLimit :: "int \<Rightarrow> int" where
  "normalizeSessionEventLimit limit = (if limit \<le> 0 \<or> limit > 1000 then 200 else limit)"

definition eventOrderKey :: "gomap \<Rightarrow> string" where
  "eventOrderKey doc = string_at doc ''order_key''"

definition page_of :: "gomap list \<Rightarrow> bool \<Rightarrow> bool \<Rightarrow> bool \<Rightarrow> SessionEventPage" where
  "page_of events hasMore foundOldest foundNewest =
     \<lparr>pg_Events = events,
      pg_NextOrderKey = (if events = [] then [] else eventOrderKey (last events)),
      pg_PrevOrderKey = (if events = [] then [] else eventOrderKey (hd events)),
      pg_HasMore = hasMore, pg_FoundOldest = foundOldest, pg_FoundNewest = foundNewest\<rparr>"

definition sessionEventPageFromAscendingScan :: "gomap list \<Rightarrow> int \<Rightarrow> SessionEventCursor \<Rightarrow> SessionEventPage" where
  "sessionEventPageFromAscendingScan events limit cursor =
     (let limit = normalizeSessionEventLimit limit;
          hasMore = (int (length events) > limit);
          events = (if hasMore then take (nat limit) events else events)
      in page_of events hasMore (cu_AfterOrderKey cursor = [] \<and> cu_BeforeOrderKey cursor = []) (\<not> hasMore))"

definition sessionEventPageFromDescendingScan :: "gomap list \<Rightarrow> int \<Rightarrow> SessionEventCursor \<Rightarrow> SessionEventPage" where
  "sessionEventPageFromDescendingScan events limit cursor =
     (let limit = normalizeSessionEventLimit limit;
          hasMore = (int (length events) > limit);
          events = (if hasMore then tl events else events)
      in page_of events hasMore (\<not> hasMore) (cu_BeforeOrderKey cursor = []))"

definition listBySession ::
  "(string \<Rightarrow> string \<Rightarrow> bool) \<Rightarrow> string \<Rightarrow> ledger \<Rightarrow> string \<Rightarrow> SessionEventCursor \<Rightarrow> int \<Rightarrow> SessionEventPage" where
  "listBySession le scope L tankSessionID cursor limit =
     (let limit = normalizeSessionEventLimit limit;
          queryLimit = nat (limit + 1);
          storageKey = SessionStorageKey scope tankSessionID;
          before = cu_BeforeOrderKey cursor;
          after = cu_AfterOrderKey cursor;
          descending = (EqualFold (cu_Direction cursor) ''desc'' \<or> before \<noteq> []);
          base = (\<lambda>r. er_order_key r \<noteq> []);
          rows =
            (if descending \<and> before \<noteq> []
             then take queryLimit (rev (rows_asc le storageKey (\<lambda>r. base r \<and> key_lt le (er_order_key r) before) L))
             else if descending
             then take queryLimit (rev (rows_asc le storageKey base L))
             else if after \<noteq> []
             then take queryLimit (rows_asc le storageKey (\<lambda>r. base r \<and> key_lt le after (er_order_key r)) L)
             else take queryLimit (rows_asc le storageKey base L));
          out = decode_rows tankSessionID rows
      in if descending then sessionEventPageFromDescendingScan (rev out) limit cursor
         else sessionEventPageFromAscendingScan out limit cursor)"

definition LatestEvents ::
  "(string \<Rightarrow> string \<Rightarrow> bool) \<Rightarrow> string \<Rightarrow> ledger \<Rightarrow> string \<Rightarrow> int \<Rightarrow> SessionEventPage" where
  "LatestEvents le scope L tankSessionID limit =
     listBySession le scope L tankSessionID
       \<lparr>cu_AfterOrderKey = [], cu_BeforeOrderKey = [], cu_Direction = ''desc''\<rparr> limit"

definition eventsForTurn ::
  "(string \<Rightarrow> string \<Rightarrow> bool) \<Rightarrow> string \<Rightarrow> ledger \<Rightarrow> string \<Rightarrow> string \<Rightarrow> string \<Rightarrow> int \<Rightarrow> SessionEventPage" where
  "eventsForTurn le scope L tankSessionID turnID afterOrderKey limit =
     (let limit = normalizeSessionEventLimit limit;
          queryLimit = nat (limit + 1);
          storageKey = SessionStorageKey scope tankSessionID;
          turn = TrimSpace turnID;
          after = TrimSpace afterOrderKey;
          rows = take queryLimit (rows_asc le storageKey
                   (\<lambda>r. er_turn_id r = Some turn \<and> er_order_key r \<noteq> [] \<and>
                        (after = [] \<or> key_lt le after (er_order_key r))) L)
      in sessionEventPageFromAscendingScan (decode_rows tankSessionID rows) limit
           \<lparr>cu_AfterOrderKey = afterOrderKey, cu_BeforeOrderKey = [], cu_Direction = []\<rparr>)"

section \<open>Point reads\<close>

definition last_row :: "event_row list \<Rightarrow> event_row option" where
  "last_row rs = (if rs = [] then None else Some (last rs))"

definition MaxOrderKeyForTurn ::
  "(string \<Rightarrow> string \<Rightarrow> bool) \<Rightarrow> string \<Rightarrow> ledger \<Rightarrow> string \<Rightarrow> string \<Rightarrow> string" where
  "MaxOrderKeyForTurn le scope L tankSessionID turnID =
     (case last_row (rows_asc le (SessionStorageKey scope tankSessionID)
             (\<lambda>r. er_turn_id r = Some turnID \<and> er_order_key r \<noteq> []) L) of
        None \<Rightarrow> [] | Some r \<Rightarrow> er_order_key r)"

definition HasOrderKey :: "string \<Rightarrow> ledger \<Rightarrow> string \<Rightarrow> string \<Rightarrow> bool" where
  "HasOrderKey scope L tankSessionID orderKey =
     (if TrimSpace orderKey = [] then True
      else (\<exists>r\<in>set L. same_key (SessionStorageKey scope tankSessionID) orderKey r))"

text \<open>\<^verbatim>\<open>doc ->> key\<close> on \<^verbatim>\<open>jsonb\<close>: \<^verbatim>\<open>NULL\<close> for an absent or null member.\<close>

definition jsonb_text :: "(goany \<Rightarrow> string) \<Rightarrow> gomap \<Rightarrow> string \<Rightarrow> string option" where
  "jsonb_text render doc key =
     (case mget doc key of
        None \<Rightarrow> None
      | Some GNil \<Rightarrow> None
      | Some (GStr s) \<Rightarrow> Some s
      | Some v \<Rightarrow> Some (render v))"

text \<open>\<^verbatim>\<open>doc -> 'payload' ->> key\<close>\<close>

definition jsonb_inner_text :: "(goany \<Rightarrow> string) \<Rightarrow> gomap \<Rightarrow> string \<Rightarrow> string option" where
  "jsonb_inner_text render doc key =
     (case as_map (mget doc ''payload'') of None \<Rightarrow> None | Some p \<Rightarrow> jsonb_text render p key)"

definition coalesce_empty :: "string option \<Rightarrow> string" where
  "coalesce_empty v = (case v of None \<Rightarrow> [] | Some s \<Rightarrow> s)"

definition OrderKeyForTimelineID ::
  "(string \<Rightarrow> string \<Rightarrow> bool) \<Rightarrow> (goany \<Rightarrow> string) \<Rightarrow> string \<Rightarrow> ledger \<Rightarrow> string \<Rightarrow> string \<Rightarrow> string" where
  "OrderKeyForTimelineID le render scope L tankSessionID timelineID =
     (let timelineID = TrimSpace timelineID
      in if timelineID = [] then []
         else (case last_row (rows_asc le (SessionStorageKey scope tankSessionID)
                      (\<lambda>r. jsonb_text render (er_payload r) ''timeline_id'' = Some timelineID) L) of
                 None \<Rightarrow> [] | Some r \<Rightarrow> er_order_key r))"

definition terminal_types :: "string list" where
  "terminal_types = [''turn.completed'', ''turn.failed'', ''turn.command_failed'', ''turn.interrupted'']"

definition FindTurnTerminal ::
  "(string \<Rightarrow> string \<Rightarrow> bool) \<Rightarrow> string \<Rightarrow> ledger \<Rightarrow> string \<Rightarrow> string \<Rightarrow> gomap option" where
  "FindTurnTerminal le scope L tankSessionID turnID =
     (if TrimSpace turnID = [] then None
      else (case last_row (rows_asc le (SessionStorageKey scope tankSessionID)
                   (\<lambda>r. er_turn_id r = Some turnID \<and>
                        type_in (map event_wire [EventTurnCompleted, EventTurnFailed, EventTurnCommandFailed,
                                                 EventTurnInterrupted]) r) L) of
              None \<Rightarrow> None
            | Some r \<Rightarrow> decodeStoredSessionEvent (er_payload r) tankSessionID))"

definition LatestLifecycleEvents ::
  "(string \<Rightarrow> string \<Rightarrow> bool) \<Rightarrow> string \<Rightarrow> ledger \<Rightarrow> string \<Rightarrow> int \<Rightarrow> gomap list" where
  "LatestLifecycleEvents le scope L tankSessionID limit =
     (let limit = (if limit \<le> 0 then 50 else limit);
          limit = (if limit > 500 then 500 else limit);
          rows = take (nat limit) (rev (rows_asc le (SessionStorageKey scope tankSessionID)
                   (\<lambda>r. type_in LifecycleEventTypes r \<and> er_order_key r \<noteq> []) L))
      in rev (decode_rows tankSessionID rows))"

definition shellTaskEventScanCap :: nat where
  "shellTaskEventScanCap = 1500"

definition ShellTaskEvents ::
  "(string \<Rightarrow> string \<Rightarrow> bool) \<Rightarrow> string \<Rightarrow> ledger \<Rightarrow> string \<Rightarrow> gomap list" where
  "ShellTaskEvents le scope L tankSessionID =
     (let recent = take shellTaskEventScanCap (rev (rows_asc le (SessionStorageKey scope tankSessionID)
                     (type_in [''shell_task.started'', ''shell_task.updated'', ''shell_task.exited'']) L))
      in decode_rows tankSessionID (rev recent))"

section \<open>Counts\<close>

definition unreadScanCap :: nat where
  "unreadScanCap = 2000"

text \<open>The column or the JSON member that \<^verbatim>\<open>countDistinctField\<close> selects.\<close>

definition count_value :: "(goany \<Rightarrow> string) \<Rightarrow> string \<Rightarrow> event_row \<Rightarrow> string option" where
  "count_value render field r =
     (if field = ''turn_id'' then er_turn_id r else jsonb_text render (er_payload r) field)"

definition countDistinctField ::
  "(string \<Rightarrow> string \<Rightarrow> bool) \<Rightarrow> (goany \<Rightarrow> string) \<Rightarrow> ledger \<Rightarrow> string \<Rightarrow> string \<Rightarrow> string list \<Rightarrow> string \<Rightarrow> nat" where
  "countDistinctField le render L storageKey field types afterOrderKey =
     (if types = [] then 0
      else let rows = rows_asc le storageKey
                 (\<lambda>r. type_in types r \<and> coalesce_empty (jsonb_text render (er_payload r) ''actor'') \<noteq> ''user'' \<and>
                      count_value render field r \<notin> {None, Some []} \<and>
                      (TrimSpace afterOrderKey = [] \<or> key_lt le afterOrderKey (er_order_key r))) L
           in length (remdups (map (count_value render field) (take unreadScanCap rows))))"

definition UnreadOutputCount ::
  "(string \<Rightarrow> string \<Rightarrow> bool) \<Rightarrow> (goany \<Rightarrow> string) \<Rightarrow> string \<Rightarrow> ledger \<Rightarrow> string \<Rightarrow> string \<Rightarrow> nat" where
  "UnreadOutputCount le render scope L tankSessionID afterOrderKey =
     (let storageKey = SessionStorageKey scope tankSessionID
      in countDistinctField le render L storageKey ''timeline_id'' UnreadOutputItemTypes afterOrderKey +
         countDistinctField le render L storageKey ''turn_id'' UnreadOutputTurnTypes afterOrderKey)"

definition count_type :: "string \<Rightarrow> ledger \<Rightarrow> string \<Rightarrow> nat" where
  "count_type ty L storageKey =
     length (filter (\<lambda>r. er_tank_session_id r = storageKey \<and> er_event_type r = Some ty) L)"

definition CountContextCompactions :: "string \<Rightarrow> ledger \<Rightarrow> string \<Rightarrow> nat" where
  "CountContextCompactions scope L tankSessionID =
     count_type ''context.compacted'' L (SessionStorageKey scope tankSessionID)"

definition CountUserMessages :: "string \<Rightarrow> ledger \<Rightarrow> string \<Rightarrow> nat" where
  "CountUserMessages scope L tankSessionID =
     count_type ''user_message.created'' L (SessionStorageKey scope tankSessionID)"

section \<open>Scans across sessions\<close>

text \<open>\<^verbatim>\<open>s LIKE pattern\<close> with its two wildcards and the backslash escape.\<close>

fun sql_like :: "string \<Rightarrow> string \<Rightarrow> bool" where
  "sql_like [] s \<longleftrightarrow> s = []"
| "sql_like (p # ps) s \<longleftrightarrow>
     (if p = CHR ''%'' then (\<exists>t\<in>set (suffixes s). sql_like ps t)
      else if p = CHR ''_'' then s \<noteq> [] \<and> sql_like ps (tl s)
      else if p = CHR 0x5C
      then (case ps of [] \<Rightarrow> False | q # qs \<Rightarrow> s \<noteq> [] \<and> hd s = q \<and> sql_like qs (tl s))
      else s \<noteq> [] \<and> hd s = p \<and> sql_like ps (tl s))"

text \<open>The scope gate: bare keys belong to the default scope, prefixed keys to theirs.\<close>

definition in_scope :: "string \<Rightarrow> string \<Rightarrow> bool" where
  "in_scope scope key \<longleftrightarrow>
     (scope = ''default'' \<and> CHR '':'' \<notin> set key) \<or>
     (scope \<noteq> ''default'' \<and> sql_like (scope @ '':%'') key)"

record pending_launch =
  pl_tank_session_id :: string
  pl_turn_id :: string
  pl_status :: string

record StrandedLaunchTurn =
  sl_TankSessionID :: string
  sl_SessionID :: string
  sl_TurnID :: string
  sl_ClientNonce :: string
  sl_Email :: string
  sl_Runtime :: string
  sl_CreatedAt :: int

definition sweep_limit :: "int \<Rightarrow> int" where
  "sweep_limit limit = (if limit \<le> 0 \<or> limit > 500 then 100 else limit)"

definition same_turn :: "event_row \<Rightarrow> event_row \<Rightarrow> bool" where
  "same_turn e r \<longleftrightarrow> er_tank_session_id r = er_tank_session_id e \<and> er_turn_id r = er_turn_id e"

definition launch_stranded ::
  "string \<Rightarrow> ledger \<Rightarrow> pending_launch list \<Rightarrow> int \<Rightarrow> int \<Rightarrow> event_row \<Rightarrow> bool" where
  "launch_stranded scope L pending olderThan notBefore e \<longleftrightarrow>
     er_event_type e = Some (event_wire EventUserMessageCreated) \<and> er_turn_id e \<noteq> None \<and>
     er_created_at e < olderThan \<and> er_created_at e \<ge> notBefore \<and>
     in_scope scope (er_tank_session_id e) \<and>
     \<not> (\<exists>r\<in>set L. same_turn e r \<and> er_event_id r \<noteq> er_event_id e) \<and>
     \<not> (\<exists>p\<in>set pending. pl_tank_session_id p = er_tank_session_id e \<and> Some (pl_turn_id p) = er_turn_id e \<and>
            pl_status p \<in> {''awaiting_bytes'', ''ready'', ''claiming''})"

definition FindStrandedLaunchTurns ::
  "(goany \<Rightarrow> string) \<Rightarrow> string \<Rightarrow> ledger \<Rightarrow> pending_launch list \<Rightarrow> int \<Rightarrow> int \<Rightarrow> int \<Rightarrow> StrandedLaunchTurn list" where
  "FindStrandedLaunchTurns render scope L pending olderThan notBefore limit =
     map (\<lambda>e. \<lparr>sl_TankSessionID = er_tank_session_id e,
               sl_SessionID = coalesce_empty (jsonb_text render (er_payload e) ''session_id''),
               sl_TurnID = the (er_turn_id e),
               sl_ClientNonce = coalesce_empty (jsonb_text render (er_payload e) ''client_nonce''),
               sl_Email = coalesce_empty (jsonb_text render (er_payload e) ''email''),
               sl_Runtime = coalesce_empty (jsonb_text render (er_payload e) ''runtime''),
               sl_CreatedAt = er_created_at e\<rparr>)
       (take (nat (sweep_limit limit))
         (sort_key er_created_at (filter (launch_stranded scope L pending olderThan notBefore) L)))"

record StrandedTurn =
  sd_TankSessionID :: string
  sd_SessionID :: string
  sd_TurnID :: string
  sd_ClientNonce :: string
  sd_Email :: string
  sd_Runtime :: string
  sd_Source :: string
  sd_Progressed :: bool
  sd_CreatedAt :: int

text \<open>A row of an open or answered question that the turn of \<open>e\<close> rides or is referenced by.\<close>

definition pause_linked :: "(goany \<Rightarrow> string) \<Rightarrow> event_row \<Rightarrow> event_row \<Rightarrow> bool" where
  "pause_linked render e pause \<longleftrightarrow>
     er_tank_session_id pause = er_tank_session_id e \<and>
     type_in [''turn.awaiting_input'', ''turn.input_answered''] pause \<and>
     (er_turn_id pause = er_turn_id e \<or>
      jsonb_inner_text render (er_payload pause) ''asking_turn_id'' = er_turn_id e \<or>
      jsonb_inner_text render (er_payload pause) ''question_turn_id'' = er_turn_id e)"

definition turn_stranded ::
  "(goany \<Rightarrow> string) \<Rightarrow> string \<Rightarrow> ledger \<Rightarrow> int \<Rightarrow> int \<Rightarrow> int \<Rightarrow> event_row \<Rightarrow> bool" where
  "turn_stranded render scope L olderThan quietSince notBefore e \<longleftrightarrow>
     er_event_type e = Some ''turn.submitted'' \<and> er_turn_id e \<noteq> None \<and>
     er_created_at e < olderThan \<and> er_created_at e \<ge> notBefore \<and>
     in_scope scope (er_tank_session_id e) \<and>
     \<not> (\<exists>t\<in>set L. same_turn e t \<and> type_in terminal_types t) \<and>
     \<not> (\<exists>pause\<in>set L. pause_linked render e pause) \<and>
     \<not> (\<exists>quiet\<in>set L. er_tank_session_id quiet = er_tank_session_id e \<and> er_created_at quiet \<ge> quietSince)"

definition FindStrandedTurns ::
  "(goany \<Rightarrow> string) \<Rightarrow> string \<Rightarrow> ledger \<Rightarrow> int \<Rightarrow> int \<Rightarrow> int \<Rightarrow> int \<Rightarrow> StrandedTurn list" where
  "FindStrandedTurns render scope L olderThan quietSince notBefore limit =
     map (\<lambda>e. \<lparr>sd_TankSessionID = er_tank_session_id e,
               sd_SessionID = coalesce_empty (jsonb_text render (er_payload e) ''session_id''),
               sd_TurnID = the (er_turn_id e),
               sd_ClientNonce = coalesce_empty (jsonb_text render (er_payload e) ''client_nonce''),
               sd_Email = coalesce_empty (jsonb_text render (er_payload e) ''email''),
               sd_Runtime = coalesce_empty (jsonb_text render (er_payload e) ''runtime''),
               sd_Source = coalesce_empty (jsonb_inner_text render (er_payload e) ''source''),
               sd_Progressed = (\<exists>p\<in>set L. same_turn e p \<and> type_in [''turn.claimed'', ''turn.started''] p),
               sd_CreatedAt = er_created_at e\<rparr>)
       (take (nat (sweep_limit limit))
         (sort_key er_created_at (filter (turn_stranded render scope L olderThan quietSince notBefore) L)))"

definition HasRecentRunnerEvent :: "string \<Rightarrow> ledger \<Rightarrow> int \<Rightarrow> bool" where
  "HasRecentRunnerEvent scope L since \<longleftrightarrow>
     (\<exists>r\<in>set L. er_created_at r \<ge> since \<and> type_in runnerProgressEventTypes r \<and> in_scope scope (er_tank_session_id r))"

section \<open>Reading to exhaustion\<close>

text \<open>
  The loop of \<^verbatim>\<open>readAllTurnEvents\<close> and \<^verbatim>\<open>readAllSessionEvents\<close>
  (\<^verbatim>\<open>cmd/tank-operator/turn_pages.go\<close>): fetch a page, append it, stop at the newest page or when the
  cursor cannot advance. \<open>None\<close> is a loop that does not end.
\<close>

definition last_page :: "string \<Rightarrow> SessionEventPage \<Rightarrow> bool" where
  "last_page cursor page \<longleftrightarrow>
     pg_FoundNewest page \<or> pg_Events page = [] \<or> pg_NextOrderKey page = [] \<or> pg_NextOrderKey page = cursor"

partial_function (option) read_pages :: "(string \<Rightarrow> SessionEventPage) \<Rightarrow> string \<Rightarrow> gomap list option" where
  "read_pages next cursor =
     (let page = next cursor
      in if last_page cursor page then Some (pg_Events page)
         else Option.bind (read_pages next (pg_NextOrderKey page)) (\<lambda>rest. Some (pg_Events page @ rest)))"

definition turnPageReadBatch :: int where
  "turnPageReadBatch = 1000"

definition session_cursor :: "string \<Rightarrow> SessionEventCursor" where
  "session_cursor after = \<lparr>cu_AfterOrderKey = after, cu_BeforeOrderKey = [], cu_Direction = []\<rparr>"

definition readAllSessionEvents ::
  "(string \<Rightarrow> string \<Rightarrow> bool) \<Rightarrow> string \<Rightarrow> ledger \<Rightarrow> string \<Rightarrow> gomap list option" where
  "readAllSessionEvents le scope L sessionID =
     read_pages (\<lambda>cursor. listBySession le scope L sessionID (session_cursor cursor) turnPageReadBatch) []"

definition readAllTurnPages ::
  "(string \<Rightarrow> string \<Rightarrow> bool) \<Rightarrow> string \<Rightarrow> ledger \<Rightarrow> string \<Rightarrow> string \<Rightarrow> gomap list option" where
  "readAllTurnPages le scope L sessionID turnID =
     read_pages (\<lambda>cursor. eventsForTurn le scope L sessionID turnID cursor turnPageReadBatch) []"

section \<open>Rows in order\<close>

text \<open>The cursor that a page hands back for a row: the order key inside its payload.\<close>

definition row_cursor :: "event_row \<Rightarrow> string" where
  "row_cursor r = string_at (er_payload r) ''order_key''"

definition row_doc :: "string \<Rightarrow> event_row \<Rightarrow> gomap" where
  "row_doc sid r = mset_key ''tank_session_id'' (GStr sid) (er_payload r)"

lemma decode_row_ok: "row_ok r \<Longrightarrow> decodeStoredSessionEvent (er_payload r) sid = Some (row_doc sid r)"
  by (simp add: decodeStoredSessionEvent_def row_ok_def row_doc_def)

lemma decode_rows_ok: "\<forall>r\<in>set rs. row_ok r \<Longrightarrow> decode_rows sid rs = map (row_doc sid) rs"
  by (induction rs) (simp_all add: decode_rows_def decode_row_ok map_filter_simps)

lemma eventOrderKey_row_doc [simp]: "eventOrderKey (row_doc sid r) = row_cursor r"
  by (simp add: eventOrderKey_def row_doc_def row_cursor_def)

lemma row_cursor_trim: "row_ok r \<Longrightarrow> TrimSpace (row_cursor r) = er_order_key r"
  by (simp add: row_ok_def row_cursor_def trimmed_at_def)

lemma row_cursor_nonempty: "row_ok r \<Longrightarrow> row_cursor r \<noteq> []"
  using row_cursor_trim [of r] by (auto simp: row_ok_def)

context collation
begin

lemma set_rows_asc: "set (rows_asc le sid p L) = {r \<in> set L. er_tank_session_id r = sid \<and> p r}"
  by (simp add: rows_asc_def)

lemma rows_asc_filter: "rows_asc le sid (\<lambda>r. p r \<and> q r) L = filter q (rows_asc le sid p L)"
proof -
  have "filter q (filter (\<lambda>r. er_tank_session_id r = sid \<and> p r) L) =
      filter (\<lambda>r. er_tank_session_id r = sid \<and> p r \<and> q r) L"
    by (induction L) auto
  then show ?thesis by (simp add: rows_asc_def filter_sort_by)
qed

lemma rows_asc_sorted: "sorted_wrt (\<lambda>a b. le (er_order_key a) (er_order_key b)) (rows_asc le sid p L)"
  by (simp add: rows_asc_def sort_by_sorted)

lemma rows_asc_distinct: "unique_keys L \<Longrightarrow> distinct (map er_order_key (rows_asc le sid p L))"
proof -
  assume "unique_keys L"
  then have "distinct (map er_order_key (filter (\<lambda>r. er_tank_session_id r = sid \<and> p r) L))"
    unfolding unique_keys_def by (induction L) (auto simp: image_iff)
  then show ?thesis by (simp add: rows_asc_def distinct_map_sort_by)
qed

lemma after_cursor:
  assumes "sorted_wrt (\<lambda>a b. le (er_order_key a) (er_order_key b)) (pre @ r # post)"
    and "distinct (map er_order_key (pre @ r # post))"
  shows "filter (\<lambda>x. key_lt le (er_order_key r) (er_order_key x)) (pre @ r # post) = post"
proof -
  have "\<not> key_lt le (er_order_key r) (er_order_key x)" if "x \<in> set pre" for x
    using that assms le_antisym by (fastforce simp: sorted_wrt_append key_lt_def)
  then have "filter (\<lambda>x. key_lt le (er_order_key r) (er_order_key x)) pre = []" by simp
  moreover have "key_lt le (er_order_key r) (er_order_key x)" if "x \<in> set post" for x
    using that assms by (auto simp: sorted_wrt_append key_lt_def)
  then have "filter (\<lambda>x. key_lt le (er_order_key r) (er_order_key x)) post = post" by simp
  ultimately show ?thesis by (simp add: key_lt_def)
qed

text \<open>Reading after the key of a row of the scan gives the rest of the scan.\<close>

lemma rows_after:
  assumes "unique_keys L" "rows_asc le sid p L = pre @ post"
    and "after = (if pre = [] then [] else er_order_key (last pre))"
    and "\<And>r. r \<in> set pre \<Longrightarrow> er_order_key r \<noteq> []"
  shows "rows_asc le sid (\<lambda>r. p r \<and> (after = [] \<or> key_lt le after (er_order_key r))) L = post"
proof (cases pre rule: rev_cases)
  case Nil
  then show ?thesis using assms by simp
next
  case (snoc ps r)
  then have "rows_asc le sid p L = ps @ r # post" "after = er_order_key r" "after \<noteq> []" using assms by auto
  then show ?thesis
    using after_cursor [of ps r post] rows_asc_sorted [of sid p L] rows_asc_distinct [OF assms(1), of sid p]
    by (simp add: rows_asc_filter)
qed

end

section \<open>The contract between pages and the reading loop\<close>

text \<open>
  What the loop relies on of a paged read: from the head, or after the cursor of a row of the scan, a
  page holds the next rows of the scan up to the limit, says whether they are the last ones, and
  returns the cursor of its last row. \<open>okL\<close> is what the read needs of the ledger.
\<close>

locale paged_read =
  fixes okL :: "ledger \<Rightarrow> bool"
    and page :: "(string \<Rightarrow> string \<Rightarrow> bool) \<Rightarrow> string \<Rightarrow> ledger \<Rightarrow> string \<Rightarrow> string \<Rightarrow> int \<Rightarrow> SessionEventPage"
    and scan :: "(string \<Rightarrow> string \<Rightarrow> bool) \<Rightarrow> string \<Rightarrow> ledger \<Rightarrow> string \<Rightarrow> event_row list"
  assumes scan_rows: "collation le \<Longrightarrow> okL L \<Longrightarrow>
      (\<forall>r\<in>set (scan le scope L sid). row_ok r) \<and> distinct (map er_order_key (scan le scope L sid))"
    and page_law: "collation le \<Longrightarrow> okL L \<Longrightarrow> 0 < limit \<Longrightarrow> limit \<le> 1000 \<Longrightarrow>
      scan le scope L sid = pre @ post \<Longrightarrow> cursor = (if pre = [] then [] else row_cursor (last pre)) \<Longrightarrow>
      pg_Events (page le scope L sid cursor limit) = map (row_doc sid) (take (nat limit) post) \<and>
      pg_FoundNewest (page le scope L sid cursor limit) = (length post \<le> nat limit) \<and>
      pg_NextOrderKey (page le scope L sid cursor limit) =
        (if take (nat limit) post = [] then [] else row_cursor (last (take (nat limit) post)))"
begin

lemma cursor_advances:
  assumes "collation le" "okL L" "scan le scope L sid = pre @ post" "pre \<noteq> []" "r \<in> set post"
  shows "row_cursor r \<noteq> row_cursor (last pre)"
proof -
  have rows: "\<forall>r\<in>set (pre @ post). row_ok r" "distinct (map er_order_key (pre @ post))"
    using scan_rows [OF assms(1,2), of scope sid] assms(3) by simp_all
  have "er_order_key r \<noteq> er_order_key (last pre)"
    using rows(2) assms(5) last_in_set [OF assms(4)] by (auto simp: disjoint_iff)
  then show ?thesis using rows(1) assms(4,5) row_cursor_trim [of r] row_cursor_trim [of "last pre"] by fastforce
qed

text \<open>A page that is not the last one leads to the rest of the scan.\<close>

lemma next_page:
  assumes le: "collation le" and ok: "okL L" and lim: "0 < limit" "limit \<le> 1000"
    and split: "scan le scope L sid = pre @ post" and cur: "cursor = (if pre = [] then [] else row_cursor (last pre))"
    and long: "\<not> length post \<le> nat limit"
  shows "\<not> last_page cursor (page le scope L sid cursor limit)"
    and "scan le scope L sid = (pre @ take (nat limit) post) @ drop (nat limit) post"
    and "pg_NextOrderKey (page le scope L sid cursor limit) =
      (if pre @ take (nat limit) post = [] then [] else row_cursor (last (pre @ take (nat limit) post)))"
    and "length (drop (nat limit) post) < length post"
proof -
  let ?n = "nat limit"
  let ?p = "page le scope L sid cursor limit"
  note law = page_law [OF le ok lim split cur]
  have ne: "take ?n post \<noteq> []" "post \<noteq> []" using long lim by auto
  have inpost: "last (take ?n post) \<in> set post" using ne in_set_takeD last_in_set by metis
  have nxt: "pg_NextOrderKey ?p = row_cursor (last (take ?n post))" using law ne by simp
  then show "pg_NextOrderKey ?p = (if pre @ take ?n post = [] then [] else row_cursor (last (pre @ take ?n post)))"
    using ne by simp
  have rok: "row_ok (last (take ?n post))"
    using scan_rows [OF le ok, of scope sid] split inpost by simp
  have "pg_NextOrderKey ?p \<noteq> cursor"
    using nxt cur rok row_cursor_nonempty cursor_advances [OF le ok split _ inpost] by auto
  then show "\<not> last_page cursor ?p" using law long ne nxt rok row_cursor_nonempty by (auto simp: last_page_def)
  show "scan le scope L sid = (pre @ take ?n post) @ drop ?n post" using split by simp
  show "length (drop ?n post) < length post" using ne lim by simp
qed

lemma read_pages_from:
  assumes le: "collation le" and ok: "okL L" and lim: "0 < limit" "limit \<le> 1000"
    and split: "scan le scope L sid = pre @ post" and cur: "cursor = (if pre = [] then [] else row_cursor (last pre))"
  shows "read_pages (\<lambda>c. page le scope L sid c limit) cursor = Some (map (row_doc sid) post)"
  using split cur
proof (induction "length post" arbitrary: pre post cursor rule: less_induct)
  case less
  note law = page_law [OF le ok lim less.prems]
  show ?case
  proof (cases "length post \<le> nat limit")
    case True
    then show ?thesis using law by (subst read_pages.simps) (simp add: last_page_def)
  next
    case False
    note nxt = next_page [OF le ok lim less.prems False]
    show ?thesis
      using law nxt(1) less.hyps [OF nxt(4,2,3)]
      by (subst read_pages.simps) (simp add: map_append [symmetric] del: map_append)
  qed
qed

text \<open>Reading to exhaustion ends and returns the whole scan.\<close>

lemma read_pages_all:
  assumes "collation le" "okL L" "0 < limit" "limit \<le> 1000"
  shows "read_pages (\<lambda>c. page le scope L sid c limit) [] = Some (map (row_doc sid) (scan le scope L sid))"
  using read_pages_from [OF assms, of scope sid "[]"] by simp

end

section \<open>Both reads meet the contract\<close>

definition session_scan :: "(string \<Rightarrow> string \<Rightarrow> bool) \<Rightarrow> string \<Rightarrow> ledger \<Rightarrow> string \<Rightarrow> event_row list" where
  "session_scan le scope L sid = rows_asc le (SessionStorageKey scope sid) (\<lambda>r. er_order_key r \<noteq> []) L"

definition turn_scan :: "string \<Rightarrow> (string \<Rightarrow> string \<Rightarrow> bool) \<Rightarrow> string \<Rightarrow> ledger \<Rightarrow> string \<Rightarrow> event_row list" where
  "turn_scan turn le scope L sid =
     rows_asc le (SessionStorageKey scope sid) (\<lambda>r. er_turn_id r = Some (TrimSpace turn) \<and> er_order_key r \<noteq> []) L"

text \<open>The order keys inside the payloads carry no surrounding white space.\<close>

definition tidy_keys :: "ledger \<Rightarrow> bool" where
  "tidy_keys L \<longleftrightarrow> (\<forall>r\<in>set L. row_cursor r = er_order_key r)"

lemma rows_asc_rows:
  assumes "collation le" "ledger_ok L"
  shows "(\<forall>r\<in>set (rows_asc le sid p L). row_ok r) \<and> distinct (map er_order_key (rows_asc le sid p L))"
  using assms collation.set_rows_asc [OF assms(1)] collation.rows_asc_distinct [OF assms(1)]
  by (auto simp: ledger_ok_def)

lemma ascending_page:
  assumes "0 < limit" "limit \<le> 1000" "\<forall>r\<in>set rows. row_ok r"
  shows "let p = sessionEventPageFromAscendingScan (decode_rows sid (take (nat (limit + 1)) rows)) limit c in
    pg_Events p = map (row_doc sid) (take (nat limit) rows) \<and> pg_FoundNewest p = (length rows \<le> nat limit) \<and>
    pg_NextOrderKey p = (if take (nat limit) rows = [] then [] else row_cursor (last (take (nat limit) rows)))"
proof -
  have dec: "decode_rows sid (take (nat (limit + 1)) rows) = map (row_doc sid) (take (nat (limit + 1)) rows)"
    using assms(3) by (intro decode_rows_ok) (meson in_set_takeD)
  have "int (length (take (nat (limit + 1)) rows)) > limit \<longleftrightarrow> \<not> length rows \<le> nat limit"
    using assms(1) by auto
  moreover have "length rows \<le> nat limit \<Longrightarrow> take (nat (limit + 1)) rows = take (nat limit) rows"
    using assms(1) by simp
  moreover have "take (nat limit) (take (nat (limit + 1)) rows) = take (nat limit) rows"
    using assms(1) by (simp add: min_def)
  ultimately show ?thesis
    using assms(1,2)
    by (simp add: dec sessionEventPageFromAscendingScan_def normalizeSessionEventLimit_def page_of_def Let_def
        take_map last_map)
qed

lemma eventsForTurn_page:
  assumes le: "collation le" and ok: "ledger_ok L" and lim: "0 < limit" "limit \<le> 1000"
    and split: "turn_scan turn le scope L sid = pre @ post" and cur: "cursor = (if pre = [] then [] else row_cursor (last pre))"
  shows "eventsForTurn le scope L sid turn cursor limit =
    sessionEventPageFromAscendingScan (decode_rows sid (take (nat (limit + 1)) post)) limit (session_cursor cursor)"
proof -
  have rows: "\<forall>r\<in>set (pre @ post). row_ok r"
    using rows_asc_rows [OF le ok] split unfolding turn_scan_def by metis
  have "TrimSpace cursor = (if pre = [] then [] else er_order_key (last pre))"
    using cur rows row_cursor_trim by simp
  moreover have "er_order_key r \<noteq> []" if "r \<in> set pre" for r
    using that rows unfolding row_ok_def by (metis UnI1 set_append)
  ultimately have "rows_asc le (SessionStorageKey scope sid)
      (\<lambda>r. (er_turn_id r = Some (TrimSpace turn) \<and> er_order_key r \<noteq> []) \<and>
           (TrimSpace cursor = [] \<or> key_lt le (TrimSpace cursor) (er_order_key r))) L = post"
    using collation.rows_after [OF le _ split [unfolded turn_scan_def]] ok by (simp add: ledger_ok_def)
  then show ?thesis
    using lim by (simp add: eventsForTurn_def session_cursor_def normalizeSessionEventLimit_def Let_def)
qed

lemma listBySession_page:
  assumes le: "collation le" and ok: "ledger_ok L" "tidy_keys L" and lim: "0 < limit" "limit \<le> 1000"
    and split: "session_scan le scope L sid = pre @ post" and cur: "cursor = (if pre = [] then [] else row_cursor (last pre))"
  shows "listBySession le scope L sid (session_cursor cursor) limit =
    sessionEventPageFromAscendingScan (decode_rows sid (take (nat (limit + 1)) post)) limit (session_cursor cursor)"
proof -
  have rows: "\<forall>r\<in>set (pre @ post). row_ok r"
    using rows_asc_rows [OF le ok(1)] split unfolding session_scan_def by metis
  have "set pre \<subseteq> set L"
    using split collation.set_rows_asc [OF le] unfolding session_scan_def by (metis (no_types, lifting) Un_upper1 mem_Collect_eq order_trans set_append subsetI)
  then have "cursor = (if pre = [] then [] else er_order_key (last pre))"
    using cur ok(2) last_in_set [of pre] unfolding tidy_keys_def by (simp add: subset_eq)
  moreover have "er_order_key r \<noteq> []" if "r \<in> set pre" for r
    using that rows unfolding row_ok_def by (metis UnI1 set_append)
  ultimately have after: "rows_asc le (SessionStorageKey scope sid)
      (\<lambda>r. er_order_key r \<noteq> [] \<and> (cursor = [] \<or> key_lt le cursor (er_order_key r))) L = post"
    using collation.rows_after [OF le _ split [unfolded session_scan_def]] ok by (simp add: ledger_ok_def)
  have asc: "\<not> EqualFold [] ''desc''" by (simp add: EqualFold_def)
  show ?thesis
    using lim after
    by (cases "cursor = []") (simp_all add: listBySession_def session_cursor_def normalizeSessionEventLimit_def asc Let_def)
qed

interpretation turn_pages: paged_read ledger_ok
  "\<lambda>le scope L sid cursor limit. eventsForTurn le scope L sid turn cursor limit" "turn_scan turn" for turn
proof unfold_locales
  fix le L scope sid
  assume "collation le" "ledger_ok L"
  then show "(\<forall>r\<in>set (turn_scan turn le scope L sid). row_ok r) \<and> distinct (map er_order_key (turn_scan turn le scope L sid))"
    unfolding turn_scan_def by (rule rows_asc_rows)
next
  fix le L and limit :: int and scope sid pre post cursor
  assume h: "collation le" "ledger_ok L" "0 < limit" "limit \<le> 1000" "turn_scan turn le scope L sid = pre @ post"
    "cursor = (if pre = [] then [] else row_cursor (last pre))"
  have "\<forall>r\<in>set post. row_ok r" using rows_asc_rows [OF h(1,2)] h(5) unfolding turn_scan_def by (metis Un_iff set_append)
  then show "pg_Events (eventsForTurn le scope L sid turn cursor limit) = map (row_doc sid) (take (nat limit) post) \<and>
      pg_FoundNewest (eventsForTurn le scope L sid turn cursor limit) = (length post \<le> nat limit) \<and>
      pg_NextOrderKey (eventsForTurn le scope L sid turn cursor limit) =
        (if take (nat limit) post = [] then [] else row_cursor (last (take (nat limit) post)))"
    unfolding eventsForTurn_page [OF h] using ascending_page [OF h(3,4)] by (simp add: Let_def)
qed

interpretation session_pages: paged_read "\<lambda>L. ledger_ok L \<and> tidy_keys L"
  "\<lambda>le scope L sid cursor limit. listBySession le scope L sid (session_cursor cursor) limit" session_scan
proof unfold_locales
  fix le L scope sid
  assume "collation le" "ledger_ok L \<and> tidy_keys L"
  then show "(\<forall>r\<in>set (session_scan le scope L sid). row_ok r) \<and> distinct (map er_order_key (session_scan le scope L sid))"
    unfolding session_scan_def by (intro rows_asc_rows) auto
next
  fix le L and limit :: int and scope sid pre post cursor
  assume h: "collation le" "ledger_ok L \<and> tidy_keys L" "0 < limit" "limit \<le> 1000" "session_scan le scope L sid = pre @ post"
    "cursor = (if pre = [] then [] else row_cursor (last pre))"
  then have "\<forall>r\<in>set post. row_ok r" using rows_asc_rows [OF h(1)] h(5) unfolding session_scan_def by (metis Un_iff set_append)
  then show "pg_Events (listBySession le scope L sid (session_cursor cursor) limit) = map (row_doc sid) (take (nat limit) post) \<and>
      pg_FoundNewest (listBySession le scope L sid (session_cursor cursor) limit) = (length post \<le> nat limit) \<and>
      pg_NextOrderKey (listBySession le scope L sid (session_cursor cursor) limit) =
        (if take (nat limit) post = [] then [] else row_cursor (last (take (nat limit) post)))"
    using listBySession_page [OF h(1) _ _ h(3,4,5,6)] ascending_page [OF h(3,4)] h(2) by (simp add: Let_def)
qed

text \<open>
  C22: on every reachable ledger and under every collation, reading a turn page by page ends and returns
  all events of the turn in key order, whatever the number of pages: the turn's terminal event is never
  cut off.
\<close>

theorem readAllTurnPages_complete:
  assumes "collation le" "ledger_reach L"
  shows "readAllTurnPages le scope L sid turn = Some (map (row_doc sid) (turn_scan turn le scope L sid)) \<and>
    set (turn_scan turn le scope L sid) =
      {r \<in> set L. er_tank_session_id r = SessionStorageKey scope sid \<and> er_turn_id r = Some (TrimSpace turn)} \<and>
    sorted_wrt (\<lambda>a b. key_lt le (er_order_key a) (er_order_key b)) (turn_scan turn le scope L sid)"
proof (intro conjI)
  have ok: "ledger_ok L" using assms(2) by (rule reachable_ledger_ok)
  show "readAllTurnPages le scope L sid turn = Some (map (row_doc sid) (turn_scan turn le scope L sid))"
    unfolding readAllTurnPages_def turnPageReadBatch_def by (rule turn_pages.read_pages_all [OF assms(1) ok]) simp_all
  show "set (turn_scan turn le scope L sid) =
      {r \<in> set L. er_tank_session_id r = SessionStorageKey scope sid \<and> er_turn_id r = Some (TrimSpace turn)}"
    using ok by (auto simp: turn_scan_def collation.set_rows_asc [OF assms(1)] ledger_ok_def row_ok_def)
  have "distinct (map er_order_key (turn_scan turn le scope L sid))"
    using rows_asc_rows [OF assms(1) ok] unfolding turn_scan_def by blast
  then show "sorted_wrt (\<lambda>a b. key_lt le (er_order_key a) (er_order_key b)) (turn_scan turn le scope L sid)"
    using collation.rows_asc_sorted [OF assms(1)] unfolding turn_scan_def key_lt_def
    by (simp add: sorted_wrt_iff_nth_less distinct_conv_nth)
qed

theorem readAllTurnPages_complete_witness:
  "collation byte_le \<and> ledger_reach sample_ledger \<and>
   readAllTurnPages byte_le ''default'' sample_ledger ''s1'' ''t1'' =
     Some (map (row_doc ''s1'') (turn_scan ''t1'' byte_le ''default'' sample_ledger ''s1''))"
  using readAllTurnPages_complete [OF bytewise.collation_axioms sample_ledger_reach]
    bytewise.collation_axioms sample_ledger_reach by blast

text \<open>
  reading a whole session page by page likewise ends and returns every event of the session, on a
  reachable ledger whose payload order keys carry no surrounding white space.
\<close>

theorem readAllSessionEvents_complete:
  assumes "collation le" "ledger_reach L" "tidy_keys L"
  shows "readAllSessionEvents le scope L sid = Some (map (row_doc sid) (session_scan le scope L sid)) \<and>
    set (session_scan le scope L sid) = {r \<in> set L. er_tank_session_id r = SessionStorageKey scope sid}"
proof
  have ok: "ledger_ok L \<and> tidy_keys L" using assms reachable_ledger_ok by blast
  show "readAllSessionEvents le scope L sid = Some (map (row_doc sid) (session_scan le scope L sid))"
    unfolding readAllSessionEvents_def turnPageReadBatch_def
    by (rule session_pages.read_pages_all [OF assms(1) ok]) simp_all
  show "set (session_scan le scope L sid) = {r \<in> set L. er_tank_session_id r = SessionStorageKey scope sid}"
    using ok by (auto simp: session_scan_def collation.set_rows_asc [OF assms(1)] ledger_ok_def row_ok_def)
qed

lemma sample_ledger_tidy: "tidy_keys sample_ledger"
proof -
  have "TrimSpace ''k1'' = ''k1''" by code_simp
  then show ?thesis
    by (simp add: tidy_keys_def sample_ledger_rows row_cursor_def row_of_def string_at_stored_doc)
       (simp add: sample_stored_def trimmed_at_def)
qed

theorem readAllSessionEvents_complete_witness:
  "collation byte_le \<and> ledger_reach sample_ledger \<and> tidy_keys sample_ledger \<and>
   readAllSessionEvents byte_le ''default'' sample_ledger ''s1'' =
     Some (map (row_doc ''s1'') (session_scan byte_le ''default'' sample_ledger ''s1''))"
  using readAllSessionEvents_complete [OF bytewise.collation_axioms sample_ledger_reach sample_ledger_tidy]
    bytewise.collation_axioms sample_ledger_reach sample_ledger_tidy by blast

section \<open>Rows the current schema rejects\<close>

text \<open>A ledger with a row of a retired event type between two valid rows of the same turn.\<close>

definition legacy_event :: "string \<Rightarrow> string \<Rightarrow> gomap" where
  "legacy_event key ty = mset_key ''order_key'' (GStr key) (mset_key ''type'' (GStr ty) sample_stored)"

definition legacy_row :: "string \<Rightarrow> string \<Rightarrow> event_row" where
  "legacy_row key ty =
     \<lparr>er_tank_session_id = ''s1'', er_order_key = key, er_event_id = key, er_turn_id = Some ''t1'',
      er_event_type = Some ty, er_payload = legacy_event key ty, er_created_at = 0\<rparr>"

definition legacy_ledger :: ledger where
  "legacy_ledger = [legacy_row ''k1'' ''turn.started'', legacy_row ''k2'' ''turn.retired'', legacy_row ''k3'' ''turn.failed'']"

lemma legacy_event_valid:
  assumes "ty \<in> {EventTurnStarted, EventTurnFailed}" "key \<noteq> []"
  shows "ValidateEventMap (Some (legacy_event key (event_wire ty))) = None"
proof -
  have "ParseRFC3339 ''2026-06-12T10:00:00Z'' \<noteq> None" by code_simp
  then have "well_formed_event (legacy_event key (event_wire ty))"
    unfolding well_formed_event_def envelope_ok_def typed_event_ok_def envelope_fields_def
    using assms
    by (intro conjI exI [of _ ty])
       (auto simp: legacy_event_def sample_stored_def has_def validActor_def validSource_def event_type_of_def
          role_ok_def required_actor_def tank_sourced_def actor_is_def)
  then show ?thesis by (simp add: ValidateEventMap_iff)
qed

lemma legacy_event_retired: "ValidateEventMap (Some (legacy_event ''k2'' ''turn.retired'')) \<noteq> None"
proof -
  have "\<not> well_formed_event (legacy_event ''k2'' ''turn.retired'')"
  proof
    assume "well_formed_event (legacy_event ''k2'' ''turn.retired'')"
    then obtain ty where "event_wire ty = ''turn.retired''"
      by (auto simp: well_formed_event_def event_type_of_def legacy_event_def)
    then show False by (cases ty) simp_all
  qed
  then show ?thesis by (simp add: ValidateEventMap_iff)
qed

text \<open>
  a row that the current schema rejects is dropped before the page size is compared with the limit, so
  a page that scanned a rejected row claims to be the newest one although the ledger holds a later
  event of the turn, here its terminal: the reading loop stops and never sees it.
\<close>

theorem rejected_row_hides_rest:
  "let page = eventsForTurn byte_le ''default'' legacy_ledger ''s1'' ''t1'' [] 1 in
   pg_FoundNewest page \<and> \<not> pg_HasMore page \<and>
   pg_Events page = [row_doc ''s1'' (legacy_row ''k1'' ''turn.started'')] \<and>
   FindTurnTerminal byte_le ''default'' legacy_ledger ''s1'' ''t1'' = Some (row_doc ''s1'' (legacy_row ''k3'' ''turn.failed''))"
proof -
  have trims: "TrimSpace ''s1'' = ''s1''" "TrimSpace ''t1'' = ''t1''" "TrimSpace ''default'' = ''default''"
    by code_simp+
  have order: "byte_le ''k1'' ''k2''" "byte_le ''k2'' ''k3''" "byte_le ''k1'' ''k3''" by code_simp+
  have valid: "ValidateEventMap (Some (legacy_event ''k1'' ''turn.started'')) = None"
    "ValidateEventMap (Some (legacy_event ''k3'' ''turn.failed'')) = None"
    using legacy_event_valid [of EventTurnStarted "''k1''"] legacy_event_valid [of EventTurnFailed "''k3''"] by simp_all
  have scan: "rows_asc byte_le ''s1'' (\<lambda>r. er_turn_id r = Some ''t1'' \<and> er_order_key r \<noteq> []) legacy_ledger = legacy_ledger"
    by (simp add: rows_asc_def legacy_ledger_def legacy_row_def sort_by_def order)
  have terminal: "rows_asc byte_le ''s1'' (\<lambda>r. er_turn_id r = Some ''t1'' \<and>
      type_in [''turn.completed'', ''turn.failed'', ''turn.command_failed'', ''turn.interrupted''] r) legacy_ledger =
      [legacy_row ''k3'' ''turn.failed'']"
    by (simp add: rows_asc_def legacy_ledger_def legacy_row_def sort_by_def type_in_def)
  have decode: "decodeStoredSessionEvent (er_payload (legacy_row ''k1'' ''turn.started'')) ''s1'' =
      Some (row_doc ''s1'' (legacy_row ''k1'' ''turn.started''))"
    "decodeStoredSessionEvent (er_payload (legacy_row ''k2'' ''turn.retired'')) ''s1'' = None"
    "decodeStoredSessionEvent (er_payload (legacy_row ''k3'' ''turn.failed'')) ''s1'' =
      Some (row_doc ''s1'' (legacy_row ''k3'' ''turn.failed''))"
    using valid legacy_event_retired by (simp_all add: decodeStoredSessionEvent_def legacy_row_def row_doc_def)
  have "decode_rows ''s1'' (take 2 legacy_ledger) = [row_doc ''s1'' (legacy_row ''k1'' ''turn.started'')]"
    by (simp add: decode_rows_def legacy_ledger_def map_filter_simps decode numeral_2_eq_2)
  then show ?thesis
    by (simp add: eventsForTurn_def FindTurnTerminal_def SessionStorageKey_def trims scan terminal last_row_def
        decode sessionEventPageFromAscendingScan_def normalizeSessionEventLimit_def page_of_def Let_def)
qed

section \<open>Terminals\<close>

text \<open>
  on a reachable ledger, asking for the terminal of a turn finds one exactly when the ledger holds a
  terminal event of that turn, and then returns the one with the greatest order key.
\<close>

theorem FindTurnTerminal_correct:
  assumes "collation le" "ledger_reach L" "TrimSpace turn \<noteq> []"
  shows "(FindTurnTerminal le scope L sid turn = None \<longleftrightarrow>
      \<not> (\<exists>r\<in>set L. er_tank_session_id r = SessionStorageKey scope sid \<and> er_turn_id r = Some turn \<and>
           IsTurnTerminalEvent (event_type_of (er_payload r)))) \<and>
    (\<forall>doc. FindTurnTerminal le scope L sid turn = Some doc \<longrightarrow>
      (\<exists>r\<in>set L. er_tank_session_id r = SessionStorageKey scope sid \<and> er_turn_id r = Some turn \<and>
         IsTurnTerminalEvent (event_type_of (er_payload r)) \<and> doc = row_doc sid r \<and>
         (\<forall>q\<in>set L. er_tank_session_id q = SessionStorageKey scope sid \<and> er_turn_id q = Some turn \<and>
            IsTurnTerminalEvent (event_type_of (er_payload q)) \<longrightarrow> le (er_order_key q) (er_order_key r))))"
proof -
  define T where "T = map event_wire [EventTurnCompleted, EventTurnFailed, EventTurnCommandFailed, EventTurnInterrupted]"
  define rows where "rows = rows_asc le (SessionStorageKey scope sid) (\<lambda>r. er_turn_id r = Some turn \<and> type_in T r) L"
  have ok: "\<forall>r\<in>set L. row_ok r" using reachable_ledger_ok [OF assms(2)] by (simp add: ledger_ok_def)
  have ttype: "type_in T r \<longleftrightarrow> IsTurnTerminalEvent (event_type_of (er_payload r))" if "r \<in> set L" for r
    using ok that by (auto simp: row_ok_def type_in_def T_def IsTurnTerminalEvent_def)
  have mem: "r \<in> set rows \<longleftrightarrow> r \<in> set L \<and> er_tank_session_id r = SessionStorageKey scope sid \<and>
      er_turn_id r = Some turn \<and> IsTurnTerminalEvent (event_type_of (er_payload r))" for r
    using ttype by (auto simp: rows_def collation.set_rows_asc [OF assms(1)])
  have res: "FindTurnTerminal le scope L sid turn = (if rows = [] then None else Some (row_doc sid (last rows)))"
  proof (cases "rows = []")
    case False
    then have "row_ok (last rows)" using mem [of "last rows"] ok by auto
    then show ?thesis
      using False assms(3) by (simp add: FindTurnTerminal_def last_row_def decode_row_ok rows_def T_def)
  qed (use assms(3) in \<open>simp add: FindTurnTerminal_def last_row_def rows_def T_def\<close>)
  have max: "le (er_order_key q) (er_order_key (last rows))" if "q \<in> set rows" for q
  proof -
    have "sorted_wrt (\<lambda>a b. le (er_order_key a) (er_order_key b)) rows"
      unfolding rows_def by (rule collation.rows_asc_sorted [OF assms(1)])
    then show ?thesis
      using that key_order.le_refl [OF collation.axioms(1) [OF assms(1)]]
      by (cases rows rule: rev_cases) (auto simp: sorted_wrt_append)
  qed
  show ?thesis
  proof (cases "rows = []")
    case True
    then show ?thesis using mem res by auto
  next
    case False
    then have "last rows \<in> set rows" by simp
    then show ?thesis using mem res max False by (metis option.discI option.inject)
  qed
qed

theorem FindTurnTerminal_correct_witness:
  "collation byte_le \<and> ledger_reach sample_ledger \<and> TrimSpace ''t1'' \<noteq> [] \<and>
   FindTurnTerminal byte_le ''default'' sample_ledger ''s1'' ''t1'' = None"
proof -
  have t: "TrimSpace ''t1'' \<noteq> []" by code_simp
  have "event_type_of (er_payload (row_of ''default'' 0 sample_stored)) = ''turn.started''"
    by (simp add: event_type_of_def row_of_def string_at_stored_doc) (simp add: sample_stored_def)
  then have "\<not> (\<exists>r\<in>set sample_ledger. IsTurnTerminalEvent (event_type_of (er_payload r)))"
    by (simp add: sample_ledger_rows IsTurnTerminalEvent_def)
  then show ?thesis
    using FindTurnTerminal_correct [OF bytewise.collation_axioms sample_ledger_reach t, of "''default''" "''s1''"]
      bytewise.collation_axioms sample_ledger_reach t by blast
qed

section \<open>Scopes are disjoint\<close>

definition plain_char :: "char \<Rightarrow> bool" where
  "plain_char c \<longleftrightarrow> c \<notin> {CHR ''%'', CHR ''_'', CHR 0x5C, CHR '':''}"

lemma sql_like_plain:
  assumes "list_all plain_char p"
  shows "sql_like (p @ ps) s \<longleftrightarrow> (\<exists>t. s = p @ t \<and> sql_like ps t)"
  using assms
proof (induction p arbitrary: s)
  case (Cons c p)
  then show ?case by (cases s) (auto simp: plain_char_def)
qed simp

lemma sql_like_any: "sql_like ''%'' s"
  by (simp add: exI [of _ "[]"])

lemma in_scope_prefix:
  assumes "list_all plain_char scope" "scope \<noteq> ''default''"
  shows "in_scope scope key \<longleftrightarrow> (\<exists>t. key = scope @ '':'' @ t)"
proof -
  have colon: "sql_like '':%'' u \<longleftrightarrow> (\<exists>t. u = '':'' @ t)" for u
    using sql_like_any [of "tl u"] by (cases u) auto
  show ?thesis
    using assms sql_like_plain [OF assms(1), of "'':%''" key] unfolding in_scope_def colon by auto
qed

text \<open>
  a storage key lies in at most one scope, so two orchestrators with different scopes that share the
  database never sweep the same turn; and every key that a scope writes lies in that scope, the
  session ids of the default scope being free of colons.
\<close>

theorem scopes_disjoint:
  assumes "list_all plain_char a" "list_all plain_char b" "in_scope a key" "in_scope b key"
    and "list_all plain_char s" "TrimSpace s = s" "s \<noteq> []" "CHR '':'' \<notin> set (TrimSpace sid)"
  shows "a = b \<and> in_scope s (SessionStorageKey s sid)"
proof
  have part: "takeWhile (\<lambda>c. c \<noteq> CHR '':'') (x @ '':'' @ t) = x" if "list_all plain_char x" for x t
    using that by (induction x) (auto simp: plain_char_def)
  consider "a = ''default''" "b = ''default''" | "a = ''default''" "b \<noteq> ''default''" | "a \<noteq> ''default''" "b = ''default''"
    | "a \<noteq> ''default''" "b \<noteq> ''default''" by blast
  then show "a = b"
  proof cases
    case 4
    then show ?thesis using assms in_scope_prefix part by metis
  qed (use assms in_scope_prefix in \<open>auto simp: in_scope_def [of "''default''"]\<close>)
  show "in_scope s (SessionStorageKey s sid)"
  proof (cases "s = ''default''")
    case True
    then show ?thesis using assms by (simp add: SessionStorageKey_def in_scope_def)
  next
    case False
    then show ?thesis using assms in_scope_prefix [OF assms(5) False] by (simp add: SessionStorageKey_def Let_def)
  qed
qed

theorem scopes_disjoint_witness:
  "in_scope ''slot-1'' ''slot-1:42'' \<and> in_scope ''slot-1'' (SessionStorageKey ''slot-1'' ''42'')"
proof -
  have p: "list_all plain_char ''slot-1''" by (simp add: plain_char_def)
  have k: "in_scope ''slot-1'' ''slot-1:42''" using in_scope_prefix [OF p] by simp
  have "TrimSpace ''slot-1'' = ''slot-1''" "CHR '':'' \<notin> set (TrimSpace ''42'')" by code_simp+
  then show ?thesis using scopes_disjoint [OF p p k k p, of "''42''"] k by simp
qed

section \<open>Stranded turns\<close>

lemma FindStrandedTurns_sound:
  assumes "t \<in> set (FindStrandedTurns render scope L olderThan quietSince notBefore limit)"
  shows "\<exists>e\<in>set L. turn_stranded render scope L olderThan quietSince notBefore e \<and>
    er_tank_session_id e = sd_TankSessionID t \<and> er_turn_id e = Some (sd_TurnID t)"
  using assms
  by (auto simp: FindStrandedTurns_def turn_stranded_def dest!: in_set_takeD)

text \<open>A turn that has a terminal row, or is linked to a question, is not returned.\<close>

lemma not_stranded:
  assumes "r \<in> set L" "er_tank_session_id r = sid" "er_turn_id r = Some turn" "type_in terminal_types r"
    and "t \<in> set (FindStrandedTurns render scope L olderThan quietSince notBefore limit)"
  shows "(sd_TankSessionID t, sd_TurnID t) \<noteq> (sid, turn)"
  using FindStrandedTurns_sound [OF assms(5)] assms(1-4) by (auto simp: turn_stranded_def same_turn_def)


definition stranded_row :: event_row where
  "stranded_row =
     \<lparr>er_tank_session_id = ''s1'', er_order_key = ''k0'', er_event_id = ''e0'', er_turn_id = Some ''t1'',
      er_event_type = Some ''turn.submitted'', er_payload = [(''session_id'', GStr ''s1'')], er_created_at = 10\<rparr>"

definition sweep_failure :: gomap where
  "sweep_failure =
     [(''event_id'', GStr ''e2''), (''session_id'', GStr ''s1''), (''turn_id'', GStr ''t1''),
      (''actor'', GStr ''system''), (''source'', GStr ''tank''), (''type'', GStr ''turn.command_failed''),
      (''created_at'', GStr ''2026-06-12T10:00:00Z''), (''visibility'', GStr ''durable''),
      (''order_key'', GStr ''k2''), (''payload'', GMap [(''reason'', GStr ''stranded'')])]"

lemma sweep_failure_storable: "storable ''default'' sweep_failure"
proof -
  have "ParseRFC3339 ''2026-06-12T10:00:00Z'' \<noteq> None" by code_simp
  then have "well_formed_event sweep_failure"
    unfolding well_formed_event_def envelope_ok_def typed_event_ok_def envelope_fields_def
    by (intro conjI exI [of _ EventTurnCommandFailed])
       (simp_all add: sweep_failure_def has_def validActor_def validSource_def event_type_of_def role_ok_def
          required_actor_def tank_sourced_def actor_is_def source_is_def object_with_def)
  moreover have "TrimSpace ''e2'' = ''e2''" "TrimSpace ''s1'' = ''s1''" "TrimSpace ''k2'' = ''k2''"
    "TrimSpace ''default'' = ''default''" by code_simp+
  ultimately show ?thesis
    by (simp add: storable_def ValidateEventMap_iff storage_key_of_def SessionStorageKey_def event_identity_def
        trimmed_at_def sweep_failure_def)
qed


section \<open>Liveness of the pipeline\<close>

text \<open>
  the sweep's liveness gate cannot be satisfied by the sweep's own output, nor by any event that the
  backend writes directly: storing an event whose type is not one of the runner's progress types never turns
  the gate on.
\<close>

theorem liveness_gate_runner_only:
  assumes "storable scope e" "event_type_of e \<notin> set runnerProgressEventTypes"
    and "HasRecentRunnerEvent scope' (snd (Upsert scope now e L)) since"
  shows "HasRecentRunnerEvent scope' L since"
proof -
  have "row_ok (row_of scope now e)" using assms(1) by (rule storable_row_ok)
  then have "er_event_type (row_of scope now e) = Some (event_type_of e)"
    by (simp add: row_ok_def row_of_def event_type_of_def string_at_stored_doc)
  then have row: "\<not> type_in runnerProgressEventTypes ((row_of scope now e)\<lparr>er_created_at := t\<rparr>)" for t
    using assms(2) by (simp add: type_in_def)
  have "r \<in> set L" if "r \<in> set (snd (Upsert scope now e L))" "type_in runnerProgressEventTypes r" for r
    using that row [of "er_created_at (row_of scope now e)"] row Upsert_storable [OF assms(1), of now L]
    by (auto simp: insert_row_def split: if_splits dest!: replace_row_cases)
  then show ?thesis using assms(3) unfolding HasRecentRunnerEvent_def by blast
qed

theorem liveness_gate_runner_only_witness:
  "storable ''default'' sweep_failure \<and>
   \<not> HasRecentRunnerEvent ''default'' (snd (Upsert ''default'' 200 sweep_failure [])) 0"
proof -
  have "event_type_of sweep_failure \<notin> set runnerProgressEventTypes"
    by (simp add: event_type_of_def sweep_failure_def runnerProgressEventTypes_def)
  moreover have "\<not> HasRecentRunnerEvent ''default'' [] 0" by (simp add: HasRecentRunnerEvent_def)
  ultimately show ?thesis
    using liveness_gate_runner_only [OF sweep_failure_storable, of "''default''" 200 "[]" 0] sweep_failure_storable by blast
qed

section \<open>Counts are bounded\<close>

lemma countDistinctField_le: "countDistinctField le render L key field types after \<le> unreadScanCap"
proof -
  have "length (remdups (map f (take unreadScanCap xs))) \<le> unreadScanCap" for f :: "event_row \<Rightarrow> string option" and xs
    by (rule order_trans [OF length_remdups_leq]) simp
  then show ?thesis by (simp add: countDistinctField_def Let_def)
qed

lemma rows_asc_none: "\<forall>r\<in>set L. er_tank_session_id r = sid \<longrightarrow> \<not> p r \<Longrightarrow> rows_asc le sid p L = []"
  by (simp add: rows_asc_def sort_by_def filter_empty_conv)

lemma countDistinctField_read:
  assumes "collation le" "TrimSpace after \<noteq> []" "\<forall>r\<in>set L. er_tank_session_id r = key \<longrightarrow> le (er_order_key r) after"
  shows "countDistinctField le render L key field types after = 0"
proof -
  have "\<not> key_lt le after (er_order_key r)" if "r \<in> set L" "er_tank_session_id r = key" for r
    using that assms collation.le_antisym [OF assms(1)] by (auto simp: key_lt_def)
  then have "rows_asc le key (\<lambda>r. P r \<and> Q r \<and> S r \<and> (TrimSpace after = [] \<or> key_lt le after (er_order_key r))) L = []"
    for P Q S using assms(2) by (intro rows_asc_none) auto
  then show ?thesis unfolding countDistinctField_def Let_def by (simp only: take_Nil list.map remdups.simps list.size if_cancel)
qed

text \<open>
  the unread count is at most twice the scan cap, whatever the backlog, and it is zero once the read
  cursor has reached the newest order key of the session.
\<close>

theorem UnreadOutputCount_bounds:
  assumes "collation le" "TrimSpace after \<noteq> []"
    and "\<forall>r\<in>set L. er_tank_session_id r = SessionStorageKey scope sid \<longrightarrow> le (er_order_key r) after"
  shows "UnreadOutputCount le render scope L sid after = 0 \<and>
    (\<forall>after'. UnreadOutputCount le render scope L sid after' \<le> 4000)"
proof
  show "UnreadOutputCount le render scope L sid after = 0"
    using countDistinctField_read [OF assms] by (simp add: UnreadOutputCount_def)
  have "UnreadOutputCount le render scope L sid after' \<le> unreadScanCap + unreadScanCap" for after'
    unfolding UnreadOutputCount_def Let_def by (intro add_mono countDistinctField_le)
  then show "\<forall>after'. UnreadOutputCount le render scope L sid after' \<le> 4000" by (simp add: unreadScanCap_def)
qed

theorem UnreadOutputCount_bounds_witness:
  "collation byte_le \<and> UnreadOutputCount byte_le (\<lambda>_. []) ''default'' sample_ledger ''s1'' ''k2'' = 0"
proof -
  have k: "TrimSpace ''k2'' \<noteq> []" "TrimSpace ''k1'' = ''k1''" "byte_le ''k1'' ''k2''" by code_simp+
  have "er_order_key (row_of ''default'' 0 sample_stored) = ''k1''"
    by (simp add: row_of_def sample_stored_def trimmed_at_def k)
  then have "\<forall>r\<in>set sample_ledger. er_tank_session_id r = SessionStorageKey ''default'' ''s1'' \<longrightarrow> byte_le (er_order_key r) ''k2''"
    using k by (simp add: sample_ledger_rows)
  then show ?thesis
    using UnreadOutputCount_bounds [OF bytewise.collation_axioms k(1)] bytewise.collation_axioms by blast
qed

end
