(* ===== verification/High_Water.thy ===== *)
theory High_Water
  imports Go_Prelude
begin

text \<open>
  The contract of a stored cursor that only moves forward. Several tables keep one order key per
  session and take concurrent writes that were computed from older or newer readings of the event
  ledger; each write carries the key it was computed from. A store meets the contract when a write
  leaves the greater of the stored and the offered key. The lemmas hold for every such store: the
  cursor never goes back, ends at the greatest key offered, and does not depend on the order in
  which the writes arrive.
\<close>

locale high_water = collation le for le :: "string \<Rightarrow> string \<Rightarrow> bool" +
  fixes inv :: "'s \<Rightarrow> bool"
    and ok :: "'c \<Rightarrow> bool"
    and put :: "'c \<Rightarrow> 's \<Rightarrow> 's"
    and mark :: "'s \<Rightarrow> string option"
    and offer :: "'c \<Rightarrow> string option"
  assumes put_inv: "inv s \<Longrightarrow> ok c \<Longrightarrow> inv (put c s)"
    and put_idle: "inv s \<Longrightarrow> ok c \<Longrightarrow> offer c = None \<Longrightarrow> mark (put c s) = mark s"
    and put_first: "inv s \<Longrightarrow> ok c \<Longrightarrow> offer c = Some k \<Longrightarrow> mark s = None \<Longrightarrow> mark (put c s) = Some k"
    and put_max: "inv s \<Longrightarrow> ok c \<Longrightarrow> offer c = Some k \<Longrightarrow> mark s = Some m \<Longrightarrow>
                  mark (put c s) = Some (if le m k then k else m)"
begin

text \<open>The keys in play: the stored one and those the writes offer.\<close>

definition keys :: "'c list \<Rightarrow> 's \<Rightarrow> string set" where
  "keys cs s = {k. mark s = Some k \<or> (\<exists>c\<in>set cs. offer c = Some k)}"

lemma put_mark_in: "inv s \<Longrightarrow> ok c \<Longrightarrow> mark (put c s) = Some k \<Longrightarrow> mark s = Some k \<or> offer c = Some k"
  by (cases "offer c"; cases "mark s") (auto simp: put_idle put_first put_max split: if_splits)

lemma put_mark_above:
  "inv s \<Longrightarrow> ok c \<Longrightarrow> mark s = Some k \<or> offer c = Some k \<Longrightarrow> \<exists>m. mark (put c s) = Some m \<and> le k m"
  using le_refl le_total
  by (cases "offer c"; cases "mark s") (auto simp: put_idle put_first put_max)

lemma run_inv: "inv s \<Longrightarrow> \<forall>c\<in>set cs. ok c \<Longrightarrow> inv (fold put cs s)"
  by (induction cs arbitrary: s) (auto simp: put_inv)

lemma run_mark_in:
  "inv s \<Longrightarrow> \<forall>c\<in>set cs. ok c \<Longrightarrow> mark (fold put cs s) = Some k \<Longrightarrow> k \<in> keys cs s"
proof (induction cs arbitrary: s)
  case Nil
  then show ?case by (simp add: keys_def)
next
  case (Cons c cs)
  then have "k \<in> keys cs (put c s)" by (simp add: put_inv)
  then show ?case using Cons.prems put_mark_in by (auto simp: keys_def)
qed

lemma run_mark_above:
  "inv s \<Longrightarrow> \<forall>c\<in>set cs. ok c \<Longrightarrow> k \<in> keys cs s \<Longrightarrow> \<exists>m. mark (fold put cs s) = Some m \<and> le k m"
proof (induction cs arbitrary: s k)
  case Nil
  then show ?case using le_refl by (simp add: keys_def)
next
  case (Cons c cs)
  from Cons.prems(3) consider "mark s = Some k \<or> offer c = Some k" | "k \<in> keys cs (put c s)"
    unfolding keys_def by force
  then show ?case
  proof cases
    case 1
    then obtain m where m: "mark (put c s) = Some m" "le k m"
      using put_mark_above [of s c k] Cons.prems(1,2) by auto
    then obtain m' where "mark (fold put cs (put c s)) = Some m'" "le m m'"
      using Cons.IH [of "put c s" m] Cons.prems put_inv by (auto simp: keys_def)
    then show ?thesis using m le_trans by auto
  next
    case 2
    then show ?thesis using Cons put_inv by simp
  qed
qed

text \<open>The cursor never goes back.\<close>

lemma run_mono:
  "inv s \<Longrightarrow> \<forall>c\<in>set cs. ok c \<Longrightarrow> mark s = Some k \<Longrightarrow> \<exists>m. mark (fold put cs s) = Some m \<and> le k m"
  using run_mark_above by (simp add: keys_def)

text \<open>It ends at the greatest of the keys in play, and stays unset only if there is none.\<close>

lemma run_greatest:
  assumes "inv s" "\<forall>c\<in>set cs. ok c"
  shows "mark (fold put cs s) = Some m \<longleftrightarrow> m \<in> keys cs s \<and> (\<forall>k\<in>keys cs s. le k m)"
proof
  assume m: "mark (fold put cs s) = Some m"
  then show "m \<in> keys cs s \<and> (\<forall>k\<in>keys cs s. le k m)"
    using run_mark_in [OF assms m] run_mark_above [OF assms] by fastforce
next
  assume m: "m \<in> keys cs s \<and> (\<forall>k\<in>keys cs s. le k m)"
  then obtain m' where "mark (fold put cs s) = Some m'" "le m m'"
    using run_mark_above [OF assms] by blast
  then show "mark (fold put cs s) = Some m"
    using m run_mark_in [OF assms] le_antisym by blast
qed

text \<open>The order of arrival does not matter, nor do repeated writes.\<close>

lemma run_order_irrelevant:
  assumes "inv s" "\<forall>c\<in>set cs. ok c" "set cs' = set cs"
  shows "mark (fold put cs' s) = mark (fold put cs s)"
proof -
  have k: "keys cs' s = keys cs s" using assms(3) by (simp add: keys_def)
  have ok': "\<forall>c\<in>set cs'. ok c" using assms by simp
  have "mark (fold put cs' s) = Some m \<longleftrightarrow> mark (fold put cs s) = Some m" for m
    using run_greatest [OF assms(1,2), of m] run_greatest [OF assms(1) ok', of m] k by simp
  then show ?thesis by (metis option.exhaust)
qed

end

end
