(* ===== verification/Read_State.thy ===== *)
theory Read_State
  imports High_Water Go_Time
begin

text \<open>
  The per-user read cursor of a conversation (\<^verbatim>\<open>internal/store/read_state.go\<close>): the Postgres table
  \<^verbatim>\<open>conversation_read_state\<close> with its upsert, and the in-memory store that local development uses
  in its place. Both are shown to keep a cursor that only advances (the contract of \<open>High_Water\<close>),
  and the in-memory store is shown to simulate the table when keys are ordered bytewise. A record's
  time stamp is the instant at which it was written; the conversion to text for the reply is left
  out, so \<open>rs_UpdatedAt\<close> is that instant.
\<close>

section \<open>Records and tables\<close>

record ConversationReadStateRecord =
  rs_Email :: string
  rs_SessionID :: string
  rs_LastReadOrderKey :: string
  rs_UpdatedAt :: int

text \<open>A row of the table; the primary key is the first three columns.\<close>

record read_state_row =
  rr_email :: string
  rr_session_scope :: string
  rr_session_id :: string
  rr_last_read_order_key :: string
  rr_updated_at :: int

type_synonym read_state_table = "read_state_row list"

definition normalizeReadStateEmail :: "string \<Rightarrow> string" where
  "normalizeReadStateEmail email = ToLower (TrimSpace email)"

definition default_scope :: "string \<Rightarrow> string" where
  "default_scope scope = (let scope = TrimSpace scope in if scope = [] then ''default'' else scope)"

section \<open>The Postgres store\<close>

definition row_is :: "string \<Rightarrow> string \<Rightarrow> string \<Rightarrow> read_state_row \<Rightarrow> bool" where
  "row_is email scope sid r \<longleftrightarrow>
     rr_email r = email \<and> rr_session_scope r = scope \<and> rr_session_id r = sid"

definition record_of :: "read_state_row \<Rightarrow> ConversationReadStateRecord" where
  "record_of r = \<lparr>rs_Email = rr_email r, rs_SessionID = rr_session_id r,
                  rs_LastReadOrderKey = rr_last_read_order_key r, rs_UpdatedAt = rr_updated_at r\<rparr>"

definition pg_Get :: "string \<Rightarrow> read_state_table \<Rightarrow> string \<Rightarrow> string \<Rightarrow> ConversationReadStateRecord option" where
  "pg_Get scope T email sessionID =
     (let normalized = normalizeReadStateEmail email; sessionID = TrimSpace sessionID
      in if normalized = [] \<or> sessionID = [] then None
         else map_option record_of (find (row_is normalized (default_scope scope) sessionID) T))"

text \<open>\<^verbatim>\<open>SET last_read_order_key = GREATEST(...), updated_at = CASE ... END\<close> on the conflicting row.\<close>

definition advance_row :: "(string \<Rightarrow> string \<Rightarrow> bool) \<Rightarrow> int \<Rightarrow> string \<Rightarrow> read_state_row \<Rightarrow> read_state_row" where
  "advance_row le now k r =
     (if le k (rr_last_read_order_key r) then r
      else r\<lparr>rr_last_read_order_key := k, rr_updated_at := now\<rparr>)"

definition pg_Set ::
  "(string \<Rightarrow> string \<Rightarrow> bool) \<Rightarrow> string \<Rightarrow> int \<Rightarrow> read_state_table \<Rightarrow> string \<Rightarrow> string \<Rightarrow> string \<Rightarrow>
   ConversationReadStateRecord option \<times> read_state_table" where
  "pg_Set le scope now T email sessionID lastReadOrderKey =
     (let normalized = normalizeReadStateEmail email;
          sessionID = TrimSpace sessionID;
          k = TrimSpace lastReadOrderKey;
          scope = default_scope scope;
          mine = row_is normalized scope sessionID
      in if normalized = [] \<or> sessionID = [] \<or> k = [] then (None, T)
         else if (\<exists>r\<in>set T. mine r)
         then (let T' = map (\<lambda>r. if mine r then advance_row le now k r else r) T
               in (map_option record_of (find mine T'), T'))
         else (let r = \<lparr>rr_email = normalized, rr_session_scope = scope, rr_session_id = sessionID,
                        rr_last_read_order_key = k, rr_updated_at = now\<rparr>
               in (Some (record_of r), T @ [r])))"

section \<open>The in-memory store\<close>

text \<open>The key of the Go map joins the e-mail address and the session id with the unit separator.\<close>

type_synonym read_state_memory = "(string \<times> ConversationReadStateRecord) list"

definition readStateMemoryKey :: "string \<Rightarrow> string \<Rightarrow> string \<times> string \<times> string" where
  "readStateMemoryKey email sessionID =
     (let normalized = normalizeReadStateEmail email; trimmed = TrimSpace sessionID
      in if normalized = [] \<or> trimmed = [] then ([], [], [])
         else (normalized @ [CHR 0x1F] @ trimmed, normalized, trimmed))"

definition stub_Get :: "read_state_memory \<Rightarrow> string \<Rightarrow> string \<Rightarrow> ConversationReadStateRecord option" where
  "stub_Get M email sessionID =
     (let (key, _, _) = readStateMemoryKey email sessionID
      in if key = [] then None else map_of M key)"

definition stub_Set ::
  "int \<Rightarrow> read_state_memory \<Rightarrow> string \<Rightarrow> string \<Rightarrow> string \<Rightarrow>
   ConversationReadStateRecord option \<times> read_state_memory" where
  "stub_Set now M email sessionID lastReadOrderKey =
     (let (key, normalized, trimmed) = readStateMemoryKey email sessionID;
          k = TrimSpace lastReadOrderKey;
          rec = \<lparr>rs_Email = normalized, rs_SessionID = trimmed, rs_LastReadOrderKey = k, rs_UpdatedAt = now\<rparr>
      in if key = [] \<or> k = [] then (None, M)
         else (case map_of M key of
                 Some existing \<Rightarrow>
                   if byte_le k (rs_LastReadOrderKey existing) then (Some existing, M)
                   else (Some rec, AList.update key rec M)
               | None \<Rightarrow> (Some rec, AList.update key rec M)))"

section \<open>Both stores keep a cursor that only advances\<close>

text \<open>The writes of one cursor: an instant, an e-mail address, a session id and a key.\<close>

type_synonym cursor_write = "int \<times> string \<times> string \<times> string"

definition addresses :: "string \<Rightarrow> string \<Rightarrow> string \<Rightarrow> string \<Rightarrow> bool" where
  "addresses email sid e s \<longleftrightarrow>
     normalizeReadStateEmail e = email \<and> TrimSpace s = sid \<and> email \<noteq> [] \<and> sid \<noteq> []"

definition cursor_offer :: "string \<Rightarrow> string \<Rightarrow> cursor_write \<Rightarrow> string option" where
  "cursor_offer email sid = (\<lambda>(_, e, s, k).
     if addresses email sid e s \<and> TrimSpace k \<noteq> [] then Some (TrimSpace k) else None)"

definition pg_put :: "(string \<Rightarrow> string \<Rightarrow> bool) \<Rightarrow> string \<Rightarrow> cursor_write \<Rightarrow> read_state_table \<Rightarrow> read_state_table" where
  "pg_put le scope = (\<lambda>(now, e, s, k) T. snd (pg_Set le scope now T e s k))"

definition pg_mark :: "string \<Rightarrow> string \<Rightarrow> string \<Rightarrow> read_state_table \<Rightarrow> string option" where
  "pg_mark scope email sid T =
     map_option rr_last_read_order_key (find (row_is email (default_scope scope) sid) T)"

definition stub_put :: "cursor_write \<Rightarrow> read_state_memory \<Rightarrow> read_state_memory" where
  "stub_put = (\<lambda>(now, e, s, k) M. snd (stub_Set now M e s k))"

definition stub_mark :: "string \<Rightarrow> string \<Rightarrow> read_state_memory \<Rightarrow> string option" where
  "stub_mark email sid M = map_option rs_LastReadOrderKey (map_of M (email @ [CHR 0x1F] @ sid))"

lemma row_is_advance [simp]: "row_is e sc s (advance_row le now k r) = row_is e sc s r"
  by (simp add: row_is_def advance_row_def)

text \<open>The row of one cursor after a write to any cursor.\<close>

lemma pg_put_row:
  "find (row_is email (default_scope scope) sid) (snd (pg_Set le scope now T e s k)) =
     (let old = find (row_is email (default_scope scope) sid) T
      in if addresses email sid e s \<and> TrimSpace k \<noteq> []
         then (case old of
                 Some r \<Rightarrow> Some (advance_row le now (TrimSpace k) r)
               | None \<Rightarrow> Some \<lparr>rr_email = email, rr_session_scope = default_scope scope, rr_session_id = sid,
                               rr_last_read_order_key = TrimSpace k, rr_updated_at = now\<rparr>)
         else old)"
proof -
  let ?n = "normalizeReadStateEmail e" and ?s = "TrimSpace s" and ?k = "TrimSpace k" and ?sc = "default_scope scope"
  let ?mine = "row_is ?n ?sc ?s" and ?want = "row_is email ?sc sid"
  have other: "?mine r \<Longrightarrow> ?want r \<longleftrightarrow> ?n = email \<and> ?s = sid" for r by (auto simp: row_is_def)
  have upd: "find ?want (map (\<lambda>r. if ?mine r then advance_row le now ?k r else r) T) =
      map_option (\<lambda>r. if ?mine r then advance_row le now ?k r else r) (find ?want T)"
    by (rule find_map_same) simp
  have hit: "find ?want T = Some r \<Longrightarrow> ?want r" for r by (auto simp: find_Some_iff)
  show ?thesis
  proof (cases "?n = [] \<or> ?s = [] \<or> ?k = []")
    case True
    then show ?thesis by (auto simp: pg_Set_def Let_def addresses_def)
  next
    case live: False
    show ?thesis
    proof (cases "\<exists>r\<in>set T. ?mine r")
      case True
      then have "?n = email \<and> ?s = sid \<Longrightarrow> find ?want T \<noteq> None" by (auto simp: find_None_iff)
      then show ?thesis using live True upd hit other
        by (auto simp: pg_Set_def Let_def addresses_def split: option.splits)
    next
      case False
      then have "?n = email \<and> ?s = sid \<Longrightarrow> find ?want T = None" by (auto simp: find_None_iff)
      then show ?thesis using live False
        by (auto simp: pg_Set_def Let_def addresses_def find_append row_is_def split: option.splits)
    qed
  qed
qed

lemma pg_high_water:
  assumes "collation le"
  shows "high_water le (\<lambda>_. True) (\<lambda>_. True) (pg_put le scope) (pg_mark scope email sid) (cursor_offer email sid)"
proof (intro high_water.intro high_water_axioms.intro assms)
  note defs = pg_put_def pg_mark_def cursor_offer_def pg_put_row Let_def
  fix T :: read_state_table and c :: cursor_write and k m
  obtain now e s k' where c: "c = (now, e, s, k')" by (cases c)
  show "pg_mark scope email sid (pg_put le scope c T) = pg_mark scope email sid T"
    if "cursor_offer email sid c = None"
    using that by (auto simp: defs c split: if_splits)
  show "pg_mark scope email sid (pg_put le scope c T) = Some k"
    if "cursor_offer email sid c = Some k" "pg_mark scope email sid T = None"
    using that by (simp add: defs c split: if_splits)
  show "pg_mark scope email sid (pg_put le scope c T) = Some (if le m k then k else m)"
    if "cursor_offer email sid c = Some k" "pg_mark scope email sid T = Some m"
    using that collation.le_antisym [OF assms, of m k] key_order.le_total [OF collation.axioms(1) [OF assms], of m k]
    by (auto simp: defs c advance_row_def split: if_splits)
qed simp

interpretation pg_cursor: high_water byte_le "\<lambda>_. True" "\<lambda>_. True" "pg_put byte_le scope"
  "pg_mark scope email sid" "cursor_offer email sid" for scope email sid
  by (rule pg_high_water [OF bytewise.collation_axioms])

text \<open>
  The map of the in-memory store has one entry per cursor as long as the addresses in it contain no
  unit separator.
\<close>

definition clean :: "string \<Rightarrow> bool" where
  "clean s \<longleftrightarrow> CHR 0x1F \<notin> set s"

lemma memory_key_inj: "clean a \<Longrightarrow> clean b \<Longrightarrow> a @ CHR 0x1F # s = b @ CHR 0x1F # t \<longleftrightarrow> a = b \<and> s = t"
proof (induction a arbitrary: b)
  case Nil
  then show ?case by (cases b) (auto simp: clean_def)
next
  case (Cons x a)
  then show ?case by (cases b) (auto simp: clean_def)
qed

lemma stub_put_record:
  assumes "clean email" "clean (normalizeReadStateEmail e)"
  shows "map_of (snd (stub_Set now M e s k)) (email @ [CHR 0x1F] @ sid) =
     (let old = map_of M (email @ [CHR 0x1F] @ sid)
      in if addresses email sid e s \<and> TrimSpace k \<noteq> []
         then (case old of
                 Some r \<Rightarrow> Some (if byte_le (TrimSpace k) (rs_LastReadOrderKey r) then r
                                 else \<lparr>rs_Email = email, rs_SessionID = sid, rs_LastReadOrderKey = TrimSpace k, rs_UpdatedAt = now\<rparr>)
               | None \<Rightarrow> Some \<lparr>rs_Email = email, rs_SessionID = sid, rs_LastReadOrderKey = TrimSpace k, rs_UpdatedAt = now\<rparr>)
         else old)"
proof -
  let ?n = "normalizeReadStateEmail e" and ?s = "TrimSpace s"
  have eq: "email @ CHR 0x1F # sid = ?n @ CHR 0x1F # ?s \<longleftrightarrow> email = ?n \<and> sid = ?s"
    by (rule memory_key_inj [OF assms])
  show ?thesis
  proof (cases "?n = [] \<or> ?s = [] \<or> TrimSpace k = []")
    case True
    then show ?thesis by (auto simp: stub_Set_def readStateMemoryKey_def Let_def addresses_def)
  next
    case False
    then show ?thesis using eq
      by (cases "map_of M (?n @ CHR 0x1F # ?s)")
        (auto simp: stub_Set_def readStateMemoryKey_def Let_def addresses_def update_conv' fun_upd_apply)
  qed
qed

interpretation stub_cursor: high_water byte_le "\<lambda>_. clean email" "\<lambda>(_, e, _, _). clean (normalizeReadStateEmail e)"
  stub_put "stub_mark email sid" "cursor_offer email sid" for email sid
proof
  fix M :: read_state_memory and c :: cursor_write and k m
  obtain now e s k' where c: "c = (now, e, s, k')" by (cases c)
  assume email: "clean email" and "case c of (_, e, _, _) \<Rightarrow> clean (normalizeReadStateEmail e)"
  then have e: "clean (normalizeReadStateEmail e)" by (simp add: c)
  note defs = stub_put_def stub_mark_def cursor_offer_def stub_put_record [OF email e, simplified] Let_def
  show "stub_mark email sid (stub_put c M) = stub_mark email sid M" if "cursor_offer email sid c = None"
    using that by (auto simp: defs c split: if_splits)
  show "stub_mark email sid (stub_put c M) = Some k"
    if "cursor_offer email sid c = Some k" "stub_mark email sid M = None"
    using that by (simp add: defs c split: if_splits)
  show "stub_mark email sid (stub_put c M) = Some (if byte_le m k then k else m)"
    if "cursor_offer email sid c = Some k" "stub_mark email sid M = Some m"
    using that bytewise.le_antisym [of m k] bytewise.le_total [of m k] by (auto simp: defs c split: if_splits)
qed simp_all

section \<open>The in-memory store simulates the table\<close>

datatype read_state_op = OpGet string string | OpSet int string string string

fun op_email :: "read_state_op \<Rightarrow> string" where
  "op_email (OpGet e s) = e"
| "op_email (OpSet now e s k) = e"

fun pg_step :: "(string \<Rightarrow> string \<Rightarrow> bool) \<Rightarrow> string \<Rightarrow> read_state_op \<Rightarrow> read_state_table \<Rightarrow>
    ConversationReadStateRecord option \<times> read_state_table" where
  "pg_step le scope (OpGet e s) T = (pg_Get scope T e s, T)"
| "pg_step le scope (OpSet now e s k) T = pg_Set le scope now T e s k"

fun stub_step :: "read_state_op \<Rightarrow> read_state_memory \<Rightarrow> ConversationReadStateRecord option \<times> read_state_memory" where
  "stub_step (OpGet e s) M = (stub_Get M e s, M)"
| "stub_step (OpSet now e s k) M = stub_Set now M e s k"

text \<open>The replies of a sequence of calls.\<close>

fun replies :: "('op \<Rightarrow> 's \<Rightarrow> 'r \<times> 's) \<Rightarrow> 'op list \<Rightarrow> 's \<Rightarrow> 'r list" where
  "replies step [] s = []"
| "replies step (p # ps) s = fst (step p s) # replies step ps (snd (step p s))"

definition same_cursors :: "string \<Rightarrow> read_state_table \<Rightarrow> read_state_memory \<Rightarrow> bool" where
  "same_cursors scope T M \<longleftrightarrow>
     (\<forall>email sid. clean email \<longrightarrow>
        map_of M (email @ [CHR 0x1F] @ sid) = map_option record_of (find (row_is email (default_scope scope) sid) T))"

lemma pg_Set_reply:
  "normalizeReadStateEmail e \<noteq> [] \<and> TrimSpace s \<noteq> [] \<and> TrimSpace k \<noteq> [] \<Longrightarrow>
   fst (pg_Set le scope now T e s k) =
     map_option record_of (find (row_is (normalizeReadStateEmail e) (default_scope scope) (TrimSpace s))
                             (snd (pg_Set le scope now T e s k)))"
  by (auto simp: pg_Set_def Let_def find_append row_is_def find_None_iff dest!: find_hit split: option.splits)

lemma stub_Set_reply:
  "normalizeReadStateEmail e \<noteq> [] \<and> TrimSpace s \<noteq> [] \<and> TrimSpace k \<noteq> [] \<Longrightarrow>
   fst (stub_Set now M e s k) =
     map_of (snd (stub_Set now M e s k)) (normalizeReadStateEmail e @ [CHR 0x1F] @ TrimSpace s)"
  by (auto simp: stub_Set_def readStateMemoryKey_def Let_def update_conv' split: option.splits)

lemma Set_keeps_same_cursors:
  assumes "same_cursors scope T M" "clean (normalizeReadStateEmail e)"
  shows "same_cursors scope (snd (pg_Set byte_le scope now T e s k)) (snd (stub_Set now M e s k))"
  unfolding same_cursors_def
proof (intro allI impI)
  fix email sid assume email: "clean email"
  let ?want = "row_is email (default_scope scope) sid"
  have old: "map_of M (email @ [CHR 0x1F] @ sid) = map_option record_of (find ?want T)"
    using assms(1) email by (simp add: same_cursors_def)
  have mine: "find ?want T = Some r \<Longrightarrow> rr_email r = email \<and> rr_session_id r = sid" for r
    by (auto simp: find_Some_iff row_is_def)
  show "map_of (snd (stub_Set now M e s k)) (email @ [CHR 0x1F] @ sid) =
      map_option record_of (find ?want (snd (pg_Set byte_le scope now T e s k)))"
    unfolding stub_put_record [OF email assms(2)] pg_put_row old
    using mine by (cases "find ?want T") (auto simp: Let_def record_of_def advance_row_def)
qed

lemma step_simulation:
  assumes "same_cursors scope T M" "clean (normalizeReadStateEmail (op_email p))"
  shows "fst (stub_step p M) = fst (pg_step byte_le scope p T) \<and>
         same_cursors scope (snd (pg_step byte_le scope p T)) (snd (stub_step p M))"
proof (cases p)
  case (OpGet e s)
  then show ?thesis using assms
    by (auto simp: pg_Get_def stub_Get_def readStateMemoryKey_def same_cursors_def Let_def)
next
  case (OpSet now e s k)
  have e: "clean (normalizeReadStateEmail e)" using assms(2) OpSet by simp
  note keep = Set_keeps_same_cursors [OF assms(1) e, of now s k]
  have "fst (stub_Set now M e s k) = fst (pg_Set byte_le scope now T e s k)"
  proof (cases "normalizeReadStateEmail e \<noteq> [] \<and> TrimSpace s \<noteq> [] \<and> TrimSpace k \<noteq> []")
    case True
    then show ?thesis using pg_Set_reply [OF True] stub_Set_reply [OF True] keep e
      unfolding same_cursors_def by metis
  next
    case False
    then show ?thesis by (auto simp: pg_Set_def stub_Set_def readStateMemoryKey_def Let_def)
  qed
  then show ?thesis using keep OpSet by simp
qed

lemma replies_simulation:
  assumes "same_cursors scope T M" "\<forall>p\<in>set ps. clean (normalizeReadStateEmail (op_email p))"
  shows "replies stub_step ps M = replies (pg_step byte_le scope) ps T"
  using assms
proof (induction ps arbitrary: T M)
  case Nil
  then show ?case by simp
next
  case (Cons p ps)
  then show ?case using step_simulation [of scope T M p] by simp
qed

section \<open>Properties\<close>

text \<open>
  however many clients report reading progress, and in whatever order and with whatever repetitions the
  reports arrive, the stored cursor of a conversation never goes back, ends at the greatest key reported, and is
  the same for every arrival order; reports for other users and conversations do not move it.
\<close>

theorem read_cursor_advances:
  assumes "collation le"
  shows "(pg_mark scope email sid T = Some k \<longrightarrow>
            (\<exists>m. pg_mark scope email sid (fold (pg_put le scope) cs T) = Some m \<and> le k m)) \<and>
    (\<forall>c\<in>set cs. \<forall>k. cursor_offer email sid c = Some k \<longrightarrow>
            (\<exists>m. pg_mark scope email sid (fold (pg_put le scope) cs T) = Some m \<and> le k m)) \<and>
    (pg_mark scope email sid (fold (pg_put le scope) cs T) = Some m \<longrightarrow>
            pg_mark scope email sid T = Some m \<or> (\<exists>c\<in>set cs. cursor_offer email sid c = Some m)) \<and>
    (set cs' = set cs \<longrightarrow>
       pg_mark scope email sid (fold (pg_put le scope) cs' T) = pg_mark scope email sid (fold (pg_put le scope) cs T))"
proof -
  note hw = pg_high_water [OF assms, of scope email sid]
  note keys = high_water.keys_def [OF hw]
  show ?thesis
    using high_water.run_mono [OF hw, where s = T and cs = cs and k = k] high_water.run_mark_above [OF hw, where s = T and cs = cs]
      high_water.run_mark_in [OF hw, where s = T and cs = cs and k = m]
      high_water.run_order_irrelevant [OF hw, where s = T and cs = cs and cs' = cs']
    unfolding keys by auto
qed

definition sample_writes :: "cursor_write list" where
  "sample_writes = [(1, ''A@b.c '', ''7'', ''k2''), (2, ''a@b.c'', ''7'', ''k1''), (3, ''a@b.c'', ''8'', ''k9'')]"

theorem read_cursor_advances_witness:
  "collation byte_le \<and> cursor_offer ''a@b.c'' ''7'' (1, ''A@b.c '', ''7'', ''k2'') = Some ''k2'' \<and>
   (1, ''A@b.c '', ''7'', ''k2'') \<in> set sample_writes \<and> set (rev sample_writes) = set sample_writes \<and>
   (\<exists>m. pg_mark ''default'' ''a@b.c'' ''7'' (fold (pg_put byte_le ''default'') sample_writes []) = Some m \<and> byte_le ''k2'' m) \<and>
   pg_mark ''default'' ''a@b.c'' ''7'' (fold (pg_put byte_le ''default'') (rev sample_writes) []) =
   pg_mark ''default'' ''a@b.c'' ''7'' (fold (pg_put byte_le ''default'') sample_writes [])"
proof -
  have offer: "cursor_offer ''a@b.c'' ''7'' (1, ''A@b.c '', ''7'', ''k2'') = Some ''k2''"
    by code_simp
  have mem: "(1, ''A@b.c '', ''7'', ''k2'') \<in> set sample_writes" by (simp add: sample_writes_def)
  have same: "set (rev sample_writes) = set sample_writes" by simp
  note adv = read_cursor_advances [OF bytewise.collation_axioms, of "''default''" "''a@b.c''" "''7''" "[]" "[]"
    sample_writes "[]" "rev sample_writes"]
  show ?thesis using adv offer mem same bytewise.collation_axioms by blast
qed



end
