(* ===== verification/Session_Model.thy ===== *)
theory Session_Model
  imports Session_Ledger Go_SHA256
begin

text \<open>
  The data model of sessions (\<^verbatim>\<open>internal/sessionmodel/sessionmodel.go\<close>): modes, capabilities, names, image
  metadata, identifiers, and the record that the registry reads and writes. A nil slice or map is the empty
  list. Not modelled here: the pod manifest, and the slugs of bug labels, which need the Unicode tables.
\<close>

section \<open>Modes and capabilities\<close>

definition APIKeyMode :: string where "APIKeyMode = ''api_key''"
definition ClaudeCLIMode :: string where "ClaudeCLIMode = ''claude_cli''"
definition ClaudeGUIMode :: string where "ClaudeGUIMode = ''claude_gui''"
definition ConfigMode :: string where "ConfigMode = ''config''"
definition ClaudeSecondaryCLIMode :: string where "ClaudeSecondaryCLIMode = ''claude_secondary_cli''"
definition ClaudeSecondaryGUIMode :: string where "ClaudeSecondaryGUIMode = ''claude_secondary_gui''"
definition ClaudeSecondaryConfigMode :: string where "ClaudeSecondaryConfigMode = ''claude_secondary_config''"
definition CodexConfigMode :: string where "CodexConfigMode = ''codex_config''"
definition CodexCLIMode :: string where "CodexCLIMode = ''codex_cli''"
definition CodexGUIMode :: string where "CodexGUIMode = ''codex_gui''"
definition CodexExecGUIMode :: string where "CodexExecGUIMode = ''codex_exec_gui''"
definition CodexAppServerMode :: string where "CodexAppServerMode = ''codex_app_server''"
definition DefaultSessionMode :: string where "DefaultSessionMode = ClaudeGUIMode"
definition SessionCapabilitySpireLensMCP :: string where "SessionCapabilitySpireLensMCP = ''spirelens_mcp''"
definition SessionCapabilityRestrictedGit :: string where "SessionCapabilityRestrictedGit = ''restricted_git''"
definition MaxNameLength :: nat where "MaxNameLength = 80"

lemmas mode_names =
  APIKeyMode_def ClaudeCLIMode_def ClaudeGUIMode_def ConfigMode_def ClaudeSecondaryCLIMode_def
  ClaudeSecondaryGUIMode_def ClaudeSecondaryConfigMode_def CodexConfigMode_def CodexCLIMode_def CodexGUIMode_def
  CodexExecGUIMode_def CodexAppServerMode_def DefaultSessionMode_def

definition sessionModes :: "string list" where
  "sessionModes = [APIKeyMode, ClaudeCLIMode, ClaudeGUIMode, ConfigMode, ClaudeSecondaryCLIMode, ClaudeSecondaryGUIMode,
     ClaudeSecondaryConfigMode, CodexConfigMode, CodexCLIMode, CodexGUIMode, CodexExecGUIMode, CodexAppServerMode]"

definition sessionCapabilities :: "string list" where
  "sessionCapabilities = [SessionCapabilitySpireLensMCP, SessionCapabilityRestrictedGit]"

definition NormalizeSessionMode :: "string \<Rightarrow> string" where
  "NormalizeSessionMode mode = (if mode = [] then DefaultSessionMode else mode)"

definition IsSessionMode :: "string \<Rightarrow> bool" where
  "IsSessionMode mode \<longleftrightarrow> NormalizeSessionMode mode \<in> set sessionModes"

definition IsCodexMode :: "string \<Rightarrow> bool" where
  "IsCodexMode mode \<longleftrightarrow>
     NormalizeSessionMode mode \<in> {CodexConfigMode, CodexCLIMode, CodexGUIMode, CodexExecGUIMode, CodexAppServerMode}"

definition IsClaudeSecondaryMode :: "string \<Rightarrow> bool" where
  "IsClaudeSecondaryMode mode \<longleftrightarrow>
     NormalizeSessionMode mode \<in> {ClaudeSecondaryCLIMode, ClaudeSecondaryGUIMode, ClaudeSecondaryConfigMode}"

datatype capability_error = EmptyCapability | UnknownCapability string

text \<open>The loop of the source, with the list written so far; it doubles as the set of capabilities seen.\<close>

fun normalize_capabilities :: "string list \<Rightarrow> string list \<Rightarrow> capability_error + string list" where
  "normalize_capabilities out [] = Inr out"
| "normalize_capabilities out (raw # rest) =
     (let capability = ToLower (TrimSpace raw)
      in if capability = [] then Inl EmptyCapability
         else if capability \<notin> set sessionCapabilities then Inl (UnknownCapability capability)
         else if capability \<in> set out then normalize_capabilities out rest
         else normalize_capabilities (out @ [capability]) rest)"

definition NormalizeSessionCapabilities :: "string list \<Rightarrow> capability_error + string list" where
  "NormalizeSessionCapabilities xs = (if xs = [] then Inr [] else normalize_capabilities [] xs)"

definition HasSessionCapability :: "string list \<Rightarrow> string \<Rightarrow> bool" where
  "HasSessionCapability capabilities capability \<longleftrightarrow>
     (\<exists>item\<in>set capabilities. ToLower (TrimSpace item) = ToLower (TrimSpace capability))"

section \<open>Image metadata\<close>

text \<open>A Go map of strings; the order of the list stands for the order in which the loop visits it.\<close>

type_synonym ImageVersionMetadata = "(string \<times> string) list"

definition imageVersionMetadataKeys :: "string list" where
  "imageVersionMetadataKeys = [''actor'', ''built_at'', ''commit_url'', ''git_ref'', ''git_sha'', ''pr_number'',
     ''pr_url'', ''repository'', ''source'', ''workflow_run_url'']"

definition keep_metadata :: "string \<times> string \<Rightarrow> ImageVersionMetadata \<Rightarrow> ImageVersionMetadata" where
  "keep_metadata kv out =
     (let key = TrimSpace (ToLower (fst kv)); v = TrimSpace (snd kv)
      in if key = [] \<or> v = [] \<or> key \<notin> set imageVersionMetadataKeys then out else AList.update key v out)"

definition NormalizeImageVersionMetadata :: "ImageVersionMetadata \<Rightarrow> ImageVersionMetadata" where
  "NormalizeImageVersionMetadata m = fold keep_metadata m []"

section \<open>Names and identifiers\<close>

definition OwnerLabel :: "string \<Rightarrow> string" where
  "OwnerLabel email = ''u-'' @ take 16 (sha256_hex email)"

definition SessionDisplayName :: "string option \<Rightarrow> string \<Rightarrow> string \<Rightarrow> string" where
  "SessionDisplayName name podName sid =
     (let base = TrimPrefix (if podName = [] then sid else podName) ''session-'';
          short = (if length base > 8 then take 8 base else base)
      in case name of
           None \<Rightarrow> short
         | Some n \<Rightarrow> if TrimSpace n \<noteq> [] then TrimSpace n else short)"

definition NormalizeName :: "string option \<Rightarrow> string option" where
  "NormalizeName name =
     (case name of
        None \<Rightarrow> None
      | Some n \<Rightarrow>
          (let trimmed = TrimSpace n
           in if trimmed = [] then None
              else Some (if length trimmed > MaxNameLength then take MaxNameLength trimmed else trimmed)))"

definition SessionDocID :: "string \<Rightarrow> string \<Rightarrow> string" where
  "SessionDocID scope sessionID = ''session:'' @ SessionStorageKey scope sessionID"

definition SessionCounterDocID :: "string \<Rightarrow> string" where
  "SessionCounterDocID scope =
     (let scope = TrimSpace scope
      in if scope = [] \<or> scope = ''default'' then ''session-counter'' else ''session-counter:'' @ scope)"

section \<open>Records\<close>

record SessionBugLabel =
  bl_ID :: int
  bl_Name :: string
  bl_Slug :: string
  bl_DisplayName :: string

record SpawnedSessionRef =
  sp_ID :: string
  sp_Name :: string
  sp_Mode :: string
  sp_Model :: string
  sp_Repos :: "string list"
  sp_URL :: string
  sp_CreatedAt :: string

record SessionPullRequestRef =
  pr_Repo :: string
  pr_Number :: int
  pr_URL :: string
  pr_Action :: string
  pr_Status :: string
  pr_State :: string
  pr_UpdatedAt :: string

text \<open>
  Columns of JSON are documents or absent. The activity summary keeps the JSON value, of which the source
  holds the bytes.
\<close>

record SessionRecord =
  re_ID :: string
  re_Email :: string
  re_Mode :: string
  re_Scope :: string
  re_PodName :: string
  re_SessionImage :: string
  re_SessionImageMetadata :: ImageVersionMetadata
  re_Name :: string
  re_Visible :: bool
  re_RequestedAt :: string
  re_CreatedAt :: string
  re_UpdatedAt :: string
  re_Status :: string
  re_ReadyAt :: string
  re_TerminatingAt :: string
  re_ActivitySummary :: "goany option"
  re_TestState :: "gomap option"
  re_RolloutState :: "gomap option"
  re_SpokeConfig :: "gomap option"
  re_SpawnedSessions :: "SpawnedSessionRef list"
  re_PullRequests :: "SessionPullRequestRef list"
  re_ParentSessionID :: string
  re_Repos :: "string list"
  re_CloneState :: "gomap option"
  re_Capabilities :: "string list"
  re_BugLabel :: "SessionBugLabel option"
  re_BugLabels :: "SessionBugLabel list"
  re_Model :: string
  re_Effort :: string
  re_RuntimeModel :: string
  re_RuntimeEffort :: string
  re_RuntimeConfiguredAt :: string
  re_RuntimeContextWindowTokens :: int
  re_RuntimeContextWindowSource :: string
  re_RuntimeContextWindowObservedAt :: string
  re_RuntimeProviderSessionID :: string
  re_RuntimeProviderSessionObservedAt :: string
  re_ProviderRateLimitInfo :: "gomap option"
  re_ProviderRateLimitObservedAt :: string
  re_CompactionCount :: int
  re_UserMessageCount :: int
  re_OpenTarget :: string
  re_AgentAvatarID :: string
  re_SystemAvatarID :: string
  re_SidebarPosition :: int
  re_RowVersion :: int

definition SessionDoc :: "SessionRecord \<Rightarrow> gomap" where
  "SessionDoc r =
     (let scope = (if re_Scope r = [] then ''default'' else re_Scope r)
      in [(''id'', GStr (SessionDocID scope (re_ID r))), (''type'', GStr ''session''), (''email'', GStr (re_Email r)),
          (''session_scope'', GStr scope), (''session_id'', GStr (re_ID r)), (''mode'', GStr (re_Mode r)),
          (''pod_name'', GStr (re_PodName r)), (''name'', GStr (re_Name r)), (''visible'', GBool (re_Visible r)),
          (''requested_at'', GStr (re_RequestedAt r)), (''created_at'', GStr (re_CreatedAt r)),
          (''updated_at'', GStr (re_UpdatedAt r))])"

section \<open>Properties\<close>


end
