(* ===== verification/Sessions_Table.thy ===== *)
theory Sessions_Table
  imports Session_Model High_Water
begin

text \<open>
  The table \<^verbatim>\<open>sessions\<close>, which the registry, the row writer and the list streams share, and the two tables of
  bug labels next to it. A row has one field per column; a column of JSON holds a value, \<open>None\<close> is SQL's \<^verbatim>\<open>NULL\<close>,
  and times are instants. \<open>db_seq\<close> is the last number drawn from \<^verbatim>\<open>sessions_row_version_seq\<close>. The order of
  the list of rows stands for the order in which the database visits them, which SQL leaves open.

  Every statement that changes a row draws a version for it. The locale \<open>versioned\<close> states this discipline; its
  lemmas show that a reader who knows all rows up to a version learns every later change by asking for
  greater versions.
\<close>

section \<open>Rows\<close>

record session_row =
  sr_email :: string
  sr_session_scope :: string
  sr_session_id :: string
  sr_mode :: string
  sr_pod_name :: string
  sr_name :: string
  sr_visible :: bool
  sr_session_image :: string
  sr_session_image_metadata :: ImageVersionMetadata
  sr_requested_at :: "int option"
  sr_created_at :: int
  sr_updated_at :: int
  sr_status :: string
  sr_ready_at :: "int option"
  sr_terminating_at :: "int option"
  sr_activity_summary :: "goany option"
  sr_test_state :: "gomap option"
  sr_rollout_state :: "gomap option"
  sr_spoke_config :: "gomap option"
  sr_spawned_sessions :: "SpawnedSessionRef list option"
  sr_pull_requests :: "SessionPullRequestRef list option"
  sr_parent_session_id :: "string option"
  sr_repos :: "string list"
  sr_clone_state :: "gomap option"
  sr_capabilities :: "string list"
  sr_model :: string
  sr_effort :: string
  sr_runtime_model :: string
  sr_runtime_effort :: string
  sr_runtime_configured_at :: "int option"
  sr_runtime_context_window_tokens :: int
  sr_runtime_context_window_source :: string
  sr_runtime_context_window_observed_at :: "int option"
  sr_runtime_provider_session_id :: string
  sr_runtime_provider_session_observed_at :: "int option"
  sr_provider_rate_limit_info :: "gomap option"
  sr_provider_rate_limit_observed_at :: "int option"
  sr_compaction_count :: int
  sr_user_message_count :: int
  sr_open_target :: string
  sr_agent_avatar_id :: "string option"
  sr_system_avatar_id :: "string option"
  sr_sidebar_position :: int
  sr_row_version :: int

text \<open>A label of an owner in a scope, and its attachment to a session.\<close>

record bug_label_row =
  lb_id :: int
  lb_owner_email :: string
  lb_session_scope :: string
  lb_name :: string
  lb_slug :: string

record session_bug_label_row =
  sl_owner_email :: string
  sl_session_scope :: string
  sl_session_id :: string
  sl_bug_label_id :: int
  sl_attached_at :: int

record sessions_db =
  db_rows :: "session_row list"
  db_seq :: int
  db_counters :: "(string \<times> int) list"
  db_bug_labels :: "bug_label_row list"
  db_bug_label_seq :: int
  db_session_bug_labels :: "session_bug_label_row list"

abbreviation session_key :: "session_row \<Rightarrow> string \<times> string \<times> string" where
  "session_key r \<equiv> (sr_email r, sr_session_scope r, sr_session_id r)"

definition is_row :: "string \<Rightarrow> string \<Rightarrow> string \<Rightarrow> session_row \<Rightarrow> bool" where
  "is_row email scope sid r \<longleftrightarrow>
     sr_email r = email \<and> sr_session_scope r = scope \<and> sr_session_id r = sid"

definition find_session :: "sessions_db \<Rightarrow> string \<Rightarrow> string \<Rightarrow> string \<Rightarrow> session_row option" where
  "find_session db email scope sid = find (is_row email scope sid) (db_rows db)"

section \<open>Updates\<close>

text \<open>An \<^verbatim>\<open>UPDATE\<close> draws one version per row it changes, in the order in which it visits them.\<close>

fun update_rows :: "(session_row \<Rightarrow> bool) \<Rightarrow> (int \<Rightarrow> session_row \<Rightarrow> session_row) \<Rightarrow> int \<Rightarrow> session_row list \<Rightarrow> session_row list \<times> int" where
  "update_rows p f n [] = ([], n)"
| "update_rows p f n (r # rs) =
     (if p r then (let (rs', n') = update_rows p f (n + 1) rs in (f (n + 1) r # rs', n'))
      else (let (rs', n') = update_rows p f n rs in (r # rs', n')))"

text \<open>\<^verbatim>\<open>UPDATE sessions SET f WHERE p\<close>\<close>

definition update_where :: "(session_row \<Rightarrow> bool) \<Rightarrow> (int \<Rightarrow> session_row \<Rightarrow> session_row) \<Rightarrow> sessions_db \<Rightarrow> sessions_db" where
  "update_where p f db =
     (let (rows, seq) = update_rows p f (db_seq db) (db_rows db) in db\<lparr>db_rows := rows, db_seq := seq\<rparr>)"

text \<open>The primary key, and row versions that the sequence has already handed out, each to one row.\<close>

definition db_ok :: "sessions_db \<Rightarrow> bool" where
  "db_ok db \<longleftrightarrow> distinct (map session_key (db_rows db)) \<and> distinct (map sr_row_version (db_rows db)) \<and>
     (\<forall>r\<in>set (db_rows db). sr_row_version r \<le> db_seq db)"

text \<open>
  A later state of the table: the sequence has not gone back, no row is gone, and every row is either as it was or
  has a version that had not been drawn.
\<close>

definition newer_than :: "sessions_db \<Rightarrow> sessions_db \<Rightarrow> bool" where
  "newer_than db db' \<longleftrightarrow> db_seq db \<le> db_seq db' \<and>
     session_key ` set (db_rows db) \<subseteq> session_key ` set (db_rows db') \<and>
     (\<forall>r\<in>set (db_rows db'). r \<in> set (db_rows db) \<or> db_seq db < sr_row_version r)"

lemma newer_refl [simp]: "newer_than db db"
  by (simp add: newer_than_def)

lemma newer_trans: "newer_than a b \<Longrightarrow> newer_than b c \<Longrightarrow> newer_than a c"
  by (fastforce simp: newer_than_def)

text \<open>Every row comes from one row, and every selected row is assigned.\<close>

lemma fst_update_rows:
  "fst (update_rows p f n (r # rs)) =
     (if p r then f (n + 1) r # fst (update_rows p f (n + 1) rs) else r # fst (update_rows p f n rs))"
  by (simp add: split_def Let_def)

lemma update_rows_cong: "(\<And>r. r \<in> set rs \<Longrightarrow> p r = q r) \<Longrightarrow> update_rows p f n rs = update_rows q f n rs"
  by (induction rs arbitrary: n) auto

lemma db_rows_update_where: "db_rows (update_where p f db) = fst (update_rows p f (db_seq db) (db_rows db))"
  by (simp add: update_where_def split_def Let_def)

lemma update_rows_origin:
  "r' \<in> set (fst (update_rows p f n rs)) \<Longrightarrow> \<exists>r\<in>set rs. (\<not> p r \<and> r' = r) \<or> (p r \<and> (\<exists>v. r' = f v r))"
proof (induction rs arbitrary: n)
  case (Cons r rs)
  consider "r' = (if p r then f (n + 1) r else r)" | m where "r' \<in> set (fst (update_rows p f m rs))"
    using Cons.prems by (auto simp: fst_update_rows simp del: update_rows.simps split: if_splits)
  then show ?case
  proof cases
    case 1
    then show ?thesis by auto
  next
    case 2
    then show ?thesis using Cons.IH by (auto simp del: update_rows.simps)
  qed
qed simp

lemma update_rows_image:
  "r \<in> set rs \<Longrightarrow> p r \<Longrightarrow> \<exists>v. f v r \<in> set (fst (update_rows p f n rs))"
proof (induction rs arbitrary: n)
  case (Cons a rs)
  show ?case
  proof (cases "r = a")
    case True
    then show ?thesis using Cons.prems by (auto simp: fst_update_rows simp del: update_rows.simps)
  next
    case False
    then have "r \<in> set rs" using Cons.prems by simp
    then obtain v w where "f v r \<in> set (fst (update_rows p f (n + 1) rs))" "f w r \<in> set (fst (update_rows p f n rs))"
      using Cons.IH [of "n + 1"] Cons.IH [of n] Cons.prems by blast
    then show ?thesis by (cases "p a") (auto simp: fst_update_rows simp del: update_rows.simps)
  qed
qed simp

lemma update_where_origin:
  "r' \<in> set (db_rows (update_where p f db)) \<Longrightarrow>
     \<exists>r\<in>set (db_rows db). (\<not> p r \<and> r' = r) \<or> (p r \<and> (\<exists>v. r' = f v r))"
  unfolding db_rows_update_where by (rule update_rows_origin)

lemma update_where_image:
  "r \<in> set (db_rows db) \<Longrightarrow> p r \<Longrightarrow> \<exists>v. f v r \<in> set (db_rows (update_where p f db))"
  unfolding db_rows_update_where by (rule update_rows_image)

lemma update_where_others: "r \<in> set (db_rows db) \<Longrightarrow> \<not> p r \<Longrightarrow> r \<in> set (db_rows (update_where p f db))"
proof -
  have "r \<in> set rs \<Longrightarrow> \<not> p r \<Longrightarrow> r \<in> set (fst (update_rows p f n rs))" for rs n
    by (induction rs arbitrary: n) (auto simp: fst_update_rows simp del: update_rows.simps(2))
  then show "r \<in> set (db_rows db) \<Longrightarrow> \<not> p r \<Longrightarrow> r \<in> set (db_rows (update_where p f db))"
    by (simp add: db_rows_update_where)
qed

section \<open>The discipline of versions\<close>

locale versioned =
  fixes f :: "int \<Rightarrow> session_row \<Rightarrow> session_row"
  assumes sets_version: "sr_row_version (f v r) = v"
    and keeps_key: "sr_email (f v r) = sr_email r" "sr_session_scope (f v r) = sr_session_scope r"
      "sr_session_id (f v r) = sr_session_id r"
begin

lemma keeps_session_key: "session_key (f v r) = session_key r"
  by (simp add: keeps_key)

lemma keeps_is_row: "is_row email scope sid (f v r) = is_row email scope sid r"
  by (simp add: is_row_def keeps_key)

lemma update_rows_spec:
  "update_rows p f n rs = (rs', n') \<Longrightarrow>
     n \<le> n' \<and> map session_key rs' = map session_key rs \<and>
     (\<forall>r\<in>set rs'. r \<in> set rs \<or> (n < sr_row_version r \<and> sr_row_version r \<le> n'))"
proof (induction rs arbitrary: n rs' n')
  case Nil
  then show ?case by simp
next
  case (Cons r rs)
  show ?case
  proof (cases "p r")
    case True
    then obtain ss where ss: "update_rows p f (n + 1) rs = (ss, n')" "rs' = f (n + 1) r # ss"
      using Cons.prems by (auto split: prod.splits)
    then show ?thesis using Cons.IH [OF ss(1)] sets_version keeps_key by fastforce
  next
    case False
    then obtain ss where ss: "update_rows p f n rs = (ss, n')" "rs' = r # ss"
      using Cons.prems by (auto split: prod.splits)
    then show ?thesis using Cons.IH [OF ss(1)] by auto
  qed
qed

lemma update_rows_versions:
  assumes "update_rows p f n rs = (rs', n')" "distinct (map sr_row_version rs)" "\<forall>r\<in>set rs. sr_row_version r \<le> m" "m \<le> n"
  shows "distinct (map sr_row_version rs')"
  using assms
proof (induction rs arbitrary: n rs' n')
  case (Cons r rs)
  show ?case
  proof (cases "p r")
    case True
    then obtain ss where ss: "update_rows p f (n + 1) rs = (ss, n')" "rs' = f (n + 1) r # ss"
      using Cons.prems(1) by (auto split: prod.splits)
    have "distinct (map sr_row_version ss)" by (rule Cons.IH [OF ss(1)]) (use Cons.prems in auto)
    moreover have "sr_row_version s \<noteq> n + 1" if "s \<in> set ss" for s
    proof -
      from update_rows_spec [OF ss(1)] that have "s \<in> set rs \<or> n + 1 < sr_row_version s" by blast
      then show ?thesis using Cons.prems(3,4) by force
    qed
    ultimately show ?thesis using ss(2) sets_version by force
  next
    case False
    then obtain ss where ss: "update_rows p f n rs = (ss, n')" "rs' = r # ss"
      using Cons.prems(1) by (auto split: prod.splits)
    have "distinct (map sr_row_version ss)" by (rule Cons.IH [OF ss(1)]) (use Cons.prems in auto)
    moreover have "sr_row_version s \<noteq> sr_row_version r" if "s \<in> set ss" for s
    proof -
      from update_rows_spec [OF ss(1)] that have "s \<in> set rs \<or> n < sr_row_version s" by blast
      moreover have "s \<in> set rs \<Longrightarrow> sr_row_version s \<in> sr_row_version ` set rs" by (rule imageI)
      moreover have "sr_row_version r \<notin> sr_row_version ` set rs" "sr_row_version r \<le> n" using Cons.prems(2-4) by auto
      ultimately show ?thesis by (metis not_le)
    qed
    ultimately show ?thesis using ss(2) by force
  qed
qed simp

lemma update_where_ok: "db_ok db \<Longrightarrow> db_ok (update_where p f db)"
proof -
  assume ok: "db_ok db"
  obtain rs n where u: "update_rows p f (db_seq db) (db_rows db) = (rs, n)" by fastforce
  note spec = update_rows_spec [OF u]
  have old: "\<forall>r\<in>set (db_rows db). sr_row_version r \<le> db_seq db" using ok by (simp add: db_ok_def)
  have "sr_row_version r \<le> n" if r: "r \<in> set rs" for r
  proof -
    from spec r have "r \<in> set (db_rows db) \<or> sr_row_version r \<le> n" by blast
    then show ?thesis
    proof
      assume "r \<in> set (db_rows db)"
      then have "sr_row_version r \<le> db_seq db" using old by blast
      also have "db_seq db \<le> n" using spec by (rule conjunct1)
      finally show ?thesis .
    qed
  qed
  moreover have "distinct (map session_key rs)" using ok spec unfolding db_ok_def by metis
  moreover have "distinct (map sr_row_version rs)"
    by (rule update_rows_versions [OF u _ old order_refl]) (use ok in \<open>simp add: db_ok_def\<close>)
  ultimately show ?thesis by (simp add: db_ok_def update_where_def u)
qed

lemma update_where_newer: "newer_than db (update_where p f db)"
proof -
  obtain rs n where u: "update_rows p f (db_seq db) (db_rows db) = (rs, n)" by fastforce
  note spec = update_rows_spec [OF u]
  have "set (map session_key rs) = set (map session_key (db_rows db))" by (simp only: spec)
  then have "session_key ` set (db_rows db) \<subseteq> session_key ` set rs" by simp
  moreover have "\<forall>r\<in>set rs. r \<in> set (db_rows db) \<or> db_seq db < sr_row_version r" using spec by blast
  moreover have "db_seq db \<le> n" using spec by (rule conjunct1)
  ultimately show ?thesis by (simp add: newer_than_def update_where_def u)
qed

text \<open>With a unique key, an update of one key changes at most one row.\<close>

lemma update_rows_none: "\<forall>r\<in>set rs. \<not> p r \<Longrightarrow> update_rows p f n rs = (rs, n)"
  by (induction rs) auto

lemma update_rows_unique:
  assumes "distinct (map session_key rs)" "\<And>r. p r \<Longrightarrow> session_key r = key"
  shows "update_rows p f n rs =
           (if \<exists>r\<in>set rs. p r then (map (\<lambda>r. if p r then f (n + 1) r else r) rs, n + 1) else (rs, n))"
  using assms(1)
proof (induction rs)
  case Nil
  then show ?case by simp
next
  case (Cons r rs)
  show ?case
  proof (cases "p r")
    case True
    then have none: "\<forall>r'\<in>set rs. \<not> p r'" using Cons.prems assms(2) by fastforce
    then have "map (\<lambda>r. if p r then f (n + 1) r else r) rs = rs" by (simp add: map_idI)
    then show ?thesis using True none by (simp add: update_rows_none)
  next
    case False
    then show ?thesis using Cons by (simp split: prod.splits)
  qed
qed

lemma update_where_one:
  assumes "db_ok db"
  shows "update_where (\<lambda>r. is_row email scope sid r \<and> q r) f db =
    (if \<exists>r\<in>set (db_rows db). is_row email scope sid r \<and> q r
     then db\<lparr>db_rows := map (\<lambda>r. if is_row email scope sid r \<and> q r then f (db_seq db + 1) r else r) (db_rows db),
             db_seq := db_seq db + 1\<rparr>
     else db)"
proof -
  have "update_rows (\<lambda>r. is_row email scope sid r \<and> q r) f (db_seq db) (db_rows db) =
      (if \<exists>r\<in>set (db_rows db). is_row email scope sid r \<and> q r
       then (map (\<lambda>r. if is_row email scope sid r \<and> q r then f (db_seq db + 1) r else r) (db_rows db), db_seq db + 1)
       else (db_rows db, db_seq db))"
    using assms by (intro update_rows_unique [where key = "(email, scope, sid)"]) (auto simp: db_ok_def is_row_def)
  then show ?thesis by (cases "\<exists>r\<in>set (db_rows db). is_row email scope sid r \<and> q r") (auto simp: update_where_def)
qed

lemma find_update_where:
  assumes "db_ok db"
  shows "find_session (update_where (\<lambda>r. is_row email scope sid r \<and> q r) f db) e sc s =
    map_option (\<lambda>r. if is_row email scope sid r \<and> q r then f (db_seq db + 1) r else r) (find_session db e sc s)"
proof -
  let ?t = "\<lambda>r. if is_row email scope sid r \<and> q r then f (db_seq db + 1) r else r"
  have same: "is_row e sc s (?t r) = is_row e sc s r" for r by (simp add: keeps_is_row)
  have id: "?t r = r" if "\<not> (\<exists>r\<in>set (db_rows db). is_row email scope sid r \<and> q r)" "find_session db e sc s = Some r" for r
    using that find_hit [of "is_row e sc s" "db_rows db" r] by (auto simp: find_session_def)
  show ?thesis
  proof (cases "\<exists>r\<in>set (db_rows db). is_row email scope sid r \<and> q r")
    case True
    then show ?thesis using find_map_same [where f = ?t and P = "is_row e sc s" and xs = "db_rows db", OF same]
      by (simp add: update_where_one [OF assms] find_session_def)
  next
    case False
    then have "update_where (\<lambda>r. is_row email scope sid r \<and> q r) f db = db" by (simp only: update_where_one [OF assms] if_False)
    then show ?thesis using False id by (cases "find_session db e sc s") auto
  qed
qed

end

end
