(* ===== verification/Row_Writer.thy ===== *)
theory Row_Writer
  imports Session_Events Sessions_Table
begin

text \<open>
  The single write path of the \<^verbatim>\<open>sessions\<close> row (\<^verbatim>\<open>internal/sessioncontroller/event_types.go\<close> and
  \<^verbatim>\<open>internal/sessioncontroller/writer.go\<close>). Each call is one \<^verbatim>\<open>UPDATE\<close> whose guards are
  evaluated by Postgres, so concurrent callers are modelled as a sequence of calls in any order. What happens outside, the clocks and whether the statement fails, is an argument
  (\<open>writer_env\<close>). Times are instants in nanoseconds, at the precision the writer sends them.
  The theory shows that terminal sessions stay terminal and that a stale activity summary never
  replaces a newer one.
\<close>

section \<open>Transitions\<close>

text \<open>The payload is a Go map that may be nil.\<close>

record Event =
  ev_Email :: string
  ev_SessionScope :: string
  ev_SessionID :: string
  ev_Type :: string
  ev_OccurredAt :: string
  ev_Payload :: "gomap option"

definition EventTypeCreated :: string where "EventTypeCreated = ''session.created''"
definition EventTypeDeleted :: string where "EventTypeDeleted = ''session.deleted''"
definition EventTypeNameChanged :: string where "EventTypeNameChanged = ''session.name_changed''"
definition EventTypePodScheduled :: string where "EventTypePodScheduled = ''session.pod_scheduled''"
definition EventTypePodReady :: string where "EventTypePodReady = ''session.pod_ready''"
definition EventTypePodNotReady :: string where "EventTypePodNotReady = ''session.pod_not_ready''"
definition EventTypePodFailed :: string where "EventTypePodFailed = ''session.pod_failed''"
definition EventTypePodTerminating :: string where "EventTypePodTerminating = ''session.pod_terminating''"
definition EventTypeProviderFatal :: string where "EventTypeProviderFatal = ''session.provider_fatal''"
definition EventTypeActivityChanged :: string where "EventTypeActivityChanged = ''session.activity_changed''"
definition EventTypeCompactionChanged :: string where "EventTypeCompactionChanged = ''session.compaction_changed''"
definition EventTypeUserMessageCountChanged :: string where
  "EventTypeUserMessageCountChanged = ''session.user_message_count_changed''"

lemmas event_types =
  EventTypeCreated_def EventTypeDeleted_def EventTypeNameChanged_def EventTypePodScheduled_def
  EventTypePodReady_def EventTypePodNotReady_def EventTypePodFailed_def EventTypePodTerminating_def
  EventTypeProviderFatal_def EventTypeActivityChanged_def EventTypeCompactionChanged_def
  EventTypeUserMessageCountChanged_def

datatype TransitionOutcome = TransitionEmitted | TransitionNoOp | TransitionPublishFailed

section \<open>Column changes\<close>

text \<open>An empty status, \<open>None\<close> and an absent summary leave the column alone.\<close>

record rowColumnChanges =
  cc_status :: string
  cc_readyAt :: "int option"
  cc_terminatingAt :: "int option"
  cc_activitySummary :: "goany option"
  cc_activityLastOrderKey :: string
  cc_compactionCount :: "int option"
  cc_userMessageCount :: "int option"
  cc_guardNotTerminal :: bool

definition no_changes :: rowColumnChanges where
  "no_changes = \<lparr>cc_status = [], cc_readyAt = None, cc_terminatingAt = None, cc_activitySummary = None,
     cc_activityLastOrderKey = [], cc_compactionCount = None, cc_userMessageCount = None,
     cc_guardNotTerminal = False\<rparr>"

text \<open>
  Both layouts of the source accept the same texts, so one parse stands for the loop over them.
\<close>

definition parseRFC3339 :: "string \<Rightarrow> int option" where
  "parseRFC3339 v = (let v = TrimSpace v in if v = [] then None else ParseRFC3339 v)"

definition payload_at :: "gomap option \<Rightarrow> string \<Rightarrow> goany option" where
  "payload_at payload key = (case payload of None \<Rightarrow> None | Some m \<Rightarrow> mget m key)"

definition parsePayloadTime :: "gomap option \<Rightarrow> string \<Rightarrow> int option" where
  "parsePayloadTime payload key =
     (case as_string (payload_at payload key) of None \<Rightarrow> None | Some v \<Rightarrow> parseRFC3339 v)"

text \<open>\<^verbatim>\<open>int64(v)\<close> of a \<^verbatim>\<open>float64\<close>: truncation, and the minimum outside the range, as amd64 computes it.\<close>

definition int64_of_float :: "rat \<Rightarrow> int" where
  "int64_of_float v =
     (let t = (if 0 \<le> v then \<lfloor>v\<rfloor> else \<lceil>v\<rceil>) in if - (2 ^ 63) \<le> t \<and> t < 2 ^ 63 then t else - (2 ^ 63))"

fun count_of :: "goany option \<Rightarrow> int option" where
  "count_of (Some (GInt64 n)) = Some n"
| "count_of (Some (GInt n)) = Some n"
| "count_of (Some (GFloat v)) = Some (int64_of_float v)"
| "count_of _ = None"

definition compactionCountFromPayload :: "gomap option \<Rightarrow> int option" where
  "compactionCountFromPayload payload = count_of (payload_at payload ''compaction_count'')"

definition userMessageCountFromPayload :: "gomap option \<Rightarrow> int option" where
  "userMessageCountFromPayload payload = count_of (payload_at payload ''user_message_count'')"

text \<open>
  \<^verbatim>\<open>json.Marshal\<close> of the payload, as Postgres stores it in a \<^verbatim>\<open>jsonb\<close> column; a nil map is JSON null. The
  documents of the model hold no value that the encoder rejects.
\<close>

definition marshal_payload :: "gomap option \<Rightarrow> goany" where
  "marshal_payload payload = (case payload of None \<Rightarrow> GNil | Some m \<Rightarrow> GMap (json_doc m))"

definition deriveRowColumnChanges :: "int \<Rightarrow> Event \<Rightarrow> rowColumnChanges option" where
  "deriveRowColumnChanges now event =
     (let ty = ev_Type event
      in if ty = EventTypePodScheduled
         then Some (no_changes\<lparr>cc_status := ''Pending'', cc_guardNotTerminal := True\<rparr>)
         else if ty = EventTypePodReady
         then Some (no_changes\<lparr>cc_status := ''Active'', cc_readyAt := parsePayloadTime (ev_Payload event) ''ready_at'',
                               cc_guardNotTerminal := True\<rparr>)
         else if ty = EventTypePodNotReady
         then Some (no_changes\<lparr>cc_status := ''Pending'', cc_guardNotTerminal := True\<rparr>)
         else if ty = EventTypePodFailed
         then Some (no_changes\<lparr>cc_status := ''Failed''\<rparr>)
         else if ty = EventTypeProviderFatal
         then Some (no_changes\<lparr>cc_status := ''Failed'',
                               cc_terminatingAt := (case parseRFC3339 (ev_OccurredAt event) of
                                                      None \<Rightarrow> Some now | Some t \<Rightarrow> Some t)\<rparr>)
         else if ty = EventTypePodTerminating
         then Some (no_changes\<lparr>cc_status := ''Failed'', cc_terminatingAt := parseRFC3339 (ev_OccurredAt event)\<rparr>)
         else if ty = EventTypeActivityChanged
         then Some (no_changes\<lparr>cc_activitySummary := Some (marshal_payload (ev_Payload event)),
                               cc_activityLastOrderKey :=
                                 (case as_string (payload_at (ev_Payload event) ''last_order_key'') of
                                    None \<Rightarrow> [] | Some k \<Rightarrow> k)\<rparr>)
         else if ty = EventTypeCompactionChanged
         then (case compactionCountFromPayload (ev_Payload event) of
                 None \<Rightarrow> None | Some n \<Rightarrow> Some (no_changes\<lparr>cc_compactionCount := Some n\<rparr>))
         else if ty = EventTypeUserMessageCountChanged
         then (case userMessageCountFromPayload (ev_Payload event) of
                 None \<Rightarrow> None | Some n \<Rightarrow> Some (no_changes\<lparr>cc_userMessageCount := Some n\<rparr>))
         else None)"

section \<open>Guards and assignments\<close>

text \<open>\<^verbatim>\<open>COALESCE(activity_summary ->> 'last_order_key', '')\<close>; a JSON value that is not an object has no members.\<close>

definition summary_key :: "(goany \<Rightarrow> string) \<Rightarrow> goany \<Rightarrow> string" where
  "summary_key render v = (case v of GMap m \<Rightarrow> coalesce_empty (jsonb_text render m ''last_order_key'') | _ \<Rightarrow> [])"

definition write_allowed ::
  "(string \<Rightarrow> string \<Rightarrow> bool) \<Rightarrow> (goany \<Rightarrow> string) \<Rightarrow> rowColumnChanges \<Rightarrow> session_row \<Rightarrow> bool" where
  "write_allowed le render c r \<longleftrightarrow>
     (cc_guardNotTerminal c \<longrightarrow> sr_terminating_at r = None) \<and>
     (cc_activitySummary c \<noteq> None \<longrightarrow>
        (case sr_activity_summary r of
           None \<Rightarrow> True | Some v \<Rightarrow> le (summary_key render v) (cc_activityLastOrderKey c)))"

definition override :: "'a option \<Rightarrow> 'a option \<Rightarrow> 'a option" where
  "override new old = (case new of None \<Rightarrow> old | Some v \<Rightarrow> Some v)"

definition set_columns :: "rowColumnChanges \<Rightarrow> int \<Rightarrow> int \<Rightarrow> session_row \<Rightarrow> session_row" where
  "set_columns c version now r =
     r\<lparr>sr_status := (if cc_status c \<noteq> [] then cc_status c else sr_status r),
       sr_ready_at := override (cc_readyAt c) (sr_ready_at r),
       sr_terminating_at := override (cc_terminatingAt c) (sr_terminating_at r),
       sr_activity_summary := override (cc_activitySummary c) (sr_activity_summary r),
       sr_compaction_count := (case cc_compactionCount c of None \<Rightarrow> sr_compaction_count r | Some n \<Rightarrow> n),
       sr_user_message_count := (case cc_userMessageCount c of None \<Rightarrow> sr_user_message_count r | Some n \<Rightarrow> n),
       sr_row_version := version, sr_updated_at := now\<rparr>"

definition set_parts_empty :: "rowColumnChanges \<Rightarrow> bool" where
  "set_parts_empty c \<longleftrightarrow>
     cc_status c = [] \<and> cc_readyAt c = None \<and> cc_terminatingAt c = None \<and> cc_activitySummary c = None \<and>
     cc_compactionCount c = None \<and> cc_userMessageCount c = None"

section \<open>The writer\<close>

datatype row_metric = RecordRowUpdate string | RecordRowUpdateFailure string | RecordRowActivityWriteSuperseded

datatype writer_error = RowUpdateFailed

record writer_env =
  we_now :: int
  we_db_now :: int
  we_exec_fails :: bool

text \<open>The writer has a pool except in stub mode; the emitter publishes the row of an owner and a session.\<close>

record RowWriter =
  rw_has_pool :: bool

definition applyRowColumnChanges ::
  "(string \<Rightarrow> string \<Rightarrow> bool) \<Rightarrow> (goany \<Rightarrow> string) \<Rightarrow> writer_env \<Rightarrow> Event \<Rightarrow> rowColumnChanges \<Rightarrow> sessions_db \<Rightarrow>
   (writer_error + row_metric list) \<times> sessions_db" where
  "applyRowColumnChanges le render env event c db =
     (if set_parts_empty c then (Inr [], db)
      else if we_exec_fails env then (Inl RowUpdateFailed, db)
      else
        (let p = (\<lambda>r. is_row (ev_Email event) (ev_SessionScope event) (ev_SessionID event) r \<and> write_allowed le render c r);
             superseded = cc_activitySummary c \<noteq> None \<and> \<not> (\<exists>r\<in>set (db_rows db). p r)
         in (Inr (if superseded then [RecordRowActivityWriteSuperseded] else []),
             update_where p (\<lambda>v. set_columns c v (we_db_now env)) db)))"

record transition_result =
  tr_outcome :: "writer_error + TransitionOutcome"
  tr_db :: sessions_db
  tr_metrics :: "row_metric list"
  tr_published :: "(string \<times> string) list"

definition RecordTransition ::
  "(string \<Rightarrow> string \<Rightarrow> bool) \<Rightarrow> (goany \<Rightarrow> string) \<Rightarrow> RowWriter \<Rightarrow> writer_env \<Rightarrow> Event \<Rightarrow> sessions_db \<Rightarrow> transition_result" where
  "RecordTransition le render w env event db =
     (case deriveRowColumnChanges (we_now env) event of
        None \<Rightarrow> \<lparr>tr_outcome = Inr TransitionNoOp, tr_db = db, tr_metrics = [], tr_published = []\<rparr>
      | Some changes \<Rightarrow>
          if rw_has_pool w
          then (case applyRowColumnChanges le render env event changes db of
                  (Inl e, db') \<Rightarrow>
                    \<lparr>tr_outcome = Inl e, tr_db = db', tr_metrics = [RecordRowUpdateFailure (ev_Type event)], tr_published = []\<rparr>
                | (Inr ms, db') \<Rightarrow>
                    \<lparr>tr_outcome = Inr TransitionEmitted, tr_db = db', tr_metrics = ms @ [RecordRowUpdate (ev_Type event)],
                     tr_published = [(ev_Email event, ev_SessionID event)]\<rparr>)
          else \<lparr>tr_outcome = Inr TransitionEmitted, tr_db = db, tr_metrics = [],
                tr_published = [(ev_Email event, ev_SessionID event)]\<rparr>)"

section \<open>One update\<close>

interpretation columns: versioned "\<lambda>v. set_columns c v now" for c now
  by unfold_locales (simp_all add: set_columns_def)

text \<open>The row that a transition changes, and how.\<close>

definition hits :: "(string \<Rightarrow> string \<Rightarrow> bool) \<Rightarrow> (goany \<Rightarrow> string) \<Rightarrow> Event \<Rightarrow> rowColumnChanges \<Rightarrow> session_row \<Rightarrow> bool" where
  "hits le render event c r \<longleftrightarrow>
     is_row (ev_Email event) (ev_SessionScope event) (ev_SessionID event) r \<and> write_allowed le render c r"

abbreviation touched_row ::
  "(string \<Rightarrow> string \<Rightarrow> bool) \<Rightarrow> (goany \<Rightarrow> string) \<Rightarrow> writer_env \<Rightarrow> Event \<Rightarrow> rowColumnChanges \<Rightarrow> int \<Rightarrow> session_row \<Rightarrow> session_row" where
  "touched_row le render env event c v r \<equiv>
     (if hits le render event c r then set_columns c v (we_db_now env) r else r)"

definition writes :: "RowWriter \<Rightarrow> writer_env \<Rightarrow> Event \<Rightarrow> rowColumnChanges option" where
  "writes w env event =
     (case deriveRowColumnChanges (we_now env) event of
        None \<Rightarrow> None
      | Some c \<Rightarrow> if rw_has_pool w \<and> \<not> we_exec_fails env then Some c else None)"

lemma derived_nonempty: "deriveRowColumnChanges now event = Some c \<Longrightarrow> \<not> set_parts_empty c"
  by (auto simp: deriveRowColumnChanges_def set_parts_empty_def no_changes_def Let_def split: if_splits option.splits)

lemma transition_db:
  "tr_db (RecordTransition le render w env event db) =
    (case writes w env event of
       None \<Rightarrow> db
     | Some c \<Rightarrow> update_where (hits le render event c) (\<lambda>v. set_columns c v (we_db_now env)) db)"
  using derived_nonempty [of "we_now env" event]
  by (simp add: RecordTransition_def writes_def applyRowColumnChanges_def Let_def hits_def [abs_def] split: option.split)

lemma db_ok_transition: "db_ok db \<Longrightarrow> db_ok (tr_db (RecordTransition le render w env event db))"
  by (simp add: transition_db columns.update_where_ok split: option.split)

lemma newer_transition: "newer_than db (tr_db (RecordTransition le render w env event db))"
  by (simp add: transition_db columns.update_where_newer split: option.split)

text \<open>A run of the writer: calls in the order in which the database serves them.\<close>

definition transitions ::
  "(string \<Rightarrow> string \<Rightarrow> bool) \<Rightarrow> (goany \<Rightarrow> string) \<Rightarrow> RowWriter \<Rightarrow> (writer_env \<times> Event) list \<Rightarrow> sessions_db \<Rightarrow> sessions_db" where
  "transitions le render w cs db = fold (\<lambda>(env, event) db. tr_db (RecordTransition le render w env event db)) cs db"

lemma transitions_Nil [simp]: "transitions le render w [] db = db"
  by (simp add: transitions_def)

lemma transitions_Cons [simp]:
  "transitions le render w ((env, event) # cs) db =
     transitions le render w cs (tr_db (RecordTransition le render w env event db))"
  by (simp add: transitions_def)

lemma transitions_induct [consumes 1, case_names start step]:
  assumes "db_ok db" "P db"
    and "\<And>env event db. db_ok db \<Longrightarrow> P db \<Longrightarrow> P (tr_db (RecordTransition le render w env event db))"
  shows "P (transitions le render w cs db)"
  using assms(1,2)
proof (induction cs arbitrary: db)
  case Nil
  then show ?case by simp
next
  case (Cons c cs)
  obtain env event where "c = (env, event)" by (cases c)
  then show ?case using Cons assms(3) db_ok_transition by simp
qed

lemma db_ok_transitions: "db_ok db \<Longrightarrow> db_ok (transitions le render w cs db)"
  by (rule transitions_induct) (simp_all add: db_ok_transition)

text \<open>The row of a session after a call.\<close>

lemma find_session_transition:
  assumes "db_ok db"
  shows "find_session (tr_db (RecordTransition le render w env event db)) email scope sid =
    (case writes w env event of
       None \<Rightarrow> find_session db email scope sid
     | Some c \<Rightarrow> map_option (touched_row le render env event c (db_seq db + 1)) (find_session db email scope sid))"
  unfolding transition_db hits_def [abs_def] by (simp add: columns.find_update_where [OF assms] split: option.split)

section \<open>Terminal sessions\<close>

definition terminal_row :: "session_row \<Rightarrow> bool" where
  "terminal_row r \<longleftrightarrow> sr_terminating_at r \<noteq> None \<and> sr_status r = ''Failed''"

text \<open>Every write that is not guarded sets the status to failed or leaves it alone, and none clears the mark.\<close>

lemma derived_status:
  "deriveRowColumnChanges now event = Some c \<Longrightarrow>
     cc_guardNotTerminal c \<or> (cc_status c \<in> {[], ''Failed''} \<and> cc_readyAt c = None)"
  by (auto simp: deriveRowColumnChanges_def no_changes_def Let_def split: if_splits option.splits)

lemma touched_row_terminal:
  assumes "writes w env event = Some c" "terminal_row r"
  shows "terminal_row (touched_row le render env event c v r) \<and>
         sr_ready_at (touched_row le render env event c v r) = sr_ready_at r"
proof -
  obtain now where "deriveRowColumnChanges now event = Some c"
    using assms(1) by (auto simp: writes_def split: option.splits if_splits)
  from derived_status [OF this] show ?thesis using assms(2)
    by (auto simp: terminal_row_def hits_def write_allowed_def set_columns_def override_def split: option.splits)
qed

definition sample_row :: session_row where
  "sample_row = \<lparr>sr_email = ''u@x'', sr_session_scope = ''default'', sr_session_id = ''7'', sr_mode = ''claude_gui'',
     sr_pod_name = ''session-7'', sr_name = ''n'', sr_visible = True, sr_session_image = [], sr_session_image_metadata = [],
     sr_requested_at = None, sr_created_at = 1, sr_updated_at = 5, sr_status = ''Failed'', sr_ready_at = None,
     sr_terminating_at = Some 5, sr_activity_summary = None, sr_test_state = None, sr_rollout_state = None,
     sr_spoke_config = None, sr_spawned_sessions = None, sr_pull_requests = None, sr_parent_session_id = None,
     sr_repos = [], sr_clone_state = None, sr_capabilities = [], sr_model = [], sr_effort = [], sr_runtime_model = [],
     sr_runtime_effort = [], sr_runtime_configured_at = None, sr_runtime_context_window_tokens = 0,
     sr_runtime_context_window_source = [], sr_runtime_context_window_observed_at = None,
     sr_runtime_provider_session_id = [], sr_runtime_provider_session_observed_at = None,
     sr_provider_rate_limit_info = None, sr_provider_rate_limit_observed_at = None, sr_compaction_count = 0,
     sr_user_message_count = 0, sr_open_target = [], sr_agent_avatar_id = Some ''a'', sr_system_avatar_id = None,
     sr_sidebar_position = 2, sr_row_version = 3\<rparr>"

definition sample_db :: sessions_db where
  "sample_db = \<lparr>db_rows = [sample_row], db_seq = 9, db_counters = [], db_bug_labels = [], db_bug_label_seq = 0,
     db_session_bug_labels = []\<rparr>"

definition sample_transition :: "string \<Rightarrow> gomap \<Rightarrow> Event" where
  "sample_transition ty payload = \<lparr>ev_Email = ''u@x'', ev_SessionScope = ''default'', ev_SessionID = ''7'',
     ev_Type = ty, ev_OccurredAt = [], ev_Payload = Some payload\<rparr>"

definition sample_env :: writer_env where
  "sample_env = \<lparr>we_now = 100, we_db_now = 101, we_exec_fails = False\<rparr>"

lemma sample_db_ok: "db_ok sample_db"
  by (simp add: db_ok_def sample_db_def sample_row_def)

lemma sample_find: "find_session sample_db ''u@x'' ''default'' ''7'' = Some sample_row"
  by (simp add: find_session_def sample_db_def sample_row_def is_row_def)

text \<open>
  C24: once a session carries a termination time and is failed, no sequence of transitions brings it back: it
  keeps a termination time, stays failed and its ready time does not move, even when its container passes the
  readiness probe again between crashes.
\<close>

theorem terminal_session_stays_terminal:
  assumes "db_ok db" "find_session db email scope sid = Some r" "terminal_row r"
  shows "\<exists>r'. find_session (transitions le render w cs db) email scope sid = Some r' \<and>
              terminal_row r' \<and> sr_ready_at r' = sr_ready_at r"
proof -
  let ?P = "\<lambda>db. \<exists>r'. find_session db email scope sid = Some r' \<and> terminal_row r' \<and> sr_ready_at r' = sr_ready_at r"
  show ?thesis
  proof (rule transitions_induct [where P = ?P, OF assms(1)])
    show "?P db" using assms by simp
    fix env event db
    assume ok: "db_ok db" and "?P db"
    then obtain r' where r': "find_session db email scope sid = Some r'" "terminal_row r'" "sr_ready_at r' = sr_ready_at r"
      by blast
    show "?P (tr_db (RecordTransition le render w env event db))"
      using r' touched_row_terminal [OF _ r'(2), of w env event]
      by (cases "writes w env event") (simp_all only: find_session_transition [OF ok] option.case option.map, blast+)
  qed
qed

theorem terminal_session_stays_terminal_witness:
  "db_ok sample_db \<and> find_session sample_db ''u@x'' ''default'' ''7'' = Some sample_row \<and> terminal_row sample_row \<and>
   (\<exists>r'. find_session (transitions byte_le (\<lambda>_. []) \<lparr>rw_has_pool = True\<rparr>
             [(sample_env, sample_transition EventTypePodReady [])] sample_db) ''u@x'' ''default'' ''7'' = Some r' \<and>
         terminal_row r' \<and> sr_ready_at r' = sr_ready_at sample_row)"
proof -
  have "terminal_row sample_row" by (simp add: terminal_row_def sample_row_def)
  then show ?thesis using terminal_session_stays_terminal [OF sample_db_ok sample_find] sample_db_ok sample_find by blast
qed

section \<open>Activity summaries\<close>

text \<open>
  The key that a call offers, if it reaches the row of the session. A summary is well typed when its key is a
  string or absent, as in the documents that the emitter sends.
\<close>

definition summary_typed :: "Event \<Rightarrow> bool" where
  "summary_typed event \<longleftrightarrow>
     (case payload_at (ev_Payload event) ''last_order_key'' of
        None \<Rightarrow> True | Some GNil \<Rightarrow> True | Some (GStr _) \<Rightarrow> True | _ \<Rightarrow> False)"

definition event_key :: "Event \<Rightarrow> string" where
  "event_key event = (case as_string (payload_at (ev_Payload event) ''last_order_key'') of None \<Rightarrow> [] | Some k \<Rightarrow> k)"

definition summary_offer :: "RowWriter \<Rightarrow> string \<Rightarrow> string \<Rightarrow> string \<Rightarrow> writer_env \<times> Event \<Rightarrow> string option" where
  "summary_offer w email scope sid = (\<lambda>(env, event).
     if ev_Type event = EventTypeActivityChanged \<and> rw_has_pool w \<and> \<not> we_exec_fails env \<and>
        ev_Email event = email \<and> ev_SessionScope event = scope \<and> ev_SessionID event = sid
     then Some (event_key event) else None)"

definition summary_mark :: "(goany \<Rightarrow> string) \<Rightarrow> string \<Rightarrow> string \<Rightarrow> string \<Rightarrow> sessions_db \<Rightarrow> string option" where
  "summary_mark render email scope sid db =
     (case find_session db email scope sid of
        None \<Rightarrow> None | Some r \<Rightarrow> map_option (summary_key render) (sr_activity_summary r))"

lemma summary_key_marshal: "summary_typed event \<Longrightarrow> summary_key render (marshal_payload (ev_Payload event)) = event_key event"
  by (auto simp: summary_key_def marshal_payload_def summary_typed_def event_key_def payload_at_def jsonb_text_def
      coalesce_empty_def mget_json_doc split: option.splits goany.splits)

lemma writes_activity:
  "ev_Type event = EventTypeActivityChanged \<Longrightarrow> writes w env event =
     (if rw_has_pool w \<and> \<not> we_exec_fails env
      then Some (no_changes\<lparr>cc_activitySummary := Some (marshal_payload (ev_Payload event)),
                            cc_activityLastOrderKey := event_key event\<rparr>)
      else None)"
  by (simp add: writes_def deriveRowColumnChanges_def event_key_def event_types)

lemma writes_other:
  "ev_Type event \<noteq> EventTypeActivityChanged \<Longrightarrow> writes w env event = Some c \<Longrightarrow> cc_activitySummary c = None"
  by (auto simp: writes_def deriveRowColumnChanges_def no_changes_def Let_def split: if_splits option.splits)

text \<open>What a call does to the summary of a session.\<close>

lemma summary_transition:
  assumes "db_ok db" "find_session db email scope sid = Some r"
  shows "\<exists>r'. find_session (tr_db (RecordTransition le render w env event db)) email scope sid = Some r' \<and>
    sr_activity_summary r' =
      (if summary_offer w email scope sid (env, event) \<noteq> None \<and>
          (case sr_activity_summary r of None \<Rightarrow> True | Some v \<Rightarrow> le (summary_key render v) (event_key event))
       then Some (marshal_payload (ev_Payload event)) else sr_activity_summary r)"
proof -
  have mine: "is_row email scope sid r" using find_hit assms(2) unfolding find_session_def by metis
  show ?thesis
  proof (cases "ev_Type event = EventTypeActivityChanged")
    case True
    then show ?thesis using assms mine
      by (auto simp: find_session_transition writes_activity summary_offer_def hits_def write_allowed_def
          no_changes_def set_columns_def override_def is_row_def split: option.splits)
  next
    case False
    then show ?thesis using assms writes_other [OF False, of w env]
      by (auto simp: find_session_transition summary_offer_def set_columns_def override_def split: option.splits)
  qed
qed

lemma summary_high_water:
  assumes "collation le"
  shows "high_water le (\<lambda>db. db_ok db \<and> find_session db email scope sid \<noteq> None) (\<lambda>(_, event). summary_typed event)
    (\<lambda>(env, event) db. tr_db (RecordTransition le render w env event db))
    (summary_mark render email scope sid) (summary_offer w email scope sid)"
proof (intro high_water.intro high_water_axioms.intro assms)
  fix db :: sessions_db and c :: "writer_env \<times> Event" and k m
  obtain env event where c: "c = (env, event)" by (cases c)
  assume inv: "db_ok db \<and> find_session db email scope sid \<noteq> None" and typed: "case c of (_, event) \<Rightarrow> summary_typed event"
  obtain r where r: "find_session db email scope sid = Some r" using inv by auto
  let ?db' = "case c of (env, event) \<Rightarrow> \<lambda>db. tr_db (RecordTransition le render w env event db)"
  obtain r' where r': "find_session (?db' db) email scope sid = Some r'" "sr_activity_summary r' =
      (if summary_offer w email scope sid (env, event) \<noteq> None \<and>
          (case sr_activity_summary r of None \<Rightarrow> True | Some v \<Rightarrow> le (summary_key render v) (event_key event))
       then Some (marshal_payload (ev_Payload event)) else sr_activity_summary r)"
    using summary_transition [of db email scope sid r le render w env event] inv r unfolding c prod.case by blast
  have offered: "summary_offer w email scope sid c = Some k \<Longrightarrow> k = event_key event" for k
    by (auto simp: summary_offer_def c split: if_splits)
  show "db_ok (?db' db) \<and> find_session (?db' db) email scope sid \<noteq> None"
    using r' inv by (simp add: c db_ok_transition)
  show "summary_mark render email scope sid (?db' db) = summary_mark render email scope sid db"
    if "summary_offer w email scope sid c = None"
    using that r r' by (simp add: summary_mark_def c)
  show "summary_mark render email scope sid (?db' db) = Some k"
    if "summary_offer w email scope sid c = Some k" "summary_mark render email scope sid db = None"
    using that r r' typed offered by (simp add: summary_mark_def c summary_key_marshal)
  show "summary_mark render email scope sid (?db' db) = Some (if le m k then k else m)"
    if "summary_offer w email scope sid c = Some k" "summary_mark render email scope sid db = Some m"
    using that r r' typed offered by (auto simp: summary_mark_def c summary_key_marshal)
qed

interpretation activity_cursor: high_water byte_le "\<lambda>db. db_ok db \<and> find_session db email scope sid \<noteq> None"
  "\<lambda>(_, event). summary_typed event" "\<lambda>(env, event) db. tr_db (RecordTransition byte_le render w env event db)"
  "summary_mark render email scope sid" "summary_offer w email scope sid" for email scope sid render w
  by (rule summary_high_water [OF bytewise.collation_axioms])

text \<open>The stored summary is always one that some call sent, or the one found at the start.\<close>

lemma summary_origin:
  assumes "db_ok db" "find_session db email scope sid = Some r"
  shows "\<exists>r'. find_session (transitions le render w cs db) email scope sid = Some r' \<and>
    (sr_activity_summary r' = sr_activity_summary r \<or>
     (\<exists>(env, event)\<in>set cs. summary_offer w email scope sid (env, event) \<noteq> None \<and>
        sr_activity_summary r' = Some (marshal_payload (ev_Payload event))))"
  using assms
proof (induction cs arbitrary: db r)
  case Nil
  then show ?case by simp
next
  case (Cons c cs)
  obtain env event where c: "c = (env, event)" by (cases c)
  let ?db = "tr_db (RecordTransition le render w env event db)"
  obtain r1 where r1: "find_session ?db email scope sid = Some r1"
      "sr_activity_summary r1 = sr_activity_summary r \<or>
       (summary_offer w email scope sid (env, event) \<noteq> None \<and> sr_activity_summary r1 = Some (marshal_payload (ev_Payload event)))"
    using summary_transition [OF Cons.prems, of le render w env event] by (auto split: if_splits)
  obtain r2 where "find_session (transitions le render w cs ?db) email scope sid = Some r2"
      "sr_activity_summary r2 = sr_activity_summary r1 \<or>
       (\<exists>(env, event)\<in>set cs. summary_offer w email scope sid (env, event) \<noteq> None \<and>
          sr_activity_summary r2 = Some (marshal_payload (ev_Payload event)))"
    using Cons.IH [OF db_ok_transition [OF Cons.prems(1)] r1(1)] by blast
  then show ?case using r1(2) unfolding c by (auto simp del: not_None_eq)
qed

text \<open>
  C11: refreshers that folded older or newer ledger tails may write the activity summary in any interleaving; the stored
  order key never goes back, it is at least every key offered to the row, so a summary folded from an older
  tail never outlives one folded from a newer tail, and the stored summary is one that was sent or the first one.
\<close>

theorem stale_summary_never_wins:
  assumes "collation le" "db_ok db" "find_session db email scope sid = Some r" "\<forall>(env, event)\<in>set cs. summary_typed event"
  shows "let db' = transitions le render w cs db; key = summary_mark render email scope sid in
    (\<forall>k. key db = Some k \<longrightarrow> (\<exists>m. key db' = Some m \<and> le k m)) \<and>
    (\<forall>c\<in>set cs. \<forall>k. summary_offer w email scope sid c = Some k \<longrightarrow> (\<exists>m. key db' = Some m \<and> le k m)) \<and>
    (\<exists>r'. find_session db' email scope sid = Some r' \<and>
       (sr_activity_summary r' = sr_activity_summary r \<or>
        (\<exists>(env, event)\<in>set cs. summary_offer w email scope sid (env, event) \<noteq> None \<and>
           sr_activity_summary r' = Some (marshal_payload (ev_Payload event)))))"
proof -
  note hw = summary_high_water [OF assms(1), of email scope sid render w]
  have inv: "db_ok db \<and> find_session db email scope sid \<noteq> None" using assms(2,3) by simp
  have typed: "\<forall>c\<in>set cs. case c of (_, event) \<Rightarrow> summary_typed event" using assms(4) by auto
  have above: "k \<in> high_water.keys (summary_mark render email scope sid) (summary_offer w email scope sid) cs db \<Longrightarrow>
      \<exists>m. summary_mark render email scope sid (transitions le render w cs db) = Some m \<and> le k m" for k
    using high_water.run_mark_above [OF hw inv typed] unfolding transitions_def by blast
  show ?thesis
    unfolding Let_def
    using above [unfolded high_water.keys_def [OF hw]] summary_origin [OF assms(2,3), of le render w cs] by blast
qed

theorem stale_summary_never_wins_witness:
  "collation byte_le \<and> db_ok sample_db \<and> find_session sample_db ''u@x'' ''default'' ''7'' = Some sample_row \<and>
   (\<exists>m. summary_mark (\<lambda>_. []) ''u@x'' ''default'' ''7'' (transitions byte_le (\<lambda>_. []) \<lparr>rw_has_pool = True\<rparr>
      [(sample_env, sample_transition EventTypeActivityChanged [(''last_order_key'', GStr ''k2'')]),
       (sample_env, sample_transition EventTypeActivityChanged [(''last_order_key'', GStr ''k1'')])] sample_db) = Some m \<and>
      byte_le ''k2'' m)"
proof -
  let ?cs = "[(sample_env, sample_transition EventTypeActivityChanged [(''last_order_key'', GStr ''k2'')]),
              (sample_env, sample_transition EventTypeActivityChanged [(''last_order_key'', GStr ''k1'')])]"
  have typed: "\<forall>(env, event)\<in>set ?cs. summary_typed event"
    by (simp add: summary_typed_def sample_transition_def payload_at_def)
  have "summary_offer \<lparr>rw_has_pool = True\<rparr> ''u@x'' ''default'' ''7'' (hd ?cs) = Some ''k2''" "hd ?cs \<in> set ?cs"
    by (simp_all add: summary_offer_def sample_transition_def sample_env_def event_key_def payload_at_def)
  then show ?thesis
    using stale_summary_never_wins [OF bytewise.collation_axioms sample_db_ok sample_find typed, where render = "\<lambda>_. []"]
      typed bytewise.collation_axioms sample_db_ok sample_find unfolding Let_def by blast
qed

section \<open>Outcomes\<close>

text \<open>
  a call that fails or has no effect changes no row and publishes nothing; every other call publishes exactly the
  row of its session and changes no row of any other session. No call ever reports that publishing failed, because
  the emitter does not report back.
\<close>

theorem RecordTransition_outcome:
  "let res = RecordTransition le render w env event db in
    tr_outcome res \<noteq> Inr TransitionPublishFailed \<and>
    (tr_outcome res = Inr TransitionNoOp \<longleftrightarrow> deriveRowColumnChanges (we_now env) event = None) \<and>
    (tr_outcome res = Inr TransitionEmitted \<longrightarrow> tr_published res = [(ev_Email event, ev_SessionID event)]) \<and>
    (tr_outcome res \<noteq> Inr TransitionEmitted \<longrightarrow> tr_published res = [] \<and> tr_db res = db) \<and>
    (\<forall>r\<in>set (db_rows db). \<not> is_row (ev_Email event) (ev_SessionScope event) (ev_SessionID event) r \<longrightarrow> r \<in> set (db_rows (tr_db res)))"
proof -
  let ?res = "RecordTransition le render w env event db"
  have frame: "r \<in> set (db_rows (tr_db ?res))"
    if "r \<in> set (db_rows db)" "\<not> is_row (ev_Email event) (ev_SessionScope event) (ev_SessionID event) r" for r
    using that by (auto simp: transition_db hits_def intro: update_where_others split: option.splits)
  show ?thesis using frame derived_nonempty [of "we_now env" event]
    by (auto simp: Let_def RecordTransition_def applyRowColumnChanges_def split: option.splits prod.splits if_splits sum.splits)
qed

theorem RecordTransition_outcome_witness:
  "tr_outcome (RecordTransition byte_le (\<lambda>_. []) \<lparr>rw_has_pool = True\<rparr> sample_env (sample_transition EventTypeCreated []) sample_db)
     = Inr TransitionNoOp"
proof -
  have "deriveRowColumnChanges (we_now sample_env) (sample_transition EventTypeCreated []) = None"
    by (simp add: deriveRowColumnChanges_def sample_transition_def event_types)
  then show ?thesis using RecordTransition_outcome unfolding Let_def by blast
qed

end
