(* ===== verification/Session_Registry.thy ===== *)
theory Session_Registry
  imports Row_Writer
begin

text \<open>
  The session registry (\<^verbatim>\<open>internal/sessionregistry/registry.go\<close> and \<^verbatim>\<open>write.go\<close>): every statement that the
  store runs on the \<^verbatim>\<open>sessions\<close> table, as a function of the table. \<open>scope\<close> is the scope of the store, \<open>now\<close>
  the clock of the database, \<open>to_char\<close> its rendering of an instant and \<open>le\<close> its collation. A store method
  that only fails with the connection returns the table; the other failures are values.
\<close>

section \<open>Common parts\<close>

definition store_scope :: "string \<Rightarrow> string" where
  "store_scope scope = (let scope = TrimSpace scope in if scope = [] then ''default'' else scope)"

definition owner_key :: "string \<Rightarrow> string" where
  "owner_key email = ToLower (TrimSpace email)"

text \<open>\<^verbatim>\<open>SET g, updated_at = now(), row_version = nextval(...)\<close>\<close>

definition touch :: "(session_row \<Rightarrow> session_row) \<Rightarrow> int \<Rightarrow> int \<Rightarrow> session_row \<Rightarrow> session_row" where
  "touch g now v r = (g r)\<lparr>sr_updated_at := now, sr_row_version := v\<rparr>"

definition set_row ::
  "string \<Rightarrow> string \<Rightarrow> string \<Rightarrow> (session_row \<Rightarrow> bool) \<Rightarrow> (session_row \<Rightarrow> session_row) \<Rightarrow> int \<Rightarrow> sessions_db \<Rightarrow> sessions_db" where
  "set_row email scope sid q g now db = update_where (\<lambda>r. is_row email scope sid r \<and> q r) (touch g now) db"

text \<open>A zero time is no time.\<close>

definition parseTimestamp :: "string \<Rightarrow> int option" where
  "parseTimestamp s =
     (let s = TrimSpace s
      in if s = [] then None
         else case ParseRFC3339 s of None \<Rightarrow> None | Some t \<Rightarrow> if t = UnixNano zero_time then None else Some t)"

section \<open>Identifiers\<close>

definition NextSessionID :: "string \<Rightarrow> sessions_db \<Rightarrow> string \<times> sessions_db" where
  "NextSessionID scope db =
     (let scope = store_scope scope;
          n = (case map_of (db_counters db) scope of None \<Rightarrow> 2 | Some k \<Rightarrow> k + 1)
      in (int_dec (n - 1), db\<lparr>db_counters := AList.update scope n (db_counters db)\<rparr>))"

section \<open>Writing whole records\<close>

datatype registry_error =
    MissingAgentAvatar string
  | NullName
  | MissingSession
  | ErrSessionOrderConflict

definition validateSessionRecordForWrite :: "SessionRecord \<Rightarrow> registry_error option" where
  "validateSessionRecordForWrite rec =
     (if re_Visible rec \<and> TrimSpace (re_AgentAvatarID rec) = [] then Some (MissingAgentAvatar (re_ID rec)) else None)"

text \<open>
  The row proposed by the \<^verbatim>\<open>INSERT\<close>: the defaults of its columns draw a version and, when the record has no
  position, a second number for the position. \<open>db_now\<close> is the database clock, \<open>now\<close> the one of the process.
\<close>

definition proposed_row :: "string \<Rightarrow> int \<Rightarrow> int \<Rightarrow> int \<Rightarrow> SessionRecord \<Rightarrow> session_row" where
  "proposed_row scope now db_now seq rec =
     \<lparr>sr_email = ToLower (re_Email rec),
      sr_session_scope = (if re_Scope rec = [] then store_scope scope else re_Scope rec),
      sr_session_id = re_ID rec,
      sr_mode = (if re_Mode rec = [] then DefaultSessionMode else re_Mode rec),
      sr_pod_name = re_PodName rec,
      sr_name = re_Name rec,
      sr_visible = re_Visible rec,
      sr_session_image = TrimSpace (re_SessionImage rec),
      sr_session_image_metadata = NormalizeImageVersionMetadata (re_SessionImageMetadata rec),
      sr_requested_at = parseTimestamp (re_RequestedAt rec),
      sr_created_at = (case parseTimestamp (re_CreatedAt rec) of None \<Rightarrow> db_now | Some t \<Rightarrow> t),
      sr_updated_at = (case parseTimestamp (re_UpdatedAt rec) of None \<Rightarrow> now | Some t \<Rightarrow> t),
      sr_status = (if TrimSpace (re_Status rec) = [] then ''Pending'' else TrimSpace (re_Status rec)),
      sr_ready_at = parseTimestamp (re_ReadyAt rec),
      sr_terminating_at = None, sr_activity_summary = None, sr_test_state = None, sr_rollout_state = None,
      sr_spoke_config = None, sr_spawned_sessions = None, sr_pull_requests = None,
      sr_parent_session_id = nullif_empty (TrimSpace (re_ParentSessionID rec)),
      sr_repos = re_Repos rec, sr_clone_state = None, sr_capabilities = re_Capabilities rec,
      sr_model = TrimSpace (re_Model rec), sr_effort = TrimSpace (re_Effort rec),
      sr_runtime_model = [], sr_runtime_effort = [], sr_runtime_configured_at = None,
      sr_runtime_context_window_tokens = 0, sr_runtime_context_window_source = [],
      sr_runtime_context_window_observed_at = None, sr_runtime_provider_session_id = [],
      sr_runtime_provider_session_observed_at = None, sr_provider_rate_limit_info = None,
      sr_provider_rate_limit_observed_at = None, sr_compaction_count = 0, sr_user_message_count = 0,
      sr_open_target = [],
      sr_agent_avatar_id = nullif_empty (TrimSpace (re_AgentAvatarID rec)),
      sr_system_avatar_id = nullif_empty (TrimSpace (re_SystemAvatarID rec)),
      sr_sidebar_position = (if re_SidebarPosition rec = 0 then seq + 2 else re_SidebarPosition rec),
      sr_row_version = seq + 1\<rparr>"

definition drawn :: "SessionRecord \<Rightarrow> int" where
  "drawn rec = (if re_SidebarPosition rec = 0 then 2 else 1)"

text \<open>\<^verbatim>\<open>ON CONFLICT DO UPDATE\<close>: the columns taken from the proposed row.\<close>

definition merge_row :: "SessionRecord \<Rightarrow> session_row \<Rightarrow> int \<Rightarrow> session_row \<Rightarrow> session_row" where
  "merge_row rec new v r =
     r\<lparr>sr_mode := sr_mode new, sr_pod_name := sr_pod_name new, sr_name := sr_name new, sr_visible := sr_visible new,
       sr_requested_at := override (sr_requested_at new) (sr_requested_at r),
       sr_status := (if TrimSpace (re_Status rec) = [] then sr_status r else sr_status new),
       sr_ready_at := override (sr_ready_at new) (sr_ready_at r),
       sr_agent_avatar_id := override (sr_agent_avatar_id new) (sr_agent_avatar_id r),
       sr_system_avatar_id := override (sr_system_avatar_id new) (sr_system_avatar_id r),
       sr_updated_at := sr_updated_at new, sr_row_version := v\<rparr>"

definition registry_Upsert ::
  "string \<Rightarrow> int \<Rightarrow> int \<Rightarrow> SessionRecord \<Rightarrow> sessions_db \<Rightarrow> registry_error option \<times> sessions_db" where
  "registry_Upsert scope now db_now rec db =
     (case validateSessionRecordForWrite rec of
        Some e \<Rightarrow> (Some e, db)
      | None \<Rightarrow>
          (let new = proposed_row scope now db_now (db_seq db) rec;
               db' = db\<lparr>db_seq := db_seq db + drawn rec\<rparr>;
               mine = is_row (sr_email new) (sr_session_scope new) (sr_session_id new)
           in (None, if \<exists>r\<in>set (db_rows db). mine r then update_where mine (merge_row rec new) db'
                     else db'\<lparr>db_rows := db_rows db @ [new]\<rparr>)))"

section \<open>Writing columns\<close>

definition SetRuntimeConfig :: "string \<Rightarrow> int \<Rightarrow> string \<Rightarrow> string \<Rightarrow> string \<Rightarrow> string \<Rightarrow> sessions_db \<Rightarrow> sessions_db" where
  "SetRuntimeConfig scope now email sid model effort db =
     (if owner_key email = [] \<or> TrimSpace sid = [] then db
      else set_row (owner_key email) (store_scope scope) (TrimSpace sid) (\<lambda>_. True)
             (\<lambda>r. r\<lparr>sr_runtime_model := TrimSpace model, sr_runtime_effort := TrimSpace effort,
                    sr_runtime_configured_at := Some now\<rparr>) now db)"

definition SetRuntimeContextWindow :: "string \<Rightarrow> int \<Rightarrow> string \<Rightarrow> string \<Rightarrow> int \<Rightarrow> string \<Rightarrow> sessions_db \<Rightarrow> sessions_db" where
  "SetRuntimeContextWindow scope now email sid tokens source db =
     (if owner_key email = [] \<or> TrimSpace sid = [] \<or> tokens \<le> 0 then db
      else set_row (owner_key email) (store_scope scope) (TrimSpace sid) (\<lambda>r. sr_runtime_context_window_tokens r \<noteq> tokens)
             (\<lambda>r. r\<lparr>sr_runtime_context_window_tokens := tokens, sr_runtime_context_window_source := TrimSpace source,
                    sr_runtime_context_window_observed_at := Some now\<rparr>) now db)"

definition SetRuntimeProviderSessionID :: "string \<Rightarrow> int \<Rightarrow> string \<Rightarrow> string \<Rightarrow> string \<Rightarrow> sessions_db \<Rightarrow> sessions_db" where
  "SetRuntimeProviderSessionID scope now email sid providerSessionID db =
     (let p = TrimSpace providerSessionID
      in if owner_key email = [] \<or> TrimSpace sid = [] \<or> p = [] then db
         else set_row (owner_key email) (store_scope scope) (TrimSpace sid) (\<lambda>r. sr_runtime_provider_session_id r \<noteq> p)
                (\<lambda>r. r\<lparr>sr_runtime_provider_session_id := p, sr_runtime_provider_session_observed_at := Some now\<rparr>) now db)"

definition SetProviderRateLimitInfo :: "string \<Rightarrow> int \<Rightarrow> string \<Rightarrow> string \<Rightarrow> gomap \<Rightarrow> sessions_db \<Rightarrow> sessions_db" where
  "SetProviderRateLimitInfo scope now email sid info db =
     (if owner_key email = [] \<or> TrimSpace sid = [] \<or> info = [] then db
      else set_row (owner_key email) (store_scope scope) (TrimSpace sid) (\<lambda>_. True)
             (\<lambda>r. r\<lparr>sr_provider_rate_limit_info := Some (json_doc info),
                    sr_provider_rate_limit_observed_at := Some now\<rparr>) now db)"

text \<open>The column \<^verbatim>\<open>name\<close> is not nullable: a nil name on an existing row violates the constraint.\<close>

definition SetName :: "string \<Rightarrow> int \<Rightarrow> string \<Rightarrow> string \<Rightarrow> string option \<Rightarrow> sessions_db \<Rightarrow> registry_error option \<times> sessions_db" where
  "SetName scope now email sid name db =
     (if owner_key email = [] \<or> TrimSpace sid = [] then (None, db)
      else case name of
             Some n \<Rightarrow> (None, set_row (owner_key email) (store_scope scope) sid (\<lambda>_. True) (\<lambda>r. r\<lparr>sr_name := n\<rparr>) now db)
           | None \<Rightarrow> (if \<exists>r\<in>set (db_rows db). is_row (owner_key email) (store_scope scope) sid r
                      then (Some NullName, db) else (None, db)))"

definition SetOpenTarget :: "string \<Rightarrow> int \<Rightarrow> string \<Rightarrow> string \<Rightarrow> string \<Rightarrow> sessions_db \<Rightarrow> sessions_db" where
  "SetOpenTarget scope now email sid target db =
     (if owner_key email = [] \<or> TrimSpace sid = [] then db
      else set_row (owner_key email) (store_scope scope) sid (\<lambda>_. True) (\<lambda>r. r\<lparr>sr_open_target := target\<rparr>) now db)"

definition SetRunConfig :: "string \<Rightarrow> int \<Rightarrow> string \<Rightarrow> string \<Rightarrow> string \<Rightarrow> string \<Rightarrow> sessions_db \<Rightarrow> sessions_db" where
  "SetRunConfig scope now email sid model effort db =
     (if owner_key email = [] \<or> TrimSpace sid = [] then db
      else set_row (owner_key email) (store_scope scope) sid (\<lambda>_. True)
             (\<lambda>r. r\<lparr>sr_model := TrimSpace model, sr_effort := TrimSpace effort\<rparr>) now db)"

definition SetParentSession :: "string \<Rightarrow> int \<Rightarrow> string \<Rightarrow> string \<Rightarrow> string \<Rightarrow> sessions_db \<Rightarrow> sessions_db" where
  "SetParentSession scope now email sid parentID db =
     (if owner_key email = [] \<or> TrimSpace sid = [] then db
      else set_row (owner_key email) (store_scope scope) (TrimSpace sid) (\<lambda>_. True)
             (\<lambda>r. r\<lparr>sr_parent_session_id := nullif_empty (TrimSpace parentID)\<rparr>) now db)"

datatype state_column = TestState | RolloutState | SpokeConfig | CloneState

fun put_state :: "state_column \<Rightarrow> gomap option \<Rightarrow> session_row \<Rightarrow> session_row" where
  "put_state TestState v r = r\<lparr>sr_test_state := v\<rparr>"
| "put_state RolloutState v r = r\<lparr>sr_rollout_state := v\<rparr>"
| "put_state SpokeConfig v r = r\<lparr>sr_spoke_config := v\<rparr>"
| "put_state CloneState v r = r\<lparr>sr_clone_state := v\<rparr>"

definition setJSONBColumn ::
  "string \<Rightarrow> int \<Rightarrow> state_column \<Rightarrow> state_column option \<Rightarrow> string \<Rightarrow> string \<Rightarrow> gomap option \<Rightarrow> sessions_db \<Rightarrow> sessions_db" where
  "setJSONBColumn scope now column clearColumn email sid state db =
     (if owner_key email = [] \<or> TrimSpace sid = [] then db
      else set_row (owner_key email) (store_scope scope) sid (\<lambda>_. True)
             (\<lambda>r. (case clearColumn of None \<Rightarrow> put_state column (map_option json_doc state) r
                   | Some c \<Rightarrow> put_state c None (put_state column (map_option json_doc state) r))) now db)"

definition skillStateActive :: "gomap option \<Rightarrow> bool" where
  "skillStateActive state =
     (case state of None \<Rightarrow> False
      | Some m \<Rightarrow> (case as_bool (mget m ''active'') of None \<Rightarrow> False | Some b \<Rightarrow> b))"

definition SetTestState :: "string \<Rightarrow> int \<Rightarrow> string \<Rightarrow> string \<Rightarrow> gomap option \<Rightarrow> sessions_db \<Rightarrow> sessions_db" where
  "SetTestState scope now email sid state db =
     setJSONBColumn scope now TestState (if skillStateActive state then Some RolloutState else None) email sid state db"

definition SetRolloutState :: "string \<Rightarrow> int \<Rightarrow> string \<Rightarrow> string \<Rightarrow> gomap option \<Rightarrow> sessions_db \<Rightarrow> sessions_db" where
  "SetRolloutState scope now email sid state db =
     setJSONBColumn scope now RolloutState (if skillStateActive state then Some TestState else None) email sid state db"

definition SetSpokeConfig :: "string \<Rightarrow> int \<Rightarrow> string \<Rightarrow> string \<Rightarrow> gomap option \<Rightarrow> sessions_db \<Rightarrow> sessions_db" where
  "SetSpokeConfig scope now email sid config db = setJSONBColumn scope now SpokeConfig None email sid config db"

definition SetCloneState :: "string \<Rightarrow> int \<Rightarrow> string \<Rightarrow> string \<Rightarrow> gomap option \<Rightarrow> sessions_db \<Rightarrow> sessions_db" where
  "SetCloneState scope now email sid state db = setJSONBColumn scope now CloneState None email sid state db"

definition list_of :: "'a list option \<Rightarrow> 'a list" where
  "list_of xs = (case xs of None \<Rightarrow> [] | Some ys \<Rightarrow> ys)"

definition AppendSpawnedSession :: "string \<Rightarrow> int \<Rightarrow> string \<Rightarrow> string \<Rightarrow> SpawnedSessionRef \<Rightarrow> sessions_db \<Rightarrow> sessions_db" where
  "AppendSpawnedSession scope now email parentSessionID ref db =
     (let parent = TrimSpace parentSessionID; childID = TrimSpace (sp_ID ref)
      in if owner_key email = [] \<or> parent = [] \<or> childID = [] then db
         else set_row (owner_key email) (store_scope scope) parent
                (\<lambda>r. \<not> (\<exists>e\<in>set (list_of (sr_spawned_sessions r)). sp_ID e = childID))
                (\<lambda>r. r\<lparr>sr_spawned_sessions := Some (list_of (sr_spawned_sessions r) @ [ref])\<rparr>) now db)"

definition AppendSessionPullRequest :: "string \<Rightarrow> int \<Rightarrow> string \<Rightarrow> string \<Rightarrow> SessionPullRequestRef \<Rightarrow> sessions_db \<Rightarrow> sessions_db" where
  "AppendSessionPullRequest scope now email sid ref db =
     (let session = TrimSpace sid; url = TrimSpace (pr_URL ref)
      in if owner_key email = [] \<or> session = [] \<or> url = [] then db
         else set_row (owner_key email) (store_scope scope) session (\<lambda>_. True)
                (\<lambda>r. r\<lparr>sr_pull_requests :=
                         Some (filter (\<lambda>e. pr_URL e \<noteq> url) (list_of (sr_pull_requests r)) @ [ref\<lparr>pr_URL := url\<rparr>])\<rparr>) now db)"

section \<open>Bug labels\<close>

text \<open>
  \<^verbatim>\<open>SetBugLabels\<close> runs in one transaction: it detaches every label of the session, upserts and attaches the given ones
  without repeating a slug, and bumps the row. Attaching a label to a session that does not exist violates the
  foreign key and rolls the transaction back.
\<close>

definition upsert_label :: "string \<Rightarrow> string \<Rightarrow> string \<Rightarrow> string \<Rightarrow> sessions_db \<Rightarrow> int \<times> sessions_db" where
  "upsert_label email scope name slug db =
     (let mine = (\<lambda>l. lb_owner_email l = email \<and> lb_session_scope l = scope \<and> lb_slug l = slug);
          seq = db_bug_label_seq db + 1
      in case find mine (db_bug_labels db) of
           Some l \<Rightarrow> (lb_id l, db\<lparr>db_bug_labels := map (\<lambda>l. if mine l then l\<lparr>lb_name := name\<rparr> else l) (db_bug_labels db),
                                db_bug_label_seq := seq\<rparr>)
         | None \<Rightarrow> (seq, db\<lparr>db_bug_labels := db_bug_labels db @
                            [\<lparr>lb_id = seq, lb_owner_email = email, lb_session_scope = scope, lb_name = name, lb_slug = slug\<rparr>],
                          db_bug_label_seq := seq\<rparr>))"

definition attach_label :: "string \<Rightarrow> string \<Rightarrow> string \<Rightarrow> int \<Rightarrow> int \<Rightarrow> sessions_db \<Rightarrow> sessions_db" where
  "attach_label email scope sid labelID now db =
     (let mine = (\<lambda>a. sl_owner_email a = email \<and> sl_session_scope a = scope \<and> sl_session_id a = sid \<and> sl_bug_label_id a = labelID);
          old = db_session_bug_labels db
      in db\<lparr>db_session_bug_labels :=
              (if \<exists>a\<in>set old. mine a then map (\<lambda>a. if mine a then a\<lparr>sl_attached_at := now\<rparr> else a) old
               else old @ [\<lparr>sl_owner_email = email, sl_session_scope = scope, sl_session_id = sid,
                            sl_bug_label_id = labelID, sl_attached_at = now\<rparr>])\<rparr>)"

fun attach_labels :: "string \<Rightarrow> string \<Rightarrow> string \<Rightarrow> int \<Rightarrow> string list \<Rightarrow> SessionBugLabel option list \<Rightarrow> sessions_db \<Rightarrow> registry_error option \<times> sessions_db" where
  "attach_labels email scope sid now seen [] db = (None, db)"
| "attach_labels email scope sid now seen (None # ls) db = attach_labels email scope sid now seen ls db"
| "attach_labels email scope sid now seen (Some l # ls) db =
     (let slug = TrimSpace (bl_Slug l)
      in if slug = [] \<or> slug \<in> set seen then attach_labels email scope sid now seen ls db
         else let (labelID, db') = upsert_label email scope (TrimSpace (bl_Name l)) slug db
              in if \<not> (\<exists>r\<in>set (db_rows db). is_row email scope sid r) then (Some MissingSession, db')
                 else attach_labels email scope sid now (slug # seen) ls (attach_label email scope sid labelID now db'))"

definition SetBugLabels ::
  "string \<Rightarrow> int \<Rightarrow> string \<Rightarrow> string \<Rightarrow> SessionBugLabel option list \<Rightarrow> sessions_db \<Rightarrow> registry_error option \<times> sessions_db" where
  "SetBugLabels scope now email sid labels db =
     (let normalized = owner_key email; sid = TrimSpace sid; scope = store_scope scope
      in if normalized = [] \<or> sid = [] then (None, db)
         else let db1 = db\<lparr>db_session_bug_labels :=
                        filter (\<lambda>a. \<not> (sl_owner_email a = normalized \<and> sl_session_scope a = scope \<and> sl_session_id a = sid))
                          (db_session_bug_labels db)\<rparr>
              in case attach_labels normalized scope sid now [] labels db1 of
                   (Some e, _) \<Rightarrow> (Some e, db)
                 | (None, db2) \<Rightarrow> (None, set_row normalized scope sid (\<lambda>_. True) (\<lambda>r. r) now db2))"

definition SetBugLabel ::
  "string \<Rightarrow> int \<Rightarrow> string \<Rightarrow> string \<Rightarrow> SessionBugLabel option \<Rightarrow> sessions_db \<Rightarrow> registry_error option \<times> sessions_db" where
  "SetBugLabel scope now email sid label db =
     (case label of None \<Rightarrow> SetBugLabels scope now email sid [] db
      | Some l \<Rightarrow> SetBugLabels scope now email sid [Some l] db)"

section \<open>Reads\<close>

text \<open>The labels of a session, latest attachment first; labels with a blank name or slug are not shown.\<close>

definition labels_of :: "sessions_db \<Rightarrow> session_row \<Rightarrow> SessionBugLabel list" where
  "labels_of db r =
     (let mine = filter (\<lambda>a. sl_owner_email a = sr_email r \<and> sl_session_scope a = sr_session_scope r \<and>
                             sl_session_id a = sr_session_id r) (db_session_bug_labels db);
          joined = concat (map (\<lambda>a. map (\<lambda>l. (a, l)) (filter (\<lambda>l. lb_id l = sl_bug_label_id a) (db_bug_labels db))) mine);
          ordered = sort_by (\<lambda>(t, i) (t', i'). t' < t \<or> (t' = t \<and> i' \<le> i)) (\<lambda>(a, l). (sl_attached_at a, lb_id l)) joined
      in map (\<lambda>(a, l). \<lparr>bl_ID = lb_id l, bl_Name = lb_name l, bl_Slug = lb_slug l, bl_DisplayName = ''bug: '' @ lb_name l\<rparr>) ordered)"

definition bugLabelsFromJSON :: "SessionBugLabel list \<Rightarrow> SessionBugLabel list" where
  "bugLabelsFromJSON labels =
     map (\<lambda>l. if TrimSpace (bl_DisplayName l) = [] then l\<lparr>bl_DisplayName := ''bug: '' @ TrimSpace (bl_Name l)\<rparr> else l)
       (filter (\<lambda>l. TrimSpace (bl_Name l) \<noteq> [] \<and> TrimSpace (bl_Slug l) \<noteq> []) labels)"

definition bugLabelFromScan :: "SessionBugLabel list \<Rightarrow> SessionBugLabel option" where
  "bugLabelFromScan labels =
     (case labels of
        [] \<Rightarrow> None
      | l # _ \<Rightarrow>
          (if TrimSpace (bl_Name l) = [] \<or> TrimSpace (bl_Slug l) = [] then None
           else Some \<lparr>bl_ID = bl_ID l, bl_Name = TrimSpace (bl_Name l), bl_Slug = TrimSpace (bl_Slug l),
                      bl_DisplayName = ''bug: '' @ TrimSpace (bl_Name l)\<rparr>))"

definition time_text :: "(int \<Rightarrow> string) \<Rightarrow> int option \<Rightarrow> string" where
  "time_text to_char t = (case t of None \<Rightarrow> [] | Some i \<Rightarrow> to_char i)"

definition record_of_row :: "(int \<Rightarrow> string) \<Rightarrow> string \<Rightarrow> sessions_db \<Rightarrow> session_row \<Rightarrow> SessionRecord" where
  "record_of_row to_char scope db r =
     \<lparr>re_ID = sr_session_id r, re_Email = sr_email r,
      re_Mode = (if sr_mode r = [] then DefaultSessionMode else sr_mode r),
      re_Scope = scope, re_PodName = sr_pod_name r, re_SessionImage = sr_session_image r,
      re_SessionImageMetadata = NormalizeImageVersionMetadata (sr_session_image_metadata r),
      re_Name = sr_name r, re_Visible = sr_visible r, re_RequestedAt = time_text to_char (sr_requested_at r),
      re_CreatedAt = to_char (sr_created_at r), re_UpdatedAt = to_char (sr_updated_at r), re_Status = sr_status r,
      re_ReadyAt = time_text to_char (sr_ready_at r), re_TerminatingAt = time_text to_char (sr_terminating_at r),
      re_ActivitySummary = sr_activity_summary r, re_TestState = sr_test_state r, re_RolloutState = sr_rollout_state r,
      re_SpokeConfig = sr_spoke_config r, re_SpawnedSessions = list_of (sr_spawned_sessions r),
      re_PullRequests = list_of (sr_pull_requests r), re_ParentSessionID = coalesce_empty (sr_parent_session_id r),
      re_Repos = sr_repos r, re_CloneState = sr_clone_state r, re_Capabilities = sr_capabilities r,
      re_BugLabel = bugLabelFromScan (labels_of db r), re_BugLabels = bugLabelsFromJSON (labels_of db r),
      re_Model = sr_model r, re_Effort = sr_effort r, re_RuntimeModel = sr_runtime_model r,
      re_RuntimeEffort = sr_runtime_effort r, re_RuntimeConfiguredAt = time_text to_char (sr_runtime_configured_at r),
      re_RuntimeContextWindowTokens = sr_runtime_context_window_tokens r,
      re_RuntimeContextWindowSource = sr_runtime_context_window_source r,
      re_RuntimeContextWindowObservedAt = time_text to_char (sr_runtime_context_window_observed_at r),
      re_RuntimeProviderSessionID = sr_runtime_provider_session_id r,
      re_RuntimeProviderSessionObservedAt = time_text to_char (sr_runtime_provider_session_observed_at r),
      re_ProviderRateLimitInfo = sr_provider_rate_limit_info r,
      re_ProviderRateLimitObservedAt = time_text to_char (sr_provider_rate_limit_observed_at r),
      re_CompactionCount = sr_compaction_count r, re_UserMessageCount = sr_user_message_count r,
      re_OpenTarget = sr_open_target r, re_AgentAvatarID = coalesce_empty (sr_agent_avatar_id r),
      re_SystemAvatarID = coalesce_empty (sr_system_avatar_id r), re_SidebarPosition = sr_sidebar_position r,
      re_RowVersion = sr_row_version r\<rparr>"

definition registry_Get :: "(int \<Rightarrow> string) \<Rightarrow> string \<Rightarrow> sessions_db \<Rightarrow> string \<Rightarrow> string \<Rightarrow> SessionRecord option" where
  "registry_Get to_char scope db owner sid =
     (if owner_key owner = [] \<or> TrimSpace sid = [] then None
      else map_option (record_of_row to_char (store_scope scope) db) (find_session db (owner_key owner) (store_scope scope) sid))"

text \<open>\<^verbatim>\<open>ORDER BY sidebar_position DESC, created_at DESC, session_id DESC\<close>\<close>

definition list_before :: "(string \<Rightarrow> string \<Rightarrow> bool) \<Rightarrow> session_row \<Rightarrow> session_row \<Rightarrow> bool" where
  "list_before le a b \<longleftrightarrow>
     sr_sidebar_position b < sr_sidebar_position a \<or>
     (sr_sidebar_position a = sr_sidebar_position b \<and>
        (sr_created_at b < sr_created_at a \<or>
         (sr_created_at a = sr_created_at b \<and> le (sr_session_id b) (sr_session_id a))))"

definition rows_of_owner :: "(string \<Rightarrow> string \<Rightarrow> bool) \<Rightarrow> string \<Rightarrow> sessions_db \<Rightarrow> string \<Rightarrow> session_row list" where
  "rows_of_owner le scope db email =
     sort_by (list_before le) (\<lambda>r. r) (filter (\<lambda>r. sr_email r = email \<and> sr_session_scope r = scope) (db_rows db))"

definition registry_List :: "(string \<Rightarrow> string \<Rightarrow> bool) \<Rightarrow> (int \<Rightarrow> string) \<Rightarrow> string \<Rightarrow> sessions_db \<Rightarrow> string \<Rightarrow> SessionRecord list" where
  "registry_List le to_char scope db owner =
     (if owner_key owner = [] then []
      else map (record_of_row to_char (store_scope scope) db) (rows_of_owner le (store_scope scope) db (owner_key owner)))"

definition OwnerForSession :: "string \<Rightarrow> sessions_db \<Rightarrow> string \<Rightarrow> string \<Rightarrow> string" where
  "OwnerForSession store db scope sid =
     (let scope = (if TrimSpace scope = [] then store_scope store else TrimSpace scope); sid = TrimSpace sid
      in if sid = [] then []
         else (case find (\<lambda>r. sr_session_scope r = scope \<and> sr_session_id r = sid) (db_rows db) of
                 None \<Rightarrow> [] | Some r \<Rightarrow> owner_key (sr_email r)))"

text \<open>One day, in nanoseconds.\<close>

definition DefaultLiveSessionRecencyWindow :: int where
  "DefaultLiveSessionRecencyWindow = 24 * 3600 * 1000000000"

definition ListLiveIDsForScope :: "string \<Rightarrow> int \<Rightarrow> int \<Rightarrow> sessions_db \<Rightarrow> string list" where
  "ListLiveIDsForScope scope now updatedWithin db =
     (let window = (if updatedWithin \<le> 0 then DefaultLiveSessionRecencyWindow else updatedWithin)
      in filter (\<lambda>i. i \<noteq> [])
           (map (\<lambda>r. TrimSpace (sr_session_id r))
              (filter (\<lambda>r. sr_session_scope r = store_scope scope \<and> (sr_visible r \<or> now - window \<le> sr_updated_at r)) (db_rows db))))"

section \<open>The order of the sidebar\<close>

fun clean_ids :: "string list \<Rightarrow> string list \<Rightarrow> string list option" where
  "clean_ids out [] = Some out"
| "clean_ids out (i # is) =
     (let i = TrimSpace i
      in if i = [] then clean_ids out is
         else if i \<in> set out then None
         else clean_ids (out @ [i]) is)"

definition position_of :: "string list \<Rightarrow> string \<Rightarrow> int" where
  "position_of ids i = int (length ids - length (takeWhile (\<lambda>x. x \<noteq> i) ids))"

definition Reorder ::
  "(string \<Rightarrow> string \<Rightarrow> bool) \<Rightarrow> string \<Rightarrow> int \<Rightarrow> string \<Rightarrow> string list \<Rightarrow> sessions_db \<Rightarrow> (registry_error + string list) \<times> sessions_db" where
  "Reorder le scope now email orderedIDs db =
     (let normalized = owner_key email; scope = store_scope scope
      in if normalized = [] then (Inr [], db)
         else case clean_ids [] orderedIDs of
                None \<Rightarrow> (Inl ErrSessionOrderConflict, db)
              | Some cleaned \<Rightarrow>
                  (let current = map sr_session_id (filter sr_visible (rows_of_owner le scope db normalized));
                       mine = (\<lambda>r. sr_email r = normalized \<and> sr_session_scope r = scope \<and> sr_visible r \<and>
                                  sr_session_id r \<in> set cleaned);
                       publishIDs = map sr_session_id (filter mine (db_rows db))
                   in if length cleaned \<noteq> length current \<or> \<not> set cleaned \<subseteq> set current
                         \<or> length publishIDs \<noteq> length cleaned
                      then (Inl ErrSessionOrderConflict, db)
                      else (Inr publishIDs,
                            update_where mine
                              (touch (\<lambda>r. r\<lparr>sr_sidebar_position := position_of cleaned (sr_session_id r)\<rparr>) now) db)))"

section \<open>Hiding sessions\<close>

definition MarkDeleted :: "string \<Rightarrow> int \<Rightarrow> string \<Rightarrow> string \<Rightarrow> sessions_db \<Rightarrow> sessions_db" where
  "MarkDeleted scope now email sid db =
     (if owner_key email = [] \<or> TrimSpace sid = [] then db
      else set_row (owner_key email) (store_scope scope) sid (\<lambda>_. True) (\<lambda>r. r\<lparr>sr_visible := False\<rparr>) now db)"

record StalePodBackedRow =
  st_Email :: string
  st_SessionID :: string
  st_PodName :: string
  st_Status :: string

definition ListStalePodBackedRows :: "string \<Rightarrow> int \<Rightarrow> int \<Rightarrow> sessions_db \<Rightarrow> StalePodBackedRow list" where
  "ListStalePodBackedRows scope cutoff limit db =
     (let limit = (if limit \<le> 0 \<or> limit > 200 then 50 else limit);
          stale = filter (\<lambda>r. sr_session_scope r = store_scope scope \<and> sr_visible r \<and> sr_pod_name r \<noteq> [] \<and>
                              sr_status r \<in> {''Pending'', ''Active''} \<and> sr_updated_at r < cutoff) (db_rows db)
      in map (\<lambda>r. \<lparr>st_Email = sr_email r, st_SessionID = sr_session_id r, st_PodName = sr_pod_name r, st_Status = sr_status r\<rparr>)
           (take (nat limit) (sort_key sr_updated_at stale)))"

record ReapedSession =
  rp_Email :: string
  rp_SessionID :: string
  rp_PodName :: string

definition activity_status :: "(goany \<Rightarrow> string) \<Rightarrow> session_row \<Rightarrow> string" where
  "activity_status render r =
     (case sr_activity_summary r of
        Some (GMap m) \<Rightarrow> (case jsonb_text render m ''status'' of None \<Rightarrow> ''ready'' | Some s \<Rightarrow> s)
      | _ \<Rightarrow> ''ready'')"

text \<open>
  \<open>parked\<close> says whether a scheduled wakeup, a background-task wake, an undispatched launch turn or a CI watch is
  pending for a session of a scope, and \<open>locked\<close> which rows another transaction holds.
\<close>

definition idle_for_reap ::
  "(goany \<Rightarrow> string) \<Rightarrow> (string \<Rightarrow> string \<Rightarrow> bool) \<Rightarrow> string \<Rightarrow> int \<Rightarrow> session_row \<Rightarrow> bool" where
  "idle_for_reap render parked scope cutoff r \<longleftrightarrow>
     sr_session_scope r = scope \<and> sr_visible r \<and> sr_pod_name r \<noteq> [] \<and> sr_updated_at r < cutoff \<and>
     activity_status render r \<in> {''ready'', ''error''} \<and> \<not> parked (sr_session_scope r) (sr_session_id r)"

definition ClaimIdleForReap ::
  "(goany \<Rightarrow> string) \<Rightarrow> (string \<Rightarrow> string \<Rightarrow> bool) \<Rightarrow> (session_row \<Rightarrow> bool) \<Rightarrow> string \<Rightarrow> int \<Rightarrow> int \<Rightarrow> int \<Rightarrow> sessions_db \<Rightarrow>
   ReapedSession list \<times> sessions_db" where
  "ClaimIdleForReap render parked locked scope now cutoff limit db =
     (let limit = (if limit \<le> 0 \<or> limit > 100 then 20 else limit);
          idle = filter (idle_for_reap render parked (store_scope scope) cutoff) (db_rows db);
          claimed = map session_key (take (nat limit) (filter (\<lambda>r. \<not> locked r) (sort_key sr_updated_at idle)));
          mine = (\<lambda>r. session_key r \<in> set claimed)
      in (map (\<lambda>r. \<lparr>rp_Email = sr_email r, rp_SessionID = sr_session_id r, rp_PodName = sr_pod_name r\<rparr>) (filter mine (db_rows db)),
          update_where mine (touch (\<lambda>r. r\<lparr>sr_visible := False\<rparr>) now) db))"

record RetiredSession =
  rt_Email :: string
  rt_ID :: string

definition MarkScopeRetired :: "string \<Rightarrow> int \<Rightarrow> sessions_db \<Rightarrow> RetiredSession list \<times> sessions_db" where
  "MarkScopeRetired scope now db =
     (let mine = (\<lambda>r. sr_session_scope r = store_scope scope \<and> sr_visible r)
      in (filter (\<lambda>x. rt_Email x \<noteq> [] \<and> rt_ID x \<noteq> [])
            (map (\<lambda>r. \<lparr>rt_Email = owner_key (sr_email r), rt_ID = TrimSpace (sr_session_id r)\<rparr>) (filter mine (db_rows db))),
          update_where mine (touch (\<lambda>r. r\<lparr>sr_visible := False\<rparr>) now) db))"

end
