(* ===== verification/Registry_Invariants.thy ===== *)
theory Registry_Invariants
  imports Session_Registry
begin

text \<open>
  What the statements on the \<^verbatim>\<open>sessions\<close> table guarantee, whichever component runs them and in whatever order: every
  change gets a fresh row version, session ids are never reused, test and rollout states exclude each other, an
  accepted reordering is shown exactly, and idle sessions are claimed once.
\<close>

section \<open>Every write keeps the discipline of versions\<close>

definition keeps_key :: "(session_row \<Rightarrow> session_row) \<Rightarrow> bool" where
  "keeps_key g \<longleftrightarrow> (\<forall>r. session_key (g r) = session_key r)"

lemma versioned_touch: "keeps_key g \<Longrightarrow> versioned (touch g now)"
  by unfold_locales (simp_all add: keeps_key_def touch_def)

lemma versioned_merge: "versioned (merge_row rec new)"
  by unfold_locales (simp_all add: merge_row_def)

interpretation bump: versioned "touch (\<lambda>r. r) now" for now
  by (rule versioned_touch) (simp add: keeps_key_def)

text \<open>What an operation keeps: the table stays sound and only gets newer.\<close>

definition advances :: "(sessions_db \<Rightarrow> sessions_db) \<Rightarrow> bool" where
  "advances f \<longleftrightarrow> (\<forall>db. newer_than db (f db) \<and> (db_ok db \<longrightarrow> db_ok (f db)))"

lemma advances_id [simp]: "advances (\<lambda>db. db)"
  by (simp add: advances_def)

lemma advances_update: "versioned f \<Longrightarrow> advances (update_where p f)"
  by (simp add: advances_def versioned.update_where_ok versioned.update_where_newer)

lemma advances_set_row: "keeps_key g \<Longrightarrow> advances (set_row e sc s q g now)"
  unfolding set_row_def [abs_def] by (rule advances_update [OF versioned_touch])

lemma advances_if: "advances f \<Longrightarrow> advances g \<Longrightarrow> advances (\<lambda>db. if b then f db else g db)"
  by (simp add: advances_def)

lemma keeps_key_put_state: "keeps_key (put_state c v)"
  unfolding keeps_key_def by (cases c) simp_all

lemma keeps_key_comp: "keeps_key f \<Longrightarrow> keeps_key g \<Longrightarrow> keeps_key (\<lambda>r. f (g r))"
  by (simp add: keeps_key_def)

named_theorems advancing "operations that only advance the table"

lemma column_writes_advance [advancing]:
  "advances (SetRuntimeConfig scope now email sid model effort)"
  "advances (SetRuntimeContextWindow scope now email sid tokens source)"
  "advances (SetRuntimeProviderSessionID scope now email sid p)"
  "advances (SetProviderRateLimitInfo scope now email sid info)"
  "advances (SetOpenTarget scope now email sid target)"
  "advances (SetRunConfig scope now email sid model effort)"
  "advances (SetParentSession scope now email sid parent)"
  "advances (AppendSpawnedSession scope now email sid sref)"
  "advances (AppendSessionPullRequest scope now email sid pref)"
  "advances (MarkDeleted scope now email sid)"
  unfolding SetRuntimeConfig_def [abs_def] SetRuntimeContextWindow_def [abs_def] SetRuntimeProviderSessionID_def [abs_def]
    SetProviderRateLimitInfo_def [abs_def] SetOpenTarget_def [abs_def] SetRunConfig_def [abs_def]
    SetParentSession_def [abs_def] AppendSpawnedSession_def [abs_def] AppendSessionPullRequest_def [abs_def]
    MarkDeleted_def [abs_def] Let_def
  by (auto intro!: advances_if advances_set_row simp: keeps_key_def)

lemma setJSONBColumn_advances: "advances (setJSONBColumn scope now c cc email sid state)"
  unfolding setJSONBColumn_def [abs_def]
  by (intro advances_if advances_id advances_set_row)
    (cases cc; simp add: keeps_key_put_state keeps_key_comp)

lemma state_writes_advance [advancing]:
  "advances (SetTestState scope now email sid state)"
  "advances (SetRolloutState scope now email sid state)"
  "advances (SetSpokeConfig scope now email sid state)"
  "advances (SetCloneState scope now email sid state)"
  unfolding SetTestState_def [abs_def] SetRolloutState_def [abs_def] SetSpokeConfig_def [abs_def] SetCloneState_def [abs_def]
  by (rule setJSONBColumn_advances)+

lemma SetName_advances [advancing]: "advances (\<lambda>db. snd (SetName scope now email sid name db))"
proof -
  have g: "keeps_key (\<lambda>r. r\<lparr>sr_name := n\<rparr>)" for n by (simp add: keeps_key_def)
  show ?thesis using advances_set_row [OF g] by (cases name) (auto simp: SetName_def advances_def)
qed

lemma bulk_writes_advance [advancing]:
  "advances (\<lambda>db. snd (ClaimIdleForReap render parked locked scope now cutoff limit db))"
  "advances (\<lambda>db. snd (MarkScopeRetired scope now db))"
  "advances (\<lambda>db. snd (Reorder le scope now email ids db))"
proof -
  have hide: "keeps_key (\<lambda>r. r\<lparr>sr_visible := False\<rparr>)" by (simp add: keeps_key_def)
  have move: "keeps_key (\<lambda>r. r\<lparr>sr_sidebar_position := position_of c (sr_session_id r)\<rparr>)" for c by (simp add: keeps_key_def)
  note hiding = versioned.update_where_ok [OF versioned_touch [OF hide]] versioned.update_where_newer [OF versioned_touch [OF hide]]
  note moving = versioned.update_where_ok [OF versioned_touch [OF move]] versioned.update_where_newer [OF versioned_touch [OF move]]
  show "advances (\<lambda>db. snd (ClaimIdleForReap render parked locked scope now cutoff limit db))"
    "advances (\<lambda>db. snd (MarkScopeRetired scope now db))"
    by (simp_all add: advances_def ClaimIdleForReap_def MarkScopeRetired_def Let_def hiding)
  show "advances (\<lambda>db. snd (Reorder le scope now email ids db))"
    by (auto simp: advances_def Reorder_def Let_def moving split: option.split)
qed

lemma NextSessionID_advances [advancing]: "advances (\<lambda>db. snd (NextSessionID scope db))"
  by (simp add: advances_def newer_than_def db_ok_def NextSessionID_def Let_def)

lemma RecordTransition_advances [advancing]: "advances (\<lambda>db. tr_db (RecordTransition le render w env event db))"
  by (simp add: advances_def newer_transition db_ok_transition)

text \<open>An insert or a conflicting insert: the proposed row has a number that was not drawn.\<close>

lemma Upsert_advances [advancing]: "advances (\<lambda>db. snd (registry_Upsert scope now db_now rec db))"
  unfolding advances_def
proof (intro allI conjI impI)
  fix db :: sessions_db
  let ?new = "proposed_row scope now db_now (db_seq db) rec" and ?db = "db\<lparr>db_seq := db_seq db + drawn rec\<rparr>"
  let ?mine = "is_row (sr_email ?new) (sr_session_scope ?new) (sr_session_id ?new)"
  note merge = versioned.update_where_newer [OF versioned_merge, of ?db ?mine rec ?new]
  have seq: "db_seq db < db_seq ?db" "sr_row_version ?new = db_seq db + 1" by (simp_all add: drawn_def proposed_row_def)
  have up: "newer_than db ?db" using seq by (simp add: newer_than_def)
  have ins: "newer_than db (?db\<lparr>db_rows := db_rows db @ [?new]\<rparr>)" using seq by (auto simp: newer_than_def)
  show "newer_than db (snd (registry_Upsert scope now db_now rec db))"
    using newer_trans [OF up merge] ins by (simp add: registry_Upsert_def Let_def split: option.split)
  assume ok: "db_ok db"
  have ok': "db_ok ?db" using ok seq by (force simp: db_ok_def)
  have okins: "db_ok (?db\<lparr>db_rows := db_rows db @ [?new]\<rparr>)" if "\<not> (\<exists>r\<in>set (db_rows db). ?mine r)"
    using that ok ok' seq by (fastforce simp: db_ok_def is_row_def)
  show "db_ok (snd (registry_Upsert scope now db_now rec db))"
    using ok okins versioned.update_where_ok [OF versioned_merge ok', of ?mine rec ?new]
    by (auto simp: registry_Upsert_def Let_def split: option.split)
qed

text \<open>Labels live in their own tables; a failed change of labels leaves everything as it was.\<close>

lemma upsert_label_rows:
  "upsert_label e sc n sl db = (i, db') \<Longrightarrow> db_rows db' = db_rows db \<and> db_seq db' = db_seq db"
  by (auto simp: upsert_label_def Let_def split: option.splits)

lemma attach_label_rows [simp]:
  "db_rows (attach_label e sc s i now db) = db_rows db" "db_seq (attach_label e sc s i now db) = db_seq db"
  by (simp_all add: attach_label_def Let_def)

lemma attach_labels_rows:
  "db_rows (snd (attach_labels e sc s now seen ls db)) = db_rows db \<and> db_seq (snd (attach_labels e sc s now seen ls db)) = db_seq db"
proof (induction e sc s now seen ls db rule: attach_labels.induct)
  case (3 e sc s now seen l ls db)
  obtain i db' where u: "upsert_label e sc (TrimSpace (bl_Name l)) (TrimSpace (bl_Slug l)) db = (i, db')" by fastforce
  show ?case using 3 upsert_label_rows [OF u] by (simp add: Let_def u)
qed simp_all

lemma SetBugLabels_advances [advancing]:
  "advances (\<lambda>db. snd (SetBugLabels scope now email sid labels db))"
  "advances (\<lambda>db. snd (SetBugLabel scope now email sid label db))"
proof -
  have g: "keeps_key (\<lambda>r. r)" by (simp add: keeps_key_def)
  have all: "advances (\<lambda>db. snd (SetBugLabels scope now email sid labels db))" for labels
    unfolding advances_def
  proof
    fix db :: sessions_db
    let ?d = "db\<lparr>db_session_bug_labels := filter (\<lambda>a. \<not> (sl_owner_email a = owner_key email \<and>
        sl_session_scope a = store_scope scope \<and> sl_session_id a = TrimSpace sid)) (db_session_bug_labels db)\<rparr>"
    let ?att = "attach_labels (owner_key email) (store_scope scope) (TrimSpace sid) now [] labels ?d"
    obtain err d2 where att: "?att = (err, d2)" by fastforce
    have "db_rows d2 = db_rows db" "db_seq d2 = db_seq db"
      using attach_labels_rows [of "owner_key email" "store_scope scope" "TrimSpace sid" now "[]" labels ?d]
      unfolding att by simp_all
    then have start: "newer_than db d2" "db_ok db \<longrightarrow> db_ok d2" by (simp_all add: newer_than_def db_ok_def)
    have bump: "newer_than d2 (set_row e sc s (\<lambda>_. True) (\<lambda>r. r) now d2)"
        "db_ok d2 \<longrightarrow> db_ok (set_row e sc s (\<lambda>_. True) (\<lambda>r. r) now d2)" for e sc s
      using advances_set_row [OF g] by (simp_all add: advances_def)
    show "newer_than db (snd (SetBugLabels scope now email sid labels db)) \<and>
        (db_ok db \<longrightarrow> db_ok (snd (SetBugLabels scope now email sid labels db)))"
      using start bump newer_trans [OF start(1)] unfolding SetBugLabels_def Let_def att
      by (cases err) auto
  qed
  show "advances (\<lambda>db. snd (SetBugLabels scope now email sid labels db))" by (rule all)
  show "advances (\<lambda>db. snd (SetBugLabel scope now email sid label db))"
    using all by (cases label) (simp_all add: SetBugLabel_def [abs_def])
qed

section \<open>Runs of the table\<close>

text \<open>One statement of any component on the table.\<close>

inductive db_step :: "sessions_db \<Rightarrow> sessions_db \<Rightarrow> bool" where
  step_transition: "db_step db (tr_db (RecordTransition le render w env event db))"
| step_next_id: "db_step db (snd (NextSessionID scope db))"
| step_upsert: "db_step db (snd (registry_Upsert scope now db_now rec db))"
| step_runtime_config: "db_step db (SetRuntimeConfig scope now email sid model effort db)"
| step_context_window: "db_step db (SetRuntimeContextWindow scope now email sid tokens source db)"
| step_provider_session: "db_step db (SetRuntimeProviderSessionID scope now email sid p db)"
| step_rate_limit: "db_step db (SetProviderRateLimitInfo scope now email sid info db)"
| step_name: "db_step db (snd (SetName scope now email sid name db))"
| step_open_target: "db_step db (SetOpenTarget scope now email sid target db)"
| step_run_config: "db_step db (SetRunConfig scope now email sid model effort db)"
| step_parent: "db_step db (SetParentSession scope now email sid parent db)"
| step_bug_labels: "db_step db (snd (SetBugLabels scope now email sid labels db))"
| step_test_state: "db_step db (SetTestState scope now email sid state db)"
| step_rollout_state: "db_step db (SetRolloutState scope now email sid state db)"
| step_spoke_config: "db_step db (SetSpokeConfig scope now email sid state db)"
| step_clone_state: "db_step db (SetCloneState scope now email sid state db)"
| step_spawned: "db_step db (AppendSpawnedSession scope now email sid sref db)"
| step_pull_request: "db_step db (AppendSessionPullRequest scope now email sid pref db)"
| step_delete: "db_step db (MarkDeleted scope now email sid db)"
| step_reorder: "db_step db (snd (Reorder le scope now email ids db))"
| step_reap: "db_step db (snd (ClaimIdleForReap render parked locked scope now cutoff limit db))"
| step_retire: "db_step db (snd (MarkScopeRetired scope now db))"

lemma db_step_advances: "db_step db db' \<Longrightarrow> newer_than db db' \<and> (db_ok db \<longrightarrow> db_ok db')"
  by (induction rule: db_step.induct) (simp_all add: advancing [unfolded advances_def, rule_format])

lemma db_run_advances: "db_step\<^sup>*\<^sup>* db db' \<Longrightarrow> newer_than db db' \<and> (db_ok db \<longrightarrow> db_ok db')"
proof (induction rule: rtranclp_induct)
  case base
  then show ?case by simp
next
  case (step y z)
  then show ?case using db_step_advances [of y z] newer_trans by blast
qed

text \<open>
  C6: the row version is a cursor for the whole table: after any interleaving of registry calls and row transitions,
  the primary key and the row versions are still unique, no row has vanished, and every row that was added or changed carries a version that
  had not been handed out at the start. A client that knows all rows up to a version misses nothing by asking
  for greater versions only.
\<close>

theorem row_version_is_a_cursor:
  assumes "db_ok db" "db_step\<^sup>*\<^sup>* db db'"
  shows "db_ok db' \<and> db_seq db \<le> db_seq db' \<and>
    (\<forall>r\<in>set (db_rows db). \<exists>r'\<in>set (db_rows db'). session_key r' = session_key r) \<and>
    (\<forall>r\<in>set (db_rows db'). r \<notin> set (db_rows db) \<longrightarrow> db_seq db < sr_row_version r)"
proof -
  from db_run_advances [OF assms(2)] have new: "newer_than db db'" and ok: "db_ok db'" using assms(1) by blast+
  have "\<exists>r'\<in>set (db_rows db'). session_key r' = session_key r" if "r \<in> set (db_rows db)" for r
  proof -
    have "session_key r \<in> session_key ` set (db_rows db')" using new that unfolding newer_than_def by blast
    then show ?thesis by force
  qed
  then show ?thesis using new ok unfolding newer_than_def by blast
qed

theorem row_version_is_a_cursor_witness:
  "db_ok sample_db \<and> db_step\<^sup>*\<^sup>* sample_db (MarkDeleted ''default'' 200 ''u@x'' ''7'' sample_db) \<and>
   db_ok (MarkDeleted ''default'' 200 ''u@x'' ''7'' sample_db)"
proof -
  have "db_step\<^sup>*\<^sup>* sample_db (MarkDeleted ''default'' 200 ''u@x'' ''7'' sample_db)"
    by (rule r_into_rtranclp) (rule step_delete)
  then show ?thesis using row_version_is_a_cursor [OF sample_db_ok] sample_db_ok by blast
qed

section \<open>Reordering the sidebar\<close>

lemma key_order_list_before:
  assumes "collation le"
  shows "key_order (list_before le)"
proof
  note order = collation.axioms(1) [OF assms]
  fix a b c
  show "list_before le a a" by (simp add: list_before_def key_order.le_refl [OF order])
  show "list_before le a c" if "list_before le a b" "list_before le b c"
    using that key_order.le_trans [OF order, of "sr_session_id c" "sr_session_id b" "sr_session_id a"]
    by (auto simp: list_before_def)
  show "list_before le a b \<or> list_before le b a"
    using key_order.le_total [OF order, of "sr_session_id a" "sr_session_id b"] by (auto simp: list_before_def)
qed

lemma clean_ids_distinct: "clean_ids out ids = Some cleaned \<Longrightarrow> distinct out \<Longrightarrow> distinct cleaned"
  by (induction out ids rule: clean_ids.induct) (auto simp: Let_def split: if_splits)

lemma position_of_nth: "distinct ids \<Longrightarrow> k < length ids \<Longrightarrow> position_of ids (ids ! k) = int (length ids - k)"
proof -
  assume ids: "distinct ids" "k < length ids"
  have "takeWhile (\<lambda>x. x \<noteq> ids ! k) ids = take k ids"
  proof (rule takeWhile_eq_take_P_nth)
    fix i assume "i < k" "i < length ids"
    then show "ids ! i \<noteq> ids ! k" using ids by (simp add: nth_eq_iff_index_eq)
  next
    show "\<not> ids ! k \<noteq> ids ! k" by simp
  qed
  then show ?thesis using ids by (simp add: position_of_def)
qed

interpretation descending: key_order "\<lambda>a b :: int. b \<le> a"
  by unfold_locales auto

lemma position_order: "distinct ids \<Longrightarrow> sorted_wrt (\<lambda>i j. position_of ids j \<le> position_of ids i) ids"
  by (auto simp: sorted_wrt_iff_nth_less position_of_nth)

lemma position_inject: "distinct ids \<Longrightarrow> i \<in> set ids \<Longrightarrow> j \<in> set ids \<Longrightarrow> position_of ids i = position_of ids j \<Longrightarrow> i = j"
  by (auto simp: in_set_conv_nth position_of_nth)

text \<open>Rows whose positions come from a list of their ids are shown in the order of the list.\<close>

lemma order_of_positions:
  assumes le: "collation le" and ids: "distinct ids" and rows: "distinct (map sr_session_id V)"
    and same: "sr_session_id ` set V = set ids" and pos: "\<forall>r\<in>set V. sr_sidebar_position r = position_of ids (sr_session_id r)"
  shows "map sr_session_id (sort_by (list_before le) (\<lambda>r. r) V) = ids"
proof -
  let ?S = "sort_by (list_before le) (\<lambda>r. r) V"
  note ord = key_order_list_before [OF le]
  have set: "set ?S = set V" by (rule key_order.set_sort_by [OF ord])
  have "sorted_wrt (\<lambda>a b. list_before le a b) ?S" using key_order.sort_by_sorted [OF ord, of "\<lambda>r. r"] by simp
  then have "sorted_wrt (\<lambda>a b. sr_sidebar_position b \<le> sr_sidebar_position a) ?S"
    by (rule sorted_wrt_mono_rel [rotated]) (auto simp: list_before_def)
  then have sorted: "sorted_wrt (\<lambda>i j. position_of ids j \<le> position_of ids i) (map sr_session_id ?S)"
    unfolding sorted_wrt_map by (rule sorted_wrt_mono_rel [rotated]) (use pos set in auto)
  have "distinct (map sr_session_id ?S)"
  proof -
    have "card (set (map sr_session_id ?S)) = length (map sr_session_id V)"
      using distinct_card [OF rows] set by simp
    then show ?thesis using key_order.length_sort_by [OF ord, of "\<lambda>r. r" V] by (simp add: card_distinct)
  qed
  moreover have "set (map sr_session_id ?S) = set ids" using set same by simp
  ultimately show ?thesis
    using descending.sorted_unique [where f = "position_of ids", OF sorted position_order [OF ids]] ids
      position_inject [OF ids] by force
qed

lemma rows_of_owner_visible:
  assumes "collation le"
  shows "filter sr_visible (rows_of_owner le scope db email) =
    sort_by (list_before le) (\<lambda>r. r) (filter (\<lambda>r. sr_email r = email \<and> sr_session_scope r = scope \<and> sr_visible r) (db_rows db))"
proof -
  have "filter sr_visible (filter (\<lambda>r. sr_email r = email \<and> sr_session_scope r = scope) rs) =
      filter (\<lambda>r. sr_email r = email \<and> sr_session_scope r = scope \<and> sr_visible r) rs" for rs
    by (induction rs) auto
  then show ?thesis by (simp add: rows_of_owner_def key_order.filter_sort_by [OF key_order_list_before [OF assms]])
qed

lemma distinct_owner_ids:
  "distinct (map session_key rs) \<Longrightarrow>
   distinct (map sr_session_id (filter (\<lambda>r. sr_email r = email \<and> sr_session_scope r = scope \<and> P r) rs))"
  by (induction rs) (auto simp: image_iff)

definition shown_ids :: "(string \<Rightarrow> string \<Rightarrow> bool) \<Rightarrow> string \<Rightarrow> sessions_db \<Rightarrow> string \<Rightarrow> string list" where
  "shown_ids le scope db email =
     map sr_session_id (filter sr_visible (rows_of_owner le (store_scope scope) db (owner_key email)))"

lemma shown_ids_distinct: "collation le \<Longrightarrow> db_ok db \<Longrightarrow> distinct (shown_ids le scope db email)"
  and set_shown_ids: "collation le \<Longrightarrow> set (shown_ids le scope db email) =
    sr_session_id ` {r \<in> set (db_rows db). sr_email r = owner_key email \<and> sr_session_scope r = store_scope scope \<and> sr_visible r}"
proof -
  assume le: "collation le"
  note ord = key_order_list_before [OF le]
  let ?V = "filter (\<lambda>r. sr_email r = owner_key email \<and> sr_session_scope r = store_scope scope \<and> sr_visible r) (db_rows db)"
  have ids: "shown_ids le scope db email = map sr_session_id (sort_by (list_before le) (\<lambda>r. r) ?V)"
    by (simp add: shown_ids_def rows_of_owner_visible [OF le])
  show set: "set (shown_ids le scope db email) =
    sr_session_id ` {r \<in> set (db_rows db). sr_email r = owner_key email \<and> sr_session_scope r = store_scope scope \<and> sr_visible r}"
    by (simp add: ids key_order.set_sort_by [OF ord])
  assume "db_ok db"
  then have d: "distinct (map sr_session_id ?V)" by (intro distinct_owner_ids) (simp add: db_ok_def)
  have "card (set (shown_ids le scope db email)) = length (map sr_session_id ?V)"
    using distinct_card [OF d] by (simp add: ids key_order.set_sort_by [OF ord])
  then show "distinct (shown_ids le scope db email)"
    by (intro card_distinct) (simp add: ids key_order.length_sort_by [OF ord])
qed

text \<open>What the update of an accepted order leaves behind.\<close>

lemma reordered_ids:
  assumes le: "collation le" and ok: "db_ok db" and ids: "distinct cleaned"
    and perm: "set cleaned = set (shown_ids le scope db email)"
    and mine_def: "mine = (\<lambda>r. sr_email r = owner_key email \<and> sr_session_scope r = store_scope scope \<and> sr_visible r \<and> sr_session_id r \<in> set cleaned)"
    and move_def: "move = touch (\<lambda>r. r\<lparr>sr_sidebar_position := position_of cleaned (sr_session_id r)\<rparr>) now"
  shows "shown_ids le scope (update_where mine move db) email = cleaned"
proof -
  let ?db = "update_where mine move db"
  let ?V = "filter (\<lambda>r. sr_email r = owner_key email \<and> sr_session_scope r = store_scope scope \<and> sr_visible r) (db_rows ?db)"
  have v: "versioned move" unfolding move_def by (rule versioned_touch) (simp add: keeps_key_def)
  have moved: "sr_email (move n r) = sr_email r" "sr_session_scope (move n r) = sr_session_scope r"
    "sr_session_id (move n r) = sr_session_id r" "sr_visible (move n r) = sr_visible r"
    "sr_sidebar_position (move n r) = position_of cleaned (sr_session_id r)" for n r
    by (simp_all add: move_def touch_def)
  have ok': "db_ok ?db" by (rule versioned.update_where_ok [OF v ok])
  have each: "\<exists>r\<in>set (db_rows db). mine r \<and> (\<exists>n. r' = move n r)" if "r' \<in> set ?V" for r'
  proof -
    from that obtain r where r: "r \<in> set (db_rows db)" "(\<not> mine r \<and> r' = r) \<or> (mine r \<and> (\<exists>n. r' = move n r))"
      using update_where_origin [of r' mine move db] by auto
    moreover have "mine r'" if "r' = r"
      using that r(1) \<open>r' \<in> set ?V\<close> perm unfolding set_shown_ids [OF le] mine_def by auto
    ultimately show ?thesis by auto
  qed
  have same: "sr_session_id ` set ?V = set cleaned"
  proof (intro equalityI subsetI)
    fix i assume "i \<in> sr_session_id ` set ?V"
    then obtain r' where r': "i = sr_session_id r'" "r' \<in> set ?V" by blast
    then obtain r n where "mine r" "r' = move n r" using each by blast
    then show "i \<in> set cleaned" using r'(1) by (simp add: moved mine_def)
  next
    fix i assume i: "i \<in> set cleaned"
    then obtain r where r: "r \<in> set (db_rows db)" "mine r" "sr_session_id r = i"
      using perm unfolding set_shown_ids [OF le] mine_def by auto
    then obtain n where "move n r \<in> set (db_rows ?db)" using update_where_image [of r db mine move] by blast
    moreover have "sr_email r = owner_key email" "sr_session_scope r = store_scope scope" "sr_visible r"
      using r(2) unfolding mine_def by blast+
    ultimately have "move n r \<in> set ?V" "sr_session_id (move n r) = i" using r(3) by (simp_all add: moved)
    then show "i \<in> sr_session_id ` set ?V" by (rule rev_image_eqI [OF _ sym])
  qed
  have pos: "\<forall>r\<in>set ?V. sr_sidebar_position r = position_of cleaned (sr_session_id r)"
  proof
    fix r' assume "r' \<in> set ?V"
    then obtain r n where "r' = move n r" using each by blast
    then show "sr_sidebar_position r' = position_of cleaned (sr_session_id r')" by (simp add: moved)
  qed
  have "distinct (map sr_session_id ?V)" using ok' by (intro distinct_owner_ids) (simp add: db_ok_def)
  from order_of_positions [OF le ids this same pos] show ?thesis
    by (simp add: shown_ids_def rows_of_owner_visible [OF le])
qed

text \<open>
  a request to reorder the sidebar is accepted exactly when its cleaned ids are a permutation of the ids shown, and
  then the list of the owner shows the sessions in exactly that order and every moved session is announced; any
  other request is a conflict and changes nothing, so a stale tab cannot drop or resurrect sessions.
\<close>

theorem Reorder_correct:
  assumes le: "collation le" and ok: "db_ok db" and owner: "owner_key email \<noteq> []"
  shows "case clean_ids [] ids of
      None \<Rightarrow> Reorder le scope now email ids db = (Inl ErrSessionOrderConflict, db)
    | Some cleaned \<Rightarrow>
        if set cleaned = set (shown_ids le scope db email)
        then (\<exists>published. fst (Reorder le scope now email ids db) = Inr published \<and>
                set published = set cleaned \<and> length published = length cleaned) \<and>
             shown_ids le scope (snd (Reorder le scope now email ids db)) email = cleaned
        else Reorder le scope now email ids db = (Inl ErrSessionOrderConflict, db)"
proof (cases "clean_ids [] ids")
  case None
  then show ?thesis using owner by (simp add: Reorder_def)
next
  case (Some cleaned)
  let ?cur = "shown_ids le scope db email"
  let ?mine = "\<lambda>r. sr_email r = owner_key email \<and> sr_session_scope r = store_scope scope \<and> sr_visible r \<and> sr_session_id r \<in> set cleaned"
  let ?pub = "map sr_session_id (filter ?mine (db_rows db))"
  have dc: "distinct cleaned" using clean_ids_distinct [OF Some] by simp
  have ds: "distinct ?cur" by (rule shown_ids_distinct [OF le ok])
  have dp: "distinct ?pub" using ok by (intro distinct_owner_ids) (simp add: db_ok_def)
  have setp: "set ?pub = set ?cur \<inter> set cleaned" unfolding set_shown_ids [OF le] by auto
  have perm: "length cleaned = length ?cur \<and> set cleaned \<subseteq> set ?cur \<longleftrightarrow> set cleaned = set ?cur"
    using distinct_card [OF dc] distinct_card [OF ds] card_subset_eq [of "set ?cur" "set cleaned"] by auto
  have len: "length ?pub = length cleaned" if "set cleaned = set ?cur"
    using that setp distinct_card [OF dp] distinct_card [OF dc] by simp
  have out: "Reorder le scope now email ids db =
      (if length cleaned \<noteq> length ?cur \<or> \<not> set cleaned \<subseteq> set ?cur \<or> length ?pub \<noteq> length cleaned
       then (Inl ErrSessionOrderConflict, db)
       else (Inr ?pub, update_where ?mine (touch (\<lambda>r. r\<lparr>sr_sidebar_position := position_of cleaned (sr_session_id r)\<rparr>) now) db))"
    using owner Some by (simp add: Reorder_def Let_def shown_ids_def)
  show ?thesis
  proof (cases "set cleaned = set ?cur")
    case True
    then have "Reorder le scope now email ids db =
        (Inr ?pub, update_where ?mine (touch (\<lambda>r. r\<lparr>sr_sidebar_position := position_of cleaned (sr_session_id r)\<rparr>) now) db)"
      using out perm len by auto
    then show ?thesis using Some True len setp reordered_ids [OF le ok dc True refl refl] by simp
  next
    case False
    then show ?thesis using Some out perm by auto
  qed
qed

theorem Reorder_correct_witness:
  "collation byte_le \<and> db_ok sample_db \<and> owner_key ''u@x'' \<noteq> [] \<and>
   shown_ids byte_le ''default'' (snd (Reorder byte_le ''default'' 200 ''u@x'' ['' 7''] sample_db)) ''u@x'' = [''7'']"
proof -
  have own: "owner_key ''u@x'' = ''u@x''" "store_scope ''default'' = ''default''" by code_simp+
  have ids: "clean_ids [] ['' 7''] = Some [''7'']" by code_simp
  have "rows_of_owner byte_le ''default'' sample_db ''u@x'' = [sample_row]"
    by (simp add: rows_of_owner_def sample_db_def sample_row_def sort_by_def)
  then have shown: "shown_ids byte_le ''default'' sample_db ''u@x'' = [''7'']"
    by (simp add: shown_ids_def own) (simp add: sample_row_def)
  show ?thesis
    using Reorder_correct [OF bytewise.collation_axioms sample_db_ok, where email = "''u@x''" and ids = "['' 7'']" and scope = "''default''" and now = 200]
      bytewise.collation_axioms sample_db_ok own ids shown by simp
qed

section \<open>Session identifiers\<close>

text \<open>The next number of a scope; only allocation moves it.\<close>

definition next_number :: "string \<Rightarrow> sessions_db \<Rightarrow> int" where
  "next_number scope db = (case map_of (db_counters db) (store_scope scope) of None \<Rightarrow> 1 | Some k \<Rightarrow> k)"

lemma counters_update_where [simp]: "db_counters (update_where p f db) = db_counters db"
  by (simp add: update_where_def split_def Let_def)

lemma counters_attach_labels: "db_counters (snd (attach_labels e sc s now seen ls db)) = db_counters db"
proof (induction e sc s now seen ls db rule: attach_labels.induct)
  case (3 e sc s now seen l ls db)
  obtain i db' where u: "upsert_label e sc (TrimSpace (bl_Name l)) (TrimSpace (bl_Slug l)) db = (i, db')" by fastforce
  then have "db_counters db' = db_counters db" by (auto simp: upsert_label_def Let_def split: option.splits)
  then show ?case using 3 by (simp add: Let_def u attach_label_def)
qed simp_all

lemma counters_SetBugLabels: "db_counters (snd (SetBugLabels scope now email sid labels db)) = db_counters db"
proof -
  let ?d = "db\<lparr>db_session_bug_labels := filter (\<lambda>a. \<not> (sl_owner_email a = owner_key email \<and>
      sl_session_scope a = store_scope scope \<and> sl_session_id a = TrimSpace sid)) (db_session_bug_labels db)\<rparr>"
  obtain err d2 where att: "attach_labels (owner_key email) (store_scope scope) (TrimSpace sid) now [] labels ?d = (err, d2)"
    by fastforce
  then have "db_counters d2 = db_counters db"
    using counters_attach_labels [of "owner_key email" "store_scope scope" "TrimSpace sid" now "[]" labels ?d] by simp
  then show ?thesis unfolding SetBugLabels_def Let_def att by (cases err) (auto simp: set_row_def)
qed

lemma NextSessionID_number:
  "fst (NextSessionID scope db) = int_dec (next_number scope db)"
  "next_number scope' (snd (NextSessionID scope db)) =
     next_number scope' db + (if store_scope scope' = store_scope scope then 1 else 0)"
  by (auto simp: NextSessionID_def next_number_def Let_def update_conv' split: option.split)

lemma next_number_step: "db_step db db' \<Longrightarrow> next_number scope db \<le> next_number scope db'"
proof (induction rule: db_step.induct)
  case (step_transition db le render w env event)
  then show ?case by (simp add: next_number_def transition_db split: option.splits)
next
  case (step_bug_labels db scope now email sid labels)
  then show ?case by (simp add: next_number_def counters_SetBugLabels)
next
  case (step_next_id db scope')
  then show ?case by (simp add: NextSessionID_number)
qed (auto simp: next_number_def registry_Upsert_def SetRuntimeConfig_def SetRuntimeContextWindow_def
    SetRuntimeProviderSessionID_def SetProviderRateLimitInfo_def SetName_def SetOpenTarget_def SetRunConfig_def
    SetParentSession_def SetTestState_def SetRolloutState_def SetSpokeConfig_def SetCloneState_def setJSONBColumn_def
    AppendSpawnedSession_def AppendSessionPullRequest_def MarkDeleted_def Reorder_def ClaimIdleForReap_def
    MarkScopeRetired_def set_row_def Let_def split: option.splits)

lemma next_number_run: "db_step\<^sup>*\<^sup>* db db' \<Longrightarrow> next_number scope db \<le> next_number scope db'"
  by (induction rule: rtranclp_induct) (auto dest: next_number_step order_trans)

lemma int_dec_inject: "0 \<le> m \<Longrightarrow> 0 \<le> n \<Longrightarrow> int_dec m = int_dec n \<Longrightarrow> m = n"
proof -
  assume "0 \<le> m" "0 \<le> n" "int_dec m = int_dec n"
  then have "digits_val (nat_dec (nat m)) = digits_val (nat_dec (nat n))" by (simp add: int_dec_def)
  then show "m = n" using \<open>0 \<le> m\<close> \<open>0 \<le> n\<close> by (simp add: eq_nat_nat_iff)
qed

text \<open>
  a session id is never handed out twice in a scope: whatever happens to the table between two allocations, the
  second one returns a different id.
\<close>

theorem NextSessionID_fresh:
  assumes "0 \<le> next_number scope db" "db_step\<^sup>*\<^sup>* (snd (NextSessionID scope db)) db'"
  shows "fst (NextSessionID scope db') \<noteq> fst (NextSessionID scope db)"
proof
  assume eq: "fst (NextSessionID scope db') = fst (NextSessionID scope db)"
  have "next_number scope db + 1 \<le> next_number scope db'"
    using next_number_run [OF assms(2), of scope] by (simp add: NextSessionID_number)
  moreover have "next_number scope db' = next_number scope db"
    using eq calculation assms(1) by (intro int_dec_inject) (simp_all add: NextSessionID_number)
  ultimately show False by simp
qed

theorem NextSessionID_fresh_witness:
  "0 \<le> next_number ''default'' sample_db \<and>
   db_step\<^sup>*\<^sup>* (snd (NextSessionID ''default'' sample_db)) (snd (NextSessionID ''default'' sample_db)) \<and>
   fst (NextSessionID ''default'' (snd (NextSessionID ''default'' sample_db))) \<noteq> fst (NextSessionID ''default'' sample_db)"
proof -
  have "0 \<le> next_number ''default'' sample_db" by (simp add: next_number_def sample_db_def)
  then show ?thesis using NextSessionID_fresh [of "''default''" sample_db "snd (NextSessionID ''default'' sample_db)"] by blast
qed

section \<open>Test and rollout states exclude each other\<close>

definition exclusive :: "session_row \<Rightarrow> bool" where
  "exclusive r \<longleftrightarrow> \<not> (skillStateActive (sr_test_state r) \<and> skillStateActive (sr_rollout_state r))"

definition all_exclusive :: "sessions_db \<Rightarrow> bool" where
  "all_exclusive db \<longleftrightarrow> (\<forall>r\<in>set (db_rows db). exclusive r)"

lemma as_bool_json: "as_bool (map_option json_any v) = as_bool v"
  by (cases v rule: as_bool.cases) auto

lemma skillStateActive_json [simp]: "skillStateActive (map_option json_doc state) = skillStateActive state"
  by (cases state) (simp_all add: skillStateActive_def mget_json_doc as_bool_json)

lemma skillStateActive_None [simp]: "\<not> skillStateActive None"
  by (simp add: skillStateActive_def)

lemma exclusive_update:
  assumes "\<And>v r. exclusive r \<Longrightarrow> exclusive (f v r)" "all_exclusive db"
  shows "all_exclusive (update_where p f db)"
  using assms(2) update_where_origin [of _ p f db] assms(1) unfolding all_exclusive_def by blast

lemma exclusive_set_row:
  assumes "\<And>r. exclusive r \<Longrightarrow> exclusive (g r)" "all_exclusive db"
  shows "all_exclusive (set_row e sc s q g now db)"
  unfolding set_row_def by (rule exclusive_update [OF _ assms(2)]) (use assms(1) in \<open>simp add: touch_def exclusive_def\<close>)

lemma exclusive_SetTestState: "all_exclusive db \<Longrightarrow> all_exclusive (SetTestState scope now email sid state db)"
  and exclusive_SetRolloutState: "all_exclusive db \<Longrightarrow> all_exclusive (SetRolloutState scope now email sid state db)"
  by (auto simp: SetTestState_def SetRolloutState_def setJSONBColumn_def exclusive_def intro!: exclusive_set_row)

lemma exclusive_seq [simp]: "all_exclusive (db\<lparr>db_seq := n\<rparr>) = all_exclusive db"
  by (simp add: all_exclusive_def)

lemma exclusive_Upsert: "all_exclusive db \<Longrightarrow> all_exclusive (snd (registry_Upsert scope now db_now rec db))"
proof -
  assume ex: "all_exclusive db"
  have m: "exclusive r \<Longrightarrow> exclusive (merge_row rec new v r)" for new v r by (simp add: exclusive_def merge_row_def)
  have "all_exclusive (db\<lparr>db_seq := n, db_rows := db_rows db @ [proposed_row scope now db_now k rec]\<rparr>)" for n k
    using ex by (auto simp: all_exclusive_def exclusive_def proposed_row_def)
  then show ?thesis using ex exclusive_update [OF m] by (simp add: registry_Upsert_def Let_def split: option.split)
qed

lemma exclusive_SetBugLabels: "all_exclusive db \<Longrightarrow> all_exclusive (snd (SetBugLabels scope now email sid labels db))"
proof -
  assume ex: "all_exclusive db"
  let ?d = "db\<lparr>db_session_bug_labels := filter (\<lambda>a. \<not> (sl_owner_email a = owner_key email \<and>
      sl_session_scope a = store_scope scope \<and> sl_session_id a = TrimSpace sid)) (db_session_bug_labels db)\<rparr>"
  obtain err d2 where att: "attach_labels (owner_key email) (store_scope scope) (TrimSpace sid) now [] labels ?d = (err, d2)"
    by fastforce
  then have "db_rows d2 = db_rows db"
    using attach_labels_rows [of "owner_key email" "store_scope scope" "TrimSpace sid" now "[]" labels ?d] by simp
  then have "all_exclusive d2" using ex by (simp add: all_exclusive_def)
  then show ?thesis using ex exclusive_set_row [where g = "\<lambda>r. r"] unfolding SetBugLabels_def Let_def att by (cases err) auto
qed

lemma exclusive_hide: "all_exclusive db \<Longrightarrow> all_exclusive (update_where p (touch (\<lambda>r. r\<lparr>sr_visible := b\<rparr>) now) db)"
  and exclusive_move: "all_exclusive db \<Longrightarrow> all_exclusive (update_where p (touch (\<lambda>r. r\<lparr>sr_sidebar_position := h r\<rparr>) now) db)"
  by (rule exclusive_update; simp add: exclusive_def touch_def)+

lemma exclusive_step: "db_step db db' \<Longrightarrow> all_exclusive db \<Longrightarrow> all_exclusive db'"
proof (induction rule: db_step.induct)
  case (step_transition db le render w env event)
  have "exclusive r \<Longrightarrow> exclusive (set_columns c v n r)" for c v n r by (simp add: exclusive_def set_columns_def)
  then show ?case using step_transition by (auto simp: transition_db intro: exclusive_update split: option.split)
next
  case (step_next_id db scope)
  then show ?case by (simp add: all_exclusive_def NextSessionID_def Let_def)
qed (auto simp: exclusive_Upsert exclusive_SetBugLabels exclusive_SetTestState exclusive_SetRolloutState exclusive_hide
    exclusive_move SetRuntimeConfig_def SetRuntimeContextWindow_def SetRuntimeProviderSessionID_def SetProviderRateLimitInfo_def
    SetName_def SetOpenTarget_def SetRunConfig_def SetParentSession_def SetSpokeConfig_def SetCloneState_def
    setJSONBColumn_def AppendSpawnedSession_def AppendSessionPullRequest_def MarkDeleted_def Reorder_def
    ClaimIdleForReap_def MarkScopeRetired_def Let_def exclusive_def intro!: exclusive_set_row split: option.splits)

text \<open>
  a session is never both under test and rolling out: the writers clear the other state whenever they activate one,
  so the check constraint of the table is never violated, by any sequence of operations.
\<close>

theorem skill_states_exclusive:
  assumes "\<forall>r\<in>set (db_rows db). exclusive r" "db_step\<^sup>*\<^sup>* db db'"
  shows "\<forall>r\<in>set (db_rows db'). \<not> (skillStateActive (sr_test_state r) \<and> skillStateActive (sr_rollout_state r))"
proof -
  have "all_exclusive db'" using assms(2)
  proof (induction rule: rtranclp_induct)
    case base
    then show ?case using assms(1) by (simp add: all_exclusive_def)
  next
    case (step y z)
    then show ?case using exclusive_step by blast
  qed
  then show ?thesis by (simp add: all_exclusive_def exclusive_def)
qed

theorem skill_states_exclusive_witness:
  "db_step\<^sup>*\<^sup>* sample_db (SetTestState ''default'' 200 ''u@x'' ''7'' (Some [(''active'', GBool True)]) sample_db) \<and>
   list_all (\<lambda>r. \<not> (skillStateActive (sr_test_state r) \<and> skillStateActive (sr_rollout_state r)))
     (db_rows (SetTestState ''default'' 200 ''u@x'' ''7'' (Some [(''active'', GBool True)]) sample_db))"
proof -
  have a: "\<forall>r\<in>set (db_rows sample_db). exclusive r" by (simp add: sample_db_def sample_row_def exclusive_def)
  have b: "db_step\<^sup>*\<^sup>* sample_db (SetTestState ''default'' 200 ''u@x'' ''7'' (Some [(''active'', GBool True)]) sample_db)"
    by (rule r_into_rtranclp) (rule step_test_state)
  show ?thesis unfolding list_all_iff using skill_states_exclusive [OF a b] b by blast
qed

section \<open>Reaping idle sessions\<close>

definition reap_limit :: "int \<Rightarrow> int" where
  "reap_limit limit = (if limit \<le> 0 \<or> limit > 100 then 20 else limit)"

definition reaped_of :: "session_row \<Rightarrow> ReapedSession" where
  "reaped_of r = \<lparr>rp_Email = sr_email r, rp_SessionID = sr_session_id r, rp_PodName = sr_pod_name r\<rparr>"

text \<open>The rows that one claim takes: idle and unlocked, no more than the limit.\<close>

lemma claim_rows:
  assumes ok: "db_ok db" and claim: "ClaimIdleForReap render parked locked scope now cutoff limit db = (reaped, db')"
  obtains C where "C \<subseteq> set (db_rows db)" "\<forall>r\<in>C. idle_for_reap render parked (store_scope scope) cutoff r \<and> \<not> locked r"
    "set reaped = reaped_of ` C" "int (length reaped) \<le> reap_limit limit"
    "db' = update_where (\<lambda>r. r \<in> C) (touch (\<lambda>r. r\<lparr>sr_visible := False\<rparr>) now) db"
proof -
  let ?pick = "take (nat (reap_limit limit)) (filter (\<lambda>r. \<not> locked r) (sort_key sr_updated_at
      (filter (idle_for_reap render parked (store_scope scope) cutoff) (db_rows db))))"
  let ?mine = "\<lambda>r. session_key r \<in> set (map session_key ?pick)"
  let ?hide = "touch (\<lambda>r. r\<lparr>sr_visible := False\<rparr>) now"
  have sub: "set ?pick \<subseteq> set (db_rows db)" and idle: "\<forall>r\<in>set ?pick. idle_for_reap render parked (store_scope scope) cutoff r \<and> \<not> locked r"
    using set_take_subset [of "nat (reap_limit limit)"] by fastforce+
  have dist: "distinct (map session_key (db_rows db))" using ok by (simp add: db_ok_def)
  have mine: "?mine r \<longleftrightarrow> r \<in> set ?pick" if "r \<in> set (db_rows db)" for r
    using that sub dist by (auto simp: distinct_map dest: inj_onD)
  have same: "filter ?mine (db_rows db) = filter (\<lambda>r. r \<in> set ?pick) (db_rows db)"
    by (rule filter_cong [OF refl mine])
  have upd: "update_where ?mine ?hide db = update_where (\<lambda>r. r \<in> set ?pick) ?hide db"
    unfolding update_where_def using update_rows_cong [OF mine, of "db_rows db"] by simp
  have out: "reaped = map reaped_of (filter ?mine (db_rows db))" "db' = update_where ?mine ?hide db"
    using claim unfolding ClaimIdleForReap_def Let_def reap_limit_def reaped_of_def by auto
  have "distinct (filter ?mine (db_rows db))" using dist by (simp add: distinct_map)
  then have "length (filter ?mine (db_rows db)) = card (set (filter ?mine (db_rows db)))" by (simp only: distinct_card)
  also have "\<dots> \<le> card (set ?pick)" unfolding same by (rule card_mono) auto
  also have "\<dots> \<le> length ?pick" by (rule card_length)
  also have "\<dots> \<le> nat (reap_limit limit)" by simp
  finally have "length reaped \<le> nat (reap_limit limit)" unfolding out by simp
  moreover have "0 \<le> reap_limit limit" by (simp add: reap_limit_def)
  ultimately have len: "int (length reaped) \<le> reap_limit limit" by simp
  show thesis
  proof (rule that [OF sub idle _ len])
    show "set reaped = reaped_of ` set ?pick" unfolding out same using sub by auto
    show "db' = update_where (\<lambda>r. r \<in> set ?pick) ?hide db" unfolding out by (rule upd)
  qed
qed



end
