(* ===== verification/Go_Base64.thy ===== *)
theory Go_Base64
  imports Go_Prelude
begin

text \<open>
  \<^verbatim>\<open>base64.RawURLEncoding\<close> of the Go standard library, which the session bus uses for the
  scope and session tokens of NATS subjects and consumer names: the URL-safe alphabet,
  no padding. The decoder skips carriage returns and newlines and ignores the
  left-over bits of a final partial group, as Go's non-strict decoder does.
\<close>

definition b64_alphabet :: string where
  "b64_alphabet = ''ABCDEFGHIJKLMNOPQRSTUVWXYZabcdefghijklmnopqrstuvwxyz0123456789-_''"

definition b64_char :: "nat \<Rightarrow> char" where
  "b64_char n = b64_alphabet ! n"

fun b64_groups :: "nat list \<Rightarrow> nat list" where
  "b64_groups [] = []"
| "b64_groups [a] = [a div 4, (a mod 4) * 16]"
| "b64_groups [a, b] = [a div 4, (a mod 4) * 16 + b div 16, (b mod 16) * 4]"
| "b64_groups (a # b # c # r) =
     [a div 4, (a mod 4) * 16 + b div 16, (b mod 16) * 4 + c div 64, c mod 64] @ b64_groups r"

definition EncodeToString :: "string \<Rightarrow> string" where
  "EncodeToString s = map b64_char (b64_groups (map byte_of s))"

definition b64_index :: "char \<Rightarrow> nat option" where
  "b64_index c = find (\<lambda>i. b64_char i = c) [0..<64]"

fun b64_ungroup :: "nat list \<Rightarrow> nat list option" where
  "b64_ungroup [] = Some []"
| "b64_ungroup [a] = None"
| "b64_ungroup [a, b] = Some [(a * 4 + b div 16) mod 256]"
| "b64_ungroup [a, b, c] = Some [(a * 4 + b div 16) mod 256, (b * 16 + c div 4) mod 256]"
| "b64_ungroup (a # b # c # d # r) =
     map_option (\<lambda>t. [(a * 4 + b div 16) mod 256, (b * 16 + c div 4) mod 256, (c * 64 + d) mod 256] @ t)
       (b64_ungroup r)"

definition DecodeString :: "string \<Rightarrow> string option" where
  "DecodeString s =
     (let cs = map b64_index (filter (\<lambda>c. c \<noteq> CHR 0x0A \<and> c \<noteq> CHR 0x0D) s)
      in if None \<in> set cs then None
         else map_option (map char_of) (b64_ungroup (map the cs)))"

section \<open>The alphabet\<close>

lemma length_b64_alphabet: "length b64_alphabet = 64"
  by (simp add: b64_alphabet_def)

lemma distinct_b64_alphabet: "distinct b64_alphabet"
  by (simp add: b64_alphabet_def)

lemma b64_index_char: "n < 64 \<Longrightarrow> b64_index (b64_char n) = Some n"
proof -
  assume n: "n < 64"
  have inj: "b64_char i = b64_char n \<longleftrightarrow> i = n" if "i < 64" for i
    using that n distinct_b64_alphabet length_b64_alphabet
    by (auto simp: b64_char_def nth_eq_iff_index_eq)
  have "find (\<lambda>i. b64_char i = b64_char n) [0..<64] = find (\<lambda>i. i = n) [0..<64]"
    by (rule find_cong) (auto simp: inj)
  also have "\<dots> = Some n"
    unfolding find_Some_iff using n by (intro exI [of _ n]) auto
  finally show ?thesis by (simp add: b64_index_def)
qed

lemma b64_char_in: "n < 64 \<Longrightarrow> b64_char n \<in> set b64_alphabet"
  by (simp add: b64_char_def length_b64_alphabet)

lemma b64_alphabet_no_newline:
  "c \<in> set b64_alphabet \<Longrightarrow> c \<noteq> CHR 0x0A \<and> c \<noteq> CHR 0x0D \<and> c \<noteq> CHR ''.'' \<and> c \<noteq> CHR ''*'' \<and> c \<noteq> CHR ''>''"
  by (auto simp: b64_alphabet_def)

text \<open>The arithmetic of one group: four sextets are the bits of three bytes.\<close>

lemma b64_sextet1: "a < 256 \<Longrightarrow> a div 4 < (64::nat)"
  by (simp add: less_mult_imp_div_less)

lemma b64_sextet2: "b < 256 \<Longrightarrow> a mod 4 * 16 + b div 16 < (64::nat)"
proof -
  assume "b < 256"
  then have "b div 16 < 16" by (simp add: less_mult_imp_div_less)
  moreover have "a mod 4 < 4" by simp
  ultimately show ?thesis by linarith
qed

lemma b64_sextet3: "c < 256 \<Longrightarrow> b mod 16 * 4 + c div 64 < (64::nat)"
proof -
  assume "c < 256"
  then have "c div 64 < 4" by (simp add: less_mult_imp_div_less)
  moreover have "b mod 16 < 16" by simp
  ultimately show ?thesis by linarith
qed

lemmas b64_sextets = b64_sextet1 b64_sextet2 b64_sextet3

lemma b64_byte1: "a < 256 \<Longrightarrow> b < 256 \<Longrightarrow> (a div 4 * 4 + (a mod 4 * 16 + b div 16) div 16) mod 256 = (a::nat)"
  by (simp add: less_mult_imp_div_less)

lemma b64_byte2:
  "b < 256 \<Longrightarrow> c < 256 \<Longrightarrow>
   ((a * 16 + b div 16) * 16 + (b mod 16 * 4 + c div 64) div 4) mod 256 = (b::nat)"
proof -
  assume "b < 256" and "c < 256"
  then have "c div 64 < 4" by (simp add: less_mult_imp_div_less)
  then have "(b mod 16 * 4 + c div 64) div 4 = b mod 16" by simp
  then have "(a * 16 + b div 16) * 16 + (b mod 16 * 4 + c div 64) div 4 = a * 256 + b"
    by (simp add: algebra_simps)
  then show ?thesis using \<open>b < 256\<close> by simp
qed

lemma b64_byte3: "c < 256 \<Longrightarrow> ((b * 4 + c div 64) * 64 + c mod 64) mod 256 = (c::nat)"
proof -
  assume "c < 256"
  moreover have "(b * 4 + c div 64) * 64 + c mod 64 = b * 256 + c" by (simp add: algebra_simps)
  ultimately show ?thesis by simp
qed

lemma b64_groups_less: "\<forall>b\<in>set bs. b < 256 \<Longrightarrow> \<forall>g\<in>set (b64_groups bs). g < 64"
proof (induction bs rule: b64_groups.induct)
  case (2 a)
  then show ?case using b64_sextet1 [of a] b64_sextet2 [of 0 a] by simp
next
  case (3 a b)
  then show ?case using b64_sextet1 [of a] b64_sextet2 [of b a] b64_sextet3 [of 0 b] by simp
next
  case (4 a b c r)
  then show ?case using b64_sextet1 [of a] b64_sextet2 [of b a] b64_sextet3 [of c b] by simp
qed simp

lemma b64_ungroup_groups: "\<forall>b\<in>set bs. b < 256 \<Longrightarrow> b64_ungroup (b64_groups bs) = Some bs"
proof (induction bs rule: b64_groups.induct)
  case (2 a)
  then show ?case using b64_byte1 [of a 0] by simp
next
  case (3 a b)
  then show ?case using b64_byte1 [of a b] b64_byte2 [of b 0 "a mod 4"] by simp
next
  case (4 a b c r)
  then show ?case using b64_byte1 [of a b] b64_byte2 [of b c "a mod 4"] b64_byte3 [of c "b mod 16"]
    by simp
qed simp

lemma char_of_byte_of [simp]: "char_of (byte_of c) = c"
  by (simp add: byte_of_def)

lemma byte_list_bound: "\<forall>b\<in>set (map byte_of s). b < 256"
  by auto

text \<open>Every byte of an encoded token is in the alphabet: a token is a legal NATS subject token.\<close>

lemma EncodeToString_alphabet: "c \<in> set (EncodeToString s) \<Longrightarrow> c \<in> set b64_alphabet"
  using b64_groups_less [OF byte_list_bound, of s]
  by (auto simp: EncodeToString_def intro: b64_char_in)

lemma DecodeString_EncodeToString [simp]: "DecodeString (EncodeToString s) = Some s"
proof -
  let ?g = "b64_groups (map byte_of s)"
  have less: "\<forall>g\<in>set ?g. g < 64" by (rule b64_groups_less [OF byte_list_bound])
  have keep: "filter (\<lambda>c. c \<noteq> CHR 0x0A \<and> c \<noteq> CHR 0x0D) (EncodeToString s) = EncodeToString s"
    by (rule filter_True) (use EncodeToString_alphabet b64_alphabet_no_newline in blast)
  have idx: "map b64_index (EncodeToString s) = map Some ?g"
    using less by (simp add: EncodeToString_def b64_index_char)
  have "DecodeString (EncodeToString s) = map_option (map char_of) (b64_ungroup ?g)"
    unfolding DecodeString_def keep idx by (auto simp: Let_def comp_def)
  also have "\<dots> = Some (map char_of (map byte_of s))"
    by (simp only: b64_ungroup_groups [OF byte_list_bound] option.map)
  also have "map char_of (map byte_of s) = s"
    by (simp add: comp_def)
  finally show ?thesis .
qed

lemma EncodeToString_inject [simp]: "EncodeToString a = EncodeToString b \<longleftrightarrow> a = b"
  by (metis DecodeString_EncodeToString option.inject)

lemma EncodeToString_Nil_iff [simp]: "EncodeToString s = [] \<longleftrightarrow> s = []"
  by (cases "map byte_of s" rule: b64_groups.cases) (auto simp: EncodeToString_def)

end
