(* ===== verification/Session_Bus.thy ===== *)
theory Session_Bus
  imports Session_Registry Go_Base64
begin

text \<open>
  The naming scheme and the housekeeping of the session bus: NATS subjects and tokens
  (\<^verbatim>\<open>internal/sessionbus/subjects.go\<close>), commands (\<^verbatim>\<open>commands.go\<close>) and the sweep of orphaned JetStream consumers
  (\<^verbatim>\<open>sweep.go\<close>). The consumers of a stream are a list; which deletions fail is an argument. The theory shows that
  storage keys and subjects can be read back, that control commands never share a subject with data commands,
  and that the sweep of one scope deletes exactly its own old orphans.
\<close>

section \<open>Subjects\<close>

definition defaultStream :: string where "defaultStream = ''TANK_SESSION_BUS''"
definition defaultCommandStream :: string where "defaultCommandStream = ''TANK_SESSION_COMMANDS''"
definition defaultScope :: string where "defaultScope = ''default''"
definition subjectRoot :: string where "subjectRoot = ''tank.session''"
definition cmdRoot :: string where "cmdRoot = ''tank.cmd''"
definition liveRoot :: string where "liveRoot = ''tank.live''"

definition StreamName :: "string \<Rightarrow> string" where
  "StreamName name = (let name = TrimSpace name in if name = [] then defaultStream else name)"

definition CommandStreamName :: "string \<Rightarrow> string" where
  "CommandStreamName name = (let name = TrimSpace name in if name = [] then defaultCommandStream else name)"

definition StorageToken :: "string \<Rightarrow> string" where
  "StorageToken key = EncodeToString (TrimSpace key)"

definition StorageScopeAndSessionID :: "string \<Rightarrow> string \<times> string" where
  "StorageScopeAndSessionID key =
     (let key = TrimSpace key
      in if key = [] then (defaultScope, [])
         else case Cut1 key (CHR '':'') of
                None \<Rightarrow> (defaultScope, key)
              | Some (scope, sid) \<Rightarrow>
                  (let scope = TrimSpace scope in (if scope = [] then defaultScope else scope, TrimSpace sid)))"

definition ScopeToken :: "string \<Rightarrow> string" where
  "ScopeToken scope = (let scope = TrimSpace scope in EncodeToString (if scope = [] then defaultScope else scope))"

definition SessionIDToken :: "string \<Rightarrow> string" where
  "SessionIDToken sid = EncodeToString (TrimSpace sid)"

definition sanitize_char :: "char \<Rightarrow> char" where
  "sanitize_char c =
     (let b = byte_of c
      in if (97 \<le> b \<and> b \<le> 122) \<or> (48 \<le> b \<and> b \<le> 57) \<or> c = CHR ''_'' \<or> c = CHR ''-'' then c else CHR ''_'')"

text \<open>
  \<^verbatim>\<open>for _, r := range value\<close>: a rune that is not ASCII becomes one underscore, however many bytes it has. Continuation
  bytes of a sequence are skipped; the text is taken to be valid UTF-8.
\<close>

definition sanitizeSubjectToken :: "string \<Rightarrow> string" where
  "sanitizeSubjectToken v =
     (let v = TrimSpace (ToLower v)
      in if v = [] then ''_'' else map sanitize_char (filter (\<lambda>c. \<not> (128 \<le> byte_of c \<and> byte_of c < 192)) v))"

definition scoped_prefix :: "string \<Rightarrow> string \<Rightarrow> string" where
  "scoped_prefix ns key =
     (let (scope, sid) = StorageScopeAndSessionID key in ns @ ''.'' @ ScopeToken scope @ ''.'' @ SessionIDToken sid)"

definition ScopedSessionSubjectPrefix :: "string \<Rightarrow> string" where
  "ScopedSessionSubjectPrefix key = scoped_prefix subjectRoot key"

definition ScopedSessionCommandSubjectPrefix :: "string \<Rightarrow> string" where
  "ScopedSessionCommandSubjectPrefix key = scoped_prefix cmdRoot key"

definition SessionEventSubject :: "string \<Rightarrow> string" where
  "SessionEventSubject key = ScopedSessionSubjectPrefix key @ ''.events''"

definition EventSubjectFilter :: "string \<Rightarrow> string" where
  "EventSubjectFilter scope = subjectRoot @ ''.'' @ ScopeToken scope @ ''.*.events''"

definition EventPersisterConsumerName :: "string \<Rightarrow> string" where
  "EventPersisterConsumerName scope = ''tank-session-event-persister-'' @ ScopeToken scope"

definition CommandSubject :: "string \<Rightarrow> string \<Rightarrow> string" where
  "CommandSubject key provider = ScopedSessionSubjectPrefix key @ ''.commands.'' @ sanitizeSubjectToken provider"

definition ControlSubject :: "string \<Rightarrow> string \<Rightarrow> string" where
  "ControlSubject key provider = ScopedSessionSubjectPrefix key @ ''.control.'' @ sanitizeSubjectToken provider"

definition CommandStreamSubject :: "string \<Rightarrow> string \<Rightarrow> string" where
  "CommandStreamSubject key provider = ScopedSessionCommandSubjectPrefix key @ ''.commands.'' @ sanitizeSubjectToken provider"

definition ControlStreamSubject :: "string \<Rightarrow> string \<Rightarrow> string" where
  "ControlStreamSubject key provider = ScopedSessionCommandSubjectPrefix key @ ''.control.'' @ sanitizeSubjectToken provider"

definition WakeSubject :: "string \<Rightarrow> string" where
  "WakeSubject key = liveRoot @ ''.'' @ StorageToken key @ ''.wake''"

definition SessionRowUpdateSubject :: "string \<Rightarrow> string \<Rightarrow> string" where
  "SessionRowUpdateSubject email scope =
     liveRoot @ ''.sessions.'' @ EncodeToString (TrimSpace (ToLower email)) @ ''.'' @ EncodeToString (TrimSpace scope) @ ''.rows''"

definition PinnedReposUpdateSubject :: "string \<Rightarrow> string" where
  "PinnedReposUpdateSubject email = liveRoot @ ''.profiles.'' @ EncodeToString (TrimSpace (ToLower email)) @ ''.pinned_repos''"

section \<open>Commands\<close>

definition CommandSubmitTurn :: string where "CommandSubmitTurn = ''submit_turn''"
definition CommandInterrupt :: string where "CommandInterrupt = ''interrupt_turn''"
definition CommandInputReply :: string where "CommandInputReply = ''input_reply''"
definition CommandStopBackgroundTask :: string where "CommandStopBackgroundTask = ''stop_background_task''"

record InputReplyAnnotation =
  ia_Preview :: string
  ia_Notes :: string

record CommandAttachment =
  ca_Label :: string
  ca_Name :: string
  ca_Kind :: string
  ca_Path :: string
  ca_AbsPath :: string
  ca_Size :: int

record Command =
  cm_SchemaVersion :: int
  cm_CommandID :: string
  cm_Type :: string
  cm_SessionID :: string
  cm_SessionStorageKey :: string
  cm_Email :: string
  cm_Provider :: string
  cm_Source :: string
  cm_TurnID :: string
  cm_ClientNonce :: string
  cm_Prompt :: string
  cm_Model :: string
  cm_ProviderSessionID :: string
  cm_Effort :: string
  cm_PermissionMode :: string
  cm_SkillName :: string
  cm_FollowUp :: bool
  cm_TargetTurnID :: string
  cm_TargetTimelineID :: string
  cm_TargetProviderItemID :: string
  cm_TargetTaskID :: string
  cm_TargetProcessID :: string
  cm_Answers :: "(string \<times> string list) list"
  cm_Annotations :: "(string \<times> InputReplyAnnotation) list"
  cm_Attachments :: "CommandAttachment list"
  cm_MCPActivateName :: string
  cm_MCPActivateURL :: string
  cm_CreatedAt :: string

definition normalizeCommandAttachments :: "CommandAttachment list \<Rightarrow> CommandAttachment list" where
  "normalizeCommandAttachments atts =
     map (\<lambda>a. \<lparr>ca_Label = TrimSpace (ca_Label a), ca_Name = TrimSpace (ca_Name a),
               ca_Kind = (if TrimSpace (ca_Kind a) = ''image'' then ''image'' else ''file''),
               ca_Path = TrimSpace (ca_Path a), ca_AbsPath = TrimSpace (ca_AbsPath a),
               ca_Size = (if ca_Size a < 0 then 0 else ca_Size a)\<rparr>)
       (filter (\<lambda>a. \<not> ((TrimSpace (ca_Label a) = [] \<and> TrimSpace (ca_Name a) = []) \<or>
                       (TrimSpace (ca_Path a) = [] \<and> TrimSpace (ca_AbsPath a) = []))) atts)"

definition Normalize :: "Command \<Rightarrow> Command" where
  "Normalize c =
     c\<lparr>cm_SchemaVersion := 1, cm_Type := TrimSpace (cm_Type c), cm_CommandID := TrimSpace (cm_CommandID c),
       cm_SessionID := TrimSpace (cm_SessionID c), cm_SessionStorageKey := TrimSpace (cm_SessionStorageKey c),
       cm_Email := ToLower (TrimSpace (cm_Email c)), cm_Provider := TrimSpace (cm_Provider c),
       cm_Source := TrimSpace (cm_Source c), cm_TurnID := TrimSpace (cm_TurnID c),
       cm_ClientNonce := TrimSpace (cm_ClientNonce c), cm_Prompt := TrimSpace (cm_Prompt c),
       cm_Model := TrimSpace (cm_Model c), cm_ProviderSessionID := TrimSpace (cm_ProviderSessionID c),
       cm_Effort := TrimSpace (cm_Effort c), cm_PermissionMode := TrimSpace (cm_PermissionMode c),
       cm_SkillName := TrimSpace (cm_SkillName c), cm_TargetTurnID := TrimSpace (cm_TargetTurnID c),
       cm_TargetTimelineID := TrimSpace (cm_TargetTimelineID c),
       cm_TargetProviderItemID := TrimSpace (cm_TargetProviderItemID c),
       cm_TargetTaskID := TrimSpace (cm_TargetTaskID c), cm_TargetProcessID := TrimSpace (cm_TargetProcessID c),
       cm_MCPActivateName := TrimSpace (cm_MCPActivateName c), cm_MCPActivateURL := TrimSpace (cm_MCPActivateURL c),
       cm_Attachments := normalizeCommandAttachments (cm_Attachments c)\<rparr>"

definition is_control :: "Command \<Rightarrow> bool" where
  "is_control c \<longleftrightarrow> cm_Type c \<in> {CommandInterrupt, CommandInputReply, CommandStopBackgroundTask}"

definition SubjectForCommand :: "Command \<Rightarrow> string" where
  "SubjectForCommand c =
     (if is_control c then ControlSubject (cm_SessionStorageKey c) (cm_Provider c)
      else CommandSubject (cm_SessionStorageKey c) (cm_Provider c))"

definition CommandStreamSubjectForCommand :: "Command \<Rightarrow> string" where
  "CommandStreamSubjectForCommand c =
     (if is_control c then ControlStreamSubject (cm_SessionStorageKey c) (cm_Provider c)
      else CommandStreamSubject (cm_SessionStorageKey c) (cm_Provider c))"

section \<open>The consumer sweep\<close>

definition DecodeConsumerSessionID :: "string \<Rightarrow> string \<Rightarrow> string option" where
  "DecodeConsumerSessionID name token =
     (if name = [] \<or> token = [] then None
      else let needle = ''_'' @ token @ ''_''
           in case LastIndex name needle of
                None \<Rightarrow> None
              | Some idx \<Rightarrow>
                  (let pre = take idx name; post = drop (idx + length needle) name
                   in if pre = [] \<or> post = [] then None
                      else case DecodeString post of
                             None \<Rightarrow> None
                           | Some raw \<Rightarrow> if TrimSpace raw = [] then None else Some (TrimSpace raw)))"

record consumer =
  co_Name :: string
  co_Created :: int

record SweepConfig =
  sc_LiveSessionIDs :: "string list"
  sc_MinAge :: int
  sc_Now :: int

record SweepResult =
  sw_Scanned :: nat
  sw_SkippedOutOfScope :: nat
  sw_SkippedLive :: nat
  sw_SkippedTooYoung :: nat
  sw_Orphans :: nat
  sw_Deleted :: nat
  sw_Errors :: nat

definition empty_result :: SweepResult where
  "empty_result = \<lparr>sw_Scanned = 0, sw_SkippedOutOfScope = 0, sw_SkippedLive = 0, sw_SkippedTooYoung = 0,
     sw_Orphans = 0, sw_Deleted = 0, sw_Errors = 0\<rparr>"

definition min_age :: "SweepConfig \<Rightarrow> int" where
  "min_age cfg = (if sc_MinAge cfg \<le> 0 then 15 * 60 * 1000000000 else sc_MinAge cfg)"

datatype sweep_verdict = OutOfScope | Live | TooYoung | Orphan

definition verdict_of :: "string \<Rightarrow> SweepConfig \<Rightarrow> consumer \<Rightarrow> sweep_verdict" where
  "verdict_of scope cfg info =
     (case DecodeConsumerSessionID (co_Name info) (ScopeToken scope) of
        None \<Rightarrow> OutOfScope
      | Some sid \<Rightarrow>
          if sid \<in> set (sc_LiveSessionIDs cfg) then Live
          else if sc_Now cfg - co_Created info < min_age cfg then TooYoung
          else Orphan)"

text \<open>The pass over one listing, with the names it asked to delete; \<open>fails\<close> says which deletions fail.\<close>

fun sweep_step :: "string \<Rightarrow> SweepConfig \<Rightarrow> (string \<Rightarrow> bool) \<Rightarrow> consumer \<Rightarrow> SweepResult \<times> string list \<Rightarrow> SweepResult \<times> string list" where
  "sweep_step scope cfg fails info (res, gone) =
     (let res = res\<lparr>sw_Scanned := sw_Scanned res + 1\<rparr>
      in case verdict_of scope cfg info of
           OutOfScope \<Rightarrow> (res\<lparr>sw_SkippedOutOfScope := sw_SkippedOutOfScope res + 1\<rparr>, gone)
         | Live \<Rightarrow> (res\<lparr>sw_SkippedLive := sw_SkippedLive res + 1\<rparr>, gone)
         | TooYoung \<Rightarrow> (res\<lparr>sw_SkippedTooYoung := sw_SkippedTooYoung res + 1\<rparr>, gone)
         | Orphan \<Rightarrow>
             (let res = res\<lparr>sw_Orphans := sw_Orphans res + 1\<rparr>
              in if fails (co_Name info) then (res\<lparr>sw_Errors := sw_Errors res + 1\<rparr>, gone)
                 else (res\<lparr>sw_Deleted := sw_Deleted res + 1\<rparr>, gone @ [co_Name info])))"

definition RunConsumerSweep :: "string \<Rightarrow> SweepConfig \<Rightarrow> (string \<Rightarrow> bool) \<Rightarrow> consumer list \<Rightarrow> SweepResult \<times> string list" where
  "RunConsumerSweep scope cfg fails infos = fold (sweep_step scope cfg fails) infos (empty_result, [])"

definition add_results :: "SweepResult \<Rightarrow> SweepResult \<Rightarrow> SweepResult" where
  "add_results a b =
     \<lparr>sw_Scanned = sw_Scanned a + sw_Scanned b, sw_SkippedOutOfScope = sw_SkippedOutOfScope a + sw_SkippedOutOfScope b,
      sw_SkippedLive = sw_SkippedLive a + sw_SkippedLive b, sw_SkippedTooYoung = sw_SkippedTooYoung a + sw_SkippedTooYoung b,
      sw_Orphans = sw_Orphans a + sw_Orphans b, sw_Deleted = sw_Deleted a + sw_Deleted b, sw_Errors = sw_Errors a + sw_Errors b\<rparr>"

text \<open>Both streams: the legacy one, then the command stream.\<close>

definition SweepOrphanConsumers ::
  "string \<Rightarrow> SweepConfig \<Rightarrow> (string \<Rightarrow> bool) \<Rightarrow> consumer list \<Rightarrow> consumer list \<Rightarrow> SweepResult \<times> string list \<times> string list" where
  "SweepOrphanConsumers scope cfg fails legacy command =
     (let (r1, d1) = RunConsumerSweep scope cfg fails legacy; (r2, d2) = RunConsumerSweep scope cfg fails command
      in (add_results r1 r2, d1, d2))"

section \<open>Tokens\<close>

text \<open>The consumer names of a runner, as the sources document them.\<close>

definition consumerName :: "string \<Rightarrow> string \<Rightarrow> string \<Rightarrow> string" where
  "consumerName provider scope sid = provider @ ''_'' @ ScopeToken scope @ ''_'' @ SessionIDToken sid"

definition controlConsumerName :: "string \<Rightarrow> string \<Rightarrow> string \<Rightarrow> string" where
  "controlConsumerName provider scope sid = provider @ ''_control_'' @ ScopeToken scope @ ''_'' @ SessionIDToken sid"

definition token_safe :: "string \<Rightarrow> bool" where
  "token_safe s \<longleftrightarrow> list_all (\<lambda>c. byte_of c < 128 \<and> byte_of c mod 64 \<noteq> 63) s"

lemma sextet_bounds:
  fixes a b c :: nat
  assumes "a < 128" "b < 128" "c < 128"
  shows "a div 4 < 63" "a mod 4 * 16 + b div 16 < 63" "b mod 16 * 4 + c div 64 < 63"
proof -
  have "a div 4 < 32" "b div 16 < 8" "c div 64 < 2" using assms by (simp_all add: less_mult_imp_div_less)
  moreover have "a mod 4 < 4" "b mod 16 < 16" by simp_all
  ultimately show "a div 4 < 63" "a mod 4 * 16 + b div 16 < 63" "b mod 16 * 4 + c div 64 < 63" by linarith+
qed

lemma b64_groups_no_63:
  "\<forall>b\<in>set bs. b < 128 \<and> b mod 64 \<noteq> 63 \<Longrightarrow> \<forall>g\<in>set (b64_groups bs). g \<noteq> 63"
proof (induction bs rule: b64_groups.induct)
  case (4 a b c r)
  then show ?case using sextet_bounds [of a b c] by simp
next
  case (3 a b)
  then show ?case using sextet_bounds [of a b 0] by simp
next
  case (2 a)
  then show ?case using sextet_bounds [of a 0 0] by simp
qed simp

lemma b64_char_underscore: "n < 64 \<Longrightarrow> b64_char n = CHR ''_'' \<Longrightarrow> n = 63"
proof -
  assume n: "n < 64" "b64_char n = CHR ''_''"
  have "b64_char 63 = CHR ''_''" by (simp add: b64_char_def b64_alphabet_def)
  then have "b64_index (b64_char n) = b64_index (b64_char 63)" using n(2) by simp
  then show "n = 63" using b64_index_char [OF n(1)] b64_index_char [of 63] by simp
qed

lemma token_no_underscore: "token_safe s \<Longrightarrow> CHR ''_'' \<notin> set (EncodeToString s)"
proof -
  assume "token_safe s"
  then have "\<forall>g\<in>set (b64_groups (map byte_of s)). g \<noteq> 63"
    by (intro b64_groups_no_63) (auto simp: token_safe_def list_all_iff)
  moreover have "\<forall>g\<in>set (b64_groups (map byte_of s)). g < 64" by (rule b64_groups_less [OF byte_list_bound])
  ultimately show ?thesis using b64_char_underscore by (auto simp: EncodeToString_def)
qed

section \<open>Segments\<close>

text \<open>The parts of a name between separators.\<close>

fun segments :: "char \<Rightarrow> string \<Rightarrow> string list" where
  "segments c [] = [[]]"
| "segments c (x # xs) =
     (if x = c then [] # segments c xs
      else case segments c xs of [] \<Rightarrow> [[x]] | s # r \<Rightarrow> (x # s) # r)"

lemma segments_nonempty [simp]: "segments c s \<noteq> []"
  by (induction s) (auto split: list.splits)

lemma segments_plain [simp]: "c \<notin> set s \<Longrightarrow> segments c s = [s]"
  by (induction s) auto

lemma segments_append [simp]: "segments c (u @ c # v) = segments c u @ segments c v"
  by (induction u) (auto split: list.splits)

lemma LastIndex_Some: "LastIndex s n = Some i \<Longrightarrow> \<exists>u v. s = u @ n @ v \<and> length u = i"
proof (induction s arbitrary: i)
  case (Cons x s)
  show ?case
  proof (cases "LastIndex s n")
    case None
    then have "prefix n (x # s)" "i = 0" using Cons.prems by (auto split: if_splits)
    then show ?thesis by (auto simp: prefix_def)
  next
    case (Some k)
    then obtain u v where "s = u @ n @ v" "length u = k" "i = Suc k" using Cons by auto
    then show ?thesis by (intro exI [of _ "x # u"] exI [of _ v]) simp
  qed
qed (auto split: if_splits)

lemma LastIndex_append: "LastIndex t n = Some i \<Longrightarrow> LastIndex (p @ t) n = Some (length p + i)"
  by (induction p) auto

lemma LastIndex_head:
  assumes "c \<notin> set s"
  shows "LastIndex ((x # m @ [c]) @ s) (x # m @ [c]) = Some 0"
proof -
  have "LastIndex (m @ c # s) (x # m @ [c]) = None"
  proof (rule ccontr)
    assume "LastIndex (m @ c # s) (x # m @ [c]) \<noteq> None"
    then obtain u v where u: "m @ c # s = (u @ x # m) @ c # v" using LastIndex_Some by fastforce
    have "s = drop (Suc (length m)) (m @ c # s)" by simp
    also have "\<dots> = drop (Suc (length m)) (u @ x # m) @ c # v" unfolding u by (subst drop_append) simp
    finally show False using assms by (metis in_set_conv_decomp)
  qed
  then show ?thesis by (simp add: prefix_def)
qed

text \<open>A name that ends in the scope token and a session token is read back, whatever the token of the scope is.\<close>

lemma DecodeConsumerSessionID_own:
  assumes "CHR ''_'' \<notin> set (SessionIDToken sid)" "p \<noteq> []" "token \<noteq> []" "TrimSpace sid \<noteq> []"
  shows "DecodeConsumerSessionID (p @ ''_'' @ token @ ''_'' @ SessionIDToken sid) token = Some (TrimSpace sid)"
proof -
  let ?n = "CHR ''_'' # token @ [CHR ''_'']"
  have "LastIndex (p @ (?n @ SessionIDToken sid)) ?n = Some (length p + 0)"
    by (rule LastIndex_append [OF LastIndex_head [OF assms(1)]])
  then show ?thesis
    using assms(2-4) by (simp add: DecodeConsumerSessionID_def SessionIDToken_def Let_def)
qed

text \<open>A name whose inner segments do not include the token is skipped.\<close>

lemma DecodeConsumerSessionID_foreign:
  assumes "CHR ''_'' \<notin> set token" "token \<notin> set (butlast (tl (segments (CHR ''_'') name)))"
  shows "DecodeConsumerSessionID name token = None"
proof -
  let ?n = "''_'' @ token @ ''_''"
  have "LastIndex name ?n = None"
  proof (rule ccontr)
    assume "LastIndex name ?n \<noteq> None"
    then obtain u v where "name = u @ ?n @ v" using LastIndex_Some by blast
    then have "segments (CHR ''_'') name = segments (CHR ''_'') u @ token # segments (CHR ''_'') v"
      using assms(1) by simp
    then show False using assms(2) by (auto simp: butlast_append)
  qed
  then show ?thesis by (simp add: DecodeConsumerSessionID_def Let_def)
qed

section \<open>Storage keys and subjects\<close>

definition effective_scope :: "string \<Rightarrow> string" where
  "effective_scope scope = (let s = TrimSpace scope in if s = [] then defaultScope else s)"

lemma ScopeToken_eq: "ScopeToken scope = EncodeToString (effective_scope scope)"
  by (simp add: ScopeToken_def effective_scope_def Let_def)

lemma effective_scope_nonempty [simp]: "effective_scope scope \<noteq> []"
  by (simp add: effective_scope_def Let_def defaultScope_def)

lemma TrimSpace_default [simp]: "TrimSpace defaultScope = defaultScope"
  by code_simp

lemma TrimSpace_effective_scope [simp]: "TrimSpace (effective_scope scope) = effective_scope scope"
  by (simp add: effective_scope_def Let_def)

lemma ScopeToken_effective [simp]: "ScopeToken (effective_scope scope) = ScopeToken scope"
  by (simp add: ScopeToken_def Let_def) (simp add: effective_scope_def Let_def)

lemma Cut1_first: "c \<notin> set a \<Longrightarrow> Cut1 (a @ c # b) c = Some (a, b)"
  unfolding Cut1_def by (induction a) auto

lemma StorageScopeAndSessionID_roundtrip:
  assumes "list_all visible scope" "CHR '':'' \<notin> set scope" "list_all visible sid" "sid \<noteq> []" "CHR '':'' \<notin> set sid"
  shows "StorageScopeAndSessionID (SessionStorageKey scope sid) = (effective_scope scope, sid)"
proof -
  have t: "TrimSpace scope = scope" "TrimSpace sid = sid" "TrimSpace (scope @ '':'' @ sid) = scope @ '':'' @ sid"
    using assms by (auto intro!: TrimSpace_visible simp: visible_def byte_of_def)
  show ?thesis
  proof (cases "scope = [] \<or> scope = ''default''")
    case True
    then show ?thesis using assms(4,5) t
      by (auto simp: StorageScopeAndSessionID_def SessionStorageKey_def Cut1_def effective_scope_def defaultScope_def Let_def)
  next
    case False
    then show ?thesis using t Cut1_first [OF assms(2), of sid]
      by (simp add: StorageScopeAndSessionID_def SessionStorageKey_def effective_scope_def Let_def)
  qed
qed

lemma token_no_dot [simp]: "CHR ''.'' \<notin> set (EncodeToString s)"
  using EncodeToString_alphabet b64_alphabet_no_newline by blast

lemma token_no_dots [simp]: "CHR ''.'' \<notin> set (ScopeToken scope)" "CHR ''.'' \<notin> set (SessionIDToken sid)"
  by (simp_all add: ScopeToken_eq SessionIDToken_def)

lemma sanitize_no_dot [simp]: "CHR ''.'' \<notin> set (sanitizeSubjectToken v)"
  by (auto simp: sanitizeSubjectToken_def sanitize_char_def Let_def byte_of_def split: if_splits)

lemma segments_dot:
  "CHR ''.'' \<notin> set a \<Longrightarrow> segments (CHR ''.'') (a @ ''.'' @ b) = a # segments (CHR ''.'') b"
  using segments_append [of "CHR ''.''" a b] by simp

lemma segments_prefix:
  assumes "CHR ''.'' \<notin> set b" "StorageScopeAndSessionID key = (scope, sid)"
  shows "segments (CHR ''.'') (scoped_prefix (a @ ''.'' @ b) key @ ''.'' @ rest) =
    segments (CHR ''.'') a @ [b, ScopeToken scope, SessionIDToken sid] @ segments (CHR ''.'') rest"
proof -
  have "scoped_prefix (a @ ''.'' @ b) key @ ''.'' @ rest =
      a @ CHR ''.'' # (b @ ''.'' @ (ScopeToken scope @ ''.'' @ (SessionIDToken sid @ ''.'' @ rest)))"
    using assms(2) by (simp add: scoped_prefix_def)
  then show ?thesis using assms(1) by simp
qed

lemma subject_roots: "subjectRoot = ''tank'' @ ''.'' @ ''session''" "cmdRoot = ''tank'' @ ''.'' @ ''cmd''"
  by (simp_all add: subjectRoot_def cmdRoot_def)

definition session_of :: "string \<Rightarrow> string \<times> string" where
  "session_of key = (let (scope, sid) = StorageScopeAndSessionID key in (effective_scope scope, TrimSpace sid))"

lemma tokens_inject:
  assumes "StorageScopeAndSessionID k = (a, s)" "StorageScopeAndSessionID k' = (a', s')"
    and "ScopeToken a = ScopeToken a'" "SessionIDToken s = SessionIDToken s'"
  shows "session_of k = session_of k'"
  using assms by (simp add: session_of_def ScopeToken_eq SessionIDToken_def)

text \<open>
  the subject of a session determines its scope and its id. Its five parts are the fixed words, the scope token and the
  session token; the wildcard filter of the persister differs from it only in the session part; decoding the two tokens gives
  back the scope and the id, so two sessions never share an event subject. Scopes and ids are visible ASCII without a colon.
\<close>

theorem event_subject_roundtrip:
  assumes "list_all visible scope" "CHR '':'' \<notin> set scope" "list_all visible sid" "sid \<noteq> []" "CHR '':'' \<notin> set sid"
    and "list_all visible scope'" "CHR '':'' \<notin> set scope'" "list_all visible sid'" "sid' \<noteq> []" "CHR '':'' \<notin> set sid'"
  shows "segments (CHR ''.'') (SessionEventSubject (SessionStorageKey scope sid)) =
      [''tank'', ''session'', ScopeToken scope, SessionIDToken sid, ''events''] \<and>
    segments (CHR ''.'') (EventSubjectFilter scope) = [''tank'', ''session'', ScopeToken scope, ''*'', ''events''] \<and>
    DecodeString (ScopeToken scope) = Some (effective_scope scope) \<and> DecodeString (SessionIDToken sid) = Some sid \<and>
    (SessionEventSubject (SessionStorageKey scope sid) = SessionEventSubject (SessionStorageKey scope' sid') \<longrightarrow>
      effective_scope scope = effective_scope scope' \<and> sid = sid')"
proof -
  have seg: "segments (CHR ''.'') (SessionEventSubject (SessionStorageKey a s)) =
      [''tank'', ''session'', ScopeToken a, SessionIDToken s, ''events'']"
    if "list_all visible a" "CHR '':'' \<notin> set a" "list_all visible s" "s \<noteq> []" "CHR '':'' \<notin> set s" for a s
    using segments_prefix [where b = "''session''" and a = "''tank''" and rest = "''events''",
        OF _ StorageScopeAndSessionID_roundtrip [OF that]]
    by (simp add: SessionEventSubject_def ScopedSessionSubjectPrefix_def subject_roots)
  have filter: "segments (CHR ''.'') (EventSubjectFilter scope) = [''tank'', ''session'', ScopeToken scope, ''*'', ''events'']"
    by (simp add: EventSubjectFilter_def subjectRoot_def)
  have trim: "TrimSpace sid = sid" "TrimSpace sid' = sid'" using assms by (auto intro: TrimSpace_visible)
  have inj: "effective_scope scope = effective_scope scope' \<and> sid = sid'"
    if "SessionEventSubject (SessionStorageKey scope sid) = SessionEventSubject (SessionStorageKey scope' sid')"
    using seg [OF assms(1-5)] seg [OF assms(6-10)] trim unfolding that by (simp add: ScopeToken_eq SessionIDToken_def)
  have "DecodeString (ScopeToken scope) = Some (effective_scope scope)" "DecodeString (SessionIDToken sid) = Some sid"
    using trim by (simp_all add: ScopeToken_eq SessionIDToken_def)
  then show ?thesis using seg [OF assms(1-5)] filter inj by blast
qed

theorem event_subject_roundtrip_witness:
  "segments (CHR ''.'') (SessionEventSubject (SessionStorageKey ''slot-1'' ''42'')) =
      [''tank'', ''session'', ScopeToken ''slot-1'', SessionIDToken ''42'', ''events''] \<and>
   SessionEventSubject (SessionStorageKey ''slot-1'' ''42'') \<noteq> SessionEventSubject (SessionStorageKey [] ''42'')"
proof -
  have v: "list_all visible ''slot-1''" "list_all visible ''42''" "list_all visible []"
    by (simp_all add: visible_def byte_of_def)
  have "effective_scope ''slot-1'' \<noteq> effective_scope []" by code_simp
  then show ?thesis
    using event_subject_roundtrip [OF v(1) _ v(2) _ _ v(3) _ v(2)] by simp
qed

section \<open>Routing of commands\<close>

lemma SubjectForCommand_segments:
  assumes "StorageScopeAndSessionID (cm_SessionStorageKey c) = (scope, sid)"
  shows "segments (CHR ''.'') (SubjectForCommand c) =
      [''tank'', ''session'', ScopeToken scope, SessionIDToken sid, if is_control c then ''control'' else ''commands'',
       sanitizeSubjectToken (cm_Provider c)]"
    and "segments (CHR ''.'') (CommandStreamSubjectForCommand c) =
      [''tank'', ''cmd'', ScopeToken scope, SessionIDToken sid, if is_control c then ''control'' else ''commands'',
       sanitizeSubjectToken (cm_Provider c)]"
proof -
  let ?p = "sanitizeSubjectToken (cm_Provider c)"
  note seg = segments_prefix [where a = "''tank''", OF _ assms]
  have "segments (CHR ''.'') (w @ ''.'' @ ?p) = [w, ?p]" if "CHR ''.'' \<notin> set w" for w
    using segments_dot [OF that] by simp
  note last = this [of "''control''"] this [of "''commands''"]
  show "segments (CHR ''.'') (SubjectForCommand c) =
      [''tank'', ''session'', ScopeToken scope, SessionIDToken sid, if is_control c then ''control'' else ''commands'', ?p]"
    using seg [of "''session''" "''control.'' @ ?p"] seg [of "''session''" "''commands.'' @ ?p"] last
    by (simp add: SubjectForCommand_def ControlSubject_def CommandSubject_def ScopedSessionSubjectPrefix_def subject_roots)
  show "segments (CHR ''.'') (CommandStreamSubjectForCommand c) =
      [''tank'', ''cmd'', ScopeToken scope, SessionIDToken sid, if is_control c then ''control'' else ''commands'', ?p]"
    using seg [of "''cmd''" "''control.'' @ ?p"] seg [of "''cmd''" "''commands.'' @ ?p"] last
    by (simp add: CommandStreamSubjectForCommand_def ControlStreamSubject_def CommandStreamSubject_def
        ScopedSessionCommandSubjectPrefix_def subject_roots)
qed

text \<open>
  a command is published on a subject that only commands of its own lane can use. Two commands share a subject on the
  command stream exactly when they share one on the legacy stream, and then they are of the same lane (control or data),
  of the same session and of the same provider token; the two streams never share a subject.
\<close>

theorem command_lanes_separate:
  "(SubjectForCommand c = SubjectForCommand d \<longleftrightarrow> CommandStreamSubjectForCommand c = CommandStreamSubjectForCommand d) \<and>
   (SubjectForCommand c = SubjectForCommand d \<longleftrightarrow>
     is_control c = is_control d \<and> session_of (cm_SessionStorageKey c) = session_of (cm_SessionStorageKey d) \<and>
     sanitizeSubjectToken (cm_Provider c) = sanitizeSubjectToken (cm_Provider d)) \<and>
   SubjectForCommand c \<noteq> CommandStreamSubjectForCommand d"
proof -
  obtain a s where c: "StorageScopeAndSessionID (cm_SessionStorageKey c) = (a, s)" by force
  obtain b t where d: "StorageScopeAndSessionID (cm_SessionStorageKey d) = (b, t)" by force
  have same: "session_of (cm_SessionStorageKey c) = session_of (cm_SessionStorageKey d) \<longleftrightarrow>
      ScopeToken a = ScopeToken b \<and> SessionIDToken s = SessionIDToken t"
    using c d by (simp add: session_of_def ScopeToken_eq SessionIDToken_def)
  let ?same = "is_control c = is_control d \<and> ScopeToken a = ScopeToken b \<and> SessionIDToken s = SessionIDToken t \<and>
     sanitizeSubjectToken (cm_Provider c) = sanitizeSubjectToken (cm_Provider d)"
  have one: "SubjectForCommand c = SubjectForCommand d \<longleftrightarrow> ?same"
  proof
    assume "SubjectForCommand c = SubjectForCommand d"
    then show ?same using SubjectForCommand_segments(1) [OF c] SubjectForCommand_segments(1) [OF d] by (simp split: if_splits)
  qed (use c d in \<open>simp add: SubjectForCommand_def ControlSubject_def CommandSubject_def ScopedSessionSubjectPrefix_def scoped_prefix_def\<close>)
  have two: "CommandStreamSubjectForCommand c = CommandStreamSubjectForCommand d \<longleftrightarrow> ?same"
  proof
    assume "CommandStreamSubjectForCommand c = CommandStreamSubjectForCommand d"
    then show ?same using SubjectForCommand_segments(2) [OF c] SubjectForCommand_segments(2) [OF d] by (simp split: if_splits)
  qed (use c d in \<open>simp add: CommandStreamSubjectForCommand_def ControlStreamSubject_def CommandStreamSubject_def
        ScopedSessionCommandSubjectPrefix_def scoped_prefix_def\<close>)
  have "SubjectForCommand c \<noteq> CommandStreamSubjectForCommand d"
    using SubjectForCommand_segments(1) [OF c] SubjectForCommand_segments(2) [OF d] by auto
  then show ?thesis using one two same by blast
qed

section \<open>The sweep deletes exactly the old orphans of its scope\<close>

definition doomed :: "string \<Rightarrow> SweepConfig \<Rightarrow> (string \<Rightarrow> bool) \<Rightarrow> consumer \<Rightarrow> bool" where
  "doomed scope cfg fails info \<longleftrightarrow> verdict_of scope cfg info = Orphan \<and> \<not> fails (co_Name info)"

lemma sweep_names:
  "snd (fold (sweep_step scope cfg fails) infos (res, gone)) =
     gone @ map co_Name (filter (doomed scope cfg fails) infos)"
proof (induction infos arbitrary: res gone)
  case (Cons i infos)
  then show ?case by (cases "verdict_of scope cfg i") (simp_all add: doomed_def Let_def)
qed simp

definition counted :: "SweepResult \<Rightarrow> bool" where
  "counted r \<longleftrightarrow> sw_Scanned r = sw_SkippedOutOfScope r + sw_SkippedLive r + sw_SkippedTooYoung r + sw_Orphans r \<and>
     sw_Orphans r = sw_Deleted r + sw_Errors r"

lemma sweep_counts:
  "counted res \<Longrightarrow> sw_Deleted res = length gone \<Longrightarrow>
   (let (res', gone') = fold (sweep_step scope cfg fails) infos (res, gone)
    in counted res' \<and> sw_Scanned res' = sw_Scanned res + length infos \<and> sw_Deleted res' = length gone')"
proof (induction infos arbitrary: res gone)
  case (Cons i infos)
  obtain res1 gone1 where s: "sweep_step scope cfg fails i (res, gone) = (res1, gone1)" by force
  have "counted res1 \<and> sw_Scanned res1 = Suc (sw_Scanned res) \<and> sw_Deleted res1 = length gone1"
    using s Cons.prems by (cases "verdict_of scope cfg i") (auto simp: counted_def Let_def split: if_splits)
  then show ?case using Cons.IH [of res1 gone1] s by (simp add: case_prod_beta Let_def)
qed (simp add: Let_def)

lemma ScopeToken_nonempty [simp]: "ScopeToken scope \<noteq> []"
  by (simp add: ScopeToken_eq)

lemma ScopeToken_not_control: "ScopeToken scope \<noteq> ''control''"
proof
  assume a: "ScopeToken scope = ''control''"
  then have "DecodeString ''control'' = Some (effective_scope scope)"
    by (metis DecodeString_EncodeToString ScopeToken_eq)
  moreover have "map_option EncodeToString (DecodeString ''control'') \<noteq> Some ''control''" by code_simp
  ultimately show False using a by (simp add: ScopeToken_eq)
qed

definition runner_names :: "string \<Rightarrow> string \<Rightarrow> string \<Rightarrow> string set" where
  "runner_names provider scope sid = {consumerName provider scope sid, controlConsumerName provider scope sid}"

lemma runner_name_own:
  assumes "name \<in> runner_names provider scope' sid" "ScopeToken scope' = ScopeToken scope"
    and "CHR ''_'' \<notin> set (SessionIDToken sid)" "provider \<noteq> []" "TrimSpace sid \<noteq> []"
  shows "DecodeConsumerSessionID name (ScopeToken scope) = Some (TrimSpace sid)"
  using assms DecodeConsumerSessionID_own [OF assms(3) assms(4) ScopeToken_nonempty [of scope] assms(5)]
    DecodeConsumerSessionID_own [OF assms(3) _ ScopeToken_nonempty [of scope] assms(5), of "provider @ ''_control''"]
  by (auto simp: runner_names_def consumerName_def controlConsumerName_def)

lemma runner_name_foreign:
  assumes "name \<in> runner_names provider scope' sid" "ScopeToken scope' \<noteq> ScopeToken scope"
    and "CHR ''_'' \<notin> set (SessionIDToken sid)" "CHR ''_'' \<notin> set provider"
    and "CHR ''_'' \<notin> set (ScopeToken scope)" "CHR ''_'' \<notin> set (ScopeToken scope')"
  shows "DecodeConsumerSessionID name (ScopeToken scope) = None"
proof (rule DecodeConsumerSessionID_foreign [OF assms(5)])
  have "segments (CHR ''_'') name \<in> {[provider, ScopeToken scope', SessionIDToken sid],
      [provider, ''control'', ScopeToken scope', SessionIDToken sid]}"
    using assms(1,3,4,6) by (auto simp: runner_names_def consumerName_def controlConsumerName_def)
  then show "ScopeToken scope \<notin> set (butlast (tl (segments (CHR ''_'') name)))"
    using assms(2) ScopeToken_not_control [of scope] by auto
qed

lemma sweep_result:
  assumes "RunConsumerSweep scope cfg fails infos = (res, gone)"
  shows "gone = map co_Name (filter (doomed scope cfg fails) infos)" "counted res" "sw_Scanned res = length infos"
    "sw_Deleted res = length gone"
  using assms sweep_names [of scope cfg fails infos empty_result "[]"]
    sweep_counts [of empty_result "[]" scope cfg fails infos]
  by (auto simp: RunConsumerSweep_def counted_def empty_result_def)

text \<open>The verdict on a consumer of a runner, and whether it is deleted.\<close>

lemma runner_consumer_swept:
  assumes "info \<in> set infos" "distinct (map co_Name infos)" "co_Name info \<in> runner_names provider scope' sid"
    and "token_safe (effective_scope scope)" "token_safe (effective_scope scope')" "token_safe (TrimSpace sid)"
    and "provider \<noteq> []" "CHR ''_'' \<notin> set provider" "TrimSpace sid \<noteq> []"
    and "RunConsumerSweep scope cfg fails infos = (res, gone)"
  shows "co_Name info \<in> set gone \<longleftrightarrow>
      effective_scope scope' = effective_scope scope \<and> TrimSpace sid \<notin> set (sc_LiveSessionIDs cfg) \<and>
      min_age cfg \<le> sc_Now cfg - co_Created info \<and> \<not> fails (co_Name info)"
proof -
  have no: "CHR ''_'' \<notin> set (ScopeToken scope)" "CHR ''_'' \<notin> set (ScopeToken scope')" "CHR ''_'' \<notin> set (SessionIDToken sid)"
    using assms(4-6) by (auto simp: ScopeToken_eq SessionIDToken_def dest: token_no_underscore)
  have "co_Name info \<in> set gone \<longleftrightarrow> doomed scope cfg fails info"
    using sweep_result(1) [OF assms(10)] assms(1,2) by (auto simp: distinct_map inj_on_def)
  moreover have "verdict_of scope cfg info =
      (if effective_scope scope' \<noteq> effective_scope scope then OutOfScope
       else if TrimSpace sid \<in> set (sc_LiveSessionIDs cfg) then Live
       else if sc_Now cfg - co_Created info < min_age cfg then TooYoung else Orphan)"
    using runner_name_own [OF assms(3) _ no(3) assms(7) assms(9)] runner_name_foreign [OF assms(3) _ no(3) assms(8) no(1,2)]
    by (auto simp: verdict_of_def ScopeToken_eq)
  ultimately show ?thesis by (auto simp: doomed_def)
qed


definition sample_sweep :: SweepConfig where
  "sample_sweep = \<lparr>sc_LiveSessionIDs = [''41''], sc_MinAge = 0, sc_Now = 2000000000000\<rparr>"

definition sample_consumers :: "consumer list" where
  "sample_consumers = [\<lparr>co_Name = consumerName ''codex'' ''slot-1'' ''42'', co_Created = 0\<rparr>,
     \<lparr>co_Name = controlConsumerName ''codex'' ''slot-2'' ''42'', co_Created = 0\<rparr>]"


text \<open>
  A scope whose token ends in an underscore and the token of another scope is not told apart: the sweep of the scope
  \<open>abc\<close> reads a consumer of the scope \<open>ab?abc\<close> as its own and deletes it.
\<close>

lemma foreign_scope_swept:
  "effective_scope ''ab?abc'' \<noteq> effective_scope ''abc'' \<and>
   DecodeConsumerSessionID (consumerName ''codex'' ''ab?abc'' ''42'') (ScopeToken ''abc'') = Some ''42''"
  by code_simp

end
