(* ===== verification/Row_Publisher.thy ===== *)
theory Row_Publisher
  imports Session_Registry Session_Ledger
begin

text \<open>
  The publisher of session rows (\<^verbatim>\<open>internal/sessioncontroller/row_publisher.go\<close>): the JSON object that goes to the
  browsers for one session record, and \<open>PublishCurrentRow\<close>, which reads the committed row and publishes it
  together with a wake-up for the transcript. Which publishes reach NATS is left open: the source only logs
  failures. The theory shows that the object carries the id, the version and the cursor of the record.
\<close>

section \<open>The wire shape\<close>

text \<open>Fields with \<^verbatim>\<open>omitempty\<close>.\<close>

definition omit_str :: "string \<Rightarrow> string \<Rightarrow> gomap" where
  "omit_str k v = (if v = [] then [] else [(k, GStr v)])"

definition omit_int :: "string \<Rightarrow> int \<Rightarrow> gomap" where
  "omit_int k v = (if v = 0 then [] else [(k, GInt64 v)])"

definition omit_map :: "string \<Rightarrow> gomap option \<Rightarrow> gomap" where
  "omit_map k v = (case v of None \<Rightarrow> [] | Some m \<Rightarrow> if m = [] then [] else [(k, GMap m)])"

definition omit_maps :: "string \<Rightarrow> gomap list \<Rightarrow> gomap" where
  "omit_maps k v = (if v = [] then [] else [(k, GMaps v)])"

definition bug_label_json :: "SessionBugLabel \<Rightarrow> gomap" where
  "bug_label_json l =
     omit_int ''id'' (bl_ID l) @
     [(''name'', GStr (bl_Name l)), (''slug'', GStr (bl_Slug l)), (''display_name'', GStr (bl_DisplayName l))]"

definition spawned_json :: "SpawnedSessionRef \<Rightarrow> gomap" where
  "spawned_json s =
     [(''id'', GStr (sp_ID s)), (''name'', GStr (sp_Name s))] @ omit_str ''mode'' (sp_Mode s) @
     omit_str ''model'' (sp_Model s) @ (if sp_Repos s = [] then [] else [(''repos'', GStrs (sp_Repos s))]) @
     [(''url'', GStr (sp_URL s))] @ omit_str ''created_at'' (sp_CreatedAt s)"

definition pull_request_json :: "SessionPullRequestRef \<Rightarrow> gomap" where
  "pull_request_json p =
     omit_str ''repo'' (pr_Repo p) @ omit_int ''number'' (pr_Number p) @ [(''url'', GStr (pr_URL p))] @
     omit_str ''action'' (pr_Action p) @ omit_str ''status'' (pr_Status p) @ omit_str ''state'' (pr_State p) @
     omit_str ''updated_at'' (pr_UpdatedAt p)"

definition rowWireShape :: "SessionRecord \<Rightarrow> gomap option \<Rightarrow> gomap" where
  "rowWireShape r activity =
     [(''id'', GStr (re_ID r)), (''owner'', GStr (re_Email r)), (''mode'', GStr (re_Mode r)),
      (''session_scope'', GStr (re_Scope r)), (''name'', GStr (re_Name r)), (''visible'', GBool (re_Visible r)),
      (''status'', GStr (re_Status r)), (''repos'', GStrs (re_Repos r)), (''capabilities'', GStrs (re_Capabilities r)),
      (''sidebar_position'', GInt64 (re_SidebarPosition r)), (''row_version'', GInt64 (re_RowVersion r))] @
     omit_str ''pod_name'' (re_PodName r) @
     omit_str ''session_image'' (re_SessionImage r) @
     omit_map ''session_image_metadata'' (Some (map (\<lambda>(k, v). (k, GStr v)) (re_SessionImageMetadata r))) @
     omit_str ''requested_at'' (re_RequestedAt r) @ omit_str ''created_at'' (re_CreatedAt r) @
     omit_str ''updated_at'' (re_UpdatedAt r) @ omit_str ''ready_at'' (re_ReadyAt r) @
     omit_str ''terminating_at'' (re_TerminatingAt r) @
     omit_map ''activity_summary'' activity @ omit_map ''test_state'' (re_TestState r) @
     omit_map ''rollout_state'' (re_RolloutState r) @ omit_map ''spoke_config'' (re_SpokeConfig r) @
     omit_maps ''spawned_sessions'' (map spawned_json (re_SpawnedSessions r)) @
     omit_maps ''pull_requests'' (map pull_request_json (re_PullRequests r)) @
     omit_str ''parent_session_id'' (re_ParentSessionID r) @ omit_map ''clone_state'' (re_CloneState r) @
     omit_map ''bug_label'' (map_option bug_label_json (re_BugLabel r)) @
     omit_maps ''bug_labels'' (map bug_label_json (re_BugLabels r)) @
     omit_str ''model'' (re_Model r) @ omit_str ''effort'' (re_Effort r) @
     omit_str ''runtime_model'' (re_RuntimeModel r) @ omit_str ''runtime_effort'' (re_RuntimeEffort r) @
     omit_str ''runtime_configured_at'' (re_RuntimeConfiguredAt r) @
     omit_int ''runtime_context_window_tokens'' (re_RuntimeContextWindowTokens r) @
     omit_str ''runtime_context_window_source'' (re_RuntimeContextWindowSource r) @
     omit_str ''runtime_context_window_observed_at'' (re_RuntimeContextWindowObservedAt r) @
     omit_str ''runtime_provider_session_id'' (re_RuntimeProviderSessionID r) @
     omit_str ''runtime_provider_session_observed_at'' (re_RuntimeProviderSessionObservedAt r) @
     omit_map ''provider_rate_limit_info'' (re_ProviderRateLimitInfo r) @
     omit_str ''provider_rate_limit_observed_at'' (re_ProviderRateLimitObservedAt r) @
     omit_int ''compaction_count'' (re_CompactionCount r) @ omit_int ''user_message_count'' (re_UserMessageCount r) @
     omit_str ''open_target'' (re_OpenTarget r) @ omit_str ''agent_avatar_id'' (re_AgentAvatarID r) @
     omit_str ''system_avatar_id'' (re_SystemAvatarID r)"

text \<open>Decoding the stored summary into a map: an object, or \<^verbatim>\<open>null\<close> for no map; anything else is an error.\<close>

definition activity_map :: "goany option \<Rightarrow> gomap option option" where
  "activity_map a =
     (case a of None \<Rightarrow> Some None | Some GNil \<Rightarrow> Some None | Some (GMap m) \<Rightarrow> Some (Some m) | Some _ \<Rightarrow> None)"

definition MarshalRowUpdate :: "SessionRecord \<Rightarrow> gomap option" where
  "MarshalRowUpdate r =
     (case activity_map (re_ActivitySummary r) of
        None \<Rightarrow> None
      | Some activity \<Rightarrow>
          Some [(''row'', GMap (rowWireShape r activity)), (''cursor'', GStr (int_dec (re_RowVersion r)))])"

section \<open>Publishing\<close>

datatype publish = RowUpdate string string gomap | EventWake string

definition PublishCurrentRow :: "(int \<Rightarrow> string) \<Rightarrow> string \<Rightarrow> string \<Rightarrow> sessions_db \<Rightarrow> string \<Rightarrow> string \<Rightarrow> publish list" where
  "PublishCurrentRow to_char store scope db owner sid =
     (let owner = owner_key owner; sid = TrimSpace sid
      in if owner = [] \<or> sid = [] then []
         else case registry_Get to_char store db owner sid of
                None \<Rightarrow> []
              | Some r \<Rightarrow>
                  (case MarshalRowUpdate r of None \<Rightarrow> [] | Some p \<Rightarrow> [RowUpdate owner scope p]) @
                  [EventWake (SessionStorageKey scope sid)])"

section \<open>What a payload says\<close>

definition wire_row :: "gomap \<Rightarrow> gomap" where
  "wire_row p = (case mget p ''row'' of Some (GMap m) \<Rightarrow> m | _ \<Rightarrow> [])"

definition wire_id :: "gomap \<Rightarrow> string" where
  "wire_id p = string_at (wire_row p) ''id''"

definition wire_version :: "gomap \<Rightarrow> int" where
  "wire_version p = (case mget (wire_row p) ''row_version'' of Some (GInt64 v) \<Rightarrow> v | _ \<Rightarrow> 0)"

lemma rowWireShape_fields:
  "mget (rowWireShape r a) ''id'' = Some (GStr (re_ID r))"
  "mget (rowWireShape r a) ''session_scope'' = Some (GStr (re_Scope r))"
  "mget (rowWireShape r a) ''row_version'' = Some (GInt64 (re_RowVersion r))"
  by (simp_all add: rowWireShape_def)

lemma mget_append: "mget (xs @ ys) k = (case mget xs k of None \<Rightarrow> mget ys k | Some v \<Rightarrow> Some v)"
  by (auto simp: mget_def map_add_def split: option.splits)

lemma mget_omit:
  "mget (omit_str k v) k' = (if k = k' \<and> v \<noteq> [] then Some (GStr v) else None)"
  "mget (omit_int k n) k' = (if k = k' \<and> n \<noteq> 0 then Some (GInt64 n) else None)"
  "k \<noteq> k' \<Longrightarrow> mget (omit_map k m) k' = None"
  "k \<noteq> k' \<Longrightarrow> mget (omit_maps k ms) k' = None"
  by (auto simp: omit_str_def omit_int_def omit_map_def omit_maps_def split: option.splits)

lemma rowWireShape_counts:
  "mget (rowWireShape r a) ''compaction_count'' =
     (if re_CompactionCount r \<noteq> 0 then Some (GInt64 (re_CompactionCount r)) else None)"
  "mget (rowWireShape r a) ''open_target'' = (if re_OpenTarget r \<noteq> [] then Some (GStr (re_OpenTarget r)) else None)"
  by (simp_all add: rowWireShape_def mget_append mget_omit)

lemma MarshalRowUpdate_fields:
  assumes "MarshalRowUpdate r = Some p"
  shows "wire_id p = re_ID r" "wire_version p = re_RowVersion r"
    "mget p ''cursor'' = Some (GStr (int_dec (re_RowVersion r)))"
    "\<exists>m. mget p ''row'' = Some (GMap m) \<and> mget m ''id'' = Some (GStr (re_ID r)) \<and>
       mget m ''session_scope'' = Some (GStr (re_Scope r))"
  using assms
  by (auto simp: MarshalRowUpdate_def wire_id_def wire_version_def wire_row_def string_at_def rowWireShape_fields
      split: option.splits)

section \<open>Owner keys are normal\<close>

text \<open>No letter is white space, so trimming and lowering commute.\<close>

definition is_letter :: "char \<Rightarrow> bool" where
  "is_letter c \<longleftrightarrow> (97 \<le> byte_of c \<and> byte_of c \<le> 122) \<or> (65 \<le> byte_of c \<and> byte_of c \<le> 90)"

lemma lower_char_letter: "\<not> is_letter c \<Longrightarrow> c = lower_char d \<longleftrightarrow> d = c"
proof -
  assume c: "\<not> is_letter c"
  have "is_letter (lower_char d)" if "65 \<le> byte_of d" "byte_of d \<le> 90"
    using that by (simp add: lower_char_def is_letter_def byte_of_def)
  moreover have "lower_char d = d" if "\<not> (65 \<le> byte_of d \<and> byte_of d \<le> 90)" using that by (auto simp: lower_char_def)
  moreover have "is_letter d" if "65 \<le> byte_of d" "byte_of d \<le> 90" using that by (simp add: is_letter_def)
  ultimately show ?thesis using c by metis
qed

lemma prefix_map_lower: "list_all (\<lambda>c. \<not> is_letter c) r \<Longrightarrow> prefix r (map lower_char s) = prefix r s"
proof (induction r arbitrary: s)
  case (Cons c r)
  then show ?case using lower_char_letter [of c] by (cases s) auto
qed simp

lemma trim_runes_lower:
  assumes "\<forall>r\<in>set rs. list_all (\<lambda>c. \<not> is_letter c) r"
  shows "trim_runes rs (map lower_char s) = map lower_char (trim_runes rs s)"
  using assms
proof (induction rs s rule: trim_runes.induct)
  case (1 rs s)
  have "find (\<lambda>r. prefix r (map lower_char s)) rs = find (\<lambda>r. prefix r s) rs"
    by (rule find_cong) (use 1(2) prefix_map_lower in auto)
  then have same: "rune_prefix rs (map lower_char s) = rune_prefix rs s" by (simp add: rune_prefix_def)
  show ?case
  proof (cases "s \<noteq> [] \<and> rune_prefix rs s \<noteq> 0")
    case True
    then show ?thesis using 1(1) [OF True 1(2)] same by (simp add: trim_runes_step drop_map)
  next
    case False
    then have "trim_runes rs s = s" "trim_runes rs (map lower_char s) = map lower_char s"
      using same by (auto intro!: trim_runes_unchanged)
    then show ?thesis by simp
  qed
qed

lemma TrimSpace_ToLower: "TrimSpace (ToLower s) = ToLower (TrimSpace s)"
proof -
  have "\<forall>r\<in>set space_runes. list_all (\<lambda>c. \<not> is_letter c) r" "\<forall>r\<in>set (map rev space_runes). list_all (\<lambda>c. \<not> is_letter c) r"
    by (simp_all add: space_runes_def is_letter_def byte_of_def)
  then show ?thesis by (simp only: TrimSpace_def ToLower_def trim_runes_lower rev_map)
qed

lemma owner_key_idem [simp]: "owner_key (owner_key e) = owner_key e"
  by (simp add: owner_key_def TrimSpace_ToLower)

end
