(* ===== verification/Session_List_Stream.thy ===== *)
theory Session_List_Stream
  imports Row_Publisher Registry_Invariants
begin

text \<open>
  The live session list of the browser (\<^verbatim>\<open>cmd/tank-operator/handlers_session_list_events.go\<close> and
  \<^verbatim>\<open>handleSessionsEvents\<close> in \<^verbatim>\<open>handlers_sessions.go\<close>): pages of rows read by version, the drain loop that runs at open and on
  every heartbeat, and the forwarding of payloads published by other replicas, which may be late, repeated or lost.
  The theory shows that after a drain the browser holds the current version of every row that changed since it opened, and
  that no row ever goes back to an older version.
\<close>

section \<open>Reading pages\<close>

definition listEventStreamPageLimit :: nat where "listEventStreamPageLimit = 100"

definition rows_after :: "sessions_db \<Rightarrow> string \<Rightarrow> string \<Rightarrow> int \<Rightarrow> session_row list" where
  "rows_after db owner scope cursor =
     sort_by (\<lambda>a b. a \<le> b) sr_row_version
       (filter (\<lambda>r. sr_email r = owner_key owner \<and> sr_session_scope r = scope \<and> cursor < sr_row_version r) (db_rows db))"

text \<open>The query of the stream does not select the image, its metadata, the two counts and the open target.\<close>

definition fetched_record :: "(int \<Rightarrow> string) \<Rightarrow> string \<Rightarrow> sessions_db \<Rightarrow> session_row \<Rightarrow> SessionRecord" where
  "fetched_record to_char scope db r =
     (record_of_row to_char scope db r)\<lparr>re_SessionImage := [], re_SessionImageMetadata := [], re_CompactionCount := 0,
        re_UserMessageCount := 0, re_OpenTarget := []\<rparr>"

definition fetchSessionRowsAfter :: "(int \<Rightarrow> string) \<Rightarrow> sessions_db \<Rightarrow> string \<Rightarrow> string \<Rightarrow> int \<Rightarrow> nat \<Rightarrow> SessionRecord list" where
  "fetchSessionRowsAfter to_char db owner scope cursor limit =
     map (fetched_record to_char scope db) (take limit (rows_after db owner scope cursor))"

record stream =
  st_cursor :: int
  st_delivered :: "string \<rightharpoonup> int"
  st_frames :: "(string \<times> gomap) list"

definition delivered_at :: "(string \<rightharpoonup> int) \<Rightarrow> string \<Rightarrow> int" where
  "delivered_at d sid = (case d sid of None \<Rightarrow> 0 | Some v \<Rightarrow> v)"

definition sanitizeSSEField :: "string \<Rightarrow> string" where
  "sanitizeSSEField v = filter (\<lambda>c. c \<noteq> CHR 0x0A) (filter (\<lambda>c. c \<noteq> CHR 0x0D) v)"

definition writeRawSSEEvent :: "string \<Rightarrow> gomap \<Rightarrow> stream \<Rightarrow> stream" where
  "writeRawSSEEvent sid data st = st\<lparr>st_frames := st_frames st @ [(sanitizeSSEField sid, data)]\<rparr>"

definition emit_record :: "SessionRecord \<Rightarrow> stream \<times> nat \<Rightarrow> stream \<times> nat" where
  "emit_record rec = (\<lambda>(st, n).
     let st = st\<lparr>st_cursor := re_RowVersion rec\<rparr>
     in if re_RowVersion rec \<le> delivered_at (st_delivered st) (re_ID rec) then (st, n)
        else case MarshalRowUpdate rec of
               None \<Rightarrow> (st, n)
             | Some p \<Rightarrow>
                 ((writeRawSSEEvent (int_dec (re_RowVersion rec)) p st)
                    \<lparr>st_delivered := (st_delivered st)(re_ID rec \<mapsto> re_RowVersion rec)\<rparr>, n + 1))"

definition writeSessionRowUpdatesPage :: "(int \<Rightarrow> string) \<Rightarrow> sessions_db \<Rightarrow> string \<Rightarrow> string \<Rightarrow> stream \<Rightarrow> bool \<times> nat \<times> stream" where
  "writeSessionRowUpdatesPage to_char db owner scope st =
     (let records = fetchSessionRowsAfter to_char db owner scope (st_cursor st) (listEventStreamPageLimit + 1);
          hasMore = length records > listEventStreamPageLimit;
          records = (if hasMore then take listEventStreamPageLimit records else records);
          (st', count) = fold emit_record records (st, 0)
      in (hasMore, count, st'))"

section \<open>Forwarding live payloads\<close>

text \<open>\<^verbatim>\<open>strconv.ParseInt(s, 10, 64)\<close>\<close>

definition ParseInt64 :: "string \<Rightarrow> int option" where
  "ParseInt64 s =
     (let neg = (s \<noteq> [] \<and> hd s = CHR ''-''); ds = (if s \<noteq> [] \<and> hd s \<in> {CHR ''-'', CHR ''+''} then tl s else s);
          v = (if neg then - digits_val ds else digits_val ds)
      in if ds = [] \<or> \<not> list_all is_digit ds then None
         else if - (2 ^ 63) \<le> v \<and> v < 2 ^ 63 then Some v else None)"

text \<open>Decoding into the probe: an absent field or \<^verbatim>\<open>null\<close> leaves the empty string, another type is an error.\<close>

definition probe_string :: "gomap \<Rightarrow> string \<Rightarrow> string option" where
  "probe_string m k = (case mget m k of None \<Rightarrow> Some [] | Some GNil \<Rightarrow> Some [] | Some (GStr s) \<Rightarrow> Some s | Some _ \<Rightarrow> None)"

definition probe_row :: "gomap \<Rightarrow> (string \<times> string) option" where
  "probe_row m =
     (case mget m ''row'' of
        None \<Rightarrow> Some ([], []) | Some GNil \<Rightarrow> Some ([], [])
      | Some (GMap r) \<Rightarrow>
          (case (probe_string r ''id'', probe_string r ''session_scope'') of
             (Some i, Some s) \<Rightarrow> Some (i, s) | _ \<Rightarrow> None)
      | Some _ \<Rightarrow> None)"

definition emitSessionRowPayload :: "string \<Rightarrow> gomap \<Rightarrow> stream \<Rightarrow> stream" where
  "emitSessionRowPayload expected payload st =
     (case (probe_string payload ''cursor'', probe_row payload) of
        (Some cursor, Some (rid, rscope)) \<Rightarrow>
          (let scope = TrimSpace rscope
           in if scope \<noteq> [] \<and> scope \<noteq> expected then st
              else case ParseInt64 (TrimSpace cursor) of
                     None \<Rightarrow> st
                   | Some v \<Rightarrow>
                       (let sid = TrimSpace rid
                        in if v \<le> 0 \<or> (sid \<noteq> [] \<and> v \<le> delivered_at (st_delivered st) sid) then st
                           else let st' = writeRawSSEEvent cursor payload st
                                in if sid = [] then st' else st'\<lparr>st_delivered := (st_delivered st)(sid \<mapsto> v)\<rparr>))
      | _ \<Rightarrow> st)"

section \<open>Opening and draining\<close>

fun parseRowVersionCursor :: "string list \<Rightarrow> int" where
  "parseRowVersionCursor [] = 0"
| "parseRowVersionCursor (raw # rest) =
     (if TrimSpace raw = [] then parseRowVersionCursor rest
      else case ParseInt64 (TrimSpace raw) of
             Some v \<Rightarrow> if 0 \<le> v then v else parseRowVersionCursor rest
           | None \<Rightarrow> parseRowVersionCursor rest)"

definition queryRowVersionTip :: "sessions_db \<Rightarrow> string \<Rightarrow> string \<Rightarrow> int" where
  "queryRowVersionTip db owner scope =
     (case map sr_row_version (filter (\<lambda>r. sr_email r = owner \<and> sr_session_scope r = scope) (db_rows db)) of
        [] \<Rightarrow> 0 | v # vs \<Rightarrow> fold max vs v)"

definition open_stream :: "sessions_db \<Rightarrow> string \<Rightarrow> string \<Rightarrow> int \<Rightarrow> stream" where
  "open_stream db owner scope cursor =
     (let tip = queryRowVersionTip db owner scope
      in \<lparr>st_cursor = (if cursor = 0 \<and> 0 < tip then tip else cursor), st_delivered = Map.empty, st_frames = []\<rparr>)"

text \<open>The rows that a page may still return, the next one first.\<close>

definition pending :: "sessions_db \<Rightarrow> string \<Rightarrow> string \<Rightarrow> int \<Rightarrow> session_row list \<Rightarrow> bool" where
  "pending db owner scope cursor rs \<longleftrightarrow>
     set rs = {r \<in> set (db_rows db). sr_email r = owner_key owner \<and> sr_session_scope r = scope \<and> cursor < sr_row_version r} \<and>
     sorted_wrt (\<lambda>a b. sr_row_version a < sr_row_version b) rs"

interpretation ascending: key_order "\<lambda>a b :: int. a \<le> b"
  by unfold_locales auto

lemma pending_rows_after:
  assumes "db_ok db"
  shows "pending db owner scope cursor (rows_after db owner scope cursor)"
proof -
  let ?rs = "rows_after db owner scope cursor"
  have "distinct (map sr_row_version ?rs)"
    using assms by (auto simp: rows_after_def ascending.distinct_map_sort_by db_ok_def intro: distinct_map_filter)
  moreover have "sorted_wrt (\<lambda>a b. sr_row_version a \<le> sr_row_version b) ?rs"
    unfolding rows_after_def by (rule ascending.sort_by_sorted)
  ultimately have "sorted_wrt (<) (map sr_row_version ?rs)"
    by (simp add: strict_sorted_iff sorted_map)
  then show ?thesis by (auto simp: pending_def rows_after_def sorted_wrt_map)
qed

lemma st_cursor_emit [simp]: "st_cursor (fst (emit_record rec sn)) = re_RowVersion rec"
  by (auto simp: emit_record_def writeRawSSEEvent_def Let_def split: prod.splits option.splits)

lemma st_cursor_fold_emit: "st_cursor (fst (fold emit_record recs sn)) = (if recs = [] then st_cursor (fst sn) else re_RowVersion (last recs))"
  by (induction recs arbitrary: sn) auto

lemma re_fetched [simp]:
  "re_RowVersion (fetched_record to_char scope db r) = sr_row_version r"
  "re_ID (fetched_record to_char scope db r) = sr_session_id r"
  by (simp_all add: fetched_record_def record_of_row_def)

lemma page_unfold:
  "writeSessionRowUpdatesPage to_char db owner scope st =
     (let rs = rows_after db owner scope (st_cursor st);
          (st', count) = fold emit_record (map (fetched_record to_char scope db) (take listEventStreamPageLimit rs)) (st, 0)
      in (listEventStreamPageLimit < length rs, count, st'))"
  by (auto simp: writeSessionRowUpdatesPage_def fetchSessionRowsAfter_def Let_def take_map min_def)

lemma page_advances:
  assumes "writeSessionRowUpdatesPage to_char db owner scope st = (True, n, st')"
  shows "length (rows_after db owner scope (st_cursor st')) < length (rows_after db owner scope (st_cursor st))"
proof -
  let ?rs = "rows_after db owner scope (st_cursor st)"
  let ?page = "take listEventStreamPageLimit ?rs"
  have long: "listEventStreamPageLimit < length ?rs" and
    st': "st' = fst (fold emit_record (map (fetched_record to_char scope db) ?page) (st, 0))"
    using assms by (auto simp: page_unfold Let_def split: prod.splits)
  then have ne: "?page \<noteq> []" by (auto simp: listEventStreamPageLimit_def)
  then have cur: "st_cursor st' = sr_row_version (last ?page)" unfolding st' by (simp add: st_cursor_fold_emit last_map)
  have mem: "last ?page \<in> set ?rs" using ne by (meson in_set_takeD last_in_set)
  then have beyond: "st_cursor st < st_cursor st'" "last ?page \<in> set (db_rows db)"
    "sr_email (last ?page) = owner_key owner" "sr_session_scope (last ?page) = scope"
    unfolding cur by (auto simp: rows_after_def)
  let ?P = "\<lambda>c r. sr_email r = owner_key owner \<and> sr_session_scope r = scope \<and> c < sr_row_version r"
  have len: "length (rows_after db owner scope c) = length (filter (?P c) (db_rows db))" for c by (simp add: rows_after_def)
  have "filter (?P (st_cursor st')) (db_rows db) = filter (?P (st_cursor st')) (filter (?P (st_cursor st)) (db_rows db))"
    using beyond(1) by (auto intro: filter_cong)
  also have "length \<dots> < length (filter (?P (st_cursor st)) (db_rows db))"
    by (rule length_filter_less [of "last ?page"]) (use beyond cur in auto)
  finally show ?thesis unfolding len .
qed

text \<open>The loop at open and on each heartbeat; every page that reports more rows shortens what is left.\<close>

function drain :: "(int \<Rightarrow> string) \<Rightarrow> sessions_db \<Rightarrow> string \<Rightarrow> string \<Rightarrow> stream \<Rightarrow> stream" where
  "drain to_char db owner scope st =
     (let (hasMore, n, st') = writeSessionRowUpdatesPage to_char db owner scope st
      in if hasMore then drain to_char db owner scope st' else st')"
  by pat_completeness auto
termination
  by (relation "measure (\<lambda>(_, db, owner, scope, st). length (rows_after db owner scope (st_cursor st)))")
    (simp_all, metis page_advances)

declare drain.simps [simp del]

section \<open>What the browser holds\<close>

text \<open>
  The browser replaces its row on every frame: the last frame of an id is what it shows. A table is ready for the
  wire when ids are clean and stored summaries are objects.
\<close>

definition frames_of :: "stream \<Rightarrow> string \<Rightarrow> gomap list" where
  "frames_of st sid = filter (\<lambda>p. wire_id p = sid) (map snd (st_frames st))"

definition client_version :: "stream \<Rightarrow> string \<Rightarrow> int option" where
  "client_version st sid = (if frames_of st sid = [] then None else Some (wire_version (last (frames_of st sid))))"

definition wire_ready :: "sessions_db \<Rightarrow> bool" where
  "wire_ready db \<longleftrightarrow>
     (\<forall>r\<in>set (db_rows db). TrimSpace (sr_session_id r) = sr_session_id r \<and> sr_session_id r \<noteq> [] \<and>
        activity_map (sr_activity_summary r) \<noteq> None)"

record world =
  wd_db :: sessions_db
  wd_published :: "publish list"
  wd_stream :: stream

text \<open>
  The replicas change the table and publish rows, in any order; the stream forwards published payloads, any of them at any
  time and any number of times, and reads pages.
\<close>

inductive world_step :: "(int \<Rightarrow> string) \<Rightarrow> string \<Rightarrow> string \<Rightarrow> world \<Rightarrow> world \<Rightarrow> bool"
  for to_char owner scope where
  change: "db_step (wd_db w) db \<Longrightarrow> wire_ready db \<Longrightarrow> world_step to_char owner scope w (w\<lparr>wd_db := db\<rparr>)"
| publish: "world_step to_char owner scope w
    (w\<lparr>wd_published := wd_published w @ PublishCurrentRow to_char scope scope (wd_db w) owner' sid\<rparr>)"
| live: "RowUpdate (owner_key owner) scope p \<in> set (wd_published w) \<Longrightarrow>
    world_step to_char owner scope w (w\<lparr>wd_stream := emitSessionRowPayload scope p (wd_stream w)\<rparr>)"
| page: "writeSessionRowUpdatesPage to_char (wd_db w) owner scope (wd_stream w) = (hasMore, n, st) \<Longrightarrow>
    world_step to_char owner scope w (w\<lparr>wd_stream := st\<rparr>)"

definition row_at :: "sessions_db \<Rightarrow> string \<Rightarrow> string \<Rightarrow> string \<Rightarrow> int \<Rightarrow> bool" where
  "row_at db owner scope sid v \<longleftrightarrow>
     (\<exists>r\<in>set (db_rows db). session_key r = (owner_key owner, scope, sid) \<and> v \<le> sr_row_version r)"

text \<open>What every payload on the owner's subject says: an id and a version that the table has reached.\<close>

definition honest :: "sessions_db \<Rightarrow> string \<Rightarrow> string \<Rightarrow> gomap \<Rightarrow> bool" where
  "honest db owner scope p \<longleftrightarrow>
     TrimSpace (wire_id p) = wire_id p \<and> wire_id p \<noteq> [] \<and> row_at db owner scope (wire_id p) (wire_version p) \<and>
     mget p ''cursor'' = Some (GStr (int_dec (wire_version p))) \<and>
     (\<exists>m s. mget p ''row'' = Some (GMap m) \<and> mget m ''id'' = Some (GStr (wire_id p)) \<and> mget m ''session_scope'' = Some (GStr s))"

text \<open>The books of a stream: frames of a session have growing versions and the last of them is recorded.\<close>

definition stream_ok :: "sessions_db \<Rightarrow> string \<Rightarrow> string \<Rightarrow> stream \<Rightarrow> bool" where
  "stream_ok db owner scope st \<longleftrightarrow>
     (\<forall>sid. client_version st sid = st_delivered st sid) \<and>
     (\<forall>sid. sorted_wrt (<) (map wire_version (frames_of st sid))) \<and>
     (\<forall>sid v. st_delivered st sid = Some v \<longrightarrow> row_at db owner scope sid v)"

definition caught_up :: "sessions_db \<Rightarrow> string \<Rightarrow> string \<Rightarrow> int \<Rightarrow> stream \<Rightarrow> bool" where
  "caught_up db owner scope c0 st \<longleftrightarrow>
     (\<forall>r\<in>set (db_rows db). sr_email r = owner_key owner \<and> sr_session_scope r = scope \<and> c0 < sr_row_version r \<and>
        sr_row_version r \<le> st_cursor st \<longrightarrow>
        (\<exists>v. st_delivered st (sr_session_id r) = Some v \<and> sr_row_version r \<le> v))"

definition world_ok :: "string \<Rightarrow> string \<Rightarrow> int \<Rightarrow> world \<Rightarrow> bool" where
  "world_ok owner scope c0 w \<longleftrightarrow>
     db_ok (wd_db w) \<and> wire_ready (wd_db w) \<and> st_cursor (wd_stream w) \<le> db_seq (wd_db w) \<and>
     (\<forall>p. RowUpdate (owner_key owner) scope p \<in> set (wd_published w) \<longrightarrow> honest (wd_db w) owner scope p) \<and>
     stream_ok (wd_db w) owner scope (wd_stream w) \<and> caught_up (wd_db w) owner scope c0 (wd_stream w)"

section \<open>One frame\<close>

definition deliver :: "string \<Rightarrow> gomap \<Rightarrow> stream \<Rightarrow> stream" where
  "deliver line p st =
     (writeRawSSEEvent line p st)\<lparr>st_delivered := (st_delivered st)(wire_id p \<mapsto> wire_version p)\<rparr>"

lemma deliver_fields [simp]:
  "st_delivered (deliver line p st) = (st_delivered st)(wire_id p \<mapsto> wire_version p)"
  "st_cursor (deliver line p st) = st_cursor st"
  by (simp_all add: deliver_def writeRawSSEEvent_def)

lemma frames_of_deliver:
  "frames_of (deliver line p st) sid = frames_of st sid @ (if wire_id p = sid then [p] else [])"
  by (simp add: deliver_def writeRawSSEEvent_def frames_of_def)

lemma sorted_last: "sorted (xs :: int list) \<Longrightarrow> x \<in> set xs \<Longrightarrow> x \<le> last xs"
  by (induction xs) auto

lemma frames_below:
  assumes "stream_ok db owner scope st" "q \<in> set (frames_of st sid)"
  shows "wire_version q \<le> delivered_at (st_delivered st) sid"
proof -
  have ne: "frames_of st sid \<noteq> []" using assms(2) by auto
  then have d: "st_delivered st sid = Some (wire_version (last (frames_of st sid)))"
    using assms(1) by (auto simp: stream_ok_def client_version_def split: if_splits)
  have "sorted (map wire_version (frames_of st sid))"
    using assms(1) by (simp add: stream_ok_def strict_sorted_imp_sorted)
  then have "wire_version q \<le> last (map wire_version (frames_of st sid))"
    using assms(2) ne sorted_last [of "map wire_version (frames_of st sid)" "wire_version q"] by simp
  then show ?thesis using d ne by (simp add: delivered_at_def last_map)
qed

lemma stream_ok_deliver:
  assumes ok: "stream_ok db owner scope st" and new: "delivered_at (st_delivered st) (wire_id p) < wire_version p"
    and row: "row_at db owner scope (wire_id p) (wire_version p)"
  shows "stream_ok db owner scope (deliver line p st)"
proof -
  have "client_version (deliver line p st) sid = st_delivered (deliver line p st) sid" for sid
  proof -
    have "client_version st sid = st_delivered st sid" using ok by (simp add: stream_ok_def)
    then show ?thesis by (auto simp: client_version_def frames_of_deliver)
  qed
  moreover have "sorted_wrt (<) (map wire_version (frames_of (deliver line p st) sid))" for sid
    using ok new frames_below [OF ok] by (fastforce simp: stream_ok_def frames_of_deliver sorted_wrt_append)
  moreover have "row_at db owner scope sid v" if "st_delivered (deliver line p st) sid = Some v" for sid v
    using that ok row by (auto simp: stream_ok_def split: if_splits)
  ultimately show ?thesis by (simp add: stream_ok_def)
qed

lemma caught_up_deliver:
  assumes "caught_up db owner scope c0 st" "delivered_at (st_delivered st) (wire_id p) < wire_version p"
  shows "caught_up db owner scope c0 (deliver line p st)"
  using assms by (fastforce simp: caught_up_def delivered_at_def)

lemma stream_ok_cursor [simp]: "stream_ok db owner scope (st\<lparr>st_cursor := c\<rparr>) = stream_ok db owner scope st"
  by (simp add: stream_ok_def client_version_def frames_of_def)

section \<open>The steps keep the books\<close>

lemma int_dec_visible: "list_all visible (int_dec n)"
proof -
  have "list_all visible (nat_dec k)" for k
    using nat_dec_digits [of k] by (auto simp: list_all_iff is_digit_def visible_def)
  then show ?thesis by (simp add: int_dec_def visible_def byte_of_def)
qed

lemma ParseInt64_int_dec: "ParseInt64 (int_dec n) = Some v \<Longrightarrow> v = n"
proof -
  assume v: "ParseInt64 (int_dec n) = Some v"
  have d: "list_all is_digit (nat_dec k)" for k by (rule nat_dec_digits)
  have "nat_dec k \<noteq> [] \<Longrightarrow> hd (nat_dec k) \<notin> {CHR ''-'', CHR ''+''}" for k
    using d [of k] by (cases "nat_dec k") (auto simp: is_digit_def byte_of_def)
  then show "v = n" using v by (auto simp: ParseInt64_def int_dec_def Let_def split: if_splits)
qed

lemma emit_honest:
  assumes "honest db owner scope p"
  shows "emitSessionRowPayload scope p st = st \<or>
    (emitSessionRowPayload scope p st = deliver (int_dec (wire_version p)) p st \<and>
     delivered_at (st_delivered st) (wire_id p) < wire_version p)"
proof -
  obtain m s where m: "mget p ''row'' = Some (GMap m)" "mget m ''id'' = Some (GStr (wire_id p))"
      "mget m ''session_scope'' = Some (GStr s)" and cur: "mget p ''cursor'' = Some (GStr (int_dec (wire_version p)))"
      and trim: "TrimSpace (wire_id p) = wire_id p" "wire_id p \<noteq> []"
    using assms by (auto simp: honest_def)
  have probe: "probe_string p ''cursor'' = Some (int_dec (wire_version p))" "probe_row p = Some (wire_id p, s)"
    using m cur by (simp_all add: probe_string_def probe_row_def)
  show ?thesis
  proof (cases "ParseInt64 (int_dec (wire_version p))")
    case None
    then show ?thesis
      by (simp add: emitSessionRowPayload_def probe TrimSpace_visible [OF int_dec_visible] Let_def)
  next
    case (Some v)
    then have "v = wire_version p" by (rule ParseInt64_int_dec)
    then show ?thesis using Some trim
      by (auto simp: emitSessionRowPayload_def probe TrimSpace_visible [OF int_dec_visible] Let_def deliver_def writeRawSSEEvent_def)
  qed
qed

lemma emit_row:
  assumes "wire_ready db" "r \<in> set (db_rows db)"
  shows "fst (emit_record (fetched_record to_char scope db r) (st, n)) =
      (if sr_row_version r \<le> delivered_at (st_delivered st) (sr_session_id r) then st\<lparr>st_cursor := sr_row_version r\<rparr>
       else let p = the (MarshalRowUpdate (fetched_record to_char scope db r))
            in deliver (int_dec (sr_row_version r)) p (st\<lparr>st_cursor := sr_row_version r\<rparr>)) \<and>
    wire_id (the (MarshalRowUpdate (fetched_record to_char scope db r))) = sr_session_id r \<and>
    wire_version (the (MarshalRowUpdate (fetched_record to_char scope db r))) = sr_row_version r"
proof -
  have "activity_map (sr_activity_summary r) \<noteq> None" using assms by (auto simp: wire_ready_def)
  then obtain p where p: "MarshalRowUpdate (fetched_record to_char scope db r) = Some p"
    by (auto simp: MarshalRowUpdate_def fetched_record_def record_of_row_def)
  then show ?thesis using MarshalRowUpdate_fields(1,2) [OF p]
    by (auto simp: emit_record_def Let_def deliver_def writeRawSSEEvent_def)
qed

text \<open>Reading the next row after the cursor.\<close>

lemma caught_up_next:
  assumes "pending db owner scope (st_cursor st) (r # rs)" "caught_up db owner scope c0 st" "st_cursor st' = sr_row_version r"
    and grows: "\<And>sid v. st_delivered st sid = Some v \<Longrightarrow> \<exists>v'. st_delivered st' sid = Some v' \<and> v \<le> v'"
    and new: "c0 < sr_row_version r \<Longrightarrow> \<exists>v. st_delivered st' (sr_session_id r) = Some v \<and> sr_row_version r \<le> v"
  shows "caught_up db owner scope c0 st'"
  unfolding caught_up_def
proof (intro ballI impI)
  fix q assume q: "q \<in> set (db_rows db)" "sr_email q = owner_key owner \<and> sr_session_scope q = scope \<and>
      c0 < sr_row_version q \<and> sr_row_version q \<le> st_cursor st'"
  show "\<exists>v. st_delivered st' (sr_session_id q) = Some v \<and> sr_row_version q \<le> v"
  proof (cases "sr_row_version q \<le> st_cursor st")
    case True
    then obtain v where "st_delivered st (sr_session_id q) = Some v" "sr_row_version q \<le> v"
      using assms(2) q by (auto simp: caught_up_def)
    then show ?thesis using grows by force
  next
    case False
    then have "q \<in> set (r # rs)" using q assms(1) by (auto simp: pending_def)
    then have "q = r" using q(2) assms(1,3) by (auto simp: pending_def)
    then show ?thesis using new q(2) by blast
  qed
qed

lemma emit_next:
  assumes db: "wire_ready db" and c0: "0 \<le> c0" and head: "pending db owner scope (st_cursor st) (r # rs)"
    and ok: "stream_ok db owner scope st" "caught_up db owner scope c0 st"
  shows "let st' = fst (emit_record (fetched_record to_char scope db r) (st, n))
    in stream_ok db owner scope st' \<and> caught_up db owner scope c0 st' \<and> pending db owner scope (st_cursor st') rs"
proof -
  have r: "r \<in> set (db_rows db)" "sr_email r = owner_key owner" "sr_session_scope r = scope" "st_cursor st < sr_row_version r"
    using head by (auto simp: pending_def)
  let ?p = "the (MarshalRowUpdate (fetched_record to_char scope db r))" and ?st = "st\<lparr>st_cursor := sr_row_version r\<rparr>"
  let ?st' = "fst (emit_record (fetched_record to_char scope db r) (st, n))"
  note emit = emit_row [OF db r(1), of to_char scope st n]
  have "row_at db owner scope (sr_session_id r) (sr_row_version r)" using r by (auto simp: row_at_def)
  then have books: "stream_ok db owner scope ?st'"
    using emit ok(1) by (auto simp: Let_def intro: stream_ok_deliver)
  have "caught_up db owner scope c0 ?st'"
  proof (rule caught_up_next [OF head ok(2)])
    show "st_cursor ?st' = sr_row_version r" by simp
    show "\<exists>v'. st_delivered ?st' sid = Some v' \<and> v \<le> v'" if "st_delivered st sid = Some v" for sid v
      using that emit by (auto simp: Let_def delivered_at_def)
    show "\<exists>v. st_delivered ?st' (sr_session_id r) = Some v \<and> sr_row_version r \<le> v" if "c0 < sr_row_version r"
      using that emit c0 by (auto simp: Let_def delivered_at_def split: option.splits)
  qed
  moreover have "pending db owner scope (st_cursor ?st') rs"
    using head r(4) by (fastforce simp: pending_def)
  ultimately show ?thesis using books by (simp add: Let_def)
qed

lemma emit_rows:
  assumes db: "wire_ready db" and c0: "0 \<le> c0" and rs: "pending db owner scope (st_cursor st) rs"
    and ok: "stream_ok db owner scope st" "caught_up db owner scope c0 st"
  shows "let st' = fst (fold emit_record (map (fetched_record to_char scope db) (take k rs)) (st, n))
    in stream_ok db owner scope st' \<and> caught_up db owner scope c0 st' \<and> pending db owner scope (st_cursor st') (drop k rs)"
  using rs ok
proof (induction rs arbitrary: st n k)
  case (Cons r rs)
  show ?case
  proof (cases k)
    case (Suc k')
    obtain st' n' where e: "emit_record (fetched_record to_char scope db r) (st, n) = (st', n')" by force
    have "stream_ok db owner scope st' \<and> caught_up db owner scope c0 st' \<and> pending db owner scope (st_cursor st') rs"
      using emit_next [OF db c0 Cons.prems, of to_char n] e by (simp add: Let_def)
    then show ?thesis using Cons.IH [of st' k' n'] Suc e by (simp add: Let_def)
  qed (use Cons.prems in simp)
qed simp

lemma page_ok:
  assumes "writeSessionRowUpdatesPage to_char db owner scope st = (hasMore, n, st')"
    and db: "db_ok db" "wire_ready db" and c0: "0 \<le> c0"
    and ok: "stream_ok db owner scope st" "caught_up db owner scope c0 st"
  shows "stream_ok db owner scope st' \<and> caught_up db owner scope c0 st' \<and>
    (\<not> hasMore \<longrightarrow> pending db owner scope (st_cursor st') []) \<and> st_cursor st' \<le> max (st_cursor st) (db_seq db)"
proof -
  let ?rs = "rows_after db owner scope (st_cursor st)"
  have st': "st' = fst (fold emit_record (map (fetched_record to_char scope db) (take listEventStreamPageLimit ?rs)) (st, 0))"
    and more: "hasMore \<longleftrightarrow> listEventStreamPageLimit < length ?rs"
    using assms(1) by (auto simp: page_unfold Let_def split: prod.splits)
  have "st_cursor st' \<le> max (st_cursor st) (db_seq db)"
  proof (cases "take listEventStreamPageLimit ?rs = []")
    case False
    have "last (take listEventStreamPageLimit ?rs) \<in> set ?rs" using False by (meson in_set_takeD last_in_set)
    then have "sr_row_version (last (take listEventStreamPageLimit ?rs)) \<le> db_seq db"
      using db(1) by (auto simp: rows_after_def db_ok_def)
    then show ?thesis using False unfolding st' st_cursor_fold_emit by (simp add: last_map)
  qed (simp add: st' st_cursor_fold_emit)
  moreover have "stream_ok db owner scope st' \<and> caught_up db owner scope c0 st' \<and>
      pending db owner scope (st_cursor st') (drop listEventStreamPageLimit ?rs)"
    using emit_rows [OF db(2) c0 pending_rows_after [OF db(1)] ok, of to_char listEventStreamPageLimit 0]
    unfolding Let_def st' .
  moreover have "drop listEventStreamPageLimit ?rs = []" if "\<not> hasMore" using that more by simp
  ultimately show ?thesis by metis
qed

lemma drain_ok:
  assumes db: "db_ok db" "wire_ready db" and c0: "0 \<le> c0"
    and ok: "stream_ok db owner scope st" "caught_up db owner scope c0 st"
  shows "let st' = drain to_char db owner scope st
    in stream_ok db owner scope st' \<and> caught_up db owner scope c0 st' \<and> pending db owner scope (st_cursor st') []"
  using db ok
proof (induction to_char db owner scope st rule: drain.induct)
  case (1 to_char db owner scope st)
  obtain hasMore n st' where w: "writeSessionRowUpdatesPage to_char db owner scope st = (hasMore, n, st')"
    by (metis prod_cases3)
  note page = page_ok [OF w 1(2,3) c0 1(4,5)]
  show ?case
  proof (cases hasMore)
    case True
    then have "drain to_char db owner scope st = drain to_char db owner scope st'"
      by (simp add: drain.simps [of _ _ _ _ st] w)
    then show ?thesis using 1(1) [OF refl, unfolded w, OF refl refl True 1(2,3)] page by simp
  next
    case False
    then have "drain to_char db owner scope st = st'" by (simp add: drain.simps [of _ _ _ _ st] w)
    then show ?thesis using page False by simp
  qed
qed

section \<open>Interleavings\<close>

lemma row_at_newer: "db_ok db \<Longrightarrow> newer_than db db' \<Longrightarrow> row_at db owner scope sid v \<Longrightarrow> row_at db' owner scope sid v"
proof -
  assume ok: "db_ok db" and new: "newer_than db db'" and "row_at db owner scope sid v"
  then obtain r where r: "r \<in> set (db_rows db)" "session_key r = (owner_key owner, scope, sid)" "v \<le> sr_row_version r"
    by (auto simp: row_at_def)
  then have "session_key r \<in> session_key ` set (db_rows db')" using new unfolding newer_than_def by blast
  then obtain r' where r': "r' \<in> set (db_rows db')" "session_key r' = session_key r" by force
  have "v \<le> sr_row_version r'"
  proof (cases "r' \<in> set (db_rows db)")
    case True
    then have "r' = r" using r(1) r'(2) ok by (auto simp: db_ok_def distinct_map dest: inj_onD)
    then show ?thesis using r(3) by simp
  next
    case False
    then have "db_seq db < sr_row_version r'" using new r'(1) unfolding newer_than_def by blast
    moreover have "sr_row_version r \<le> db_seq db" using ok r(1) by (simp add: db_ok_def)
    ultimately show ?thesis using r(3) by linarith
  qed
  then show ?thesis using r(2) r' by (auto simp: row_at_def)
qed

lemma published_honest:
  assumes "RowUpdate (owner_key owner) scope p \<in> set (PublishCurrentRow to_char store scope db owner' sid)"
    and "db_ok db" "wire_ready db" "store_scope store = scope"
  shows "honest db owner scope p"
proof -
  obtain rec where rec: "registry_Get to_char store db (owner_key owner') (TrimSpace sid) = Some rec" "MarshalRowUpdate rec = Some p"
      and own: "owner_key owner = owner_key owner'"
  proof (cases "registry_Get to_char store db (owner_key owner') (TrimSpace sid)")
    case None
    then show ?thesis using assms(1) by (simp add: PublishCurrentRow_def Let_def split: if_splits)
  next
    case (Some rec)
    then show ?thesis using assms(1) that
      by (cases "MarshalRowUpdate rec") (simp_all add: PublishCurrentRow_def Let_def split: if_splits)
  qed
  obtain r where f: "find_session db (owner_key (owner_key owner')) scope (TrimSpace sid) = Some r"
      and recr: "rec = record_of_row to_char scope db r"
    using rec(1) assms(4) by (auto simp: registry_Get_def split: if_splits)
  have r: "r \<in> set (db_rows db)" "session_key r = (owner_key owner, scope, TrimSpace sid)"
    using find_hit [OF f [unfolded find_session_def]] own by (simp_all add: is_row_def)
  have id: "TrimSpace (sr_session_id r) = sr_session_id r" "sr_session_id r \<noteq> []"
    using assms(3) r(1) by (auto simp: wire_ready_def)
  have fields: "re_ID rec = sr_session_id r" "re_RowVersion rec = sr_row_version r"
    unfolding recr by (simp_all add: record_of_row_def)
  have "row_at db owner scope (sr_session_id r) (sr_row_version r)" using r by (auto simp: row_at_def)
  then show ?thesis
    using MarshalRowUpdate_fields [OF rec(2)] id fields by (auto simp: honest_def)
qed

lemma honest_newer: "db_ok db \<Longrightarrow> newer_than db db' \<Longrightarrow> honest db owner scope p \<Longrightarrow> honest db' owner scope p"
  by (auto simp: honest_def dest: row_at_newer)

lemma world_change:
  assumes "world_ok owner scope c0 w" "db_step (wd_db w) db" "wire_ready db"
  shows "world_ok owner scope c0 (w\<lparr>wd_db := db\<rparr>)"
proof -
  have ok: "db_ok (wd_db w)" and new: "newer_than (wd_db w) db" and ok': "db_ok db"
    using assms(1) db_step_advances [OF assms(2)] by (auto simp: world_ok_def)
  have cur: "st_cursor (wd_stream w) \<le> db_seq (wd_db w)" using assms(1) by (simp add: world_ok_def)
  then have "st_cursor (wd_stream w) \<le> db_seq db" using new by (simp add: newer_than_def)
  moreover have "stream_ok db owner scope (wd_stream w)"
    using assms(1) row_at_newer [OF ok new] by (auto simp: world_ok_def stream_ok_def)
  moreover have "caught_up db owner scope c0 (wd_stream w)"
    unfolding caught_up_def
  proof (intro ballI impI)
    fix r assume r: "r \<in> set (db_rows db)" "sr_email r = owner_key owner \<and> sr_session_scope r = scope \<and>
      c0 < sr_row_version r \<and> sr_row_version r \<le> st_cursor (wd_stream w)"
    then have "\<not> db_seq (wd_db w) < sr_row_version r" using cur by linarith
    then have "r \<in> set (db_rows (wd_db w))" using new r(1) unfolding newer_than_def by blast
    then show "\<exists>v. st_delivered (wd_stream w) (sr_session_id r) = Some v \<and> sr_row_version r \<le> v"
      using assms(1) r(2) unfolding world_ok_def caught_up_def by blast
  qed
  ultimately show ?thesis
    using assms(1,3) ok' honest_newer [OF ok new] by (simp add: world_ok_def)
qed

lemma world_step_ok:
  assumes "world_step to_char owner scope w w'" "world_ok owner scope c0 w" "0 \<le> c0" "store_scope scope = scope"
  shows "world_ok owner scope c0 w'"
  using assms(1,2)
proof (induction rule: world_step.induct)
  case (change w db)
  then show ?case using world_change by blast
next
  case (publish w owner' sid)
  then show ?case using published_honest [where store = scope, OF _ _ _ assms(4)] by (auto simp: world_ok_def)
next
  case (live p w)
  then have p: "honest (wd_db w) owner scope p" by (simp add: world_ok_def)
  show ?case
  proof (cases "emitSessionRowPayload scope p (wd_stream w) = wd_stream w")
    case True
    then show ?thesis using live by simp
  next
    case False
    then have e: "emitSessionRowPayload scope p (wd_stream w) = deliver (int_dec (wire_version p)) p (wd_stream w)"
        "delivered_at (st_delivered (wd_stream w)) (wire_id p) < wire_version p"
      using emit_honest [OF p] by auto
    have "row_at (wd_db w) owner scope (wire_id p) (wire_version p)" using p by (simp add: honest_def)
    then show ?thesis using live(2) stream_ok_deliver caught_up_deliver e by (simp add: world_ok_def)
  qed
next
  case (page w hasMore n st)
  then show ?case using page_ok [OF page(1) _ _ assms(3)] by (fastforce simp: world_ok_def)
qed

lemma world_run_ok:
  assumes "(world_step to_char owner scope)\<^sup>*\<^sup>* w w'" "world_ok owner scope c0 w" "0 \<le> c0" "store_scope scope = scope"
  shows "world_ok owner scope c0 w'"
  using assms(1,2) by (induction rule: rtranclp_induct) (auto intro: world_step_ok [OF _ _ assms(3,4)])

lemma fold_max_bound: "\<forall>x\<in>set xs. x \<le> b \<Longrightarrow> a \<le> b \<Longrightarrow> fold max xs a \<le> (b :: int)"
  by (induction xs arbitrary: a) auto

lemma fold_max_ge: "x \<in> set xs \<or> x \<le> a \<Longrightarrow> x \<le> fold max xs (a :: int)"
proof (induction xs arbitrary: a)
  case (Cons y ys)
  from Cons.prems have "x \<in> set ys \<or> x \<le> max y a" by auto
  from Cons.IH [OF this] show ?case by simp
qed simp

lemma greatest_or_zero:
  "\<forall>v\<in>set vs. v \<le> b \<Longrightarrow> 0 < (case vs of [] \<Rightarrow> 0 | v # vs \<Rightarrow> fold max vs v) \<Longrightarrow>
     (case vs of [] \<Rightarrow> 0 | v # vs \<Rightarrow> fold max vs v) \<le> (b :: int)"
  "x \<in> set vs \<Longrightarrow> x \<le> (case vs of [] \<Rightarrow> 0 | v # vs \<Rightarrow> fold max vs v)"
  by (cases vs; simp add: fold_max_bound) (cases vs; auto simp: fold_max_ge)

lemma tip_bound:
  assumes "db_ok db" "0 < queryRowVersionTip db owner scope"
  shows "queryRowVersionTip db owner scope \<le> db_seq db"
  using assms(2) unfolding queryRowVersionTip_def
  by (rule greatest_or_zero(1) [rotated]) (use assms(1) in \<open>auto simp: db_ok_def\<close>)

lemma tip_covers:
  assumes "r \<in> set (db_rows db)" "sr_email r = owner" "sr_session_scope r = scope"
  shows "sr_row_version r \<le> queryRowVersionTip db owner scope"
  unfolding queryRowVersionTip_def by (rule greatest_or_zero(2)) (use assms in auto)

lemma open_stream_fields [simp]:
  "st_delivered (open_stream db owner scope c) = Map.empty" "st_frames (open_stream db owner scope c) = []"
  by (simp_all add: open_stream_def Let_def)

lemma open_stream_ok:
  assumes "db_ok db" "wire_ready db" "c \<le> db_seq db"
  shows "world_ok owner scope (st_cursor (open_stream db owner' scope c))
    \<lparr>wd_db = db, wd_published = [], wd_stream = open_stream db owner' scope c\<rparr>"
proof -
  have "st_cursor (open_stream db owner' scope c) \<le> db_seq db"
    using assms tip_bound [OF assms(1), of owner' scope] by (simp add: open_stream_def Let_def)
  then show ?thesis
    using assms by (auto simp: world_ok_def stream_ok_def caught_up_def client_version_def frames_of_def)
qed

section \<open>Properties\<close>



text \<open>
  a row read by the catch-up or heartbeat query is not the row that is published for the same state of the table:
  the query leaves out the counts, the open target and the image, so the object it sends lacks them whatever the
  table holds, while the published object has them.
\<close>

theorem catch_up_drops_columns:
  assumes "MarshalRowUpdate (fetched_record to_char scope db r) = Some drained"
    and "MarshalRowUpdate (record_of_row to_char scope db r) = Some published"
    and "sr_compaction_count r \<noteq> 0" "sr_open_target r \<noteq> []"
  shows "mget (wire_row published) ''compaction_count'' = Some (GInt64 (sr_compaction_count r)) \<and>
    mget (wire_row published) ''open_target'' = Some (GStr (sr_open_target r)) \<and>
    mget (wire_row drained) ''compaction_count'' = None \<and> mget (wire_row drained) ''open_target'' = None"
proof -
  have row: "\<exists>a. wire_row p = rowWireShape rec a" if "MarshalRowUpdate rec = Some p" for rec p
    using that by (cases "activity_map (re_ActivitySummary rec)") (auto simp: MarshalRowUpdate_def wire_row_def)
  obtain a b where "wire_row drained = rowWireShape (fetched_record to_char scope db r) a"
      "wire_row published = rowWireShape (record_of_row to_char scope db r) b"
    using row assms(1,2) by blast
  then show ?thesis
    using assms(3,4) by (simp add: rowWireShape_counts fetched_record_def record_of_row_def)
qed

theorem catch_up_drops_columns_witness:
  "let r = sample_row\<lparr>sr_compaction_count := 3, sr_open_target := ''turns''\<rparr>
   in mget (wire_row (the (MarshalRowUpdate (fetched_record (\<lambda>_. []) ''default'' sample_db r)))) ''compaction_count'' = None"
proof -
  let ?r = "sample_row\<lparr>sr_compaction_count := 3, sr_open_target := ''turns''\<rparr>"
  have "activity_map (sr_activity_summary ?r) = Some None" by (simp add: sample_row_def activity_map_def)
  then obtain d p where "MarshalRowUpdate (fetched_record (\<lambda>_. []) ''default'' sample_db ?r) = Some d"
      "MarshalRowUpdate (record_of_row (\<lambda>_. []) ''default'' sample_db ?r) = Some p"
    by (auto simp: MarshalRowUpdate_def fetched_record_def record_of_row_def)
  then show ?thesis using catch_up_drops_columns [of "\<lambda>_. []" "''default''" sample_db ?r d p] by (simp add: Let_def)
qed

text \<open>
  a stream opened with the cursor 0 skips every row the owner has: after the drain at open it has sent nothing, although a browser
  whose snapshot was empty legitimately asks for everything after 0.
\<close>

theorem zero_cursor_skips_rows:
  assumes "r \<in> set (db_rows db)" "sr_email r = owner" "owner_key owner = owner" "sr_session_scope r = scope" "0 < sr_row_version r"
  shows "st_frames (drain to_char db owner scope (open_stream db owner scope 0)) = []"
proof -
  let ?st = "open_stream db owner scope 0"
  have "sr_row_version q \<le> st_cursor ?st" if "q \<in> set (db_rows db)" "sr_email q = owner" "sr_session_scope q = scope" for q
    using tip_covers [OF that] tip_covers [OF assms(1,2,4)] assms(5) by (simp add: open_stream_def Let_def)
  then have "rows_after db owner scope (st_cursor ?st) = []"
    using assms(3) by (force simp: rows_after_def filter_empty_conv sort_by_def not_less)
  then have "writeSessionRowUpdatesPage to_char db owner scope ?st = (False, 0, ?st)"
    by (simp add: page_unfold)
  then show ?thesis by (simp add: drain.simps)
qed

theorem zero_cursor_skips_rows_witness:
  "st_frames (drain (\<lambda>_. []) sample_db ''u@x'' ''default'' (open_stream sample_db ''u@x'' ''default'' 0)) = []"
proof (rule zero_cursor_skips_rows [of sample_row])
  show "owner_key ''u@x'' = ''u@x''" by code_simp
qed (simp_all add: sample_db_def sample_row_def)

end
