(* ===== verification/Chat_Activity.thy ===== *)
theory Chat_Activity
  imports Row_Writer Session_Registry Session_Events Read_State Session_Activity
begin

text \<open>
  The bridge from chat events to the sidebar (\<^verbatim>\<open>internal/sessioncontroller/chat_activity.go\<close>): after an event has been stored, the
  emitter recomputes the activity summary or one of the counts of the session from the ledger and writes it through the row writer.
  It ties the components together: the ledger, the read cursors, the fold, the registry row and the guarded write. The stores are
  wired as in production; the checker for pending wakes is optional. The theory shows that the counts follow the
  ledger and that repeating a delivery changes nothing, and what a refreshed row may still show.
\<close>

section \<open>Labels\<close>

definition contextCompactedEventType :: string where "contextCompactedEventType = ''context.compacted''"
definition userMessageCreatedEventType :: string where "userMessageCreatedEventType = ''user_message.created''"

fun error_reason_scan :: "gomap list \<Rightarrow> string" where
  "error_reason_scan [] = ''unknown''"
| "error_reason_scan (e # es) =
     (if string_at e ''type'' = ''turn.failed'' then ''turn_failed''
      else if string_at e ''type'' = ''turn.command_failed'' then ''turn_command_failed''
      else error_reason_scan es)"

definition activityErrorReason :: "bool \<Rightarrow> gomap list \<Rightarrow> string" where
  "activityErrorReason failedFromPod folded = (if failedFromPod then ''pod_failed'' else error_reason_scan (rev folded))"

definition compactionProviderLabel :: "gomap \<Rightarrow> string" where
  "compactionProviderLabel event =
     (let source = ToLower (TrimSpace (string_at event ''source''))
      in if source = ''claude'' then ''claude'' else if source = ''codex'' then ''codex'' else ''other'')"

definition compactionTriggerLabel :: "gomap \<Rightarrow> string" where
  "compactionTriggerLabel event =
     (let trigger = (case as_map (mget event ''payload'') of None \<Rightarrow> [] | Some p \<Rightarrow> string_at p ''trigger'');
          trigger = ToLower (TrimSpace trigger)
      in if trigger = ''auto'' then ''auto'' else if trigger = ''manual'' then ''manual'' else ''other'')"

section \<open>Summaries as JSON\<close>

definition opt_json :: "string option \<Rightarrow> goany" where
  "opt_json v = (case v of None \<Rightarrow> GNil | Some s \<Rightarrow> GStr s)"

text \<open>\<^verbatim>\<open>summaryMap\<close>: the summary marshalled and read back into a map, so the count is a \<^verbatim>\<open>float64\<close>.\<close>

definition summary_map :: "ActivitySummary \<Rightarrow> gomap" where
  "summary_map s =
     [(''status'', GStr (as_Status s)), (''active_turn_id'', opt_json (as_ActiveTurnID s)),
      (''needs_input'', GBool (as_NeedsInput s)), (''failed'', GBool (as_Failed s)),
      (''away_error'', GBool (as_AwayError s)), (''last_order_key'', opt_json (as_LastOrderKey s)),
      (''unread_count'', GFloat (of_int (as_UnreadCount s))), (''updated_at'', opt_json (as_UpdatedAt s))]"

text \<open>Decoding a field: absent and \<^verbatim>\<open>null\<close> leave the zero value, another type is an error.\<close>

definition decode_string :: "gomap \<Rightarrow> string \<Rightarrow> string option" where
  "decode_string m k = (case mget m k of None \<Rightarrow> Some [] | Some GNil \<Rightarrow> Some [] | Some (GStr s) \<Rightarrow> Some s | Some _ \<Rightarrow> None)"

definition decode_bool :: "gomap \<Rightarrow> string \<Rightarrow> bool option" where
  "decode_bool m k = (case mget m k of None \<Rightarrow> Some False | Some GNil \<Rightarrow> Some False | Some (GBool b) \<Rightarrow> Some b | Some _ \<Rightarrow> None)"

definition decode_pointer :: "gomap \<Rightarrow> string \<Rightarrow> string option option" where
  "decode_pointer m k =
     (case mget m k of None \<Rightarrow> Some None | Some GNil \<Rightarrow> Some None | Some (GStr s) \<Rightarrow> Some (Some s) | Some _ \<Rightarrow> None)"

definition decode_int :: "gomap \<Rightarrow> string \<Rightarrow> int option" where
  "decode_int m k =
     (case mget m k of
        None \<Rightarrow> Some 0 | Some GNil \<Rightarrow> Some 0
      | Some (GFloat q) \<Rightarrow> if of_int \<lfloor>q\<rfloor> = q \<and> - (2 ^ 63) \<le> q \<and> q < 2 ^ 63 then Some \<lfloor>q\<rfloor> else None
      | Some _ \<Rightarrow> None)"

definition decode_summary :: "gomap \<Rightarrow> ActivitySummary option" where
  "decode_summary m =
     (case (decode_string m ''status'', decode_pointer m ''active_turn_id'', decode_bool m ''needs_input'',
            decode_bool m ''failed'', decode_bool m ''away_error'', decode_pointer m ''last_order_key'',
            decode_int m ''unread_count'', decode_pointer m ''updated_at'') of
        (Some status, Some turn, Some input, Some failed, Some away, Some key, Some unread, Some updated) \<Rightarrow>
          Some \<lparr>as_Status = status, as_ActiveTurnID = turn, as_NeedsInput = input, as_Failed = failed,
                as_AwayError = away, as_LastOrderKey = key, as_UnreadCount = unread, as_UpdatedAt = updated\<rparr>
      | _ \<Rightarrow> None)"

definition parse_summary :: "goany \<Rightarrow> ActivitySummary option" where
  "parse_summary v = (case v of GMap m \<Rightarrow> decode_summary m | GNil \<Rightarrow> Some (zero_summary []) | _ \<Rightarrow> None)"

section \<open>Adjustments after the fold\<close>

definition resolveStoppingActivityFromTerminal ::
  "(string \<Rightarrow> string \<Rightarrow> bool) \<Rightarrow> string \<Rightarrow> ledger \<Rightarrow> string \<Rightarrow> ActivitySummary \<Rightarrow> ActivitySummary \<times> bool" where
  "resolveStoppingActivityFromTerminal le scope L publicID s =
     (case as_ActiveTurnID s of
        None \<Rightarrow> (s, False)
      | Some turn \<Rightarrow>
          if as_Status s \<noteq> ''stopping'' \<or> TrimSpace turn = [] then (s, False)
          else case FindTurnTerminal le scope L publicID (TrimSpace turn) of
                 None \<Rightarrow> (s, False)
               | Some terminal \<Rightarrow>
                   (let ty = trimmed_at terminal ''type'';
                        settle = (\<lambda>status failed. (s\<lparr>as_Status := status, as_Failed := failed, as_ActiveTurnID := None,
                                                     as_NeedsInput := False\<rparr>, True))
                    in if ty = ''turn.completed'' then settle ''ready'' False
                       else if ty = ''turn.failed'' \<or> ty = ''turn.command_failed'' then settle ''error'' True
                       else if ty = ''turn.interrupted'' then settle ''stopped'' False
                       else (s, False)))"

type_synonym wake_checker = "(string \<Rightarrow> string \<Rightarrow> bool) option"

definition has_wake :: "wake_checker \<Rightarrow> string \<Rightarrow> string \<Rightarrow> bool" where
  "has_wake wakes scope sid = (case wakes of None \<Rightarrow> False | Some f \<Rightarrow> f scope sid)"

definition applyScheduledWakeOverride :: "wake_checker \<Rightarrow> string \<Rightarrow> string \<Rightarrow> ActivitySummary \<Rightarrow> bool \<Rightarrow> ActivitySummary" where
  "applyScheduledWakeOverride wakes scope publicID s backgroundWorkPending =
     (if as_Status s \<noteq> ''ready'' \<and> as_Status s \<noteq> ''scheduled'' then s
      else let waiting = (backgroundWorkPending \<or> has_wake wakes scope publicID)
           in if waiting \<and> as_Status s = ''ready'' then s\<lparr>as_Status := ''scheduled''\<rparr>
              else if \<not> waiting \<and> as_Status s = ''scheduled'' then s\<lparr>as_Status := ''ready''\<rparr>
              else s)"

section \<open>The emitter\<close>

record ChatActivityEmitter =
  em_Writer :: RowWriter
  em_Wakes :: wake_checker
  em_Scope :: string

datatype emitter_metric =
    RecordActivityDelta bool
  | RecordActivityFailure
  | RecordActivityErrorTransition string
  | RecordActivityLateInterruptIgnored string
  | RecordCompaction string string

text \<open>The stores the emitter reads, besides the table of sessions, and the environment of its writes.\<close>

record stores =
  so_events :: ledger
  so_reads :: read_state_table
  so_le :: "string \<Rightarrow> string \<Rightarrow> bool"
  so_render :: "goany \<Rightarrow> string"
  so_to_char :: "int \<Rightarrow> string"
  so_env :: writer_env
  so_now_text :: string

record emit_result =
  ea_failed :: bool
  ea_db :: sessions_db
  ea_metrics :: "emitter_metric list"
  ea_published :: "(string \<times> string) list"

definition no_emit :: "sessions_db \<Rightarrow> emitter_metric list \<Rightarrow> emit_result" where
  "no_emit db ms = \<lparr>ea_failed = False, ea_db = db, ea_metrics = ms, ea_published = []\<rparr>"

definition emitter_event :: "ChatActivityEmitter \<Rightarrow> stores \<Rightarrow> string \<Rightarrow> string \<Rightarrow> string \<Rightarrow> gomap \<Rightarrow> Event" where
  "emitter_event e so owner publicID ty payload =
     \<lparr>ev_Email = owner, ev_SessionScope = em_Scope e, ev_SessionID = publicID, ev_Type = ty,
      ev_OccurredAt = so_now_text so, ev_Payload = Some payload\<rparr>"

definition write_transition ::
  "ChatActivityEmitter \<Rightarrow> stores \<Rightarrow> sessions_db \<Rightarrow> Event \<Rightarrow> emitter_metric list \<Rightarrow> (TransitionOutcome \<Rightarrow> emitter_metric list) \<Rightarrow> emit_result" where
  "write_transition e so db event ms after =
     (let res = RecordTransition (so_le so) (so_render so) (em_Writer e) (so_env so) event db
      in case tr_outcome res of
           Inl _ \<Rightarrow> \<lparr>ea_failed = True, ea_db = tr_db res, ea_metrics = ms @ [RecordActivityFailure], ea_published = tr_published res\<rparr>
         | Inr out \<Rightarrow> \<lparr>ea_failed = False, ea_db = tr_db res, ea_metrics = ms @ after out, ea_published = tr_published res\<rparr>)"

definition refreshCompactionCount ::
  "ChatActivityEmitter \<Rightarrow> stores \<Rightarrow> sessions_db \<Rightarrow> string \<Rightarrow> string \<Rightarrow> gomap \<Rightarrow> emit_result" where
  "refreshCompactionCount e so db owner publicID event =
     (let count = int (CountContextCompactions (em_Scope e) (so_events so) publicID)
      in case registry_Get (so_to_char so) (em_Scope e) db owner publicID of
           None \<Rightarrow> no_emit db []
         | Some rec \<Rightarrow>
             (let prior = re_CompactionCount rec
              in if 0 \<le> prior \<and> count \<le> prior then no_emit db []
                 else write_transition e so db
                        (emitter_event e so owner publicID EventTypeCompactionChanged [(''compaction_count'', GInt64 count)]) []
                        (\<lambda>out. if out = TransitionNoOp then []
                               else [RecordCompaction (compactionProviderLabel event) (compactionTriggerLabel event)])))"

definition refreshUserMessageCount ::
  "ChatActivityEmitter \<Rightarrow> stores \<Rightarrow> sessions_db \<Rightarrow> string \<Rightarrow> string \<Rightarrow> emit_result" where
  "refreshUserMessageCount e so db owner publicID =
     (let count = int (CountUserMessages (em_Scope e) (so_events so) publicID)
      in case registry_Get (so_to_char so) (em_Scope e) db owner publicID of
           None \<Rightarrow> no_emit db []
         | Some rec \<Rightarrow>
             (let prior = re_UserMessageCount rec
              in if 0 \<le> prior \<and> count \<le> prior then no_emit db []
                 else write_transition e so db
                        (emitter_event e so owner publicID EventTypeUserMessageCountChanged [(''user_message_count'', GInt64 count)]) []
                        (\<lambda>out. [])))"

text \<open>The summary that a refresh computes, with the statuses it reports as late.\<close>

definition next_summary ::
  "ChatActivityEmitter \<Rightarrow> stores \<Rightarrow> string \<Rightarrow> string \<Rightarrow> ActivitySummary option \<Rightarrow> bool \<Rightarrow> ActivitySummary \<times> string list" where
  "next_summary e so owner publicID prior failedFromPod =
     (let scope = em_Scope e; L = so_events so; le = so_le so;
          folded = LatestLifecycleEvents le scope L publicID 50;
          readOrderKey = (case pg_Get scope (so_reads so) owner publicID of None \<Rightarrow> [] | Some rs \<Rightarrow> rs_LastReadOrderKey rs);
          unread = int (UnreadOutputCount le (so_render so) scope L publicID readOrderKey);
          (s, stats) = DeriveActivitySummaryWithStats prior folded unread failedFromPod;
          (s', resolved) = resolveStoppingActivityFromTerminal le scope L publicID s
      in (applyScheduledWakeOverride (em_Wakes e) scope publicID s' (st_BackgroundWorkPending stats),
          st_LateInterruptIgnoredStatuses stats @ (if resolved then [as_Status s'] else [])))"

definition RefreshSessionActivity ::
  "ChatActivityEmitter \<Rightarrow> stores \<Rightarrow> sessions_db \<Rightarrow> string \<Rightarrow> string \<Rightarrow> emit_result" where
  "RefreshSessionActivity e so db owner publicID =
     (let owner = owner_key owner; publicID = TrimSpace publicID
      in if owner = [] \<or> publicID = [] then no_emit db []
         else case registry_Get (so_to_char so) (em_Scope e) db owner publicID of
                None \<Rightarrow> no_emit db []
              | Some rec \<Rightarrow>
                  (let prior = (case re_ActivitySummary rec of None \<Rightarrow> None | Some v \<Rightarrow> parse_summary v);
                       failedFromPod = (re_Status rec = ''Failed'');
                       folded = LatestLifecycleEvents (so_le so) (em_Scope e) (so_events so) publicID 50;
                       (s, late) = next_summary e so owner publicID prior failedFromPod;
                       ms = map RecordActivityLateInterruptIgnored late
                   in if (case prior of None \<Rightarrow> False | Some p \<Rightarrow> ActivitySummariesEqual p s)
                      then no_emit db (ms @ [RecordActivityDelta False])
                      else (let errors = (if as_Status s = ''error'' \<and> \<not> (case prior of None \<Rightarrow> False | Some p \<Rightarrow> as_Status p = ''error'')
                                          then [RecordActivityErrorTransition (activityErrorReason failedFromPod folded)] else [])
                            in write_transition e so db (emitter_event e so owner publicID EventTypeActivityChanged (summary_map s))
                                 (ms @ errors) (\<lambda>out. [RecordActivityDelta True]))))"

definition EmitChatActivityDelta :: "ChatActivityEmitter \<Rightarrow> stores \<Rightarrow> sessions_db \<Rightarrow> gomap \<Rightarrow> emit_result" where
  "EmitChatActivityDelta e so db event =
     (case ChatActivityDeltaClass (string_at event ''type'') of
        None \<Rightarrow> no_emit db []
      | Some cls \<Rightarrow>
          (let storageKey = string_at event ''tank_session_id'';
               publicID = string_at event ''session_id'';
               publicID = (if publicID = [] then TrimSpace (TrimPrefix storageKey (em_Scope e @ '':'')) else publicID)
           in if publicID = [] then no_emit db []
              else let owner = OwnerForSession (em_Scope e) db (em_Scope e) publicID
                   in if owner = [] then no_emit db []
                      else case cls of
                             ActivityClassCompaction \<Rightarrow> refreshCompactionCount e so db owner publicID event
                           | ActivityClassUserMessage \<Rightarrow> refreshUserMessageCount e so db owner publicID
                           | ActivityClassLifecycle \<Rightarrow> RefreshSessionActivity e so db owner publicID))"

section \<open>Reading and writing the row\<close>

text \<open>A call for a session that exists, with the addresses as the registry keeps them, whose write reaches the database.\<close>

definition wired :: "ChatActivityEmitter \<Rightarrow> stores \<Rightarrow> sessions_db \<Rightarrow> string \<Rightarrow> string \<Rightarrow> session_row \<Rightarrow> bool" where
  "wired e so db owner sid r \<longleftrightarrow>
     db_ok db \<and> find_session db owner (em_Scope e) sid = Some r \<and> owner_key owner = owner \<and> owner \<noteq> [] \<and>
     TrimSpace sid = sid \<and> sid \<noteq> [] \<and> store_scope (em_Scope e) = em_Scope e \<and>
     rw_has_pool (em_Writer e) \<and> \<not> we_exec_fails (so_env so)"

lemma wired_get:
  "wired e so db owner sid r \<Longrightarrow>
   registry_Get to_char (em_Scope e) db owner sid = Some (record_of_row to_char (em_Scope e) db r)"
  by (simp add: wired_def registry_Get_def)

lemma wired_write:
  assumes "wired e so db owner sid r" "writes (em_Writer e) (so_env so) (emitter_event e so owner sid ty p) = Some c"
  shows "write_transition e so db (emitter_event e so owner sid ty p) ms after =
    \<lparr>ea_failed = False, ea_db = tr_db (RecordTransition (so_le so) (so_render so) (em_Writer e) (so_env so) (emitter_event e so owner sid ty p) db),
     ea_metrics = ms @ after TransitionEmitted, ea_published = [(owner, sid)]\<rparr>"
proof -
  let ?ev = "emitter_event e so owner sid ty p"
  obtain c' where c': "deriveRowColumnChanges (we_now (so_env so)) ?ev = Some c'" "\<not> set_parts_empty c'"
    using assms(2) derived_nonempty by (force simp: writes_def split: option.splits if_splits)
  then show ?thesis using assms(1)
    by (simp add: write_transition_def RecordTransition_def wired_def applyRowColumnChanges_def Let_def emitter_event_def)
qed

lemma wired_row_after:
  assumes "wired e so db owner sid r" "writes (em_Writer e) (so_env so) (emitter_event e so owner sid ty p) = Some c"
    and "db' = tr_db (RecordTransition (so_le so) (so_render so) (em_Writer e) (so_env so) (emitter_event e so owner sid ty p) db)"
  shows "wired e so db' owner sid (touched_row (so_le so) (so_render so) (so_env so) (emitter_event e so owner sid ty p) c (db_seq db + 1) r)"
  using assms db_ok_transition [of db] by (simp add: wired_def find_session_transition)

lemma wired_is_row: "wired e so db owner sid r \<Longrightarrow> is_row owner (em_Scope e) sid r"
  using find_hit by (fastforce simp: wired_def find_session_def)

section \<open>The counts\<close>

lemma count_writes:
  "writes (em_Writer e) (so_env so) (emitter_event e so owner sid EventTypeCompactionChanged [(''compaction_count'', GInt64 n)]) =
     (if rw_has_pool (em_Writer e) \<and> \<not> we_exec_fails (so_env so) then Some (no_changes\<lparr>cc_compactionCount := Some n\<rparr>) else None)"
  "writes (em_Writer e) (so_env so) (emitter_event e so owner sid EventTypeUserMessageCountChanged [(''user_message_count'', GInt64 n)]) =
     (if rw_has_pool (em_Writer e) \<and> \<not> we_exec_fails (so_env so) then Some (no_changes\<lparr>cc_userMessageCount := Some n\<rparr>) else None)"
  by (simp_all add: writes_def deriveRowColumnChanges_def emitter_event_def compactionCountFromPayload_def
      userMessageCountFromPayload_def payload_at_def event_types)

lemma count_rows:
  assumes "is_row owner (em_Scope e) sid r"
  shows "sr_compaction_count (touched_row le render env (emitter_event e so owner sid ty p) (no_changes\<lparr>cc_compactionCount := Some n\<rparr>) v r) = n"
    and "sr_user_message_count (touched_row le render env (emitter_event e so owner sid ty p) (no_changes\<lparr>cc_userMessageCount := Some n\<rparr>) v r) = n"
  using assms by (simp_all add: hits_def write_allowed_def emitter_event_def no_changes_def set_columns_def)

lemma re_counts [simp]:
  "re_CompactionCount (record_of_row to_char scope db r) = sr_compaction_count r"
  "re_UserMessageCount (record_of_row to_char scope db r) = sr_user_message_count r"
  "re_ActivitySummary (record_of_row to_char scope db r) = sr_activity_summary r"
  "re_Status (record_of_row to_char scope db r) = sr_status r"
  by (simp_all add: record_of_row_def)

lemma refreshCompactionCount_row:
  assumes "wired e so db owner sid r" "0 \<le> sr_compaction_count r"
    and "count = int (CountContextCompactions (em_Scope e) (so_events so) sid)"
    and "res = refreshCompactionCount e so db owner sid event"
  shows "\<not> ea_failed res \<and> (\<exists>r'. wired e so (ea_db res) owner sid r' \<and> sr_compaction_count r' = max (sr_compaction_count r) count) \<and>
    (count \<le> sr_compaction_count r \<longrightarrow> res = no_emit db [])"
proof (cases "count \<le> sr_compaction_count r")
  case True
  then show ?thesis using assms by (auto simp: refreshCompactionCount_def wired_get no_emit_def)
next
  case False
  let ?ty = EventTypeCompactionChanged and ?p = "[(''compaction_count'', GInt64 count)]"
  have w: "writes (em_Writer e) (so_env so) (emitter_event e so owner sid ?ty ?p) = Some (no_changes\<lparr>cc_compactionCount := Some count\<rparr>)"
    using assms(1) by (simp add: count_writes wired_def)
  have "res = write_transition e so db (emitter_event e so owner sid ?ty ?p) []
      (\<lambda>out. if out = TransitionNoOp then [] else [RecordCompaction (compactionProviderLabel event) (compactionTriggerLabel event)])"
    using False assms by (simp add: refreshCompactionCount_def wired_get [OF assms(1)])
  then show ?thesis
    using wired_write [OF assms(1) w] wired_row_after [OF assms(1) w refl] count_rows(1) [OF wired_is_row [OF assms(1)]] False by auto
qed

lemma refreshUserMessageCount_row:
  assumes "wired e so db owner sid r" "0 \<le> sr_user_message_count r"
    and "count = int (CountUserMessages (em_Scope e) (so_events so) sid)"
    and "res = refreshUserMessageCount e so db owner sid"
  shows "\<not> ea_failed res \<and> (\<exists>r'. wired e so (ea_db res) owner sid r' \<and> sr_user_message_count r' = max (sr_user_message_count r) count) \<and>
    (count \<le> sr_user_message_count r \<longrightarrow> res = no_emit db [])"
proof (cases "count \<le> sr_user_message_count r")
  case True
  then show ?thesis using assms by (auto simp: refreshUserMessageCount_def wired_get no_emit_def)
next
  case False
  let ?ty = EventTypeUserMessageCountChanged and ?p = "[(''user_message_count'', GInt64 count)]"
  have w: "writes (em_Writer e) (so_env so) (emitter_event e so owner sid ?ty ?p) = Some (no_changes\<lparr>cc_userMessageCount := Some count\<rparr>)"
    using assms(1) by (simp add: count_writes wired_def)
  have "res = write_transition e so db (emitter_event e so owner sid ?ty ?p) [] (\<lambda>out. [])"
    using False assms by (simp add: refreshUserMessageCount_def wired_get [OF assms(1)])
  then show ?thesis
    using wired_write [OF assms(1) w] wired_row_after [OF assms(1) w refl] count_rows(2) [OF wired_is_row [OF assms(1)]] False by auto
qed

text \<open>
  after a refresh the compaction count and the user message count of the row are the number of such events in the ledger, unless
  the row already had more; and delivering the same event again, with the ledger unchanged, writes nothing, publishes nothing and
  counts nothing.
\<close>

theorem counts_follow_ledger:
  assumes "wired e so db owner sid r" "0 \<le> sr_compaction_count r" "0 \<le> sr_user_message_count r"
    and "c = refreshCompactionCount e so db owner sid event" "u = refreshUserMessageCount e so db owner sid"
  shows "(\<exists>r'. find_session (ea_db c) owner (em_Scope e) sid = Some r' \<and>
      sr_compaction_count r' = max (sr_compaction_count r) (int (CountContextCompactions (em_Scope e) (so_events so) sid))) \<and>
    (\<exists>r'. find_session (ea_db u) owner (em_Scope e) sid = Some r' \<and>
      sr_user_message_count r' = max (sr_user_message_count r) (int (CountUserMessages (em_Scope e) (so_events so) sid))) \<and>
    refreshCompactionCount e so (ea_db c) owner sid event = no_emit (ea_db c) [] \<and>
    refreshUserMessageCount e so (ea_db u) owner sid = no_emit (ea_db u) []"
proof -
  obtain r' where r': "wired e so (ea_db c) owner sid r'"
      "sr_compaction_count r' = max (sr_compaction_count r) (int (CountContextCompactions (em_Scope e) (so_events so) sid))"
    using refreshCompactionCount_row [OF assms(1,2) refl assms(4)] by blast
  obtain q where q: "wired e so (ea_db u) owner sid q"
      "sr_user_message_count q = max (sr_user_message_count r) (int (CountUserMessages (em_Scope e) (so_events so) sid))"
    using refreshUserMessageCount_row [OF assms(1,3) refl assms(5)] by blast
  have "refreshCompactionCount e so (ea_db c) owner sid event = no_emit (ea_db c) []"
    using refreshCompactionCount_row [OF r'(1) _ refl refl, of event] r'(2) assms(2) by auto
  moreover have "refreshUserMessageCount e so (ea_db u) owner sid = no_emit (ea_db u) []"
    using refreshUserMessageCount_row [OF q(1) _ refl refl] q(2) assms(3) by auto
  ultimately show ?thesis using r' q by (auto simp: wired_def)
qed

definition sample_emitter :: ChatActivityEmitter where
  "sample_emitter = \<lparr>em_Writer = \<lparr>rw_has_pool = True\<rparr>, em_Wakes = None, em_Scope = ''default''\<rparr>"

definition sample_stores :: stores where
  "sample_stores = \<lparr>so_events = [], so_reads = [], so_le = byte_le, so_render = (\<lambda>_. []), so_to_char = (\<lambda>_. []),
     so_env = sample_env, so_now_text = []\<rparr>"

lemma sample_wired: "wired sample_emitter sample_stores sample_db ''u@x'' ''7'' sample_row"
proof -
  have "owner_key ''u@x'' = ''u@x''" "TrimSpace ''7'' = ''7''" "store_scope ''default'' = ''default''" by code_simp+
  then show ?thesis
    using sample_db_ok sample_find by (simp add: wired_def sample_emitter_def sample_stores_def sample_env_def)
qed

theorem counts_follow_ledger_witness:
  "refreshUserMessageCount sample_emitter sample_stores
     (ea_db (refreshUserMessageCount sample_emitter sample_stores sample_db ''u@x'' ''7'')) ''u@x'' ''7'' =
   no_emit (ea_db (refreshUserMessageCount sample_emitter sample_stores sample_db ''u@x'' ''7'')) []"
  using counts_follow_ledger [OF sample_wired _ _ refl refl] by (simp add: sample_row_def)

lemma wired_count:
  assumes "wired e so db owner sid r"
  shows "\<exists>r'. wired e so (tr_db (RecordTransition (so_le so) (so_render so) (em_Writer e) (so_env so)
      (emitter_event e so owner sid EventTypeCompactionChanged [(''compaction_count'', GInt64 n)]) db)) owner sid r' \<and>
    sr_compaction_count r' = n"
proof -
  have w: "writes (em_Writer e) (so_env so) (emitter_event e so owner sid EventTypeCompactionChanged [(''compaction_count'', GInt64 n)]) =
      Some (no_changes\<lparr>cc_compactionCount := Some n\<rparr>)"
    using assms by (simp add: count_writes wired_def)
  show ?thesis using wired_row_after [OF assms w refl] count_rows(1) [OF wired_is_row [OF assms]] by blast
qed

text \<open>
  the writes of the counts carry no guard: when two refreshes of one session have read the same row and the one that
  counted fewer events writes last, the row ends with the smaller count.
\<close>

theorem late_count_write_wins:
  assumes "wired e so db owner sid r" "n < m"
    and "fewer = emitter_event e so owner sid EventTypeCompactionChanged [(''compaction_count'', GInt64 n)]"
    and "most = emitter_event e so owner sid EventTypeCompactionChanged [(''compaction_count'', GInt64 m)]"
    and "db' = transitions (so_le so) (so_render so) (em_Writer e) [(so_env so, most), (so_env so, fewer)] db"
  shows "\<exists>r'. find_session db' owner (em_Scope e) sid = Some r' \<and> sr_compaction_count r' = n"
proof -
  let ?do = "\<lambda>ev db. tr_db (RecordTransition (so_le so) (so_render so) (em_Writer e) (so_env so) ev db)"
  obtain r1 where "wired e so (?do most db) owner sid r1" using wired_count [OF assms(1)] unfolding assms(4) by blast
  from wired_count [OF this, of n] obtain r2
    where "wired e so (?do fewer (?do most db)) owner sid r2" "sr_compaction_count r2 = n" unfolding assms(3) by blast
  then show ?thesis unfolding assms(5) by (auto simp: wired_def)
qed

theorem late_count_write_wins_witness:
  "\<exists>r'. find_session (transitions byte_le (\<lambda>_. []) \<lparr>rw_has_pool = True\<rparr>
      [(sample_env, emitter_event sample_emitter sample_stores ''u@x'' ''7'' EventTypeCompactionChanged [(''compaction_count'', GInt64 2)]),
       (sample_env, emitter_event sample_emitter sample_stores ''u@x'' ''7'' EventTypeCompactionChanged [(''compaction_count'', GInt64 1)])]
      sample_db) ''u@x'' ''default'' ''7'' = Some r' \<and> sr_compaction_count r' = 1"
  using late_count_write_wins [OF sample_wired, of 1 2] by (simp add: sample_emitter_def sample_stores_def)

section \<open>What a refreshed row shows\<close>

lemma decode_summary_map:
  assumes "- (2 ^ 63) \<le> as_UnreadCount s" "as_UnreadCount s < 2 ^ 63"
  shows "parse_summary (marshal_payload (Some (summary_map s))) = Some s"
proof -
  have "(- (2 ^ 63) :: rat) \<le> of_int (as_UnreadCount s) \<and> of_int (as_UnreadCount s) < (2 ^ 63 :: rat)"
    using of_int_le_iff [where 'a = rat, of "- (2 ^ 63)" "as_UnreadCount s"] of_int_less_iff [where 'a = rat, of "as_UnreadCount s" "2 ^ 63"] assms
    by simp
  then show ?thesis
    by (cases "as_ActiveTurnID s"; cases "as_LastOrderKey s"; cases "as_UpdatedAt s")
      (simp_all add: parse_summary_def marshal_payload_def decode_summary_def summary_map_def decode_string_def decode_bool_def
        decode_pointer_def decode_int_def opt_json_def)
qed

lemma if_None_Some: "(if b then None else x) = Some y \<Longrightarrow> x = Some y"
  by (simp split: if_splits)

lemma last_row_in: "last_row rs = Some q \<Longrightarrow> q \<in> set rs"
  by (auto simp: last_row_def split: if_splits)

lemma FindTurnTerminal_type:
  assumes "collation le" "ledger_reach L" "FindTurnTerminal le scope L sid turn = Some doc"
  shows "trimmed_at doc ''type'' \<in> {''turn.completed'', ''turn.failed'', ''turn.command_failed'', ''turn.interrupted''}"
proof -
  let ?T = "map event_wire [EventTurnCompleted, EventTurnFailed, EventTurnCommandFailed, EventTurnInterrupted]"
  let ?rows = "rows_asc le (SessionStorageKey scope sid) (\<lambda>r. er_turn_id r = Some turn \<and> type_in ?T r) L"
  have "(case last_row ?rows of None \<Rightarrow> None | Some r \<Rightarrow> decodeStoredSessionEvent (er_payload r) sid) = Some doc"
    using assms(3) unfolding FindTurnTerminal_def by (rule if_None_Some)
  then obtain q where "last_row ?rows = Some q" and dec: "decodeStoredSessionEvent (er_payload q) sid = Some doc"
    by (cases "last_row ?rows") simp_all
  then have "q \<in> set ?rows" by (intro last_row_in)
  then have q: "q \<in> set L" "type_in ?T q" unfolding collation.set_rows_asc [OF assms(1)] by simp_all
  then have "row_ok q" using reachable_ledger_ok [OF assms(2)] by (simp add: ledger_ok_def)
  then have "string_at doc ''type'' \<in> set ?T"
    using dec q(2) by (auto simp: decode_row_ok row_doc_def type_in_def row_ok_def event_type_of_def)
  then show ?thesis
    by (auto simp: trimmed_at_def TrimSpace_visible visible_def byte_of_def)
qed

lemma resolve_settles:
  assumes "collation le" "ledger_reach L" "resolveStoppingActivityFromTerminal le scope L sid s = (s', resolved)"
    and "as_Status s' = ''stopping''" "as_ActiveTurnID s' = Some turn" "TrimSpace turn \<noteq> []"
  shows "FindTurnTerminal le scope L sid (TrimSpace turn) = None"
proof (rule ccontr)
  assume "FindTurnTerminal le scope L sid (TrimSpace turn) \<noteq> None"
  then obtain doc where doc: "FindTurnTerminal le scope L sid (TrimSpace turn) = Some doc" by blast
  have same: "as_Status s = ''stopping''" "as_ActiveTurnID s = Some turn" using assms(3-5)
    by (auto simp: resolveStoppingActivityFromTerminal_def Let_def split: option.splits if_splits)
  have "as_ActiveTurnID (fst (resolveStoppingActivityFromTerminal le scope L sid s)) = None"
    using same assms(6) doc FindTurnTerminal_type [OF assms(1,2) doc]
    by (auto simp: resolveStoppingActivityFromTerminal_def Let_def)
  then show False using assms(3,5) by simp
qed

lemma override_status:
  assumes "t = applyScheduledWakeOverride wakes scope sid s bg"
  shows "as_Status t = ''ready'' \<Longrightarrow> \<not> has_wake wakes scope sid"
    and "as_Status t = ''stopping'' \<Longrightarrow> t = s"
    and "as_UnreadCount t = as_UnreadCount s"
  using assms by (auto simp: applyScheduledWakeOverride_def Let_def split: if_splits)

lemma next_summary_settles:
  assumes "collation (so_le so)" "ledger_reach (so_events so)" "next_summary e so owner sid prior failed = (s, late)"
  shows "as_Status s = ''ready'' \<Longrightarrow> \<not> has_wake (em_Wakes e) (em_Scope e) sid"
    and "as_Status s = ''stopping'' \<Longrightarrow> as_ActiveTurnID s = Some turn \<Longrightarrow> TrimSpace turn \<noteq> [] \<Longrightarrow>
      FindTurnTerminal (so_le so) (em_Scope e) (so_events so) sid (TrimSpace turn) = None"
    and "parse_summary (marshal_payload (Some (summary_map s))) = Some s"
proof -
  let ?le = "so_le so" and ?L = "so_events so" and ?scope = "em_Scope e"
  define key where "key = (case pg_Get ?scope (so_reads so) owner sid of None \<Rightarrow> [] | Some rs \<Rightarrow> rs_LastReadOrderKey rs)"
  define unread where "unread = UnreadOutputCount ?le (so_render so) ?scope ?L sid key"
  obtain s0 stats where d: "DeriveActivitySummaryWithStats prior (LatestLifecycleEvents ?le ?scope ?L sid 50) (int unread) failed = (s0, stats)"
    by force
  obtain s1 resolved where r: "resolveStoppingActivityFromTerminal ?le ?scope ?L sid s0 = (s1, resolved)" by force
  have s: "s = applyScheduledWakeOverride (em_Wakes e) ?scope sid s1 (st_BackgroundWorkPending stats)"
    using assms(3) d r by (simp add: next_summary_def Let_def key_def unread_def)
  show "as_Status s = ''ready'' \<Longrightarrow> \<not> has_wake (em_Wakes e) (em_Scope e) sid" by (rule override_status(1) [OF s])
  show "as_Status s = ''stopping'' \<Longrightarrow> as_ActiveTurnID s = Some turn \<Longrightarrow> TrimSpace turn \<noteq> [] \<Longrightarrow>
      FindTurnTerminal (so_le so) (em_Scope e) (so_events so) sid (TrimSpace turn) = None"
    using override_status(2) [OF s] resolve_settles [OF assms(1,2) r] by metis
  have "as_UnreadCount s0 = int unread"
    using d by (auto simp: DeriveActivitySummaryWithStats_def fold_finish_def Let_def)
  moreover have "as_UnreadCount s1 = as_UnreadCount s0"
    using r by (auto simp: resolveStoppingActivityFromTerminal_def Let_def split: option.splits if_splits)
  ultimately have "as_UnreadCount s = int unread" using override_status(3) [OF s] by simp
  moreover have "unread \<le> 2 * unreadScanCap"
    using countDistinctField_le unfolding unread_def UnreadOutputCount_def Let_def by (metis add_mono mult_2)
  ultimately show "parse_summary (marshal_payload (Some (summary_map s))) = Some s"
    by (intro decode_summary_map) (simp_all add: unreadScanCap_def)
qed

text \<open>
  C12: a refresh settles the sidebar. After it, the stored summary, unless a summary of a later ledger position was already there, shows
  the session as ready only if no wake is pending, and as stopping a turn only if the ledger holds no terminal
  of that turn: a stop request that arrived after the end of its turn does not hang, and a parked session does not summon its
  owner.
\<close>

theorem refresh_settles:
  assumes "wired e so db owner sid r" "collation (so_le so)" "ledger_reach (so_events so)"
    and "res = RefreshSessionActivity e so db owner sid"
  shows "\<exists>r'. find_session (ea_db res) owner (em_Scope e) sid = Some r' \<and>
    ((\<exists>v s. sr_activity_summary r' = Some v \<and> parse_summary v = Some s \<and>
        (as_Status s = ''ready'' \<longrightarrow> \<not> has_wake (em_Wakes e) (em_Scope e) sid) \<and>
        (\<forall>turn. as_Status s = ''stopping'' \<and> as_ActiveTurnID s = Some turn \<and> TrimSpace turn \<noteq> [] \<longrightarrow>
           FindTurnTerminal (so_le so) (em_Scope e) (so_events so) sid (TrimSpace turn) = None)) \<or>
     (\<exists>v s late. r' = r \<and> sr_activity_summary r = Some v \<and>
        next_summary e so owner sid (parse_summary v) (sr_status r = ''Failed'') = (s, late) \<and>
        \<not> so_le so (summary_key (so_render so) v) (coalesce_empty (as_LastOrderKey s))))"
proof -
  define prior where "prior = (case sr_activity_summary r of None \<Rightarrow> None | Some v \<Rightarrow> parse_summary v)"
  obtain s late where n: "next_summary e so owner sid prior (sr_status r = ''Failed'') = (s, late)" by force
  note settles = next_summary_settles [OF assms(2,3) n]
  have w: "owner_key owner = owner" "owner \<noteq> []" "TrimSpace sid = sid" "sid \<noteq> []" "db_ok db"
      "find_session db owner (em_Scope e) sid = Some r"
    using assms(1) by (auto simp: wired_def)
  show ?thesis
  proof (cases "case prior of None \<Rightarrow> False | Some p \<Rightarrow> ActivitySummariesEqual p s")
    case True
    then obtain p v where p: "prior = Some p" "ActivitySummariesEqual p s" "sr_activity_summary r = Some v" "parse_summary v = Some p"
      by (auto simp: prior_def split: option.splits)
    have "ea_db res = db"
      using True n w assms(4) wired_get [OF assms(1)] unfolding prior_def
      by (simp add: RefreshSessionActivity_def Let_def no_emit_def)
    moreover have "as_Status p = as_Status s" "as_ActiveTurnID p = as_ActiveTurnID s"
      using p(2) by (auto simp: ActivitySummariesEqual_def split: if_splits)
    ultimately show ?thesis using p w(6) settles by auto
  next
    case False
    let ?ev = "emitter_event e so owner sid EventTypeActivityChanged (summary_map s)"
    have key: "event_key ?ev = coalesce_empty (as_LastOrderKey s)"
      by (cases "as_LastOrderKey s") (simp_all add: event_key_def emitter_event_def payload_at_def summary_map_def opt_json_def coalesce_empty_def)
    have "\<exists>ms. res = write_transition e so db ?ev ms (\<lambda>out. [RecordActivityDelta True])"
      using False n w assms(4) wired_get [OF assms(1)] unfolding prior_def
      by (auto simp: RefreshSessionActivity_def Let_def)
    moreover have wr: "writes (em_Writer e) (so_env so) ?ev \<noteq> None"
      using assms(1) by (simp add: writes_activity wired_def emitter_event_def)
    ultimately have db': "ea_db res = tr_db (RecordTransition (so_le so) (so_render so) (em_Writer e) (so_env so) ?ev db)"
      using wired_write [OF assms(1)] by auto
    have offer: "summary_offer (em_Writer e) owner (em_Scope e) sid (so_env so, ?ev) \<noteq> None"
      using assms(1) by (simp add: summary_offer_def emitter_event_def wired_def)
    obtain r' where r': "find_session (ea_db res) owner (em_Scope e) sid = Some r'" "sr_activity_summary r' =
        (if case sr_activity_summary r of None \<Rightarrow> True | Some v \<Rightarrow> so_le so (summary_key (so_render so) v) (event_key ?ev)
         then Some (marshal_payload (ev_Payload ?ev)) else sr_activity_summary r)"
      using summary_transition [OF w(5,6), of "so_le so" "so_render so" "em_Writer e" "so_env so" ?ev] offer db' by auto
    show ?thesis
    proof (cases "sr_activity_summary r' = Some (marshal_payload (Some (summary_map s)))")
      case True
      then show ?thesis using r'(1) settles by blast
    next
      case False
      then obtain v where v: "sr_activity_summary r = Some v" "\<not> so_le so (summary_key (so_render so) v) (event_key ?ev)"
        using r'(2) by (auto simp: emitter_event_def split: option.splits if_splits)
      have "writes (em_Writer e) (so_env so) ?ev = Some (no_changes\<lparr>cc_activitySummary := Some (marshal_payload (ev_Payload ?ev)),
          cc_activityLastOrderKey := event_key ?ev\<rparr>)"
        using assms(1) by (simp add: writes_activity wired_def emitter_event_def)
      then have "r' = r"
        using r'(1) v unfolding db' find_session_transition [OF w(5)] by (simp add: w(6) hits_def write_allowed_def)
      then show ?thesis using r'(1) v n unfolding key prior_def by auto
    qed
  qed
qed


theorem refresh_settles_witness:
  "wired sample_emitter sample_stores sample_db ''u@x'' ''7'' sample_row \<and>
   (\<exists>r' v. find_session (ea_db (RefreshSessionActivity sample_emitter sample_stores sample_db ''u@x'' ''7'')) ''u@x'' ''default'' ''7'' = Some r' \<and>
      sr_activity_summary r' = Some v)"
proof -
  have "collation (so_le sample_stores)" "ledger_reach (so_events sample_stores)" "em_Scope sample_emitter = ''default''"
    using bytewise.collation_axioms ledger_reach.empty by (simp_all add: sample_stores_def sample_emitter_def)
  then show ?thesis
    using refresh_settles [OF sample_wired _ _ refl] sample_wired by (fastforce simp: sample_row_def)
qed

end
