(* ===== verification/Wake_Store.thy ===== *)
theory Wake_Store
  imports Session_Registry Conversation_Builders
begin

text \<open>
  The two tables of durable wakes, \<^verbatim>\<open>session_scheduled_wakeups\<close> and \<^verbatim>\<open>session_background_task_wakes\<close>
  (\<^verbatim>\<open>internal/pgstore/scheduled_wakeups.go\<close>, \<^verbatim>\<open>background_task_wakes.go\<close>). A wake is a turn that the control
  plane owes a session: the fire loop claims the due ones, submits their turns and marks them fired or failed.

  The two stores run the same statements on the columns they share, so these columns are the record \<open>wake_row\<close>,
  each table extends it, and the shared statements are functions of any extension. A statement is atomic;
  \<open>clock\<close> is the clock of the database, \<open>now\<close> the one that the caller passes, and \<open>locked\<close> tells the rows that
  another transaction holds. The order of a table's rows stands for the order in which the database visits them.
\<close>

section \<open>The shared columns\<close>

datatype wake_status = WakeScheduled | WakeClaiming | WakeFired | WakeFailed | WakeCancelled

record wake_row =
  wk_id :: string
  wk_session_scope :: string
  wk_session_id :: string
  wk_tank_session_id :: string
  wk_owner_email :: string
  wk_provider :: string
  wk_client_nonce :: string
  wk_due_at :: int
  wk_status :: wake_status
  wk_attempt_count :: int
  wk_locked_at :: "int option"
  wk_fired_at :: "int option"
  wk_fired_turn_id :: string
  wk_last_error :: string
  wk_created_at :: int
  wk_updated_at :: int

type_synonym 'a wake_table = "'a wake_row_scheme list"

text \<open>\<^verbatim>\<open>status IN ('scheduled', 'claiming')\<close>\<close>

definition pending :: "'a wake_row_scheme \<Rightarrow> bool" where
  "pending r \<longleftrightarrow> wk_status r = WakeScheduled \<or> wk_status r = WakeClaiming"

text \<open>\<^verbatim>\<open>UPDATE ... SET f WHERE p\<close>\<close>

definition update_wakes :: "('a wake_row_scheme \<Rightarrow> bool) \<Rightarrow> ('a wake_row_scheme \<Rightarrow> 'a wake_row_scheme) \<Rightarrow> 'a wake_table \<Rightarrow> 'a wake_table" where
  "update_wakes p f T = map (\<lambda>r. if p r then f r else r) T"

definition find_wake :: "string \<Rightarrow> 'a wake_table \<Rightarrow> 'a wake_row_scheme option" where
  "find_wake i T = find (\<lambda>r. wk_id r = i) T"

text \<open>\<^verbatim>\<open>left(s, n)\<close> counts characters, not bytes: a byte \<open>10xxxxxx\<close> continues the character before it.\<close>

fun left_text :: "nat \<Rightarrow> string \<Rightarrow> string" where
  "left_text n [] = []"
| "left_text n (c # cs) =
     (if 128 \<le> byte_of c \<and> byte_of c < 192 then c # left_text n cs
      else case n of 0 \<Rightarrow> [] | Suc m \<Rightarrow> c # left_text m cs)"

fun Join :: "string \<Rightarrow> string list \<Rightarrow> string" where
  "Join sep [] = []"
| "Join sep [s] = s"
| "Join sep (s # t # ss) = s @ sep @ Join sep (t # ss)"

definition unit_sep :: string where "unit_sep = [CHR 0x1F]"

definition hashed_id :: "string \<Rightarrow> string list \<Rightarrow> string" where
  "hashed_id kind parts = kind @ take 32 (sha256_hex (Join unit_sep parts))"

section \<open>Claiming and giving up\<close>

definition MaxScheduledWakeupAttempts :: int where "MaxScheduledWakeupAttempts = 5"
definition MaxBackgroundTaskWakeAttempts :: int where "MaxBackgroundTaskWakeAttempts = 5"
definition attemptCapError :: string where "attemptCapError = ''attempt_cap_exceeded''"

definition effective_limit :: "int \<Rightarrow> int" where
  "effective_limit limit = (if limit \<le> 0 then 25 else limit)"

text \<open>Two minutes, in nanoseconds.\<close>

definition effective_stale :: "int \<Rightarrow> int" where
  "effective_stale staleAfter = (if staleAfter \<le> 0 then 2 * 60 * 1000000000 else staleAfter)"

text \<open>No live claim: unclaimed, or claimed too long ago. A comparison with a missing time is not true.\<close>

definition claim_expired :: "int \<Rightarrow> int \<Rightarrow> 'a wake_row_scheme \<Rightarrow> bool" where
  "claim_expired now stale r \<longleftrightarrow>
     wk_status r = WakeScheduled \<or>
     (wk_status r = WakeClaiming \<and> (case wk_locked_at r of None \<Rightarrow> False | Some t \<Rightarrow> t < now - stale))"

text \<open>\<^verbatim>\<open>ORDER BY due_at ASC, created_at ASC LIMIT n FOR UPDATE SKIP LOCKED\<close>\<close>

definition pick_ids :: "(string \<Rightarrow> bool) \<Rightarrow> int \<Rightarrow> 'a wake_table \<Rightarrow> string list" where
  "pick_ids locked limit T =
     take (nat limit) (filter (\<lambda>i. \<not> locked i) (map wk_id (sort_key wk_due_at (sort_key wk_created_at T))))"

definition claimable :: "string \<Rightarrow> int \<Rightarrow> int \<Rightarrow> int \<Rightarrow> 'a wake_row_scheme \<Rightarrow> bool" where
  "claimable scope cap now stale r \<longleftrightarrow>
     wk_session_scope r = scope \<and> wk_due_at r \<le> now \<and> wk_attempt_count r < cap \<and> claim_expired now stale r"

definition claim_row :: "int \<Rightarrow> int \<Rightarrow> 'a wake_row_scheme \<Rightarrow> 'a wake_row_scheme" where
  "claim_row clock now r =
     r\<lparr>wk_status := WakeClaiming, wk_attempt_count := wk_attempt_count r + 1, wk_locked_at := Some now, wk_updated_at := clock\<rparr>"

definition claim_ids :: "string \<Rightarrow> int \<Rightarrow> (string \<Rightarrow> bool) \<Rightarrow> int \<Rightarrow> int \<Rightarrow> int \<Rightarrow> 'a wake_table \<Rightarrow> string list" where
  "claim_ids scope cap locked now limit staleAfter T =
     pick_ids locked (effective_limit limit) (filter (claimable scope cap now (effective_stale staleAfter)) T)"

definition claim_due ::
  "string \<Rightarrow> int \<Rightarrow> (string \<Rightarrow> bool) \<Rightarrow> int \<Rightarrow> int \<Rightarrow> int \<Rightarrow> int \<Rightarrow> 'a wake_table \<Rightarrow> 'a wake_row_scheme list \<times> 'a wake_table" where
  "claim_due scope cap locked clock now limit staleAfter T =
     (let ids = claim_ids scope cap locked now limit staleAfter T;
          mine = (\<lambda>r. wk_id r \<in> set ids)
      in (map (claim_row clock now) (filter mine T), update_wakes mine (claim_row clock now) T))"

definition exceeded :: "string \<Rightarrow> int \<Rightarrow> int \<Rightarrow> int \<Rightarrow> 'a wake_row_scheme \<Rightarrow> bool" where
  "exceeded scope cap now stale r \<longleftrightarrow>
     wk_session_scope r = scope \<and> cap \<le> wk_attempt_count r \<and> claim_expired now stale r"

definition give_up_row :: "int \<Rightarrow> 'a wake_row_scheme \<Rightarrow> 'a wake_row_scheme" where
  "give_up_row clock r =
     r\<lparr>wk_status := WakeFailed,
       wk_last_error := left_text 2000 (attemptCapError @ '': gave up after '' @ int_dec (wk_attempt_count r) @ '' attempts''),
       wk_locked_at := None, wk_updated_at := clock\<rparr>"

definition fail_exceeded ::
  "string \<Rightarrow> int \<Rightarrow> (string \<Rightarrow> bool) \<Rightarrow> int \<Rightarrow> int \<Rightarrow> int \<Rightarrow> int \<Rightarrow> 'a wake_table \<Rightarrow> 'a wake_row_scheme list \<times> 'a wake_table" where
  "fail_exceeded scope cap locked clock now limit staleAfter T =
     (let ids = pick_ids locked (effective_limit limit) (filter (exceeded scope cap now (effective_stale staleAfter)) T);
          mine = (\<lambda>r. wk_id r \<in> set ids)
      in (map (give_up_row clock) (filter mine T), update_wakes mine (give_up_row clock) T))"

section \<open>Outcomes, releases and cancellation\<close>

text \<open>These statements address one wake, whatever its status is.\<close>

definition set_wake :: "string \<Rightarrow> ('a wake_row_scheme \<Rightarrow> 'a wake_row_scheme) \<Rightarrow> 'a wake_table \<Rightarrow> 'a wake_table" where
  "set_wake i f T = update_wakes (\<lambda>r. wk_id r = TrimSpace i) f T"

definition fired_row :: "string \<Rightarrow> int \<Rightarrow> 'a wake_row_scheme \<Rightarrow> 'a wake_row_scheme" where
  "fired_row turnID clock r =
     r\<lparr>wk_status := WakeFired, wk_fired_turn_id := TrimSpace turnID, wk_last_error := [], wk_locked_at := None,
       wk_updated_at := clock, wk_fired_at := Some clock\<rparr>"

definition failed_row :: "string \<Rightarrow> int \<Rightarrow> 'a wake_row_scheme \<Rightarrow> 'a wake_row_scheme" where
  "failed_row reason clock r =
     r\<lparr>wk_status := WakeFailed, wk_last_error := left_text 2000 (TrimSpace reason), wk_locked_at := None, wk_updated_at := clock\<rparr>"

definition released_row :: "int \<Rightarrow> 'a wake_row_scheme \<Rightarrow> 'a wake_row_scheme" where
  "released_row clock r = r\<lparr>wk_status := WakeScheduled, wk_locked_at := None, wk_updated_at := clock\<rparr>"

definition refunded_row :: "int \<Rightarrow> 'a wake_row_scheme \<Rightarrow> 'a wake_row_scheme" where
  "refunded_row clock r =
     r\<lparr>wk_status := WakeScheduled, wk_locked_at := None, wk_attempt_count := max (wk_attempt_count r - 1) 0, wk_updated_at := clock\<rparr>"

definition cancelled_row :: "int \<Rightarrow> 'a wake_row_scheme \<Rightarrow> 'a wake_row_scheme" where
  "cancelled_row clock r = r\<lparr>wk_status := WakeCancelled, wk_locked_at := None, wk_updated_at := clock\<rparr>"

definition mark_fired :: "string \<Rightarrow> string \<Rightarrow> int \<Rightarrow> 'a wake_table \<Rightarrow> 'a wake_row_scheme option \<times> 'a wake_table" where
  "mark_fired i turnID clock T =
     (let T' = set_wake i (fired_row turnID clock) T in (find_wake (TrimSpace i) T', T'))"

definition mark_failed :: "string \<Rightarrow> string \<Rightarrow> int \<Rightarrow> 'a wake_table \<Rightarrow> 'a wake_row_scheme option \<times> 'a wake_table" where
  "mark_failed i reason clock T =
     (let T' = set_wake i (failed_row reason clock) T in (find_wake (TrimSpace i) T', T'))"

definition ReleaseRetainingAttempt :: "string \<Rightarrow> int \<Rightarrow> 'a wake_table \<Rightarrow> 'a wake_table" where
  "ReleaseRetainingAttempt i clock T = set_wake i (released_row clock) T"

text \<open>The pending wakes of a session: the scope of the store stands in for an empty one.\<close>

definition given_scope :: "string \<Rightarrow> string \<Rightarrow> string" where
  "given_scope store scope = (if TrimSpace scope = [] then store else TrimSpace scope)"

definition waits_for :: "string \<Rightarrow> string \<Rightarrow> string \<Rightarrow> 'a wake_row_scheme \<Rightarrow> bool" where
  "waits_for store scope sid r \<longleftrightarrow>
     wk_session_scope r = given_scope store scope \<and> wk_session_id r = TrimSpace sid \<and> pending r"

definition HasPending :: "string \<Rightarrow> 'a wake_table \<Rightarrow> string \<Rightarrow> string \<Rightarrow> bool" where
  "HasPending store T scope sid \<longleftrightarrow> TrimSpace sid \<noteq> [] \<and> (\<exists>r\<in>set T. waits_for store scope sid r)"

definition DueCount :: "string \<Rightarrow> int \<Rightarrow> 'a wake_table \<Rightarrow> int" where
  "DueCount store now T = int (length (filter (\<lambda>r. wk_session_scope r = store \<and> pending r \<and> wk_due_at r \<le> now) T))"

definition CancelPendingForSession ::
  "string \<Rightarrow> string \<Rightarrow> string \<Rightarrow> int \<Rightarrow> 'a wake_table \<Rightarrow> 'a wake_row_scheme list \<times> 'a wake_table" where
  "CancelPendingForSession store scope sid clock T =
     (if TrimSpace sid = [] then ([], T)
      else (map (cancelled_row clock) (filter (waits_for store scope sid) T),
            update_wakes (waits_for store scope sid) (cancelled_row clock) T))"

section \<open>The session of a claimed wake\<close>

record session_view =
  sv_Status :: string
  sv_Terminated :: bool
  sv_NeedsInput :: bool
  sv_ActivityStatus :: string

definition view_of_session :: "(goany \<Rightarrow> string) \<Rightarrow> sessions_db \<Rightarrow> 'a wake_row_scheme \<Rightarrow> session_view" where
  "view_of_session render db w =
     (case find_session db (wk_owner_email w) (wk_session_scope w) (wk_session_id w) of
        None \<Rightarrow> \<lparr>sv_Status = [], sv_Terminated = True, sv_NeedsInput = False, sv_ActivityStatus = []\<rparr>
      | Some s \<Rightarrow>
          (let field = (\<lambda>k. case sr_activity_summary s of Some (GMap m) \<Rightarrow> jsonb_text render m k | _ \<Rightarrow> None)
           in \<lparr>sv_Status = sr_status s, sv_Terminated = (sr_terminating_at s \<noteq> None),
               sv_NeedsInput = (field ''needs_input'' = Some ''true''),
               sv_ActivityStatus = coalesce_empty (field ''status'')\<rparr>))"

section \<open>Scheduled wake-ups\<close>

record ScheduledWakeup = wake_row +
  sw_prompt :: string
  sw_scheduled_turn_id :: string
  sw_provider_item_id :: string
  sw_scheduled_at :: int

record RegisterScheduledWakeupRequest =
  rq_SessionScope :: string
  rq_SessionID :: string
  rq_OwnerEmail :: string
  rq_Provider :: string
  rq_Prompt :: string
  rq_ScheduledTurnID :: string
  rq_ProviderItemID :: string
  rq_ScheduledAt :: int
  rq_DueAt :: int

datatype wake_error = UniqueViolation string | MissingSessionID

definition ScheduledWakeupID :: "string \<Rightarrow> string \<Rightarrow> string \<Rightarrow> string" where
  "ScheduledWakeupID tankSessionID provider providerItemID =
     hashed_id ''wakeup_'' [TrimSpace tankSessionID, TrimSpace provider, TrimSpace providerItemID]"

definition ScheduledWakeupClientNonce :: "string \<Rightarrow> string" where
  "ScheduledWakeupClientNonce wakeupID =
     (let clean = TrimSpace wakeupID in if clean = [] then [] else ''schedule_wakeup-'' @ clean)"

definition requested_wakeup :: "string \<Rightarrow> int \<Rightarrow> RegisterScheduledWakeupRequest \<Rightarrow> ScheduledWakeup" where
  "requested_wakeup store clock req =
     (let scope = given_scope store (rq_SessionScope req);
          sid = TrimSpace (rq_SessionID req);
          tank = SessionStorageKey scope sid;
          provider = TrimSpace (rq_Provider req);
          item = TrimSpace (rq_ProviderItemID req);
          i = ScheduledWakeupID tank provider item
      in \<lparr>wk_id = i, wk_session_scope = scope, wk_session_id = sid, wk_tank_session_id = tank,
          wk_owner_email = ToLower (TrimSpace (rq_OwnerEmail req)), wk_provider = provider,
          wk_client_nonce = ScheduledWakeupClientNonce i, wk_due_at = rq_DueAt req, wk_status = WakeScheduled,
          wk_attempt_count = 0, wk_locked_at = None, wk_fired_at = None, wk_fired_turn_id = [], wk_last_error = [],
          wk_created_at = clock, wk_updated_at = clock,
          sw_prompt = TrimSpace (rq_Prompt req), sw_scheduled_turn_id = TrimSpace (rq_ScheduledTurnID req),
          sw_provider_item_id = item, sw_scheduled_at = rq_ScheduledAt req\<rparr>)"

text \<open>The unique indexes besides the primary key.\<close>

definition same_item :: "ScheduledWakeup \<Rightarrow> ScheduledWakeup \<Rightarrow> bool" where
  "same_item a b \<longleftrightarrow> wk_tank_session_id a = wk_tank_session_id b \<and> wk_provider a = wk_provider b \<and>
     sw_provider_item_id a = sw_provider_item_id b"

definition same_nonce :: "'a wake_row_scheme \<Rightarrow> 'a wake_row_scheme \<Rightarrow> bool" where
  "same_nonce a b \<longleftrightarrow> wk_tank_session_id a = wk_tank_session_id b \<and> wk_client_nonce a = wk_client_nonce b"

text \<open>
  \<^verbatim>\<open>INSERT ... ON CONFLICT (id) DO UPDATE SET updated_at = updated_at RETURNING *\<close>: an existing row is returned as it
  is, a violation of another unique index rejects the statement.
\<close>

definition insert_wake ::
  "('a wake_row_scheme \<Rightarrow> 'a wake_row_scheme \<Rightarrow> bool) \<Rightarrow> string \<Rightarrow> 'a wake_row_scheme \<Rightarrow> 'a wake_table \<Rightarrow>
   (wake_error + 'a wake_row_scheme) \<times> 'a wake_table" where
  "insert_wake same_task task_index new T =
     (case find_wake (wk_id new) T of
        Some r \<Rightarrow> (Inr r, T)
      | None \<Rightarrow>
          if \<exists>r\<in>set T. same_task r new then (Inl (UniqueViolation task_index), T)
          else if \<exists>r\<in>set T. same_nonce r new then (Inl (UniqueViolation ''client_nonce''), T)
          else (Inr new, T @ [new]))"

definition SW_Register ::
  "string \<Rightarrow> int \<Rightarrow> RegisterScheduledWakeupRequest \<Rightarrow> ScheduledWakeup list \<Rightarrow>
   (wake_error + ScheduledWakeup) \<times> ScheduledWakeup list" where
  "SW_Register store clock req T = insert_wake same_item ''provider_item'' (requested_wakeup store clock req) T"

definition SW_ClaimDue ::
  "(goany \<Rightarrow> string) \<Rightarrow> sessions_db \<Rightarrow> string \<Rightarrow> (string \<Rightarrow> bool) \<Rightarrow> int \<Rightarrow> int \<Rightarrow> int \<Rightarrow> int \<Rightarrow> ScheduledWakeup list \<Rightarrow>
   (ScheduledWakeup \<times> session_view) list \<times> ScheduledWakeup list" where
  "SW_ClaimDue render db store locked clock now limit staleAfter T =
     (let (rows, T') = claim_due store MaxScheduledWakeupAttempts locked clock now limit staleAfter T
      in (map (\<lambda>r. (r, view_of_session render db r)) rows, T'))"

definition SW_FailExceeded ::
  "string \<Rightarrow> (string \<Rightarrow> bool) \<Rightarrow> int \<Rightarrow> int \<Rightarrow> int \<Rightarrow> int \<Rightarrow> ScheduledWakeup list \<Rightarrow> ScheduledWakeup list \<times> ScheduledWakeup list" where
  "SW_FailExceeded store locked clock now limit staleAfter T =
     fail_exceeded store MaxScheduledWakeupAttempts locked clock now limit staleAfter T"

definition ListBySession :: "string \<Rightarrow> ScheduledWakeup list \<Rightarrow> string \<Rightarrow> string \<Rightarrow> wake_error + ScheduledWakeup list" where
  "ListBySession store T scope sid =
     (if TrimSpace sid = [] then Inl MissingSessionID
      else Inr (sort_key (\<lambda>r. if pending r then 0 else 1 :: int) (sort_key wk_due_at (sort_key sw_scheduled_at
             (filter (\<lambda>r. wk_session_scope r = given_scope store scope \<and> wk_session_id r = TrimSpace sid) T)))))"

section \<open>Background-task wakes\<close>

record BackgroundTaskWake = wake_row +
  bw_task_id :: string
  bw_task_status :: string
  bw_task_description :: string
  bw_task_summary :: string
  bw_task_last_tool :: string
  bw_task_error :: string
  bw_observed_event_id :: string
  bw_generation :: int
  bw_registered_at :: int

record RegisterBackgroundTaskWakeRequest =
  rb_SessionScope :: string
  rb_SessionID :: string
  rb_OwnerEmail :: string
  rb_Provider :: string
  rb_TaskID :: string
  rb_TaskStatus :: string
  rb_Description :: string
  rb_Summary :: string
  rb_LastToolName :: string
  rb_Error :: string
  rb_ObservedEventID :: string
  rb_RegisteredAt :: "int option"     \<comment> \<open>\<open>None\<close> is the zero time\<close>

datatype register_outcome =
    RegisterScheduled | RegisterPendingUpdated | RegisterDuplicate | RegisterRearmed
  | RegisterGenerationCapped | RegisterTerminalNoop

definition maxBackgroundTaskWakeGenerations :: int where "maxBackgroundTaskWakeGenerations = 3"

definition BackgroundTaskWakeIDForGeneration :: "string \<Rightarrow> string \<Rightarrow> string \<Rightarrow> int \<Rightarrow> string" where
  "BackgroundTaskWakeIDForGeneration tankSessionID provider taskID generation =
     hashed_id ''bgwake_'' ([TrimSpace tankSessionID, TrimSpace provider, TrimSpace taskID] @
       (if generation > 1 then [''g'' @ int_dec generation] else []))"

definition BackgroundTaskWakeID :: "string \<Rightarrow> string \<Rightarrow> string \<Rightarrow> string" where
  "BackgroundTaskWakeID tankSessionID provider taskID = BackgroundTaskWakeIDForGeneration tankSessionID provider taskID 1"

text \<open>The patterns \<^verbatim>\<open>^[A-Za-z0-9._-]+$\<close> and \<^verbatim>\<open>^[A-Za-z0-9._-]{1,80}$\<close>.\<close>

definition nonce_char :: "char \<Rightarrow> bool" where
  "nonce_char c \<longleftrightarrow> safe_char c \<and> c \<noteq> CHR '':''"

definition backgroundTaskWakeNonceSafe :: "string \<Rightarrow> bool" where
  "backgroundTaskWakeNonceSafe s \<longleftrightarrow> s \<noteq> [] \<and> list_all nonce_char s"

definition turnIDPattern :: "string \<Rightarrow> bool" where
  "turnIDPattern s \<longleftrightarrow> list_all nonce_char s \<and> 1 \<le> length s \<and> length s \<le> 80"

definition BackgroundTaskWakeClientNonce :: "string \<Rightarrow> string" where
  "BackgroundTaskWakeClientNonce taskID =
     (let clean = TrimSpace taskID
      in if clean = [] then []
         else if backgroundTaskWakeNonceSafe clean \<and> length (''bgtask-'' @ clean) \<le> 80 then ''bgtask-'' @ clean
         else ''bgtask-'' @ take 32 (sha256_hex clean))"

definition BackgroundTaskWakeClientNonceForGeneration :: "string \<Rightarrow> int \<Rightarrow> string" where
  "BackgroundTaskWakeClientNonceForGeneration taskID generation =
     (let base = BackgroundTaskWakeClientNonce taskID; suffix = ''-g'' @ int_dec generation
      in if base = [] \<or> generation \<le> 1 then base
         else if length (base @ suffix) \<le> 80 then base @ suffix
         else ''bgtask-'' @ take 32 (sha256_hex (TrimSpace taskID)) @ suffix)"

definition same_generation :: "BackgroundTaskWake \<Rightarrow> BackgroundTaskWake \<Rightarrow> bool" where
  "same_generation a b \<longleftrightarrow> wk_tank_session_id a = wk_tank_session_id b \<and> bw_task_id a = bw_task_id b \<and>
     bw_generation a = bw_generation b"

text \<open>The request after trimming, as the row of a generation.\<close>

definition requested_wake :: "string \<Rightarrow> int \<Rightarrow> int \<Rightarrow> RegisterBackgroundTaskWakeRequest \<Rightarrow> int \<Rightarrow> BackgroundTaskWake" where
  "requested_wake store clock now req generation =
     (let scope = given_scope store (rb_SessionScope req);
          sid = TrimSpace (rb_SessionID req);
          tank = SessionStorageKey scope sid;
          provider = TrimSpace (rb_Provider req);
          task = TrimSpace (rb_TaskID req);
          registered = (case rb_RegisteredAt req of None \<Rightarrow> now | Some t \<Rightarrow> t)
      in \<lparr>wk_id = BackgroundTaskWakeIDForGeneration tank provider task generation,
          wk_session_scope = scope, wk_session_id = sid, wk_tank_session_id = tank,
          wk_owner_email = ToLower (TrimSpace (rb_OwnerEmail req)), wk_provider = provider,
          wk_client_nonce = BackgroundTaskWakeClientNonceForGeneration task generation,
          wk_due_at = registered, wk_status = WakeScheduled, wk_attempt_count = 0, wk_locked_at = None, wk_fired_at = None,
          wk_fired_turn_id = [], wk_last_error = [], wk_created_at = clock, wk_updated_at = clock,
          bw_task_id = task, bw_task_status = TrimSpace (rb_TaskStatus req),
          bw_task_description = TrimSpace (rb_Description req), bw_task_summary = TrimSpace (rb_Summary req),
          bw_task_last_tool = TrimSpace (rb_LastToolName req), bw_task_error = TrimSpace (rb_Error req),
          bw_observed_event_id = TrimSpace (rb_ObservedEventID req), bw_generation = generation,
          bw_registered_at = registered\<rparr>)"

definition latest_generation :: "string \<Rightarrow> string \<Rightarrow> BackgroundTaskWake list \<Rightarrow> BackgroundTaskWake option" where
  "latest_generation tank task T =
     (case sort_key (\<lambda>r. - bw_generation r) (filter (\<lambda>r. wk_tank_session_id r = tank \<and> bw_task_id r = task) T) of
        [] \<Rightarrow> None | r # _ \<Rightarrow> Some r)"

definition insertGeneration ::
  "string \<Rightarrow> int \<Rightarrow> int \<Rightarrow> RegisterBackgroundTaskWakeRequest \<Rightarrow> int \<Rightarrow> BackgroundTaskWake list \<Rightarrow>
   (wake_error + BackgroundTaskWake) \<times> BackgroundTaskWake list" where
  "insertGeneration store clock now req generation T =
     insert_wake same_generation ''task_generation'' (requested_wake store clock now req generation) T"

definition refresh_facts :: "int \<Rightarrow> RegisterBackgroundTaskWakeRequest \<Rightarrow> BackgroundTaskWake \<Rightarrow> BackgroundTaskWake" where
  "refresh_facts clock req r =
     r\<lparr>bw_task_status := TrimSpace (rb_TaskStatus req), bw_task_description := TrimSpace (rb_Description req),
       bw_task_summary := TrimSpace (rb_Summary req), bw_task_last_tool := TrimSpace (rb_LastToolName req),
       bw_task_error := TrimSpace (rb_Error req),
       bw_observed_event_id := (if TrimSpace (rb_ObservedEventID req) \<noteq> [] then TrimSpace (rb_ObservedEventID req)
                                else bw_observed_event_id r),
       wk_updated_at := clock\<rparr>"

definition with_outcome :: "register_outcome \<Rightarrow> (wake_error + 'r) \<times> 's \<Rightarrow> (wake_error + 'r \<times> register_outcome) \<times> 's" where
  "with_outcome out res = map_prod (map_sum (\<lambda>e. e) (\<lambda>r. (r, out))) (\<lambda>s. s) res"

definition BW_Register ::
  "string \<Rightarrow> int \<Rightarrow> int \<Rightarrow> RegisterBackgroundTaskWakeRequest \<Rightarrow> BackgroundTaskWake list \<Rightarrow>
   (wake_error + BackgroundTaskWake \<times> register_outcome) \<times> BackgroundTaskWake list" where
  "BW_Register store clock now req T =
     (let tank = SessionStorageKey (given_scope store (rb_SessionScope req)) (TrimSpace (rb_SessionID req));
          seen = TrimSpace (rb_ObservedEventID req)
      in case latest_generation tank (TrimSpace (rb_TaskID req)) T of
           None \<Rightarrow> with_outcome RegisterScheduled (insertGeneration store clock now req 1 T)
         | Some latest \<Rightarrow>
             if pending latest
             then (let T' = update_wakes (\<lambda>r. wk_id r = wk_id latest) (refresh_facts clock req) T
                   in (Inr (refresh_facts clock req latest, RegisterPendingUpdated), T'))
             else if wk_status latest = WakeFired
             then (if seen = [] \<or> bw_observed_event_id latest = [] \<or> seen = bw_observed_event_id latest
                   then (Inr (latest, RegisterDuplicate), T)
                   else if bw_generation latest \<ge> maxBackgroundTaskWakeGenerations
                   then (Inr (latest, RegisterGenerationCapped), T)
                   else with_outcome RegisterRearmed (insertGeneration store clock now req (bw_generation latest + 1) T))
             else (Inr (latest, RegisterTerminalNoop), T))"

definition BW_ClaimDue ::
  "(goany \<Rightarrow> string) \<Rightarrow> sessions_db \<Rightarrow> string \<Rightarrow> (string \<Rightarrow> bool) \<Rightarrow> int \<Rightarrow> int \<Rightarrow> int \<Rightarrow> int \<Rightarrow> BackgroundTaskWake list \<Rightarrow>
   (BackgroundTaskWake \<times> session_view) list \<times> BackgroundTaskWake list" where
  "BW_ClaimDue render db store locked clock now limit staleAfter T =
     (let (rows, T') = claim_due store MaxBackgroundTaskWakeAttempts locked clock now limit staleAfter T
      in (map (\<lambda>r. (r, view_of_session render db r)) rows, T'))"

definition BW_FailExceeded ::
  "string \<Rightarrow> (string \<Rightarrow> bool) \<Rightarrow> int \<Rightarrow> int \<Rightarrow> int \<Rightarrow> int \<Rightarrow> BackgroundTaskWake list \<Rightarrow> BackgroundTaskWake list \<times> BackgroundTaskWake list" where
  "BW_FailExceeded store locked clock now limit staleAfter T =
     fail_exceeded store MaxBackgroundTaskWakeAttempts locked clock now limit staleAfter T"

definition Release :: "string \<Rightarrow> int \<Rightarrow> BackgroundTaskWake list \<Rightarrow> BackgroundTaskWake list" where
  "Release i clock T = set_wake i (refunded_row clock) T"

definition cancelled_task_row :: "string \<Rightarrow> int \<Rightarrow> BackgroundTaskWake \<Rightarrow> BackgroundTaskWake" where
  "cancelled_task_row reason clock r = (cancelled_row clock r)\<lparr>wk_last_error := left_text 2000 (TrimSpace reason)\<rparr>"

definition CancelPendingForTask ::
  "string \<Rightarrow> string \<Rightarrow> string \<Rightarrow> string \<Rightarrow> string \<Rightarrow> int \<Rightarrow> BackgroundTaskWake list \<Rightarrow> int \<times> BackgroundTaskWake list" where
  "CancelPendingForTask store scope sid taskID reason clock T =
     (if TrimSpace sid = [] \<or> TrimSpace taskID = [] then (0, T)
      else let mine = (\<lambda>r. waits_for store scope sid r \<and> bw_task_id r = TrimSpace taskID)
           in (int (length (filter mine T)),
               update_wakes mine (cancelled_task_row reason clock) T))"

end
