(* ===== verification/Leases.thy ===== *)
theory Leases
  imports Main
begin

text \<open>
  The contract of a table whose rows are claimed by a lease (the wake stores and the launch queue of \<^verbatim>\<open>internal/pgstore\<close>):
  in \<open>lease_table\<close> a row that was handed out is leased to its claimer until the lease expires; \<open>lease_store\<close> extends it
  with attempts that are counted against a cap. The lemmas are proved once and every table of the program meets the contract.
\<close>

text \<open>Where a row stands for a claimer. A closed row is never handed out again unless an operation reopens it.\<close>

datatype wake_phase = Absent | Open | Leased int | Closed

text \<open>How often a row is handed out in a run.\<close>

primrec claims :: "('o \<Rightarrow> 's \<Rightarrow> 's) \<Rightarrow> ('o \<Rightarrow> 's \<Rightarrow> 'w list) \<Rightarrow> 'w \<Rightarrow> 'o list \<Rightarrow> 's \<Rightarrow> int" where
  "claims step handed w [] s = 0"
| "claims step handed w (a # as) s = (if w \<in> set (handed a s) then 1 else 0) + claims step handed w as (step a s)"

lemma claims_nonneg: "0 \<le> claims step handed w as s"
  by (induction as arbitrary: s) (auto intro: add_nonneg_nonneg)

locale lease_table =
  fixes inv :: "'s \<Rightarrow> bool"
    and step :: "'o \<Rightarrow> 's \<Rightarrow> 's"
    and handed :: "'o \<Rightarrow> 's \<Rightarrow> 'w list"
    and moment :: "'o \<Rightarrow> int"
    and patience :: "'o \<Rightarrow> int"
    and phase :: "'w \<Rightarrow> 's \<Rightarrow> wake_phase"
    and reopens :: "'w \<Rightarrow> 'o \<Rightarrow> bool"
  assumes step_inv: "inv s \<Longrightarrow> inv (step a s)"
    and leases: "inv s \<Longrightarrow> w \<in> set (handed a s) \<Longrightarrow> phase w (step a s) = Leased (moment a)"
    and respects: "inv s \<Longrightarrow> w \<in> set (handed a s) \<Longrightarrow>
      phase w s = Open \<or> (\<exists>t. phase w s = Leased t \<and> t + patience a < moment a)"
    and settles: "inv s \<Longrightarrow> w \<notin> set (handed a s) \<Longrightarrow> \<not> reopens w a \<Longrightarrow> phase w s \<in> {Leased t, Closed} \<Longrightarrow>
      phase w (step a s) \<in> {Leased t, Closed}"
begin

lemma run_inv: "inv s \<Longrightarrow> inv (fold step as s)"
  by (induction as arbitrary: s) (auto intro: step_inv)

lemma lease_kept:
  "inv s \<Longrightarrow> phase w s \<in> {Leased t, Closed} \<Longrightarrow> claims step handed w as s = 0 \<Longrightarrow> list_all (\<lambda>a. \<not> reopens w a) as \<Longrightarrow>
   phase w (fold step as s) \<in> {Leased t, Closed}"
proof (induction as arbitrary: s)
  case (Cons a as)
  have no: "w \<notin> set (handed a s)" and rest: "claims step handed w as (step a s) = 0"
    using Cons.prems(3) claims_nonneg [of step handed w as "step a s"] by (auto split: if_splits)
  show ?case
    using Cons.IH [OF step_inv [OF Cons.prems(1)] settles [OF Cons.prems(1) no _ Cons.prems(2)] rest] Cons.prems(4) by simp
qed simp

lemma lease_exclusive:
  assumes "inv s" "w \<in> set (handed a s)" "claims step handed w as (step a s) = 0" "list_all (\<lambda>b. \<not> reopens w b) as"
    and "w \<in> set (handed c (fold step as (step a s)))"
  shows "moment a + patience c < moment c"
proof -
  have ok: "inv (step a s)" using assms(1) by (rule step_inv)
  have "phase w (fold step as (step a s)) \<in> {Leased (moment a), Closed}"
    using lease_kept [OF ok, of w "moment a" as] leases [OF assms(1,2)] assms(3,4) by simp
  then show ?thesis
    using respects [OF run_inv [OF ok] assms(5)] by auto
qed

end

locale lease_store = lease_table inv step handed moment patience phase reopens
  for inv :: "'s \<Rightarrow> bool" and step :: "'o \<Rightarrow> 's \<Rightarrow> 's" and handed :: "'o \<Rightarrow> 's \<Rightarrow> 'w list" and moment patience phase reopens +
  fixes attempts :: "'w \<Rightarrow> 's \<Rightarrow> int"
    and refund :: "'w \<Rightarrow> 'o \<Rightarrow> int"
    and cap :: int
  assumes attempts_range: "inv s \<Longrightarrow> 0 \<le> attempts w s \<and> attempts w s \<le> cap"
    and spent: "inv s \<Longrightarrow> attempts w s + (if w \<in> set (handed a s) then 1 else 0) \<le> attempts w (step a s) + refund w a"
begin

lemma claims_paid: "inv s \<Longrightarrow> attempts w s + claims step handed w as s \<le> attempts w (fold step as s) + sum_list (map (refund w) as)"
proof (induction as arbitrary: s)
  case (Cons a as)
  have "attempts w (step a s) + claims step handed w as (step a s) \<le> attempts w (fold step as (step a s)) + sum_list (map (refund w) as)"
    using Cons by (simp add: step_inv)
  then show ?case using spent [OF Cons.prems, of w a] by (simp split: if_splits)
qed simp

lemma claims_bounded: "inv s \<Longrightarrow> claims step handed w as s \<le> cap - attempts w s + sum_list (map (refund w) as)"
  using claims_paid [of s w as] attempts_range [OF run_inv, of s w as] by auto

end

end
