(* ===== verification/Wake_Leases.thy ===== *)
theory Wake_Leases
  imports Wake_Store Leases
begin

text \<open>
  What the two wake stores guarantee to the fire loops, whatever operations any number of processes run on a table and
  in whatever order: both tables meet the contract \<open>lease_store\<close> of \<open>Leases\<close>.
\<close>

section \<open>Statements on the shared columns\<close>

lemmas wake_rows = claim_row_def give_up_row_def fired_row_def failed_row_def released_row_def refunded_row_def cancelled_row_def

definition keeps_id :: "('a wake_row_scheme \<Rightarrow> 'a wake_row_scheme) \<Rightarrow> bool" where
  "keeps_id f \<longleftrightarrow> (\<forall>r. wk_id (f r) = wk_id r)"

lemma rows_keep_id [simp]:
  "keeps_id (claim_row clock now)" "keeps_id (give_up_row clock)" "keeps_id (fired_row turnID clock)"
  "keeps_id (failed_row reason clock)" "keeps_id (released_row clock)" "keeps_id (refunded_row clock)"
  "keeps_id (cancelled_row clock)"
  by (simp_all add: keeps_id_def wake_rows)

lemma set_update_wakes: "set (update_wakes p f T) = (\<lambda>r. if p r then f r else r) ` set T"
  by (simp add: update_wakes_def)

lemma ids_update_wakes: "keeps_id f \<Longrightarrow> map wk_id (update_wakes p f T) = map wk_id T"
  by (simp add: update_wakes_def keeps_id_def)

lemma find_update_wakes:
  "keeps_id f \<Longrightarrow> find_wake i (update_wakes p f T) = map_option (\<lambda>r. if p r then f r else r) (find_wake i T)"
  by (induction T) (auto simp: find_wake_def update_wakes_def keeps_id_def)

lemma find_wake_member: "distinct (map wk_id T) \<Longrightarrow> r \<in> set T \<Longrightarrow> find_wake (wk_id r) T = Some r"
  by (induction T) (auto simp: find_wake_def)

lemma find_wake_id: "find_wake i T = Some r \<Longrightarrow> r \<in> set T \<and> wk_id r = i"
  unfolding find_wake_def by (rule find_hit)

lemma find_wake_append: "find_wake i (T @ [r]) = (case find_wake i T of Some x \<Rightarrow> Some x | None \<Rightarrow> if wk_id r = i then Some r else None)"
  by (simp add: find_wake_def find_append split: option.split)

lemma find_wake_None: "find_wake i T = None \<longleftrightarrow> i \<notin> wk_id ` set T"
  by (auto simp: find_wake_def find_None_iff)

text \<open>The status, the attempts and the lease fit together.\<close>

definition life_ok :: "int \<Rightarrow> 'a wake_row_scheme \<Rightarrow> bool" where
  "life_ok cap r \<longleftrightarrow> 0 \<le> wk_attempt_count r \<and> wk_attempt_count r \<le> cap \<and>
     (wk_locked_at r \<noteq> None \<longleftrightarrow> wk_status r = WakeClaiming) \<and> (wk_status r = WakeFired \<longrightarrow> wk_fired_at r \<noteq> None)"

lemma life_ok_rows:
  "life_ok cap r \<Longrightarrow> wk_attempt_count r < cap \<Longrightarrow> life_ok cap (claim_row clock now r)"
  "life_ok cap r \<Longrightarrow> life_ok cap (give_up_row clock r)"
  "life_ok cap r \<Longrightarrow> life_ok cap (fired_row turnID clock r)"
  "life_ok cap r \<Longrightarrow> life_ok cap (failed_row reason clock r)"
  "life_ok cap r \<Longrightarrow> life_ok cap (released_row clock r)"
  "life_ok cap r \<Longrightarrow> life_ok cap (refunded_row clock r)"
  "life_ok cap r \<Longrightarrow> life_ok cap (cancelled_row clock r)"
  by (auto simp: life_ok_def wake_rows)

text \<open>The selection of a batch.\<close>

lemma pick_ids_subset: "set (pick_ids locked n T) \<subseteq> {wk_id r |r. r \<in> set T \<and> \<not> locked (wk_id r)}"
  unfolding pick_ids_def by (rule subset_trans [OF set_take_subset]) auto

lemma pick_ids_all:
  assumes "length T \<le> nat n" "r \<in> set T" "\<not> locked (wk_id r)"
  shows "wk_id r \<in> set (pick_ids locked n T)"
proof -
  have "length (filter (\<lambda>i. \<not> locked i) (map wk_id (sort_key wk_due_at (sort_key wk_created_at T)))) \<le> nat n"
    using assms(1) by (intro le_trans [OF length_filter_le]) simp
  then show ?thesis using assms(2,3) by (auto simp: pick_ids_def)
qed

lemma picked_row:
  assumes "distinct (map wk_id T)" "i \<in> set (pick_ids locked n (filter P T))"
  shows "\<exists>r. find_wake i T = Some r \<and> P r \<and> \<not> locked i"
proof -
  obtain r where "r \<in> set T" "P r" "\<not> locked i" "wk_id r = i"
    using assms(2) pick_ids_subset [of locked n "filter P T"] by auto
  then show ?thesis using find_wake_member [OF assms(1)] by blast
qed

section \<open>Operations on either table\<close>

datatype life_op =
    ClaimDue "string \<Rightarrow> bool" int int int int          \<comment> \<open>locked, clock, now, limit, staleAfter\<close>
  | FailExceeded "string \<Rightarrow> bool" int int int int
  | MarkFired string string int
  | MarkFailed string string int
  | ReleaseRetaining string int
  | CancelSession string string int

fun life_step :: "string \<Rightarrow> int \<Rightarrow> life_op \<Rightarrow> 'a wake_table \<Rightarrow> 'a wake_table" where
  "life_step store cap (ClaimDue locked clock now limit stale) T = snd (claim_due store cap locked clock now limit stale T)"
| "life_step store cap (FailExceeded locked clock now limit stale) T = snd (fail_exceeded store cap locked clock now limit stale T)"
| "life_step store cap (MarkFired i turnID clock) T = snd (mark_fired i turnID clock T)"
| "life_step store cap (MarkFailed i reason clock) T = snd (mark_failed i reason clock T)"
| "life_step store cap (ReleaseRetaining i clock) T = ReleaseRetainingAttempt i clock T"
| "life_step store cap (CancelSession scope sid clock) T = snd (CancelPendingForSession store scope sid clock T)"

fun life_handed :: "string \<Rightarrow> int \<Rightarrow> life_op \<Rightarrow> 'a wake_table \<Rightarrow> string list" where
  "life_handed store cap (ClaimDue locked clock now limit stale) T = map wk_id (fst (claim_due store cap locked clock now limit stale T))"
| "life_handed store cap a T = []"

fun life_moment :: "life_op \<Rightarrow> int" where
  "life_moment (ClaimDue locked clock now limit stale) = now"
| "life_moment a = 0"

fun life_patience :: "life_op \<Rightarrow> int" where
  "life_patience (ClaimDue locked clock now limit stale) = effective_stale stale"
| "life_patience a = 0"

fun life_reopens :: "string \<Rightarrow> life_op \<Rightarrow> bool" where
  "life_reopens w (ReleaseRetaining i clock) = (TrimSpace i = w)"
| "life_reopens w a = False"

definition attempts_of :: "string \<Rightarrow> 'a wake_table \<Rightarrow> int" where
  "attempts_of w T = (case find_wake w T of None \<Rightarrow> 0 | Some r \<Rightarrow> wk_attempt_count r)"

definition phase_of_row :: "'a wake_row_scheme \<Rightarrow> wake_phase" where
  "phase_of_row r =
     (case wk_status r of
        WakeScheduled \<Rightarrow> Open
      | WakeClaiming \<Rightarrow> (case wk_locked_at r of None \<Rightarrow> Closed | Some t \<Rightarrow> Leased t)
      | _ \<Rightarrow> Closed)"

definition phase_of :: "string \<Rightarrow> 'a wake_table \<Rightarrow> wake_phase" where
  "phase_of w T = (case find_wake w T of None \<Rightarrow> Absent | Some r \<Rightarrow> phase_of_row r)"

definition table_ok :: "int \<Rightarrow> 'a wake_table \<Rightarrow> bool" where
  "table_ok cap T \<longleftrightarrow> distinct (map wk_id T) \<and> (\<forall>r\<in>set T. life_ok cap r)"

lemma table_ok_update:
  assumes "table_ok cap T" "keeps_id f" "\<And>r. r \<in> set T \<Longrightarrow> p r \<Longrightarrow> life_ok cap (f r)"
  shows "table_ok cap (update_wakes p f T)"
  using assms by (auto simp: table_ok_def ids_update_wakes set_update_wakes)

lemma table_ok_rows:
  assumes "table_ok cap T"
  shows "table_ok cap (update_wakes p (give_up_row clock) T)" "table_ok cap (update_wakes p (fired_row turnID clock) T)"
    "table_ok cap (update_wakes p (failed_row reason clock) T)" "table_ok cap (update_wakes p (released_row clock) T)"
    "table_ok cap (update_wakes p (refunded_row clock) T)" "table_ok cap (update_wakes p (cancelled_row clock) T)"
  by (rule table_ok_update [OF assms]; use assms in \<open>auto simp: table_ok_def intro: life_ok_rows\<close>)+

text \<open>Every operation is an update of selected rows, and hands out exactly the rows it claims.\<close>

lemma handed_claim: "map wk_id (fst (claim_due store cap locked clock now limit stale T)) =
    filter (\<lambda>i. i \<in> set (claim_ids store cap locked now limit stale T)) (map wk_id T)"
  by (simp add: claim_due_def Let_def filter_map comp_def claim_row_def)

lemma claim_idsD:
  assumes "table_ok cap T" "w \<in> set (claim_ids store cap locked now limit stale T)"
  shows "\<exists>r. find_wake w T = Some r \<and> claimable store cap now (effective_stale stale) r"
  using picked_row [of T w locked _ "claimable store cap now (effective_stale stale)"] assms
  by (auto simp: claim_ids_def table_ok_def)

lemma handed_iff:
  assumes "table_ok cap T"
  shows "w \<in> set (life_handed store cap (ClaimDue locked clock now limit stale) T) \<longleftrightarrow>
    w \<in> set (claim_ids store cap locked now limit stale T)"
  using claim_idsD [OF assms] by (force simp: handed_claim dest: find_wake_id)

lemma claim_due_step:
  "life_step store cap (ClaimDue locked clock now limit stale) T =
     update_wakes (\<lambda>r. wk_id r \<in> set (claim_ids store cap locked now limit stale T)) (claim_row clock now) T"
  by (simp add: claim_due_def Let_def)

lemma give_up_step:
  "life_step store cap (FailExceeded locked clock now limit stale) T =
     update_wakes (\<lambda>r. wk_id r \<in> set (pick_ids locked (effective_limit limit)
       (filter (exceeded store cap now (effective_stale stale)) T))) (give_up_row clock) T"
  by (simp add: fail_exceeded_def Let_def)

lemma cancel_step:
  "life_step store cap (CancelSession scope sid clock) T =
     (if TrimSpace sid = [] then T else update_wakes (waits_for store scope sid) (cancelled_row clock) T)"
  by (simp add: CancelPendingForSession_def)

lemmas mark_steps = mark_fired_def mark_failed_def ReleaseRetainingAttempt_def set_wake_def Let_def

lemma attempts_update:
  "keeps_id f \<Longrightarrow> attempts_of w (update_wakes p f T) =
     (case find_wake w T of None \<Rightarrow> 0 | Some r \<Rightarrow> wk_attempt_count (if p r then f r else r))"
  by (simp add: attempts_of_def find_update_wakes split: option.split)

lemma attempts_mono:
  "keeps_id f \<Longrightarrow> (\<And>r. wk_attempt_count r \<le> wk_attempt_count (f r)) \<Longrightarrow> attempts_of w T \<le> attempts_of w (update_wakes p f T)"
  by (simp add: attempts_update) (simp add: attempts_of_def split: option.split)

lemma phase_update:
  "keeps_id f \<Longrightarrow> phase_of w (update_wakes p f T) =
     (case find_wake w T of None \<Rightarrow> Absent | Some r \<Rightarrow> phase_of_row (if p r then f r else r))"
  by (simp add: phase_of_def find_update_wakes split: option.split)

lemma phase_rows [simp]:
  "phase_of_row (claim_row clock now r) = Leased now" "phase_of_row (give_up_row clock r) = Closed"
  "phase_of_row (fired_row turnID clock r) = Closed" "phase_of_row (failed_row reason clock r) = Closed"
  "phase_of_row (released_row clock r) = Open" "phase_of_row (refunded_row clock r) = Open"
  "phase_of_row (cancelled_row clock r) = Closed"
  by (simp_all add: phase_of_row_def wake_rows)

lemma attempts_rows [simp]:
  "wk_attempt_count (claim_row clock now r) = wk_attempt_count r + 1" "wk_attempt_count (give_up_row clock r) = wk_attempt_count r"
  "wk_attempt_count (fired_row turnID clock r) = wk_attempt_count r" "wk_attempt_count (failed_row reason clock r) = wk_attempt_count r"
  "wk_attempt_count (released_row clock r) = wk_attempt_count r"
  "wk_attempt_count (refunded_row clock r) = max (wk_attempt_count r - 1) 0"
  "wk_attempt_count (cancelled_row clock r) = wk_attempt_count r"
  by (simp_all add: wake_rows)

lemma life_step_ok:
  assumes "table_ok cap T"
  shows "table_ok cap (life_step store cap a T)"
proof (cases a)
  case (ClaimDue locked clock now limit stale)
  show ?thesis
    unfolding ClaimDue claim_due_step
  proof (rule table_ok_update [OF assms])
    fix r assume r: "r \<in> set T" "wk_id r \<in> set (claim_ids store cap locked now limit stale T)"
    then have "claimable store cap now (effective_stale stale) r"
      using claim_idsD [OF assms r(2)] find_wake_member [of T r] assms by (auto simp: table_ok_def)
    then show "life_ok cap (claim_row clock now r)"
      using r(1) assms by (auto simp: table_ok_def claimable_def intro: life_ok_rows)
  qed simp
next
  case (FailExceeded locked clock now limit stale)
  then show ?thesis
    unfolding FailExceeded give_up_step using assms by (intro table_ok_rows)
next
  case (CancelSession scope sid clock)
  then show ?thesis
    unfolding CancelSession cancel_step using assms by (simp add: table_ok_rows)
qed (use assms in \<open>simp_all add: mark_steps table_ok_rows\<close>)

lemma life_step_spent:
  assumes "table_ok cap T"
  shows "attempts_of w T + (if w \<in> set (life_handed store cap a T) then 1 else 0) \<le> attempts_of w (life_step store cap a T)"
proof (cases a)
  case (ClaimDue locked clock now limit stale)
  show ?thesis
    unfolding ClaimDue handed_iff [OF assms] claim_due_step attempts_update [OF rows_keep_id(1)]
    using claim_idsD [OF assms, of w] by (auto simp: attempts_of_def split: option.split dest: find_wake_id)
next
  case (FailExceeded locked clock now limit stale)
  show ?thesis unfolding FailExceeded give_up_step by (simp add: attempts_mono)
next
  case (CancelSession scope sid clock)
  show ?thesis unfolding CancelSession cancel_step by (simp add: attempts_mono)
qed (simp_all add: mark_steps attempts_mono)

lemma life_step_leases:
  assumes "table_ok cap T" "w \<in> set (life_handed store cap a T)"
  shows "phase_of w (life_step store cap a T) = Leased (life_moment a)"
proof (cases a)
  case (ClaimDue locked clock now limit stale)
  then have "w \<in> set (claim_ids store cap locked now limit stale T)" using assms handed_iff by blast
  then show ?thesis
    unfolding ClaimDue claim_due_step using claim_idsD [OF assms(1)]
    by (fastforce simp: phase_update dest: find_wake_id)
qed (use assms in simp_all)

lemma life_step_respects:
  assumes "table_ok cap T" "w \<in> set (life_handed store cap a T)"
  shows "phase_of w T = Open \<or> (\<exists>t. phase_of w T = Leased t \<and> t + life_patience a < life_moment a)"
proof (cases a)
  case (ClaimDue locked clock now limit stale)
  then have "w \<in> set (claim_ids store cap locked now limit stale T)" using assms handed_iff by blast
  then obtain r where "find_wake w T = Some r" "claimable store cap now (effective_stale stale) r"
    using claim_idsD [OF assms(1)] by blast
  then show ?thesis
    unfolding ClaimDue by (auto simp: phase_of_def phase_of_row_def claimable_def claim_expired_def split: option.splits)
qed (use assms in simp_all)

lemma life_step_settles:
  assumes "table_ok cap T" "w \<notin> set (life_handed store cap a T)" "\<not> life_reopens w a" "phase_of w T \<in> {Leased t, Closed}"
  shows "phase_of w (life_step store cap a T) \<in> {Leased t, Closed}"
proof -
  obtain r where r: "find_wake w T = Some r" "wk_id r = w" "phase_of_row r \<in> {Leased t, Closed}"
    using assms(4) find_wake_id by (cases "find_wake w T") (auto simp: phase_of_def)
  show ?thesis
  proof (cases a)
    case (ClaimDue locked clock now limit stale)
    then have "w \<notin> set (claim_ids store cap locked now limit stale T)" using assms handed_iff by blast
    then show ?thesis
      unfolding ClaimDue claim_due_step using r by (simp add: phase_update)
  next
    case (FailExceeded locked clock now limit stale)
    show ?thesis unfolding FailExceeded give_up_step using r by (simp add: phase_update)
  next
    case (CancelSession scope sid clock)
    show ?thesis unfolding CancelSession cancel_step using r assms(4) by (simp add: phase_update)
  qed (use r assms(3) in \<open>auto simp: mark_steps phase_update\<close>)
qed

section \<open>What the shared operations keep\<close>

text \<open>A reading of rows that none of the shared updates changes.\<close>

definition unaffected :: "('a wake_row_scheme \<Rightarrow> 'b) \<Rightarrow> bool" where
  "unaffected g \<longleftrightarrow> (\<forall>r x y. g (claim_row x y r) = g r \<and> g (give_up_row x r) = g r \<and> g (released_row x r) = g r \<and>
     g (refunded_row x r) = g r \<and> g (cancelled_row x r) = g r) \<and> (\<forall>r s x. g (fired_row s x r) = g r \<and> g (failed_row s x r) = g r)"

lemma map_update_wakes: "(\<And>r. r \<in> set T \<Longrightarrow> g (f r) = g r) \<Longrightarrow> map g (update_wakes p f T) = map g T"
  by (simp add: update_wakes_def)

lemma life_step_map: "unaffected g \<Longrightarrow> map g (life_step store cap a T) = map g T"
  by (cases a)
    (simp_all add: claim_due_step give_up_step cancel_step mark_steps map_update_wakes unaffected_def del: life_step.simps(1,2,6))

lemma list_all_by_map: "map P T' = map P T \<Longrightarrow> list_all P T' = list_all P T"
  by (metis list.pred_map comp_id id_comp list_all_cong)

lemma life_step_all: "unaffected P \<Longrightarrow> list_all P (life_step store cap a T) = list_all P T"
  by (rule list_all_by_map) (rule life_step_map)

lemma life_step_ids: "map wk_id (life_step store cap a T) = map wk_id T"
  by (rule life_step_map) (simp add: unaffected_def wake_rows)

section \<open>Scheduled wake-ups\<close>

datatype scheduled_op = SwRegister int RegisterScheduledWakeupRequest | SwLife life_op

fun sw_step :: "string \<times> scheduled_op \<Rightarrow> ScheduledWakeup list \<Rightarrow> ScheduledWakeup list" where
  "sw_step (store, SwRegister clock req) T = snd (SW_Register store clock req T)"
| "sw_step (store, SwLife a) T = life_step store MaxScheduledWakeupAttempts a T"

fun sw_life :: "string \<times> scheduled_op \<Rightarrow> life_op" where
  "sw_life (store, SwLife a) = a"
| "sw_life (store, SwRegister clock req) = CancelSession [] [] 0"

definition sw_handed :: "string \<times> scheduled_op \<Rightarrow> ScheduledWakeup list \<Rightarrow> string list" where
  "sw_handed a T = life_handed (fst a) MaxScheduledWakeupAttempts (sw_life a) T"

definition sw_identity :: "ScheduledWakeup \<Rightarrow> bool" where
  "sw_identity r \<longleftrightarrow>
     wk_id r = ScheduledWakeupID (wk_tank_session_id r) (wk_provider r) (sw_provider_item_id r) \<and>
     wk_client_nonce r = ScheduledWakeupClientNonce (wk_id r)"

definition sw_ok :: "ScheduledWakeup list \<Rightarrow> bool" where
  "sw_ok T \<longleftrightarrow> table_ok MaxScheduledWakeupAttempts T \<and> list_all sw_identity T"

lemma sw_identity_unaffected: "unaffected sw_identity"
  by (simp add: unaffected_def sw_identity_def wake_rows)

lemma hex_nonce: "list_all nonce_char (take n (sha256_hex v))"
proof -
  have "nonce_char (hex_digit n)" if "n < 16" for n
  proof -
    have "byte_of (hex_digit n) \<noteq> byte_of (CHR '':'')" using that by (auto simp: hex_digit_def byte_of_def)
    then show ?thesis using that by (auto simp: hex_digit_def nonce_char_def safe_char_def byte_of_def)
  qed
  then have "list_all nonce_char (sha256_hex v)"
    using sha256_hex_digits by (auto simp: list_all_iff)
  then show ?thesis by (auto simp: list_all_iff dest: in_set_takeD)
qed

lemma nonce_trim: "list_all nonce_char s \<Longrightarrow> TrimSpace s = s"
  by (rule TrimSpace_safe) (auto simp: list_all_iff nonce_char_def)

lemmas nonce_eval = nonce_char_def safe_char_def byte_of_def

lemma ScheduledWakeupID_nonce: "list_all nonce_char (ScheduledWakeupID t p i)"
  using hex_nonce by (simp add: ScheduledWakeupID_def hashed_id_def nonce_eval)

lemma ScheduledWakeupID_nonempty: "ScheduledWakeupID t p i \<noteq> []"
  by (simp add: ScheduledWakeupID_def hashed_id_def)

lemma ScheduledWakeupID_trim [simp]: "TrimSpace (ScheduledWakeupID t p i) = ScheduledWakeupID t p i"
  by (rule nonce_trim) (rule ScheduledWakeupID_nonce)

lemma sw_nonce: "ScheduledWakeupClientNonce (ScheduledWakeupID t p i) = ''schedule_wakeup-'' @ ScheduledWakeupID t p i"
  by (simp add: ScheduledWakeupClientNonce_def ScheduledWakeupID_nonempty)

lemma sw_nonce_of: "sw_identity r \<Longrightarrow> wk_client_nonce r = ''schedule_wakeup-'' @ wk_id r"
  unfolding sw_identity_def using sw_nonce by simp

lemma requested_wakeup_identity: "sw_identity (requested_wakeup store clock req)"
  by (simp add: sw_identity_def requested_wakeup_def Let_def)

lemma sw_same_id:
  assumes "sw_identity a" "sw_identity b" "same_item a b \<or> same_nonce a b"
  shows "wk_id a = wk_id b"
  using assms(3)
proof
  assume "same_item a b"
  then show ?thesis using assms(1,2) by (simp add: same_item_def sw_identity_def)
next
  assume "same_nonce a b"
  then show ?thesis
    using sw_nonce_of [OF assms(1)] sw_nonce_of [OF assms(2)] by (simp add: same_nonce_def)
qed

text \<open>Registering never fails: the row with the id of the request is returned as it is, or added.\<close>

lemma SW_Register_cases:
  assumes "sw_ok T"
  shows "SW_Register store clock req T =
    (case find_wake (wk_id (requested_wakeup store clock req)) T of
       Some r \<Rightarrow> (Inr r, T)
     | None \<Rightarrow> (Inr (requested_wakeup store clock req), T @ [requested_wakeup store clock req]))"
proof -
  let ?new = "requested_wakeup store clock req"
  have "\<not> same_item r ?new \<and> \<not> same_nonce r ?new" if "find_wake (wk_id ?new) T = None" "r \<in> set T" for r
    using that assms sw_same_id [of r ?new] requested_wakeup_identity by (auto simp: find_wake_None sw_ok_def list_all_iff image_iff)
  then show ?thesis
    by (auto simp: SW_Register_def insert_wake_def split: option.split)
qed

lemma sw_register_ok: "sw_ok T \<Longrightarrow> sw_ok (snd (SW_Register store clock req T))"
  using requested_wakeup_identity [of store clock req]
  by (auto simp: SW_Register_cases sw_ok_def table_ok_def find_wake_None life_ok_def requested_wakeup_def Let_def
        MaxScheduledWakeupAttempts_def split: option.split)

lemma sw_step_ok: "sw_ok T \<Longrightarrow> sw_ok (sw_step a T)"
proof (induction a T rule: sw_step.induct)
  case (1 store clock req T)
  then show ?case by (simp add: sw_register_ok)
next
  case (2 store a T)
  then show ?case
    by (simp add: sw_ok_def life_step_ok life_step_all sw_identity_unaffected)
qed

lemma find_sw_register:
  assumes "sw_ok T"
  shows "find_wake w (snd (SW_Register store clock req T)) =
    (case find_wake w T of Some r \<Rightarrow> Some r
     | None \<Rightarrow> if wk_id (requested_wakeup store clock req) = w then Some (requested_wakeup store clock req) else None)"
  by (auto simp: SW_Register_cases [OF assms] find_wake_append split: option.split)

lemma sw_attempts_register: "sw_ok T \<Longrightarrow> attempts_of w (snd (SW_Register store clock req T)) = attempts_of w T"
  by (simp add: attempts_of_def find_sw_register split: option.split) (simp add: requested_wakeup_def Let_def)

lemma sw_phase_register:
  "sw_ok T \<Longrightarrow> phase_of w T \<in> {Leased t, Closed} \<Longrightarrow> phase_of w (snd (SW_Register store clock req T)) = phase_of w T"
  by (auto simp: phase_of_def find_sw_register split: option.splits)

interpretation scheduled: lease_store sw_ok sw_step sw_handed "\<lambda>a. life_moment (sw_life a)" "\<lambda>a. life_patience (sw_life a)"
  phase_of "\<lambda>w a. life_reopens w (sw_life a)" attempts_of "\<lambda>w a. 0" MaxScheduledWakeupAttempts
proof (unfold_locales, goal_cases)
  case (1 T a)
  then show ?case by (rule sw_step_ok)
next
  case (5 T w)
  then show ?case
    by (auto simp: sw_ok_def table_ok_def attempts_of_def life_ok_def MaxScheduledWakeupAttempts_def split: option.split dest!: find_wake_id)
next
  case (6 T w a)
  then show ?case
    by (cases a rule: sw_life.cases) (simp_all add: sw_handed_def sw_attempts_register split del: if_split, simp add: sw_ok_def life_step_spent split del: if_split)
next
  case (2 T w a)
  then show ?case by (cases a rule: sw_life.cases) (auto simp: sw_handed_def sw_ok_def life_step_leases)
next
  case (3 T w a)
  then show ?case by (cases a rule: sw_life.cases) (auto simp: sw_handed_def sw_ok_def dest: life_step_respects)
next
  case (4 T w a t)
  then show ?case
    by (cases a rule: sw_life.cases)
      (simp_all add: sw_handed_def sw_phase_register, use life_step_settles in \<open>fastforce simp: sw_ok_def\<close>)
qed

section \<open>Background-task wakes\<close>

datatype task_op =
    BwRegister int int RegisterBackgroundTaskWakeRequest
  | BwLife life_op
  | BwRelease string int
  | BwCancelTask string string string string int

fun bw_step :: "string \<times> task_op \<Rightarrow> BackgroundTaskWake list \<Rightarrow> BackgroundTaskWake list" where
  "bw_step (store, BwRegister clock now req) T = snd (BW_Register store clock now req T)"
| "bw_step (store, BwLife a) T = life_step store MaxBackgroundTaskWakeAttempts a T"
| "bw_step (store, BwRelease i clock) T = Release i clock T"
| "bw_step (store, BwCancelTask scope sid taskID reason clock) T = snd (CancelPendingForTask store scope sid taskID reason clock T)"

fun bw_life :: "string \<times> task_op \<Rightarrow> life_op" where
  "bw_life (store, BwLife a) = a"
| "bw_life (store, a) = CancelSession [] [] 0"

definition bw_handed :: "string \<times> task_op \<Rightarrow> BackgroundTaskWake list \<Rightarrow> string list" where
  "bw_handed a T = life_handed (fst a) MaxBackgroundTaskWakeAttempts (bw_life a) T"

fun bw_refund :: "string \<Rightarrow> string \<times> task_op \<Rightarrow> int" where
  "bw_refund w (store, BwRelease i clock) = (if TrimSpace i = w then 1 else 0)"
| "bw_refund w (store, a) = 0"

fun bw_reopens :: "string \<Rightarrow> string \<times> task_op \<Rightarrow> bool" where
  "bw_reopens w (store, BwRelease i clock) = (TrimSpace i = w)"
| "bw_reopens w (store, BwLife a) = life_reopens w a"
| "bw_reopens w (store, a) = False"

definition bw_identity :: "BackgroundTaskWake \<Rightarrow> bool" where
  "bw_identity r \<longleftrightarrow>
     wk_id r = BackgroundTaskWakeIDForGeneration (wk_tank_session_id r) (wk_provider r) (bw_task_id r) (bw_generation r) \<and>
     wk_client_nonce r = BackgroundTaskWakeClientNonceForGeneration (bw_task_id r) (bw_generation r) \<and>
     1 \<le> bw_generation r \<and> bw_generation r \<le> maxBackgroundTaskWakeGenerations"

abbreviation task_key :: "BackgroundTaskWake \<Rightarrow> string \<times> string \<times> int" where
  "task_key r \<equiv> (wk_tank_session_id r, bw_task_id r, bw_generation r)"

abbreviation nonce_key :: "'a wake_row_scheme \<Rightarrow> string \<times> string" where
  "nonce_key r \<equiv> (wk_tank_session_id r, wk_client_nonce r)"

definition bw_ok :: "BackgroundTaskWake list \<Rightarrow> bool" where
  "bw_ok T \<longleftrightarrow> table_ok MaxBackgroundTaskWakeAttempts T \<and> list_all bw_identity T \<and>
     distinct (map task_key T) \<and> distinct (map nonce_key T)"

lemma bw_unaffected: "unaffected bw_identity" "unaffected task_key" "unaffected (nonce_key :: BackgroundTaskWake \<Rightarrow> _)"
  by (simp_all add: unaffected_def bw_identity_def wake_rows)

text \<open>The two updates that only this table has.\<close>

lemma task_rows_keep [simp]:
  "keeps_id (refresh_facts clock req)" "keeps_id (cancelled_task_row reason clock)"
  "bw_identity (refresh_facts clock req r) = bw_identity r" "bw_identity (cancelled_task_row reason clock r) = bw_identity r"
  "task_key (refresh_facts clock req r) = task_key r" "task_key (cancelled_task_row reason clock r) = task_key r"
  "nonce_key (refresh_facts clock req r) = nonce_key r" "nonce_key (cancelled_task_row reason clock r) = nonce_key r"
  "life_ok cap (refresh_facts clock req r) = life_ok cap r"
  "wk_attempt_count (refresh_facts clock req r) = wk_attempt_count r" "wk_attempt_count (cancelled_task_row reason clock r) = wk_attempt_count r"
  "phase_of_row (refresh_facts clock req r) = phase_of_row r" "phase_of_row (cancelled_task_row reason clock r) = Closed"
  by (simp_all add: keeps_id_def refresh_facts_def cancelled_task_row_def cancelled_row_def bw_identity_def life_ok_def phase_of_row_def
      split: wake_status.split option.split)

lemma cancelled_task_life: "life_ok cap r \<Longrightarrow> life_ok cap (cancelled_task_row reason clock r)"
  by (auto simp: life_ok_def cancelled_task_row_def cancelled_row_def)

lemma bw_ok_update:
  assumes "bw_ok T" "keeps_id f" "\<And>r. bw_identity (f r) = bw_identity r" "\<And>r. task_key (f r) = task_key r"
    "\<And>r. nonce_key (f r) = nonce_key r" "\<And>r. life_ok MaxBackgroundTaskWakeAttempts r \<Longrightarrow> life_ok MaxBackgroundTaskWakeAttempts (f r)"
  shows "bw_ok (update_wakes p f T)"
proof -
  have "table_ok MaxBackgroundTaskWakeAttempts (update_wakes p f T)"
    using assms(1) by (intro table_ok_update assms) (auto simp: bw_ok_def table_ok_def)
  moreover have "list_all bw_identity (update_wakes p f T) = list_all bw_identity T"
    by (rule list_all_by_map) (simp add: map_update_wakes assms(3))
  moreover have "map task_key (update_wakes p f T) = map task_key T" "map nonce_key (update_wakes p f T) = map nonce_key T"
    by (rule map_update_wakes, rule assms)+
  ultimately show ?thesis using assms(1) by (simp add: bw_ok_def)
qed

text \<open>Inserting a generation adds its row or leaves the table.\<close>

lemma insert_wake_table:
  "snd (insert_wake same_task ix new T) =
     (if find_wake (wk_id new) T = None \<and> \<not> (\<exists>r\<in>set T. same_task r new) \<and> \<not> (\<exists>r\<in>set T. same_nonce r new) then T @ [new] else T)"
  by (auto simp: insert_wake_def split: option.split)

lemma requested_wake_fields:
  "wk_attempt_count (requested_wake store clock now req g) = 0" "wk_status (requested_wake store clock now req g) = WakeScheduled"
  "wk_locked_at (requested_wake store clock now req g) = None" "bw_generation (requested_wake store clock now req g) = g"
  "bw_task_id (requested_wake store clock now req g) = TrimSpace (rb_TaskID req)"
  "wk_tank_session_id (requested_wake store clock now req g) = SessionStorageKey (given_scope store (rb_SessionScope req)) (TrimSpace (rb_SessionID req))"
  by (simp_all add: requested_wake_def Let_def)

lemma requested_wake_identity: "1 \<le> g \<Longrightarrow> g \<le> maxBackgroundTaskWakeGenerations \<Longrightarrow> bw_identity (requested_wake store clock now req g)"
  by (simp add: bw_identity_def requested_wake_def Let_def)

lemma insertGeneration_ok:
  assumes "bw_ok T" "1 \<le> g" "g \<le> maxBackgroundTaskWakeGenerations"
  shows "bw_ok (snd (insertGeneration store clock now req g T))"
  using assms requested_wake_identity [OF assms(2,3), of store clock now req]
  by (auto simp: insertGeneration_def insert_wake_table bw_ok_def table_ok_def find_wake_None same_generation_def same_nonce_def
        life_ok_def requested_wake_fields MaxBackgroundTaskWakeAttempts_def)

lemma latest_generation_Some:
  assumes "latest_generation tank task T = Some r"
  shows "r \<in> set T \<and> wk_tank_session_id r = tank \<and> bw_task_id r = task \<and>
    (\<forall>x\<in>set T. wk_tank_session_id x = tank \<and> bw_task_id x = task \<longrightarrow> bw_generation x \<le> bw_generation r)"
proof -
  let ?F = "filter (\<lambda>r. wk_tank_session_id r = tank \<and> bw_task_id r = task) T"
  obtain rs where s: "sort_key (\<lambda>r. - bw_generation r) ?F = r # rs"
    using assms by (auto simp: latest_generation_def split: list.splits)
  have "sorted (map (\<lambda>r. - bw_generation r) (r # rs))" using sorted_sort_key [of "\<lambda>r. - bw_generation r" ?F] s by simp
  moreover have "set ?F = set (r # rs)" using s set_sort [of "\<lambda>r. - bw_generation r" ?F] by metis
  ultimately show ?thesis by auto
qed

lemma latest_generation_None:
  "latest_generation tank task T = None \<longleftrightarrow> \<not> (\<exists>x\<in>set T. wk_tank_session_id x = tank \<and> bw_task_id x = task)"
proof -
  have "latest_generation tank task T = None \<longleftrightarrow> sort_key (\<lambda>r. - bw_generation r) (filter (\<lambda>r. wk_tank_session_id r = tank \<and> bw_task_id r = task) T) = []"
    by (simp add: latest_generation_def split: list.split)
  also have "\<dots> \<longleftrightarrow> filter (\<lambda>r. wk_tank_session_id r = tank \<and> bw_task_id r = task) T = []"
    by (simp flip: length_0_conv)
  finally show ?thesis by (auto simp: filter_empty_conv)
qed

lemma BW_Register_table:
  assumes "bw_ok T"
  obtains (same) "snd (BW_Register store clock now req T) = T"
  | (refresh) p where "snd (BW_Register store clock now req T) = update_wakes p (refresh_facts clock req) T"
  | (add) g where "1 \<le> g" "g \<le> maxBackgroundTaskWakeGenerations"
      "snd (BW_Register store clock now req T) = snd (insertGeneration store clock now req g T)"
proof -
  define tank where "tank = SessionStorageKey (given_scope store (rb_SessionScope req)) (TrimSpace (rb_SessionID req))"
  note reg = BW_Register_def [of store clock now req T, folded tank_def] Let_def with_outcome_def
  show ?thesis
  proof (cases "latest_generation tank (TrimSpace (rb_TaskID req)) T")
    case None
    then show ?thesis by (intro add [of 1]) (simp_all add: reg maxBackgroundTaskWakeGenerations_def)
  next
    case (Some l)
    have l: "1 \<le> bw_generation l"
      using latest_generation_Some [OF Some] assms by (auto simp: bw_ok_def list_all_iff bw_identity_def)
    consider "pending l" | "\<not> pending l" "wk_status l = WakeFired" "TrimSpace (rb_ObservedEventID req) \<noteq> []"
        "bw_observed_event_id l \<noteq> []" "TrimSpace (rb_ObservedEventID req) \<noteq> bw_observed_event_id l"
        "bw_generation l < maxBackgroundTaskWakeGenerations"
      | "snd (BW_Register store clock now req T) = T"
      by (fastforce simp: reg Some split: if_splits)
    then show ?thesis
    proof cases
      case 1
      then show ?thesis by (intro refresh) (simp add: reg Some)
    next
      case 2
      then show ?thesis using l by (intro add [of "bw_generation l + 1"]) (simp_all add: reg Some)
    qed (rule same)
  qed
qed

lemma bw_register_ok: "bw_ok T \<Longrightarrow> bw_ok (snd (BW_Register store clock now req T))"
  by (cases rule: BW_Register_table [of T store clock now req]) (simp_all add: insertGeneration_ok bw_ok_update)

lemma find_insertGeneration:
  "find_wake w (snd (insertGeneration store clock now req g T)) = find_wake w T \<or>
   (find_wake w T = None \<and> find_wake w (snd (insertGeneration store clock now req g T)) = Some (requested_wake store clock now req g))"
  by (auto simp: insertGeneration_def insert_wake_table find_wake_append split: option.split)

lemma bw_register_find:
  assumes "bw_ok T"
  shows "attempts_of w (snd (BW_Register store clock now req T)) = attempts_of w T"
    "phase_of w T \<in> {Leased t, Closed} \<Longrightarrow> phase_of w (snd (BW_Register store clock now req T)) = phase_of w T"
proof -
  have new: "attempts_of w (snd (insertGeneration store clock now req g T)) = attempts_of w T"
      "phase_of w T \<noteq> Absent \<Longrightarrow> phase_of w (snd (insertGeneration store clock now req g T)) = phase_of w T" for g
    using find_insertGeneration [of w store clock now req g T] by (auto simp: attempts_of_def phase_of_def requested_wake_fields)
  have upd: "attempts_of w (update_wakes p (refresh_facts clock req) T) = attempts_of w T"
      "phase_of w (update_wakes p (refresh_facts clock req) T) = phase_of w T" for p
    by (auto simp: attempts_of_def phase_of_def find_update_wakes split: option.split)
  show "attempts_of w (snd (BW_Register store clock now req T)) = attempts_of w T"
    by (cases rule: BW_Register_table [OF assms, of store clock now req]) (simp_all add: new upd)
  show "phase_of w (snd (BW_Register store clock now req T)) = phase_of w T" if "phase_of w T \<in> {Leased t, Closed}"
    using that by (cases rule: BW_Register_table [OF assms, of store clock now req]) (auto simp: new upd)
qed

lemma Release_eq: "Release i clock T = update_wakes (\<lambda>r. wk_id r = TrimSpace i) (refunded_row clock) T"
  by (simp add: Release_def set_wake_def)

lemma CancelPendingForTask_eq:
  "snd (CancelPendingForTask store scope sid taskID reason clock T) =
     update_wakes (\<lambda>r. TrimSpace sid \<noteq> [] \<and> TrimSpace taskID \<noteq> [] \<and> waits_for store scope sid r \<and> bw_task_id r = TrimSpace taskID)
       (cancelled_task_row reason clock) T"
  by (auto simp: CancelPendingForTask_def Let_def update_wakes_def)

lemma bw_step_ok: "bw_ok T \<Longrightarrow> bw_ok (bw_step a T)"
proof (induction a T rule: bw_step.induct)
  case (1 store clock now req T)
  then show ?case by (simp add: bw_register_ok)
next
  case (2 store a T)
  then show ?case
    using bw_unaffected by (simp add: bw_ok_def life_step_ok life_step_all life_step_map)
next
  case (3 store i clock T)
  then show ?case
    using bw_unaffected unfolding bw_step.simps Release_eq
    by (intro bw_ok_update) (auto simp: unaffected_def intro: life_ok_rows)
next
  case (4 store scope sid taskID reason clock T)
  then show ?case
    unfolding bw_step.simps CancelPendingForTask_eq by (intro bw_ok_update) (auto intro: cancelled_task_life)
qed

interpretation tasks: lease_store bw_ok bw_step bw_handed "\<lambda>a. life_moment (bw_life a)" "\<lambda>a. life_patience (bw_life a)"
  phase_of bw_reopens attempts_of bw_refund MaxBackgroundTaskWakeAttempts
proof (unfold_locales, goal_cases)
  case (1 T a)
  then show ?case by (rule bw_step_ok)
next
  case (5 T w)
  then show ?case
    by (auto simp: bw_ok_def table_ok_def attempts_of_def life_ok_def MaxBackgroundTaskWakeAttempts_def split: option.split dest!: find_wake_id)
next
  case (6 T w a)
  have ok: "table_ok MaxBackgroundTaskWakeAttempts T" using 6 by (simp add: bw_ok_def)
  show ?case
  proof (cases "(a, T)" rule: bw_step.cases)
    case (3 store i clock T')
    have "0 \<le> wk_attempt_count r" if "find_wake w T = Some r" for r
      using find_wake_id [OF that] ok by (auto simp: table_ok_def life_ok_def)
    then show ?thesis using 3
      by (auto simp: bw_handed_def Release_eq find_update_wakes attempts_of_def split: option.split dest: find_wake_id)
  next
    case (4 store scope sid taskID reason clock T')
    then show ?thesis
      by (simp add: bw_handed_def CancelPendingForTask_eq attempts_mono del: bw_step.simps add: bw_step.simps(4))
  qed (use 6 ok in \<open>simp_all add: bw_handed_def bw_register_find life_step_spent split del: if_split\<close>)
next
  case (2 T w a)
  then show ?case by (cases a rule: bw_life.cases) (auto simp: bw_handed_def bw_ok_def life_step_leases)
next
  case (3 T w a)
  then show ?case by (cases a rule: bw_life.cases) (auto simp: bw_handed_def bw_ok_def dest: life_step_respects)
next
  case (4 T w a t)
  note outer = 4
  show ?case
  proof (cases "(a, T)" rule: bw_step.cases)
    case (1 store clock now req T')
    then show ?thesis using outer bw_register_find(2) [of T w t] by simp
  next
    case (2 store b T')
    then show ?thesis using outer life_step_settles [of MaxBackgroundTaskWakeAttempts T w store b t] by (simp add: bw_handed_def bw_ok_def)
  next
    case (3 store i clock T')
    then show ?thesis
      using outer by (auto simp: Release_eq find_update_wakes phase_of_def split: option.splits dest: find_wake_id)
  next
    case (4 store scope sid taskID reason clock T')
    then show ?thesis
      using outer by (auto simp: CancelPendingForTask_eq find_update_wakes phase_of_def split: option.splits)
  qed
qed

end
