(* ===== verification/Wake_Guarantees.thy ===== *)
theory Wake_Guarantees
  imports Wake_Leases
begin

text \<open>
  What the wake stores guarantee, from the contract \<open>lease_store\<close> and the shape of the reachable tables: claims are
  bounded, a live claim is exclusive, no wake stays pending when its fires never complete, registration is
  idempotent and re-arming bounded. Two theorems show where the guarantees end.
\<close>

section \<open>Claims\<close>

lemma empty_tables [simp]: "sw_ok []" "bw_ok []" "attempts_of w [] = 0"
  by (simp_all add: sw_ok_def bw_ok_def table_ok_def attempts_of_def find_wake_def)

text \<open>
  C8: whatever operations are run on the two tables, by any number of processes and in any order, a scheduled
  wake-up is handed to a fire loop at most five times, and a background-task wake at most five times more
  often than its attempts are refunded.
\<close>

theorem wake_claims_bounded:
  "claims sw_step sw_handed w as [] \<le> 5 \<and>
   claims bw_step bw_handed w bs [] \<le> 5 + sum_list (map (bw_refund w) bs)"
  using scheduled.claims_bounded [of "[]" w as] tasks.claims_bounded [of "[]" w bs]
  by (simp add: MaxScheduledWakeupAttempts_def MaxBackgroundTaskWakeAttempts_def)

lemma SW_ClaimDue_handed:
  "map (\<lambda>p. wk_id (fst p)) (fst (SW_ClaimDue render db store locked clock now limit stale T)) =
     sw_handed (store, SwLife (ClaimDue locked clock now limit stale)) T"
  "snd (SW_ClaimDue render db store locked clock now limit stale T) = sw_step (store, SwLife (ClaimDue locked clock now limit stale)) T"
  by (simp_all add: SW_ClaimDue_def sw_handed_def split_def comp_def Let_def)


definition sample_request :: RegisterScheduledWakeupRequest where
  "sample_request = \<lparr>rq_SessionScope = ''default'', rq_SessionID = ''7'', rq_OwnerEmail = ''u@x'', rq_Provider = ''claude'',
     rq_Prompt = ''go on'', rq_ScheduledTurnID = [], rq_ProviderItemID = ''toolu_1'', rq_ScheduledAt = 1, rq_DueAt = 10\<rparr>"

lemma sample_registered:
  "fold sw_step [(''default'', SwRegister 1 sample_request)] [] = [requested_wakeup ''default'' 1 sample_request]"
  "wk_due_at (requested_wakeup ''default'' 1 sample_request) = 10"
  "wk_session_scope (requested_wakeup ''default'' 1 sample_request) = ''default''"
  "wk_status (requested_wakeup ''default'' 1 sample_request) = WakeScheduled"
  "wk_attempt_count (requested_wakeup ''default'' 1 sample_request) = 0"
proof -
  have "given_scope ''default'' ''default'' = ''default''" by code_simp
  then show "fold sw_step [(''default'', SwRegister 1 sample_request)] [] = [requested_wakeup ''default'' 1 sample_request]"
    "wk_due_at (requested_wakeup ''default'' 1 sample_request) = 10"
    "wk_session_scope (requested_wakeup ''default'' 1 sample_request) = ''default''"
    "wk_status (requested_wakeup ''default'' 1 sample_request) = WakeScheduled"
    "wk_attempt_count (requested_wakeup ''default'' 1 sample_request) = 0"
    by (simp_all add: SW_Register_def insert_wake_def find_wake_def requested_wakeup_def sample_request_def Let_def)
qed

lemma claim_single:
  assumes "claimable store cap now (effective_stale stale) r"
  shows "claim_due store cap (\<lambda>_. False) clock now 1 stale [r] = ([claim_row clock now r], [claim_row clock now r])"
  using assms by (simp add: claim_due_def claim_ids_def pick_ids_def effective_limit_def update_wakes_def)


section \<open>No limbo\<close>

text \<open>One pass of the fire loop over the store: give up on capped wake-ups, then claim the due ones.\<close>

definition sweep_and_claim ::
  "(goany \<Rightarrow> string) \<Rightarrow> sessions_db \<Rightarrow> string \<Rightarrow> int \<Rightarrow> int \<Rightarrow> int \<Rightarrow> ScheduledWakeup list \<Rightarrow> ScheduledWakeup list" where
  "sweep_and_claim render db store limit stale now T =
     snd (SW_ClaimDue render db store (\<lambda>_. False) now now limit stale
           (snd (SW_FailExceeded store (\<lambda>_. False) now now limit stale T)))"

text \<open>Wake-ups of the store that are due at an instant and not over.\<close>

definition owed :: "string \<Rightarrow> int \<Rightarrow> 'a wake_row_scheme \<Rightarrow> bool" where
  "owed store t r \<longleftrightarrow> wk_session_scope r = store \<and> wk_due_at r \<le> t \<and> pending r"

text \<open>Every wake-up that is owed has been tried so many times, and its claim is over at the given time.\<close>

definition tried :: "string \<Rightarrow> int \<Rightarrow> int \<Rightarrow> int \<Rightarrow> int \<Rightarrow> 'a wake_table \<Rightarrow> bool" where
  "tried store t k now stale T \<longleftrightarrow> (\<forall>r\<in>set T. owed store t r \<longrightarrow> k \<le> wk_attempt_count r \<and> claim_expired now (effective_stale stale) r)"

definition crowd :: "string \<Rightarrow> 'a wake_table \<Rightarrow> nat" where
  "crowd store T = length (filter (\<lambda>r. wk_session_scope r = store \<and> pending r) T)"

lemma pass_rows:
  fixes T :: "'a wake_table" and store :: string and cap now limit stale :: int
  assumes ok: "table_ok cap T" and few: "crowd store T \<le> nat (effective_limit limit)"
  defines "T1 \<equiv> snd (fail_exceeded store cap (\<lambda>_. False) now now limit stale T)"
  defines "T2 \<equiv> snd (claim_due store cap (\<lambda>_. False) now now limit stale T1)"
  shows "T1 = update_wakes (exceeded store cap now (effective_stale stale)) (give_up_row now) T"
    "T2 = update_wakes (claimable store cap now (effective_stale stale)) (claim_row now now) T1"
    "crowd store T2 \<le> crowd store T"
proof -
  have pend: "pending r" if "claim_expired n s r" for n s and r :: "'a wake_row_scheme"
    using that by (auto simp: claim_expired_def pending_def)
  have exact: "wk_id r \<in> set (pick_ids (\<lambda>_. False) (effective_limit limit) (filter P U)) \<longleftrightarrow> P r"
    if "distinct (map wk_id U)" "r \<in> set U" "\<And>r. P r \<Longrightarrow> wk_session_scope r = store \<and> pending r" "crowd store U \<le> nat (effective_limit limit)"
    for P and U :: "'a wake_table" and r
  proof
    assume "wk_id r \<in> set (pick_ids (\<lambda>_. False) (effective_limit limit) (filter P U))"
    then show "P r" using picked_row [OF that(1)] find_wake_member [OF that(1,2)] by fastforce
  next
    assume "P r"
    have "length (filter P U) \<le> crowd store U"
      unfolding crowd_def using that(3) by (induction U) auto
    then show "wk_id r \<in> set (pick_ids (\<lambda>_. False) (effective_limit limit) (filter P U))"
      using \<open>P r\<close> that(2,4) by (intro pick_ids_all) auto
  qed
  have upd: "update_wakes p f U = update_wakes q f U" if "\<And>r. r \<in> set U \<Longrightarrow> p r = q r" for p q f and U :: "'a wake_table"
    using that by (simp add: update_wakes_def)
  have crowd_upd: "crowd store (update_wakes p f U) \<le> crowd store U"
    if "\<And>r. wk_session_scope (f r) = wk_session_scope r" "\<And>r. p r \<Longrightarrow> pending r" for p f and U :: "'a wake_table"
    using that unfolding crowd_def update_wakes_def by (induction U) auto
  show T1: "T1 = update_wakes (exceeded store cap now (effective_stale stale)) (give_up_row now) T"
    unfolding T1_def fail_exceeded_def Let_def snd_conv
    by (rule upd, rule exact) (use ok few in \<open>auto simp: table_ok_def exceeded_def pend\<close>)
  have few1: "crowd store T1 \<le> crowd store T"
    unfolding T1 by (rule crowd_upd) (auto simp: give_up_row_def exceeded_def pend)
  have ok1: "table_ok cap T1" unfolding T1 using ok by (rule table_ok_rows)
  show T2: "T2 = update_wakes (claimable store cap now (effective_stale stale)) (claim_row now now) T1"
    unfolding T2_def claim_due_def claim_ids_def Let_def snd_conv
    by (rule upd, rule exact) (use ok1 few few1 in \<open>auto simp: table_ok_def claimable_def pend\<close>)
  have "crowd store T2 \<le> crowd store T1"
    unfolding T2 by (rule crowd_upd) (auto simp: claim_row_def claimable_def pend)
  then show "crowd store T2 \<le> crowd store T" using few1 by simp
qed

lemma pass_cases:
  assumes "table_ok cap T" "crowd store T \<le> nat (effective_limit limit)"
    and "r' \<in> set (snd (claim_due store cap (\<lambda>_. False) now now limit stale (snd (fail_exceeded store cap (\<lambda>_. False) now now limit stale T))))"
  shows "\<exists>r\<in>set T. (exceeded store cap now (effective_stale stale) r \<and> r' = give_up_row now r) \<or>
    (claimable store cap now (effective_stale stale) r \<and> r' = claim_row now now r) \<or>
    (\<not> exceeded store cap now (effective_stale stale) r \<and> \<not> claimable store cap now (effective_stale stale) r \<and> r' = r)"
proof -
  have "\<not> claimable store cap now (effective_stale stale) (give_up_row now r)" for r :: "'a wake_row_scheme"
    by (simp add: claimable_def claim_expired_def give_up_row_def)
  then show ?thesis
    using assms(3) [unfolded pass_rows(2) [OF assms(1,2)], unfolded pass_rows(1) [OF assms(1,2)]]
    by (auto simp: set_update_wakes split: if_splits)
qed

text \<open>A pass tries every wake-up that is owed once more, and gives up on those at the cap.\<close>

lemma pass_tried:
  assumes "table_ok cap T" "crowd store T \<le> nat (effective_limit limit)"
    and "tried store t k now stale T" "t \<le> now" "now + effective_stale stale < now'"
  shows "tried store t (k + 1) now' stale
    (snd (claim_due store cap (\<lambda>_. False) now now limit stale (snd (fail_exceeded store cap (\<lambda>_. False) now now limit stale T))))"
  unfolding tried_def
proof (intro ballI impI)
  fix r' assume r': "r' \<in> set (snd (claim_due store cap (\<lambda>_. False) now now limit stale (snd (fail_exceeded store cap (\<lambda>_. False) now now limit stale T))))"
    and owed: "owed store t r'"
  obtain r where r: "r \<in> set T" and "(exceeded store cap now (effective_stale stale) r \<and> r' = give_up_row now r) \<or>
    (claimable store cap now (effective_stale stale) r \<and> r' = claim_row now now r) \<or>
    (\<not> exceeded store cap now (effective_stale stale) r \<and> \<not> claimable store cap now (effective_stale stale) r \<and> r' = r)"
    using pass_cases [OF assms(1,2) r'] by blast
  then consider "r' = give_up_row now r" | "claimable store cap now (effective_stale stale) r" "r' = claim_row now now r"
    | "\<not> exceeded store cap now (effective_stale stale) r" "\<not> claimable store cap now (effective_stale stale) r" "r' = r"
    by blast
  then show "k + 1 \<le> wk_attempt_count r' \<and> claim_expired now' (effective_stale stale) r'"
  proof cases
    case 1
    then show ?thesis using owed by (simp add: owed_def pending_def give_up_row_def)
  next
    case 2
    then have "k \<le> wk_attempt_count r"
      using r owed assms(3,4) by (auto simp: tried_def owed_def claimable_def pending_def claim_expired_def claim_row_def)
    then show ?thesis using 2 assms(5) by (simp add: claim_row_def claim_expired_def)
  next
    case 3
    then have "claim_expired now (effective_stale stale) r" using r owed assms(3) by (simp add: tried_def)
    then show ?thesis using 3 owed assms(4) by (auto simp: exceeded_def claimable_def owed_def)
  qed
qed

lemma sweep_and_claim_eq:
  "sweep_and_claim render db store limit stale now T =
     snd (claim_due store MaxScheduledWakeupAttempts (\<lambda>_. False) now now limit stale
       (snd (fail_exceeded store MaxScheduledWakeupAttempts (\<lambda>_. False) now now limit stale T)))"
  by (simp add: sweep_and_claim_def SW_ClaimDue_def SW_FailExceeded_def split_def Let_def)

lemma passes_tried:
  assumes "sorted_wrt (\<lambda>a b. a + effective_stale stale < b) (ticks @ [horizon])" "table_ok MaxScheduledWakeupAttempts T"
    and "crowd store T \<le> nat (effective_limit limit)" "list_all (\<lambda>now. t \<le> now) ticks"
    and "tried store t k (hd (ticks @ [horizon])) stale T"
  shows "table_ok MaxScheduledWakeupAttempts (fold (sweep_and_claim render db store limit stale) ticks T) \<and>
    tried store t (k + int (length ticks)) horizon stale (fold (sweep_and_claim render db store limit stale) ticks T)"
  using assms
proof (induction ticks arbitrary: T k)
  case (Cons now ticks)
  let ?T = "sweep_and_claim render db store limit stale now T"
  have "table_ok MaxScheduledWakeupAttempts ?T"
    using life_step_ok [OF life_step_ok [OF Cons.prems(2), of store "FailExceeded (\<lambda>_. False) now now limit stale"],
        of store "ClaimDue (\<lambda>_. False) now now limit stale"]
    by (simp add: sweep_and_claim_eq)
  moreover have "crowd store ?T \<le> nat (effective_limit limit)"
    using pass_rows(3) [OF Cons.prems(2,3), where now = now and stale = stale] Cons.prems(3) by (simp add: sweep_and_claim_eq)
  moreover have "tried store t (k + 1) (hd (ticks @ [horizon])) stale ?T"
    unfolding sweep_and_claim_eq
    by (rule pass_tried [OF Cons.prems(2,3)]) (use Cons.prems(1,4,5) in \<open>cases ticks; simp\<close>)+
  ultimately show ?case using Cons.IH [of ?T "k + 1"] Cons.prems(1,4) by (simp add: ac_simps)
qed simp



section \<open>Registration\<close>

lemma scheduled_table_facts:
  assumes "T = fold sw_step hist []"
  shows "distinct (map wk_id T)" "distinct (map nonce_key T)"
    "distinct (map (\<lambda>r. (wk_tank_session_id r, wk_provider r, sw_provider_item_id r)) T)"
    "list_all (\<lambda>r. turnIDPattern (wk_client_nonce r) \<and> 0 \<le> wk_attempt_count r \<and> wk_attempt_count r \<le> 5 \<and>
       (wk_locked_at r \<noteq> None \<longleftrightarrow> wk_status r = WakeClaiming) \<and> (wk_status r \<noteq> WakeFired \<or> wk_fired_at r \<noteq> None)) T"
proof -
  have ok: "sw_ok T" unfolding assms by (rule scheduled.run_inv) simp
  then show ids: "distinct (map wk_id T)" by (simp add: sw_ok_def table_ok_def)
  have same: "r = r'" if "r \<in> set T" "r' \<in> set T" "same_item r r' \<or> same_nonce r r'" for r r'
    using that sw_same_id [of r r'] ok ids by (auto simp: sw_ok_def list_all_iff distinct_map inj_on_def)
  show "distinct (map nonce_key T)" "distinct (map (\<lambda>r. (wk_tank_session_id r, wk_provider r, sw_provider_item_id r)) T)"
    using ids same by (auto simp: distinct_map inj_on_def same_item_def same_nonce_def)
  have "turnIDPattern (wk_client_nonce r)" if "sw_identity r" for r
  proof -
    obtain t p i where i: "wk_id r = ScheduledWakeupID t p i" using \<open>sw_identity r\<close> unfolding sw_identity_def by blast
    have "length (ScheduledWakeupID t p i) \<le> 39" by (simp add: ScheduledWakeupID_def hashed_id_def)
    then show ?thesis
      using sw_nonce_of [OF that] ScheduledWakeupID_nonce [of t p i] by (simp add: i turnIDPattern_def nonce_eval)
  qed
  then show "list_all (\<lambda>r. turnIDPattern (wk_client_nonce r) \<and> 0 \<le> wk_attempt_count r \<and> wk_attempt_count r \<le> 5 \<and>
       (wk_locked_at r \<noteq> None \<longleftrightarrow> wk_status r = WakeClaiming) \<and> (wk_status r \<noteq> WakeFired \<or> wk_fired_at r \<noteq> None)) T"
    using ok by (auto simp: sw_ok_def table_ok_def life_ok_def list_all_iff MaxScheduledWakeupAttempts_def)
qed



text \<open>
  registering a wake-up is idempotent and cannot fail on a table that the store has produced. The row with the id
  of the request is returned: the one that is there, whatever has become of it, and then nothing is written, or a new one
  that is scheduled and untried. A repetition of the request, after any operations, returns the same wake-up.
\<close>

theorem SW_Register_idempotent:
  assumes "SW_Register store clock req (fold sw_step hist []) = (res, T1)"
  shows "\<exists>r. res = Inr r \<and> wk_id r = wk_id (requested_wakeup store clock req) \<and>
      (if find_wake (wk_id r) (fold sw_step hist []) = None
       then T1 = fold sw_step hist [] @ [r] \<and> wk_status r = WakeScheduled \<and> wk_attempt_count r = 0
       else T1 = fold sw_step hist [] \<and> find_wake (wk_id r) T1 = Some r) \<and>
      (\<exists>r'. SW_Register store clock' req (fold sw_step more_ops T1) = (Inr r', fold sw_step more_ops T1) \<and> wk_id r' = wk_id r)"
proof -
  define T where "T = fold sw_step hist []"
  have ok: "sw_ok T" unfolding T_def by (rule scheduled.run_inv) simp
  have same_id: "wk_id (requested_wakeup store c req) = wk_id (requested_wakeup store clock req)" for c
    by (simp add: requested_wakeup_def Let_def)
  have fields: "wk_status (requested_wakeup store c req) = WakeScheduled" "wk_attempt_count (requested_wakeup store c req) = 0" for c
    by (simp_all add: requested_wakeup_def Let_def)
  have ok1: "sw_ok T1" using sw_register_ok [OF ok, of store clock req] assms by (simp add: T_def)
  have ids: "wk_id ` set T1 \<subseteq> wk_id ` set (fold sw_step ops T1)" if "sw_ok T1" for ops T1
    using that
  proof (induction ops arbitrary: T1)
    case (Cons a ops)
    have "wk_id ` set T1 \<subseteq> wk_id ` set (sw_step a T1)"
    proof (cases "(a, T1)" rule: sw_step.cases)
      case (1 store clock req T)
      then show ?thesis using Cons.prems by (auto simp: SW_Register_cases split: option.split)
    next
      case (2 store b T)
      then show ?thesis using arg_cong [OF life_step_ids [of store MaxScheduledWakeupAttempts b T], of set] by simp
    qed
    then show ?case using Cons.IH [OF sw_step_ok [OF Cons.prems], of a] by auto
  qed simp
  obtain r where r: "res = Inr r" "wk_id r = wk_id (requested_wakeup store clock req)" "wk_id r \<in> wk_id ` set T1"
      "if find_wake (wk_id r) T = None then T1 = T @ [r] \<and> wk_status r = WakeScheduled \<and> wk_attempt_count r = 0
       else T1 = T \<and> find_wake (wk_id r) T1 = Some r"
  proof (cases "find_wake (wk_id (requested_wakeup store clock req)) T")
    case None
    then have "res = Inr (requested_wakeup store clock req)" "T1 = T @ [requested_wakeup store clock req]"
      using assms SW_Register_cases [OF ok, of store clock req] by (auto simp: T_def)
    then show ?thesis using None by (intro that [of "requested_wakeup store clock req"]) (auto simp: fields)
  next
    case (Some r)
    then have "res = Inr r" "T1 = T"
      using assms SW_Register_cases [OF ok, of store clock req] by (auto simp: T_def)
    then show ?thesis using Some find_wake_id [OF Some] by (intro that [of r]) (auto intro: rev_image_eqI)
  qed
  have "wk_id r \<in> wk_id ` set (fold sw_step more_ops T1)" using ids [OF ok1] r(3) by blast
  then obtain r' where r': "find_wake (wk_id r) (fold sw_step more_ops T1) = Some r'"
    using find_wake_None by (metis not_None_eq)
  have "find_wake (wk_id (requested_wakeup store clock' req)) (fold sw_step more_ops T1) = Some r'"
    using r' unfolding r(2) same_id [of clock'] .
  then have "SW_Register store clock' req (fold sw_step more_ops T1) = (Inr r', fold sw_step more_ops T1)"
    by (simp only: SW_Register_cases [OF scheduled.run_inv [OF ok1]] option.case)
  then show ?thesis using r(1,2,4) r' find_wake_id by (fastforce simp: T_def)
qed

theorem SW_Register_idempotent_witness:
  "wk_status (requested_wakeup ''default'' 1 sample_request) = WakeScheduled"
proof -
  have "SW_Register ''default'' 1 sample_request (fold sw_step [] []) =
      (Inr (requested_wakeup ''default'' 1 sample_request), [requested_wakeup ''default'' 1 sample_request])"
    by (simp add: SW_Register_def insert_wake_def find_wake_def)
  from SW_Register_idempotent [OF this, where more_ops = "[]" and clock' = 2] show ?thesis by (auto simp: find_wake_def)
qed

text \<open>
  what registering an observation of a background task does. It leaves the table as it is, or refreshes the
  facts of the task's latest wake while that wake is pending, without touching its progress, or adds one wake: the
  first of the task, or the next generation when the latest has fired, was observed as another event, and is
  below the cap. A failed or cancelled task is never woken again.
\<close>

theorem BW_Register_effect:
  assumes "T = fold bw_step hist []" "BW_Register store clock now req T = (res, T')"
    and "latest = latest_generation (SessionStorageKey (given_scope store (rb_SessionScope req)) (TrimSpace (rb_SessionID req)))
           (TrimSpace (rb_TaskID req)) T"
  shows "T' = T \<or>
    (\<exists>l. latest = Some l \<and> pending l \<and> T' = map (\<lambda>r. if wk_id r = wk_id l then refresh_facts clock req r else r) T \<and>
       map phase_of_row T' = map phase_of_row T \<and> map wk_attempt_count T' = map wk_attempt_count T) \<or>
    (\<exists>r. T' = T @ [r] \<and> res \<in> {Inr (r, RegisterScheduled), Inr (r, RegisterRearmed)} \<and>
       wk_status r = WakeScheduled \<and> wk_attempt_count r = 0 \<and> bw_generation r \<le> 3 \<and>
       (case latest of None \<Rightarrow> bw_generation r = 1
        | Some l \<Rightarrow> wk_status l = WakeFired \<and> bw_generation r = bw_generation l + 1 \<and>
            TrimSpace (rb_ObservedEventID req) \<noteq> [] \<and> bw_observed_event_id l \<noteq> [] \<and>
            TrimSpace (rb_ObservedEventID req) \<noteq> bw_observed_event_id l))"
proof -
  define tank where "tank = SessionStorageKey (given_scope store (rb_SessionScope req)) (TrimSpace (rb_SessionID req))"
  have latest: "latest = latest_generation tank (TrimSpace (rb_TaskID req)) T" using assms(3) by (simp add: tank_def)
  note reg = BW_Register_def [of store clock now req T, folded tank_def, unfolded Let_def, folded latest]
  have add: "T' = T \<or> (T' = T @ [requested_wake store clock now req g] \<and> res = Inr (requested_wake store clock now req g, outc))"
    if "(res, T') = with_outcome outc (insertGeneration store clock now req g T)" for g outc
    using that by (auto simp: with_outcome_def insertGeneration_def insert_wake_def split: option.splits if_splits)
  show ?thesis
  proof (cases latest)
    case None
    then have "(res, T') = with_outcome RegisterScheduled (insertGeneration store clock now req 1 T)"
      using assms(2) by (simp add: reg)
    then show ?thesis using None add by (fastforce simp: requested_wake_fields)
  next
    case (Some l)
    consider "pending l" "T' = update_wakes (\<lambda>r. wk_id r = wk_id l) (refresh_facts clock req) T" | "T' = T"
      | "wk_status l = WakeFired" "TrimSpace (rb_ObservedEventID req) \<noteq> []" "bw_observed_event_id l \<noteq> []"
        "TrimSpace (rb_ObservedEventID req) \<noteq> bw_observed_event_id l" "bw_generation l + 1 \<le> 3"
        "(res, T') = with_outcome RegisterRearmed (insertGeneration store clock now req (bw_generation l + 1) T)"
      using assms(2) by (auto simp: reg Some maxBackgroundTaskWakeGenerations_def split: if_splits)
    then show ?thesis
    proof cases
      case 1
      then show ?thesis using Some by (auto simp: update_wakes_def)
    next
      case 3
      then show ?thesis using Some add [OF 3(6)] by (fastforce simp: requested_wake_fields)
    qed simp
  qed
qed

definition sample_observation :: "string \<Rightarrow> string \<Rightarrow> RegisterBackgroundTaskWakeRequest" where
  "sample_observation task event = \<lparr>rb_SessionScope = ''default'', rb_SessionID = ''7'', rb_OwnerEmail = ''u@x'', rb_Provider = ''claude'',
     rb_TaskID = task, rb_TaskStatus = ''completed'', rb_Description = [], rb_Summary = [], rb_LastToolName = [], rb_Error = [],
     rb_ObservedEventID = event, rb_RegisteredAt = Some 10\<rparr>"

theorem BW_Register_effect_witness:
  "bw_generation (requested_wake ''default'' 1 2 (sample_observation ''bash_1'' ''e1'') 1) \<le> 3"
proof -
  have "BW_Register ''default'' 1 2 (sample_observation ''bash_1'' ''e1'') [] =
      (Inr (requested_wake ''default'' 1 2 (sample_observation ''bash_1'' ''e1'') 1, RegisterScheduled),
       [requested_wake ''default'' 1 2 (sample_observation ''bash_1'' ''e1'') 1])"
    by (simp add: BW_Register_def latest_generation_def with_outcome_def insertGeneration_def insert_wake_def find_wake_def)
  from BW_Register_effect [OF _ this refl, of "[]"] show ?thesis by (auto simp: latest_generation_def)
qed

text \<open>
  C29: a task is woken at most three times: a session never has more than three wakes of the same background task, whatever
  is registered, fired, released or cancelled in whatever order.
\<close>

theorem task_wakes_bounded:
  "length (filter (\<lambda>r. wk_tank_session_id r = tank \<and> bw_task_id r = task) (fold bw_step hist [])) \<le> 3"
proof -
  let ?F = "filter (\<lambda>r. wk_tank_session_id r = tank \<and> bw_task_id r = task) (fold bw_step hist [])"
  have ok: "bw_ok (fold bw_step hist [])" by (rule tasks.run_inv) simp
  then have "distinct (map task_key ?F)" by (simp add: bw_ok_def distinct_map_filter)
  then have "distinct (map bw_generation ?F)" by (auto simp: distinct_map inj_on_def)
  moreover have "bw_generation ` set ?F \<subseteq> {1, 2, 3}"
    using ok by (auto simp: bw_ok_def list_all_iff bw_identity_def maxBackgroundTaskWakeGenerations_def)
  ultimately show ?thesis
    using distinct_card [of "map bw_generation ?F"] card_mono [of "{1 :: int, 2, 3}" "bw_generation ` set ?F"] by simp
qed

section \<open>Where the guarantees end\<close>

text \<open>
  a cancellation can be undone. When a user cancels the pending wake-ups of a session while a fire loop
  holds the claim of one of them, and the loop then releases its claim, the wake-up is pending again, although the
  cancellation left none.
\<close>

theorem release_revives_cancelled:
  assumes "T = fold sw_step hist []" "r \<in> set T" "waits_for store scope sid r" "TrimSpace sid \<noteq> []"
    and "snd (CancelPendingForSession store scope sid clock T) = T1"
    and "ReleaseRetainingAttempt (wk_id r) clock' T1 = T2"
  shows "\<not> HasPending store T1 scope sid \<and> HasPending store T2 scope sid"
proof -
  have T1: "T1 = update_wakes (waits_for store scope sid) (cancelled_row clock) T"
    using assms(4,5) by (simp add: CancelPendingForSession_def)
  have "sw_ok T" unfolding assms(1) by (rule scheduled.run_inv) simp
  then have trim: "TrimSpace (wk_id r) = wk_id r"
    using assms(2) by (auto simp: sw_ok_def list_all_iff sw_identity_def)
  have gone: "\<not> waits_for store scope sid (cancelled_row c x)" for c and x :: ScheduledWakeup
    by (simp add: waits_for_def pending_def cancelled_row_def)
  have again: "waits_for store scope sid (released_row clock' (cancelled_row clock r))"
    using assms(3) by (simp add: waits_for_def pending_def released_row_def cancelled_row_def)
  have "cancelled_row clock r \<in> set T1" using assms(2,3) by (auto simp: T1 set_update_wakes intro!: image_eqI [of _ _ r])
  then have "released_row clock' (cancelled_row clock r) \<in> set T2"
    using assms(6) trim
    by (auto simp: ReleaseRetainingAttempt_def set_wake_def set_update_wakes cancelled_row_def intro!: image_eqI [of _ _ "cancelled_row clock r"])
  then show ?thesis
    using assms(4) gone again by (auto simp: HasPending_def T1 set_update_wakes)
qed

theorem release_revives_cancelled_witness:
  "HasPending ''default'' (ReleaseRetainingAttempt (wk_id (requested_wakeup ''default'' 1 sample_request)) 4
     (snd (CancelPendingForSession ''default'' ''default'' ''7'' 3 (fold sw_step [(''default'', SwRegister 1 sample_request)] [])))) ''default'' ''7''"
proof -
  have eval: "TrimSpace ''7'' = ''7''" "given_scope ''default'' ''default'' = ''default''" by code_simp+
  have "waits_for ''default'' ''default'' ''7'' (requested_wakeup ''default'' 1 sample_request)"
    by (simp add: waits_for_def eval pending_def sample_registered) (simp add: requested_wakeup_def sample_request_def eval Let_def)
  then show ?thesis
    using release_revives_cancelled [OF refl, of "requested_wakeup ''default'' 1 sample_request" "[(''default'', SwRegister 1 sample_request)]"
        "''default''" "''default''" "''7''" 3 _ 4] eval(1)
    unfolding sample_registered(1) by simp
qed

text \<open>
  two tasks can get in each other's way. Generation 2 of a task and generation 1 of a task whose id is that of
  the first followed by \<open>-g2\<close> have the same nonce; when the second task has a wake, re-arming the first fails with a
  violation of a unique index, and its completion is never reported.
\<close>

theorem rearm_blocked_by_sibling:
  assumes "latest_generation tank x T = Some l" "wk_status l = WakeFired" "bw_generation l = 1"
    and "tank = SessionStorageKey (given_scope store (rb_SessionScope req)) (TrimSpace (rb_SessionID req))" "x = TrimSpace (rb_TaskID req)"
    and "TrimSpace (rb_ObservedEventID req) \<noteq> []" "bw_observed_event_id l \<noteq> []" "TrimSpace (rb_ObservedEventID req) \<noteq> bw_observed_event_id l"
    and "s \<in> set T" "wk_tank_session_id s = tank" "wk_client_nonce s = BackgroundTaskWakeClientNonceForGeneration (x @ ''-g2'') 1"
    and "backgroundTaskWakeNonceSafe x" "length x \<le> 70"
    and "find_wake (wk_id (requested_wake store clock now req 2)) T = None"
  shows "BW_Register store clock now req T = (Inl (UniqueViolation ''client_nonce''), T)"
proof -
  have safe: "backgroundTaskWakeNonceSafe (x @ ''-g2'')" "list_all nonce_char (x @ ''-g2'')" "x \<noteq> []"
    using assms(12) by (auto simp: backgroundTaskWakeNonceSafe_def nonce_eval)
  have trims: "TrimSpace x = x" "TrimSpace (x @ ''-g2'') = x @ ''-g2''"
    using nonce_trim [OF safe(2)] assms(5) by simp_all
  have "int_dec 2 = ''2''" by code_simp
  then have nonce: "wk_client_nonce (requested_wake store clock now req 2) = wk_client_nonce s"
    using assms(5,11,12,13) safe trims
    by (simp add: requested_wake_def Let_def BackgroundTaskWakeClientNonceForGeneration_def BackgroundTaskWakeClientNonce_def)
  have "\<not> same_generation r (requested_wake store clock now req 2)" if "r \<in> set T" for r
    using latest_generation_Some [OF assms(1)] that assms(3,4,5) by (auto simp: same_generation_def requested_wake_fields)
  moreover have "same_nonce s (requested_wake store clock now req 2)"
    using nonce assms(4,10) by (simp add: same_nonce_def requested_wake_fields)
  ultimately have "insertGeneration store clock now req 2 T = (Inl (UniqueViolation ''client_nonce''), T)"
    using assms(9,14) by (auto simp: insertGeneration_def insert_wake_def)
  then show ?thesis
    using assms(1-8) by (auto simp: BW_Register_def Let_def pending_def with_outcome_def maxBackgroundTaskWakeGenerations_def)
qed

definition sample_wake :: "string \<Rightarrow> string \<Rightarrow> wake_status \<Rightarrow> BackgroundTaskWake" where
  "sample_wake i task status = (requested_wake ''default'' 1 2 (sample_observation task ''e1'') 1)\<lparr>wk_id := i, wk_status := status\<rparr>"

theorem rearm_blocked_by_sibling_witness:
  "BW_Register ''default'' 5 6 (sample_observation ''bash_1'' ''e2'') [sample_wake ''a'' ''bash_1'' WakeFired, sample_wake ''b'' ''bash_1-g2'' WakeScheduled] =
     (Inl (UniqueViolation ''client_nonce''), [sample_wake ''a'' ''bash_1'' WakeFired, sample_wake ''b'' ''bash_1-g2'' WakeScheduled])"
proof -
  have eval: "TrimSpace ''7'' = ''7''" "given_scope ''default'' ''default'' = ''default''" "TrimSpace ''bash_1'' = ''bash_1''"
      "TrimSpace ''bash_1-g2'' = ''bash_1-g2''" "TrimSpace ''e1'' = ''e1''" "TrimSpace ''e2'' = ''e2''" "SessionStorageKey ''default'' ''7'' = ''7''"
      "backgroundTaskWakeNonceSafe ''bash_1''"
    by code_simp+
  note fields = sample_wake_def requested_wake_def sample_observation_def Let_def eval
  have i: "''a'' \<noteq> wk_id (requested_wake ''default'' 5 6 (sample_observation ''bash_1'' ''e2'') 2)"
      "''b'' \<noteq> wk_id (requested_wake ''default'' 5 6 (sample_observation ''bash_1'' ''e2'') 2)"
    by (simp_all add: requested_wake_def Let_def BackgroundTaskWakeIDForGeneration_def hashed_id_def)
  show ?thesis
  proof (rule rearm_blocked_by_sibling [where x = "''bash_1''" and tank = "''7''" and l = "sample_wake ''a'' ''bash_1'' WakeFired"
        and s = "sample_wake ''b'' ''bash_1-g2'' WakeScheduled"])
    show "latest_generation ''7'' ''bash_1'' [sample_wake ''a'' ''bash_1'' WakeFired, sample_wake ''b'' ''bash_1-g2'' WakeScheduled] =
        Some (sample_wake ''a'' ''bash_1'' WakeFired)"
      by (simp add: latest_generation_def fields)
    show "find_wake (wk_id (requested_wake ''default'' 5 6 (sample_observation ''bash_1'' ''e2'') 2))
        [sample_wake ''a'' ''bash_1'' WakeFired, sample_wake ''b'' ''bash_1-g2'' WakeScheduled] = None"
      using i by (auto simp: find_wake_def sample_wake_def)
  qed (simp_all add: fields)
qed

end
