(* ===== verification/Turn_Submission.thy ===== *)
theory Turn_Submission
  imports Wake_Store Chat_Activity Session_Bus
begin

text \<open>
  The submit boundary of a turn (\<^verbatim>\<open>cmd/tank-operator/handlers_turns.go\<close>): the validation of a request, the two boundary events
  written to the ledger, the command published on the bus, and the failure marker when it cannot be published.
  With it come the run options (\<^verbatim>\<open>middleware.go\<close>), the lookup of a session's pod (\<^verbatim>\<open>internal/sessions\<close>), the scoped
  activity refresher (\<^verbatim>\<open>activity_refresher.go\<close>) and the publisher of commands (\<^verbatim>\<open>internal/sessionbus/bus.go\<close>).

  The state of the control plane (\<open>plane\<close>) holds the ledger, the sessions table, the event counter and the messages that
  JetStream has accepted. The Kubernetes API, the acknowledgement of a publish, the clock and random strings belong to
  the environment and are fields of \<open>appServer\<close>; \<open>ap_clock n\<close> is the n-th reading of the clock in a call.
\<close>

section \<open>Run options\<close>

definition turnArgPattern :: "string \<Rightarrow> bool" where
  "turnArgPattern s \<longleftrightarrow> list_all nonce_char s \<and> 1 \<le> length s \<and> length s \<le> 64"

definition providerSessionIDPattern :: "string \<Rightarrow> bool" where
  "providerSessionIDPattern s \<longleftrightarrow> list_all safe_char s \<and> 1 \<le> length s \<and> length s \<le> 160"

definition skillNameSyntax :: "string \<Rightarrow> bool" where
  "skillNameSyntax s \<longleftrightarrow> list_all (\<lambda>c. nonce_char c \<and> c \<noteq> CHR ''.'') s \<and> 1 \<le> length s \<and> length s \<le> 64"

definition validateTurnArg :: "string \<Rightarrow> string" where
  "validateTurnArg v = (if turnArgPattern v then v else [])"

definition validateSkillName :: "string \<Rightarrow> string" where
  "validateSkillName v = (if skillNameSyntax v then v else [])"

definition sanitizeProviderSessionID :: "string \<Rightarrow> string" where
  "sanitizeProviderSessionID input =
     (let v = TrimSpace input in if v = [] \<or> \<not> providerSessionIDPattern v then [] else v)"

definition providerModels :: "(string \<times> string list) list" where
  "providerModels =
     [(''claude'', [''claude-opus-4-8'', ''claude-opus-4-7'', ''claude-sonnet-4-6'', ''claude-haiku-4-5'', ''claude-fable-5'']),
      (''codex'', [''gpt-5.5'', ''gpt-5.4'', ''gpt-5.4-mini'', ''gpt-5.3-codex-spark''])]"

definition allowedModelsForProvider :: "string \<Rightarrow> string list option" where
  "allowedModelsForProvider provider = map_of providerModels provider"

definition validateModelArg :: "string \<Rightarrow> string \<Rightarrow> string" where
  "validateModelArg provider v =
     (let v = TrimSpace v
      in if v = [] then []
         else case allowedModelsForProvider provider of
                Some allowed \<Rightarrow> if v \<in> set allowed then v else []
              | None \<Rightarrow> if length v > 128 \<or> (\<exists>c\<in>set v. byte_of c < 32 \<or> byte_of c = 127) then [] else v)"

definition providerEfforts :: "(string \<times> string list) list" where
  "providerEfforts =
     [(''claude'', [''low'', ''medium'', ''high'', ''xhigh'', ''max'']), (''codex'', [''low'', ''medium'', ''high'', ''xhigh''])]"

definition allowedEffortsForProvider :: "string \<Rightarrow> string list" where
  "allowedEffortsForProvider provider = (case map_of providerEfforts provider of None \<Rightarrow> [] | Some es \<Rightarrow> es)"

definition validateEffort :: "string \<Rightarrow> string \<Rightarrow> string" where
  "validateEffort provider v = (if v \<noteq> [] \<and> v \<in> set (allowedEffortsForProvider provider) then v else [])"

definition modelUnsupportedMessage :: "string \<Rightarrow> string" where
  "modelUnsupportedMessage provider =
     (case allowedModelsForProvider provider of
        None \<Rightarrow> ''model is invalid''
      | Some models \<Rightarrow> if models = [] then ''model is invalid''
                      else ''model is not available for '' @ provider @ ''; want one of '' @ Join ''|'' models)"

definition isDefaultModelAlias :: "string \<Rightarrow> bool" where
  "isDefaultModelAlias v \<longleftrightarrow> ToLower (TrimSpace v) \<in> {''default'', ''codex-account-default''}"

definition providerRequiresExplicitModel :: "string \<Rightarrow> bool" where
  "providerRequiresExplicitModel provider \<longleftrightarrow> provider = ''codex''"

definition explicitModelRequiredMessage :: "string \<Rightarrow> string \<Rightarrow> string" where
  "explicitModelRequiredMessage provider noun =
     (if provider = ''codex'' then ''model is required for Codex '' @ noun else ''model is required'')"

definition effortUnsupportedMessage :: "string \<Rightarrow> string \<Rightarrow> string" where
  "effortUnsupportedMessage provider noun =
     (if provider = ''codex'' then ''effort is invalid; want one of low|medium|high|xhigh''
      else ''effort is invalid; want one of low|medium|high|xhigh|max'')"

definition sdkProviderForMode :: "string \<Rightarrow> string option" where
  "sdkProviderForMode mode =
     (let mode = NormalizeSessionMode mode
      in if mode = ClaudeGUIMode \<or> mode = ClaudeSecondaryGUIMode then Some ''claude''
         else if mode = CodexGUIMode \<or> mode = CodexExecGUIMode \<or> mode = CodexAppServerMode then Some ''codex''
         else None)"

type_synonym http_error = "int \<times> string"

text \<open>The model and the effort of a new session.\<close>

definition validateCreateRunConfig :: "string \<Rightarrow> string \<Rightarrow> string \<Rightarrow> http_error + (string \<times> string)" where
  "validateCreateRunConfig mode rawModel rawEffort =
     (let modelInput = TrimSpace rawModel; effortInput = TrimSpace rawEffort
      in if modelInput = [] \<and> effortInput = []
         then (case sdkProviderForMode mode of
                 Some provider \<Rightarrow>
                   if providerRequiresExplicitModel provider then Inl (400, explicitModelRequiredMessage provider ''sessions'')
                   else Inr ([], [])
               | None \<Rightarrow> Inr ([], []))
         else (case sdkProviderForMode mode of
                 None \<Rightarrow> Inl (400, ''model and effort are only supported for SDK chat sessions'')
               | Some provider \<Rightarrow>
                   if isDefaultModelAlias modelInput then Inl (400, ''model must be explicit; default is not accepted'')
                   else if providerRequiresExplicitModel provider \<and> modelInput = []
                   then Inl (400, explicitModelRequiredMessage provider ''sessions'')
                   else (let model = validateModelArg provider modelInput
                         in if modelInput \<noteq> [] \<and> model = [] then Inl (400, modelUnsupportedMessage provider)
                            else (let effort = validateEffort provider effortInput
                                  in if effortInput \<noteq> [] \<and> effort = [] then Inl (400, effortUnsupportedMessage provider ''sessions'')
                                     else Inr (model, effort)))))"

definition skillPromptTrigger :: "string \<Rightarrow> string \<Rightarrow> string" where
  "skillPromptTrigger provider skillName = (if provider = ''claude'' then ''/'' else ''$'') @ skillName"

definition promptMatchesSkillTrigger :: "string \<Rightarrow> string \<Rightarrow> string \<Rightarrow> bool" where
  "promptMatchesSkillTrigger provider skillName prompt =
     (let trigger = skillPromptTrigger provider skillName
      in prompt = trigger \<or> prefix (trigger @ '' '') prompt \<or> prefix (trigger @ [CHR 0x0A]) prompt)"

section \<open>Requests\<close>

definition maxSDKTurnPromptBytes :: nat where "maxSDKTurnPromptBytes = 256 * 1024"

record sdkTurnRequest =
  tq_ClientNonce :: string
  tq_RequireNonce :: bool
  tq_Prompt :: string
  tq_DisplayText :: string
  tq_DisplayAttachments :: "UserMessageAttachment list"
  tq_Model :: string
  tq_Effort :: string
  tq_PermissionMode :: string
  tq_SkillName :: string
  tq_FollowUp :: bool
  tq_Source :: string
  tq_SourceTaskID :: string
  tq_AllowBeforeReady :: bool
  tq_OmitUserMessage :: bool
  tq_RequireExistingUserMessage :: bool
  tq_SessionMode :: string
  tq_Display :: "gomap option"
  tq_CreatedAt :: gotime
  tq_OrderBase :: gotime
  tq_OriginSessionID :: string
  tq_OriginSessionAvatarID :: string
  tq_AuthorKind :: string
  tq_MCPActivateName :: string
  tq_MCPActivateURL :: string

fun normalize_attachments :: "UserMessageAttachment list \<Rightarrow> http_error + UserMessageAttachment list" where
  "normalize_attachments [] = Inr []"
| "normalize_attachments (a # as) =
     (let label = TrimSpace (att_Label a); name = TrimSpace (att_Name a);
          kind = (if TrimSpace (att_Kind a) \<noteq> ''image'' then ''file'' else TrimSpace (att_Kind a));
          path = TrimSpace (att_Path a); absPath = TrimSpace (att_AbsPath a)
      in if label = [] \<and> name = [] then normalize_attachments as
         else if length label > 160 \<or> length name > 240 then Inl (400, ''display_attachments label too large'')
         else if length path > 1024 \<or> length absPath > 1024 then Inl (400, ''display_attachments path too large'')
         else if att_Size a < 0 then Inl (400, ''display_attachments size is invalid'')
         else map_sum (\<lambda>e. e)
                (Cons \<lparr>att_Label = label, att_Name = name, att_Kind = kind, att_Path = path, att_AbsPath = absPath, att_Size = att_Size a\<rparr>)
                (normalize_attachments as))"

definition normalizeDisplayAttachments :: "UserMessageAttachment list \<Rightarrow> http_error + UserMessageAttachment list" where
  "normalizeDisplayAttachments input =
     (if length input > 32 then Inl (400, ''display_attachments too many'') else normalize_attachments input)"

definition sdkTurnSource :: "string \<Rightarrow> string" where
  "sdkTurnSource source =
     (let s = TrimSpace source
      in if s \<in> set (map turn_submitted_source_wire [TurnSubmittedSourceScheduleWakeup, TurnSubmittedSourceBackgroundTask,
                 TurnSubmittedSourceLaunchDispatch, TurnSubmittedSourceBreakGlassApproval,
                 TurnSubmittedSourceTestSlotModelApproval, TurnSubmittedSourceTestSlotDrive])
         then s else ''sdk'')"

definition isSelfResumeTurnSource :: "string \<Rightarrow> bool" where
  "isSelfResumeTurnSource source \<longleftrightarrow> TrimSpace source \<in> {''schedule-wakeup'', ''background-task''}"

section \<open>Boundary events\<close>

definition omitUserMessageEvents :: "gomap list \<Rightarrow> gomap list" where
  "omitUserMessageEvents events = filter (\<lambda>e. mget e ''type'' \<noteq> Some (GStr (event_wire EventUserMessageCreated))) events"

definition stamp_source :: "string \<Rightarrow> string \<Rightarrow> string \<Rightarrow> gomap \<Rightarrow> gomap" where
  "stamp_source source taskID prompt event =
     (let ty = string_at event ''type'';
          wakeup = (source = turn_submitted_source_wire TurnSubmittedSourceScheduleWakeup);
          task = (source = turn_submitted_source_wire TurnSubmittedSourceBackgroundTask);
          payload = (case as_map (mget event ''payload'') of None \<Rightarrow> [] | Some p \<Rightarrow> p);
          put = (\<lambda>p. mset_key ''payload'' (GMap p) event)
      in if ty = event_wire EventUserMessageCreated
         then put (if wakeup then set_if (TrimSpace prompt \<noteq> []) ''prompt'' (GStr (TrimSpace prompt))
                                    (mset_key ''source'' (GStr source) payload)
                   else payload)
         else if ty = event_wire EventTurnSubmitted
         then put (set_if ((task \<or> wakeup) \<and> TrimSpace prompt \<noteq> []) ''prompt'' (GStr (TrimSpace prompt))
                     (set_if (taskID \<noteq> []) ''task_id'' (GStr taskID) (mset_key ''source'' (GStr source) payload)))
         else event)"

definition stampTurnSubmittedSource :: "gomap list \<Rightarrow> string \<Rightarrow> string \<Rightarrow> string \<Rightarrow> gomap list" where
  "stampTurnSubmittedSource events source taskID prompt =
     (let source = TrimSpace source; taskID = TrimSpace taskID
      in if source = [] \<or> source = ''sdk'' then events else map (stamp_source source taskID prompt) events)"

text \<open>\<^verbatim>\<open>t.Add(n * time.Millisecond)\<close> for \<open>n < 1000\<close>, with the carry.\<close>

definition next_second :: "gotime \<Rightarrow> gotime" where
  "next_second t =
     (if t_sec t < 59 then t\<lparr>t_sec := t_sec t + 1\<rparr>
      else if t_min t < 59 then t\<lparr>t_sec := 0, t_min := t_min t + 1\<rparr>
      else if t_hour t < 23 then t\<lparr>t_sec := 0, t_min := 0, t_hour := t_hour t + 1\<rparr>
      else let u = t\<lparr>t_sec := 0, t_min := 0, t_hour := 0\<rparr>
           in if t_day t < days_in (t_month t) (t_year t) then u\<lparr>t_day := t_day t + 1\<rparr>
              else if t_month t < 12 then u\<lparr>t_day := 1, t_month := t_month t + 1\<rparr>
              else u\<lparr>t_day := 1, t_month := 1, t_year := t_year t + 1\<rparr>)"

definition AddMillis :: "gotime \<Rightarrow> nat \<Rightarrow> gotime" where
  "AddMillis t n =
     (let ns = t_nsec t + n * 1000000
      in if ns < 1000000000 then t\<lparr>t_nsec := ns\<rparr> else (next_second t)\<lparr>t_nsec := ns - 1000000000\<rparr>)"

definition orderKeyForEventTime :: "gotime \<Rightarrow> int \<Rightarrow> string \<Rightarrow> string" where
  "orderKeyForEventTime eventTime sequence eventID = order_key_for eventTime sequence eventID"

definition eventIDForOrderKey :: "string \<Rightarrow> gomap \<Rightarrow> string" where
  "eventIDForOrderKey random event =
     (case find (\<lambda>k. trimmed_at event k \<noteq> []) [''event_id'', ''id'', ''uuid''] of
        Some k \<Rightarrow> trimmed_at event k | None \<Rightarrow> random)"

definition retime :: "string \<Rightarrow> gotime \<Rightarrow> nat \<Rightarrow> gomap \<Rightarrow> gomap" where
  "retime random base i event =
     (let eventTime = AddMillis base i;
          e = mset_key ''written_at'' (GStr (FormatRFC3339Nano eventTime))
                (mset_key ''created_at'' (GStr (FormatRFC3339Nano eventTime)) event)
      in mset_key ''order_key'' (GStr (orderKeyForEventTime eventTime (int i) (eventIDForOrderKey random e))) e)"

definition retimeTurnBoundaryEvents :: "string \<Rightarrow> gomap list \<Rightarrow> gotime \<Rightarrow> gomap list" where
  "retimeTurnBoundaryEvents random events base =
     (if IsZero base then events else map (\<lambda>(i, e). retime random base i e) (enumerate 0 events))"

section \<open>The environment and the state\<close>

record Pod =
  po_Name :: string
  po_Labels :: "(string \<times> string) list"
  po_Containers :: "string list"

datatype pod_result = PodFound Pod | PodNotFound | PodError string

text \<open>The two calls of the Kubernetes API: a pod by its name, and the pods of a session id by label.\<close>

record cluster =
  kc_get :: "string \<Rightarrow> pod_result"
  kc_list :: "string \<Rightarrow> string + Pod list"

record appServer =
  ap_scope :: string
  ap_refresher :: "ChatActivityEmitter option"
  ap_bus :: "(string \<Rightarrow> Command \<Rightarrow> string option) option"   \<comment> \<open>the error of publishing a command on a subject\<close>
  ap_cluster :: cluster
  ap_random :: string
  ap_clock :: "nat \<Rightarrow> gotime"
  ap_db_now :: int
  ap_turn_number :: "string \<Rightarrow> string \<Rightarrow> int option"
  ap_cause_text :: "schema_cause \<Rightarrow> string"

record plane =
  pl_stores :: stores
  pl_db :: sessions_db
  pl_sequence :: int
  pl_sent :: "(string \<times> Command) list"

abbreviation pl_events :: "plane \<Rightarrow> ledger" where
  "pl_events pl \<equiv> so_events (pl_stores pl)"

definition set_events :: "ledger \<Rightarrow> plane \<Rightarrow> plane" where
  "set_events L pl = pl\<lparr>pl_stores := (pl_stores pl)\<lparr>so_events := L\<rparr>\<rparr>"

section \<open>Looking sessions up\<close>

definition pod_label :: "Pod \<Rightarrow> string \<Rightarrow> string" where
  "pod_label pod k = (case map_of (po_Labels pod) k of None \<Rightarrow> [] | Some v \<Rightarrow> v)"

text \<open>The mode and the pod of a session, from the cluster.\<close>

definition Reader_Get :: "cluster \<Rightarrow> string \<Rightarrow> string \<Rightarrow> (string \<times> string) option" where
  "Reader_Get kc owner sessionID =
     (let found = (\<lambda>pod. if pod_label pod ''tank-operator/owner'' \<noteq> OwnerLabel owner then None
                        else Some (NormalizeSessionMode (pod_label pod ''tank-operator/mode''), po_Name pod))
      in case kc_get kc (''session-'' @ sessionID) of
           PodFound pod \<Rightarrow> found pod
         | PodError e \<Rightarrow> None
         | PodNotFound \<Rightarrow>
             (case kc_list kc sessionID of
                Inl e \<Rightarrow> None
              | Inr [] \<Rightarrow> None
              | Inr (pod # _) \<Rightarrow> found pod))"

definition GetRegisteredByOwner :: "appServer \<Rightarrow> plane \<Rightarrow> string \<Rightarrow> string \<Rightarrow> SessionRecord option" where
  "GetRegisteredByOwner ap pl owner sessionID =
     (case registry_Get (so_to_char (pl_stores pl)) (ap_scope ap) (pl_db pl) owner sessionID of
        None \<Rightarrow> None | Some rec \<Rightarrow> if re_Visible rec then Some rec else None)"

definition podHasSDKRunner :: "Pod \<Rightarrow> bool" where
  "podHasSDKRunner pod \<longleftrightarrow> (\<exists>c\<in>set (po_Containers pod). c = ''claude-runner'' \<or> c = ''codex-runner'')"

section \<open>Writing a backend event\<close>

definition scoped_refresh :: "ChatActivityEmitter \<Rightarrow> string \<Rightarrow> string \<Rightarrow> string \<Rightarrow> plane \<Rightarrow> plane" where
  "scoped_refresh e scope owner sessionID pl =
     (let scope = store_scope scope;
          res = (if scope = store_scope (em_Scope e)
                 then RefreshSessionActivity e (pl_stores pl) (pl_db pl) owner sessionID
                 else RefreshSessionActivity (e\<lparr>em_Scope := scope\<rparr>) (pl_stores pl) (pl_db pl)
                        (ToLower (TrimSpace owner)) (TrimSpace sessionID))
      in pl\<lparr>pl_db := ea_db res\<rparr>)"

definition refreshActivityForBackendEvent :: "appServer \<Rightarrow> string \<Rightarrow> gomap \<Rightarrow> plane \<Rightarrow> plane" where
  "refreshActivityForBackendEvent ap storageKey event pl =
     (case ap_refresher ap of
        None \<Rightarrow> pl
      | Some e \<Rightarrow>
          (if \<not> IsLifecycleChatEventType (TrimSpace (trimmed_at event ''type'')) then pl
           else let owner = ToLower (TrimSpace (trimmed_at event ''email''))
                in if owner = [] then pl
                   else let key = (if trimmed_at event ''tank_session_id'' \<noteq> [] then trimmed_at event ''tank_session_id'' else storageKey);
                            (scope, sid) = (if TrimSpace key \<noteq> [] then StorageScopeAndSessionID key else (ap_scope ap, []));
                            sid = (if trimmed_at event ''session_id'' \<noteq> [] then trimmed_at event ''session_id'' else sid);
                            scope = (if TrimSpace scope = [] then ap_scope ap else scope)
                        in if sid = [] then pl else scoped_refresh e scope owner sid pl))"

definition persistBackendEvent :: "appServer \<Rightarrow> string \<Rightarrow> gomap \<Rightarrow> plane \<Rightarrow> upsert_error option \<times> plane" where
  "persistBackendEvent ap storageKey event pl =
     (case Upsert (store_scope (ap_scope ap)) (ap_db_now ap) event (pl_events pl) of
        (Inl e, _) \<Rightarrow> (Some e, pl)
      | (Inr _, L) \<Rightarrow> (None, refreshActivityForBackendEvent ap storageKey event (set_events L pl)))"

fun persist_all :: "appServer \<Rightarrow> string \<Rightarrow> gomap list \<Rightarrow> plane \<Rightarrow> upsert_error option \<times> plane" where
  "persist_all ap storageKey [] pl = (None, pl)"
| "persist_all ap storageKey (e # es) pl =
     (case persistBackendEvent ap storageKey e pl of
        (Some err, pl') \<Rightarrow> (Some err, pl')
      | (None, pl') \<Rightarrow> persist_all ap storageKey es pl')"

definition upsert_text :: "appServer \<Rightarrow> upsert_error \<Rightarrow> string" where
  "upsert_text ap e =
     (case e of UpsertInvalid (SchemaError c) \<Rightarrow> ''schema rejected: '' @ ap_cause_text ap c
      | UpsertMissing f \<Rightarrow> ''session event '' @ f @ '' is required'')"

definition build_text :: "build_error \<Rightarrow> string" where
  "build_text e =
     (case e of TextRequired \<Rightarrow> ''text is required'' | ClientNonceRequired \<Rightarrow> ''client nonce is required''
      | RuntimeRequired \<Rightarrow> ''runtime is required'' | SkillNameInvalid \<Rightarrow> ''skill_name is invalid''
      | StampPanic f \<Rightarrow> ''StampEventMap: '' @ f @ '' is required'')"

section \<open>Publishing a command\<close>

text \<open>Two messages, on the command stream and on the combined stream; either one failing fails the call.\<close>

definition PublishCommand ::
  "string \<Rightarrow> (string \<Rightarrow> Command \<Rightarrow> string option) \<Rightarrow> Command \<Rightarrow> (string \<times> Command) list \<Rightarrow> string option \<times> (string \<times> Command) list" where
  "PublishCommand scope leg command sent =
     (let c = Normalize command
      in if cm_CommandID c = [] then (Some ''command_id is required'', sent)
         else if cm_Type c = [] then (Some ''command type is required'', sent)
         else let c = (if cm_SessionStorageKey c = [] then c\<lparr>cm_SessionStorageKey := SessionStorageKey scope (cm_SessionID c)\<rparr> else c)
              in if cm_SessionStorageKey c = [] \<or> cm_Provider c = [] then (Some ''command routing is incomplete'', sent)
                 else case leg (CommandStreamSubjectForCommand c) c of
                        Some e \<Rightarrow> (Some e, sent)
                      | None \<Rightarrow>
                          (let sent = sent @ [(CommandStreamSubjectForCommand c, c)]
                           in case leg (SubjectForCommand c) c of
                                Some e \<Rightarrow> (Some e, sent)
                              | None \<Rightarrow> (None, sent @ [(SubjectForCommand c, c)])))"

section \<open>Submitting a turn\<close>

definition requireExistingUserMessage :: "appServer \<Rightarrow> plane \<Rightarrow> string \<Rightarrow> string \<Rightarrow> http_error option" where
  "requireExistingUserMessage ap pl sessionID turnID =
     (if TrimSpace (OrderKeyForTimelineID (so_le (pl_stores pl)) (so_render (pl_stores pl)) (store_scope (ap_scope ap)) (pl_events pl)
           sessionID (turnID @ '':user'')) = []
      then Some (400, ''existing_user_message requires a durable launch user message'') else None)"

definition turnIDFromEnqueueResponse :: "gomap \<Rightarrow> string" where
  "turnIDFromEnqueueResponse resp = trimmed_at resp ''turn_id''"

text \<open>What the first half of the submission accepts: the validated pieces of a request.\<close>

record accepted =
  ac_ClientNonce :: string
  ac_Prompt :: string
  ac_DisplayText :: string
  ac_Attachments :: "UserMessageAttachment list"
  ac_Provider :: string
  ac_SkillName :: string
  ac_Model :: string
  ac_Effort :: string
  ac_ProviderSessionID :: string

definition check_run_config ::
  "appServer \<Rightarrow> plane \<Rightarrow> string \<Rightarrow> string \<Rightarrow> string \<Rightarrow> sdkTurnRequest \<Rightarrow> http_error + (string \<times> string \<times> string)" where
  "check_run_config ap pl email sessionID provider req =
     (let modelInput = TrimSpace (tq_Model req)
      in if isDefaultModelAlias modelInput then Inl (400, ''model must be explicit; default is not accepted'')
         else let model = validateModelArg provider modelInput
              in if modelInput \<noteq> [] \<and> model = [] then Inl (400, modelUnsupportedMessage provider)
                 else let effort = validateEffort provider (TrimSpace (tq_Effort req));
                          registered = GetRegisteredByOwner ap pl email sessionID;
                          stored = (\<lambda>f. case registered of None \<Rightarrow> [] | Some rec \<Rightarrow> f rec);
                          hasConfig = (stored re_Model \<noteq> [] \<or> stored re_Effort \<noteq> []);
                          model = (if stored re_Model \<noteq> [] then stored re_Model else model);
                          effort' = (if stored re_Effort \<noteq> [] then stored re_Effort else effort)
                      in if \<not> hasConfig \<and> TrimSpace (tq_Effort req) \<noteq> [] \<and> effort = []
                         then Inl (400, effortUnsupportedMessage provider ''turns'')
                         else if providerRequiresExplicitModel provider \<and> model = []
                         then Inl (400, explicitModelRequiredMessage provider ''turns'')
                         else Inr (model, effort',
                                   if provider = ''claude'' then sanitizeProviderSessionID (stored re_RuntimeProviderSessionID) else []))"

definition check_pod :: "appServer \<Rightarrow> string option \<Rightarrow> http_error option" where
  "check_pod ap podName =
     (case podName of
        None \<Rightarrow> Some (503, ''session pod not ready'')
      | Some n \<Rightarrow>
          (case kc_get (ap_cluster ap) n of
             PodFound pod \<Rightarrow> if podHasSDKRunner pod then None else Some (400, ''session pod has no SDK runner container'')
           | PodNotFound \<Rightarrow> Some (503, ''pod fetch failed: not found'')
           | PodError e \<Rightarrow> Some (503, ''pod fetch failed: '' @ e)))"

text \<open>The nonce and the texts, then the session and its runner, then its pod and the bus.\<close>

definition check_text :: "appServer \<Rightarrow> sdkTurnRequest \<Rightarrow> http_error + (string \<times> string \<times> string \<times> UserMessageAttachment list)" where
  "check_text ap req =
     (let nonceError = (400, ''client_nonce is required and must match turn id syntax'');
          clientNonce = TrimSpace (tq_ClientNonce req)
      in if clientNonce = [] \<and> tq_RequireNonce req then Inl nonceError
         else let clientNonce = (if clientNonce = [] then ap_random ap else clientNonce)
         in if \<not> turnIDPattern clientNonce then Inl nonceError
         else let prompt = TrimSpace (tq_Prompt req)
         in if prompt = [] then Inl (400, ''missing prompt'')
         else if length prompt > maxSDKTurnPromptBytes then Inl (400, ''prompt too large'')
         else let displayText = (if TrimSpace (tq_DisplayText req) = [] then prompt else TrimSpace (tq_DisplayText req))
         in if length displayText > maxSDKTurnPromptBytes then Inl (400, ''display_text too large'')
         else case normalizeDisplayAttachments (tq_DisplayAttachments req) of
                Inl e \<Rightarrow> Inl e
              | Inr attachments \<Rightarrow> Inr (clientNonce, prompt, displayText, attachments))"

definition session_target :: "appServer \<Rightarrow> string \<Rightarrow> string \<Rightarrow> sdkTurnRequest \<Rightarrow> (string \<times> string option) option" where
  "session_target ap email sessionID req =
     (let rawMode = TrimSpace (tq_SessionMode req)
      in if rawMode = [] then map_option (map_prod (\<lambda>m. m) Some) (Reader_Get (ap_cluster ap) email sessionID)
         else Some (NormalizeSessionMode rawMode, None))"

definition check_skill :: "string \<Rightarrow> string \<Rightarrow> sdkTurnRequest \<Rightarrow> http_error + string" where
  "check_skill provider prompt req =
     (let skillName = validateSkillName (tq_SkillName req)
      in if TrimSpace (tq_SkillName req) \<noteq> [] \<and> skillName = [] then Inl (400, ''skill_name is invalid'')
         else if skillName \<noteq> [] \<and> \<not> promptMatchesSkillTrigger provider skillName prompt
         then Inl (400, ''skill_name does not match prompt trigger'')
         else Inr skillName)"

definition check_request :: "appServer \<Rightarrow> plane \<Rightarrow> string \<Rightarrow> string \<Rightarrow> sdkTurnRequest \<Rightarrow> http_error + accepted" where
  "check_request ap pl email sessionID req =
     (case check_text ap req of
        Inl e \<Rightarrow> Inl e
      | Inr (clientNonce, prompt, displayText, attachments) \<Rightarrow>
          (case session_target ap email sessionID req of
             None \<Rightarrow> Inl (404, ''session not found'')
           | Some (mode, podName) \<Rightarrow>
               (case sdkProviderForMode mode of
                  None \<Rightarrow> Inl (400, ''session mode does not support app chat turns'')
                | Some provider \<Rightarrow>
                    (case check_skill provider prompt req of
                       Inl e \<Rightarrow> Inl e
                     | Inr skillName \<Rightarrow>
                         (case check_run_config ap pl email sessionID provider req of
                            Inl e \<Rightarrow> Inl e
                          | Inr (model, effort, providerSessionID) \<Rightarrow>
                              (case (if tq_AllowBeforeReady req then None else check_pod ap podName) of
                                 Some e \<Rightarrow> Inl e
                               | None \<Rightarrow>
                                   if ap_bus ap = None then Inl (503, ''session bus unavailable'')
                                   else Inr \<lparr>ac_ClientNonce = clientNonce, ac_Prompt = prompt, ac_DisplayText = displayText,
                                          ac_Attachments = attachments, ac_Provider = provider, ac_SkillName = skillName,
                                          ac_Model = model, ac_Effort = effort, ac_ProviderSessionID = providerSessionID\<rparr>))))))"

definition submission_args :: "appServer \<Rightarrow> string \<Rightarrow> string \<Rightarrow> sdkTurnRequest \<Rightarrow> accepted \<Rightarrow> UserSubmissionArgs" where
  "submission_args ap email sessionID req ac =
     \<lparr>us_SessionID = sessionID, us_SessionStorageKey = SessionStorageKey (ap_scope ap) sessionID, us_Email = email,
      us_ClientNonce = ac_ClientNonce ac, us_Text = ac_DisplayText ac,
      us_Message = Some (GMap [(''role'', GStr ''user''), (''content'', GStr (ac_DisplayText ac))]),
      us_Attachments = ac_Attachments ac, us_Runtime = ac_Provider ac, us_SkillName = ac_SkillName ac,
      us_Model = ac_Model ac, us_Effort = ac_Effort ac, us_Display = tq_Display req,
      us_OriginSessionID = TrimSpace (tq_OriginSessionID req), us_OriginSessionAvatarID = TrimSpace (tq_OriginSessionAvatarID req),
      us_AuthorKind = TrimSpace (tq_AuthorKind req), us_Now = default_now (ap_clock ap 0) (tq_CreatedAt req)\<rparr>"

definition submit_command :: "appServer \<Rightarrow> string \<Rightarrow> string \<Rightarrow> sdkTurnRequest \<Rightarrow> accepted \<Rightarrow> string \<Rightarrow> Command" where
  "submit_command ap email sessionID req ac turnID =
     \<lparr>cm_SchemaVersion = 0, cm_CommandID = ''turn:'' @ ac_ClientNonce ac, cm_Type = CommandSubmitTurn, cm_SessionID = sessionID,
      cm_SessionStorageKey = SessionStorageKey (ap_scope ap) sessionID, cm_Email = email, cm_Provider = ac_Provider ac,
      cm_Source = sdkTurnSource (tq_Source req), cm_TurnID = turnID, cm_ClientNonce = ac_ClientNonce ac, cm_Prompt = ac_Prompt ac,
      cm_Model = ac_Model ac, cm_ProviderSessionID = ac_ProviderSessionID ac, cm_Effort = ac_Effort ac,
      cm_PermissionMode = validateTurnArg (tq_PermissionMode req), cm_SkillName = ac_SkillName ac, cm_FollowUp = tq_FollowUp req,
      cm_TargetTurnID = [], cm_TargetTimelineID = [], cm_TargetProviderItemID = [], cm_TargetTaskID = [], cm_TargetProcessID = [],
      cm_Answers = [], cm_Annotations = [], cm_Attachments = [],
      cm_MCPActivateName = TrimSpace (tq_MCPActivateName req), cm_MCPActivateURL = TrimSpace (tq_MCPActivateURL req),
      cm_CreatedAt = FormatRFC3339Nano (default_now (ap_clock ap 0) (tq_CreatedAt req))\<rparr>"

definition boundary_events :: "appServer \<Rightarrow> sdkTurnRequest \<Rightarrow> accepted \<Rightarrow> gomap list \<Rightarrow> gomap list" where
  "boundary_events ap req ac events =
     (let events = retimeTurnBoundaryEvents (ap_random ap) events (tq_OrderBase req);
          events = stampTurnSubmittedSource events (sdkTurnSource (tq_Source req)) (tq_SourceTaskID req) (ac_Prompt ac)
      in if tq_OmitUserMessage req then omitUserMessageEvents events else events)"

text \<open>The marker of a command that was not published. A failure to write it is only logged.\<close>

definition mark_command_failed :: "appServer \<Rightarrow> TurnCommandFailedArgs \<Rightarrow> plane \<Rightarrow> plane" where
  "mark_command_failed ap args pl =
     (case TurnCommandFailedEventMap (ap_clock ap 3) (ap_clock ap 4) (pl_sequence pl) args of
        Inl _ \<Rightarrow> pl
      | Inr (event, seq) \<Rightarrow> snd (persistBackendEvent ap (cf_SessionStorageKey args) event (pl\<lparr>pl_sequence := seq\<rparr>)))"

definition submit_response :: "appServer \<Rightarrow> string \<Rightarrow> string \<Rightarrow> accepted \<Rightarrow> gomap" where
  "submit_response ap sessionID turnID ac =
     [(''status'', GStr ''accepted''), (''turn_id'', GStr turnID), (''client_nonce'', GStr (ac_ClientNonce ac)),
      (''provider'', GStr (ac_Provider ac))] @
     (case ap_turn_number ap sessionID turnID of None \<Rightarrow> [] | Some n \<Rightarrow> if n > 0 then [(''turn_number'', GInt64 n)] else [])"

definition publish_turn ::
  "appServer \<Rightarrow> string \<Rightarrow> string \<Rightarrow> sdkTurnRequest \<Rightarrow> accepted \<Rightarrow> string \<Rightarrow> plane \<Rightarrow> (http_error + gomap) \<times> plane" where
  "publish_turn ap email sessionID req ac turnID pl =
     (let key = SessionStorageKey (ap_scope ap) sessionID;
          leg = (case ap_bus ap of None \<Rightarrow> (\<lambda>_ _. Some ''session bus unavailable'') | Some leg \<Rightarrow> leg)
      in case PublishCommand (ap_scope ap) leg (submit_command ap email sessionID req ac turnID) (pl_sent pl) of
           (Some e, sent) \<Rightarrow>
             (let pl = pl\<lparr>pl_sent := sent\<rparr>;
                  failed = \<lparr>cf_SessionID = sessionID, cf_SessionStorageKey = key, cf_Email = email, cf_TurnID = turnID,
                           cf_ClientNonce = ac_ClientNonce ac, cf_Runtime = ac_Provider ac,
                           cf_Reason = ''publish_submit_turn_failed: '' @ e, cf_Now = ap_clock ap 3\<rparr>
              in (Inl (500, ''publish turn: '' @ e),
                  if isSelfResumeTurnSource (tq_Source req) then pl else mark_command_failed ap failed pl))
         | (None, sent) \<Rightarrow> (Inr (submit_response ap sessionID turnID ac), pl\<lparr>pl_sent := sent\<rparr>))"

definition enqueueSDKTurn :: "appServer \<Rightarrow> string \<Rightarrow> string \<Rightarrow> sdkTurnRequest \<Rightarrow> plane \<Rightarrow> (http_error + gomap) \<times> plane" where
  "enqueueSDKTurn ap email sessionID req pl =
     (case check_request ap pl email sessionID req of
        Inl e \<Rightarrow> (Inl e, pl)
      | Inr ac \<Rightarrow>
          (case UserSubmissionEventMaps (ap_clock ap 0) (ap_clock ap 1) (ap_clock ap 2) (pl_sequence pl) (submission_args ap email sessionID req ac) of
             Inl e \<Rightarrow> (Inl (400, build_text e), pl)
           | Inr (turnID, events, seq) \<Rightarrow>
               (let pl = pl\<lparr>pl_sequence := seq\<rparr>
                in case (if tq_RequireExistingUserMessage req then requireExistingUserMessage ap pl sessionID turnID else None) of
                     Some e \<Rightarrow> (Inl e, pl)
                   | None \<Rightarrow>
                       (case persist_all ap (SessionStorageKey (ap_scope ap) sessionID) (boundary_events ap req ac events) pl of
                          (Some e, pl) \<Rightarrow> (Inl (500, ''persist boundary event: '' @ upsert_text ap e), pl)
                        | (None, pl) \<Rightarrow> publish_turn ap email sessionID req ac turnID pl))))"

end
