(* ===== verification/Turn_Guarantees.thy ===== *)
theory Turn_Guarantees
  imports Turn_Submission
begin

text \<open>
  What the submit boundary guarantees: a turn is refused without a trace, or its boundary events are in the ledger before
  its command is published, or the failure to publish it is in the ledger. The last section shows where it falls short.
\<close>

section \<open>What a plane records\<close>

definition recorded :: "plane \<Rightarrow> string \<Rightarrow> string \<Rightarrow> bool" where
  "recorded pl key eventID \<longleftrightarrow> (\<exists>r\<in>set (pl_events pl). er_tank_session_id r = key \<and> er_event_id r = eventID)"

lemma refresh_frame [simp]:
  "pl_stores (refreshActivityForBackendEvent ap key event pl) = pl_stores pl"
  "pl_sequence (refreshActivityForBackendEvent ap key event pl) = pl_sequence pl"
  "pl_sent (refreshActivityForBackendEvent ap key event pl) = pl_sent pl"
  by (simp_all add: refreshActivityForBackendEvent_def scoped_refresh_def Let_def split: option.split prod.split)

lemma set_events_simps [simp]:
  "pl_events (set_events L pl) = L" "pl_sequence (set_events L pl) = pl_sequence pl" "pl_sent (set_events L pl) = pl_sent pl"
  by (simp_all add: set_events_def)

text \<open>An accepted event is in the ledger under its identity, and a row of another order key stays.\<close>

lemma insert_row_present:
  assumes "\<not> identity_clash row L"
  shows "\<exists>r\<in>set (snd (insert_row row L)). er_tank_session_id r = er_tank_session_id row \<and> er_event_id r = er_event_id row \<and>
    er_order_key r = er_order_key row"
proof (cases "key_taken row L")
  case True
  then obtain r where "r \<in> set L" "same_key (er_tank_session_id row) (er_order_key row) r"
    by (auto simp: key_taken_def)
  then have "row\<lparr>er_created_at := er_created_at r\<rparr> \<in> set (replace_row row L)" by (force simp: replace_row_def)
  then show ?thesis using assms True by (intro bexI) (simp_all add: insert_row_def)
qed (use assms in \<open>simp add: insert_row_def\<close>)

lemma Upsert_records:
  assumes "storable scope e"
  shows "\<exists>r\<in>set (snd (Upsert scope now e L)). er_tank_session_id r = storage_key_of scope e \<and> er_event_id r = event_identity e"
proof (cases "identity_clash (row_of scope now e) L")
  case True
  then show ?thesis
    using assms by (auto simp: Upsert_storable insert_row_def identity_clash_def row_of_def)
next
  case False
  then show ?thesis
    using insert_row_present [OF False] assms by (auto simp: Upsert_storable row_of_def)
qed

lemma Upsert_keeps:
  assumes "r \<in> set L" "er_order_key r \<noteq> trimmed_at e ''order_key''"
  shows "r \<in> set (snd (Upsert scope now e L))"
proof -
  have "er_order_key (row_of scope now e) = trimmed_at e ''order_key''" by (simp add: row_of_def)
  then have "r \<in> set (snd (insert_row (row_of scope now e) L))"
    using assms by (auto simp: insert_row_def replace_row_def same_key_def image_iff intro!: bexI [of _ r])
  then show ?thesis using assms(1) Upsert_not_storable [of scope e now L] by (cases "storable scope e") (auto simp: Upsert_storable)
qed

lemma persistBackendEvent_frame:
  "pl_sequence (snd (persistBackendEvent ap key e pl)) = pl_sequence pl"
  "pl_sent (snd (persistBackendEvent ap key e pl)) = pl_sent pl"
  by (simp_all add: persistBackendEvent_def split: prod.split sum.split)

lemma persistBackendEvent_cases:
  "(storable (store_scope (ap_scope ap)) e \<and> fst (persistBackendEvent ap key e pl) = None \<and>
     pl_events (snd (persistBackendEvent ap key e pl)) = snd (Upsert (store_scope (ap_scope ap)) (ap_db_now ap) e (pl_events pl))) \<or>
   (\<not> storable (store_scope (ap_scope ap)) e \<and> fst (persistBackendEvent ap key e pl) \<noteq> None \<and> snd (persistBackendEvent ap key e pl) = pl)"
  using Upsert_not_storable [of "store_scope (ap_scope ap)" e "ap_db_now ap" "pl_events pl"]
  by (cases "storable (store_scope (ap_scope ap)) e") (auto simp: persistBackendEvent_def Upsert_storable)

lemma persistBackendEvent_records:
  assumes "fst (persistBackendEvent ap key e pl) = None"
  shows "storable (store_scope (ap_scope ap)) e"
    and "recorded (snd (persistBackendEvent ap key e pl)) (storage_key_of (store_scope (ap_scope ap)) e) (event_identity e)"
  using persistBackendEvent_cases [of ap e key pl] assms Upsert_records by (auto simp: recorded_def)

lemma persistBackendEvent_adds:
  "storable (store_scope (ap_scope ap)) e \<Longrightarrow>
   recorded (snd (persistBackendEvent ap key e pl)) (storage_key_of (store_scope (ap_scope ap)) e) (event_identity e)"
  using persistBackendEvent_cases [of ap e key pl] Upsert_records by (auto simp: recorded_def)

lemma persistBackendEvent_keeps:
  assumes "r \<in> set (pl_events pl)" "er_order_key r \<noteq> trimmed_at e ''order_key''"
  shows "r \<in> set (pl_events (snd (persistBackendEvent ap key e pl)))"
  using persistBackendEvent_cases [of ap e key pl] assms Upsert_keeps by auto

lemma persist_all_frame:
  "pl_sequence (snd (persist_all ap key es pl)) = pl_sequence pl \<and> pl_sent (snd (persist_all ap key es pl)) = pl_sent pl"
proof (induction es arbitrary: pl)
  case (Cons e es)
  then show ?case
    using persistBackendEvent_frame [of ap key e pl] by (auto split: prod.split option.split)
qed simp

text \<open>A boundary event of a turn: its identity, session, turn and type, and an order key that ends in its type.\<close>

definition boundary_doc :: "UserSubmissionArgs \<Rightarrow> string \<Rightarrow> gomap \<Rightarrow> bool" where
  "boundary_doc args ty e \<longleftrightarrow>
     (let turn = TurnIDForClientNonce (TrimSpace (us_ClientNonce args)); eid = Some (GStr (turn @ '':'' @ ty))
      in mget e ''id'' = eid \<and> mget e ''event_id'' = eid \<and> mget e ''uuid'' = eid \<and> mget e ''type'' = Some (GStr ty) \<and>
         mget e ''session_id'' = Some (GStr (us_SessionID args)) \<and> mget e ''turn_id'' = Some (GStr turn) \<and>
         string_at e ''tank_session_id'' = us_SessionStorageKey args \<and> suffix ty (string_at e ''order_key'') \<and> list_all visible (string_at e ''order_key''))"

lemma TurnID_nonempty [simp]: "TurnIDForClientNonce n \<noteq> []"
  by (simp add: TurnIDForClientNonce_def)

lemma order_key_suffix: "suffix uuid (order_key_for now seq uuid)"
  by (auto simp: order_key_for_def suffix_def)

lemma suffix_through: "suffix ty s \<Longrightarrow> suffix s k \<Longrightarrow> suffix ty k"
  using suffix_order.trans by blast

lemma TurnID_visible [simp]: "list_all visible (TurnIDForClientNonce n)"
proof -
  obtain p where p: "TurnIDForClientNonce n = ''turn_'' @ p" "list_all safe_char p"
    using TurnIDForClientNonce_shape [of n] by blast
  then show ?thesis using safe_char_visible by (simp add: list_all_iff visible_def byte_of_def)
qed

lemma order_key_visible: "list_all visible uuid \<Longrightarrow> list_all visible (order_key_for now seq uuid)"
proof -
  have digits: "list_all visible (pad0 w (nat_dec n))" for w n
    using dec_pad_digits [of w n] by (auto simp: dec_pad_def list_all_iff is_digit_def visible_def)
  moreover have "visible (CHR ''-'')" by (simp add: visible_def byte_of_def)
  ultimately show "list_all visible uuid \<Longrightarrow> list_all visible (order_key_for now seq uuid)"
    by (simp add: order_key_for_def int_dec_pad_def)
qed

lemma boundary_id_visible:
  "list_all visible (TurnIDForClientNonce n @ '':user_message.created'')" "list_all visible (TurnIDForClientNonce n @ '':turn.submitted'')"
  by (simp_all add: visible_def byte_of_def)

lemma submission_message_doc:
  "boundary_doc args ''user_message.created'' (submission_decorate args (stamp_out now s (submission_user_message args createdAt d)))"
proof -
  let ?e = "stamp_out now s (submission_user_message args createdAt d)"
  let ?turn = "TurnIDForClientNonce (TrimSpace (us_ClientNonce args))"
  have read: "mget (submission_decorate args ?e) k = mget ?e k"
    if "k \<notin> set [''payload'', ''tank_session_id'', ''tank_public_session_id'', ''email'', ''runtime'',
    ''origin_session_id'', ''origin_session_avatar_id'', ''author_kind'']" for k
    using that by (simp add: submission_decorate_def submission_finish_read mget_update_payload)
  have tank: "string_at (submission_decorate args ?e) ''tank_session_id'' = us_SessionStorageKey args"
    by (simp add: submission_decorate_def finish_defs Let_def string_at_def mget_update_payload stamp_out_frame stamp_fields_def
        submission_user_message_def)
  have key: "string_at ?e ''order_key'' = order_key_for now s (?turn @ '':user_message.created'')"
    by (subst stamp_out_order_key) (simp_all add: submission_user_message_def Let_def has_def)
  have "suffix ''user_message.created'' (?turn @ '':user_message.created'')" by (auto simp: suffix_def)
  then have "suffix ''user_message.created'' (string_at ?e ''order_key'')"
    using order_key_suffix suffix_through unfolding key by blast
  moreover have "list_all visible (string_at ?e ''order_key'')"
    unfolding key by (rule order_key_visible) (rule boundary_id_visible)
  ultimately show ?thesis
    using tank read by (simp add: boundary_doc_def Let_def string_at_def)
      (simp add: stamp_out_def submission_user_message_def Let_def)
qed

lemma submission_submitted_doc:
  "boundary_doc args ''turn.submitted'' (submission_finish args (stamp_out now s (submission_turn_submitted args createdAt)))"
proof -
  let ?e = "stamp_out now s (submission_turn_submitted args createdAt)"
  let ?turn = "TurnIDForClientNonce (TrimSpace (us_ClientNonce args))"
  have tank: "string_at (submission_finish args ?e) ''tank_session_id'' = us_SessionStorageKey args"
    by (simp add: finish_defs Let_def string_at_def mget_update_payload stamp_out_frame stamp_fields_def submission_turn_submitted_def)
  have key: "string_at ?e ''order_key'' = order_key_for now s (?turn @ '':turn.submitted'')"
    by (subst stamp_out_order_key) (simp_all add: submission_turn_submitted_def Let_def has_def)
  have "suffix ''turn.submitted'' (?turn @ '':turn.submitted'')" by (auto simp: suffix_def)
  then have "suffix ''turn.submitted'' (string_at ?e ''order_key'')"
    using order_key_suffix suffix_through unfolding key by blast
  moreover have "list_all visible (string_at ?e ''order_key'')"
    unfolding key by (rule order_key_visible) (rule boundary_id_visible)
  ultimately show ?thesis
    using tank by (simp add: boundary_doc_def Let_def string_at_def submission_finish_read)
      (simp add: stamp_out_def submission_turn_submitted_def Let_def)
qed

lemma submission_built:
  assumes "UserSubmissionEventMaps c0 c1 c2 s args = Inr (turnID, events, seq)"
  shows "turnID = TurnIDForClientNonce (TrimSpace (us_ClientNonce args))"
    and "\<exists>m t. events = [m, t] \<and> boundary_doc args ''user_message.created'' m \<and> boundary_doc args ''turn.submitted'' t"
proof -
  obtain d m t q where parts: "StampEventMap c1 s (submission_user_message args (default_now c0 (us_Now args)) d) = Inr (m, q)"
    "StampEventMap c2 q (submission_turn_submitted args (default_now c0 (us_Now args))) = Inr (t, seq)"
    "events = [submission_decorate args m, submission_finish args t]" "turnID = TurnIDForClientNonce (TrimSpace (us_ClientNonce args))"
    using assms unfolding UserSubmissionEventMaps_def Let_def submission_decorate_def
    by (auto split: if_split_asm sum.split_asm option.split_asm)
  then show "turnID = TurnIDForClientNonce (TrimSpace (us_ClientNonce args))" by simp
  show "\<exists>m t. events = [m, t] \<and> boundary_doc args ''user_message.created'' m \<and> boundary_doc args ''turn.submitted'' t"
    using parts(1,2) submission_message_doc submission_submitted_doc unfolding parts(3)
    by (auto simp: StampEventMap_def Let_def split: if_splits)
qed

text \<open>What is done to the boundary events before they are written keeps them boundary events.\<close>

lemma stamp_source_doc: "boundary_doc args ty e \<Longrightarrow> boundary_doc args ty (stamp_source source task prompt e)"
proof -
  have "mget (stamp_source source task prompt e) k = mget e k" if "k \<noteq> ''payload''" for k
    using that by (simp add: stamp_source_def Let_def)
  then show "boundary_doc args ty e \<Longrightarrow> boundary_doc args ty (stamp_source source task prompt e)"
    by (simp add: boundary_doc_def Let_def string_at_def)
qed

definition boundary_types :: "string list" where
  "boundary_types = [''user_message.created'', ''turn.submitted'']"

lemma boundary_id_trim:
  "ty \<in> set boundary_types \<Longrightarrow> TrimSpace (TurnIDForClientNonce n @ '':'' @ ty) = TurnIDForClientNonce n @ '':'' @ ty"
  by (rule TrimSpace_visible) (auto simp: boundary_types_def visible_def byte_of_def)

lemma retime_doc:
  assumes "boundary_doc args ty e" "ty \<in> set boundary_types" shows "boundary_doc args ty (retime random base i e)"
proof -
  let ?turn = "TurnIDForClientNonce (TrimSpace (us_ClientNonce args))"
  define e' where "e' = mset_key ''written_at'' (GStr (FormatRFC3339Nano (AddMillis base i)))
      (mset_key ''created_at'' (GStr (FormatRFC3339Nano (AddMillis base i))) e)"
  have e: "string_at e ''event_id'' = ?turn @ '':'' @ ty" using assms(1) by (simp add: boundary_doc_def Let_def string_at_def)
  have "trimmed_at e' ''event_id'' = ?turn @ '':'' @ ty"
    using boundary_id_trim [OF assms(2)] by (simp add: e'_def trimmed_at_def e del: append.simps)
  then have "eventIDForOrderKey random e' = ?turn @ '':'' @ ty" by (simp add: eventIDForOrderKey_def)
  then have "retime random base i e = mset_key ''order_key'' (GStr (order_key_for (AddMillis base i) (int i) (?turn @ '':'' @ ty))) e'"
    by (simp add: retime_def Let_def e'_def orderKeyForEventTime_def)
  moreover have "suffix ty (order_key_for (AddMillis base i) (int i) (?turn @ '':'' @ ty))"
    by (rule suffix_through [OF _ order_key_suffix]) (auto simp: suffix_def)
  moreover have "list_all visible (order_key_for (AddMillis base i) (int i) (?turn @ '':'' @ ty))"
    using assms(2) by (intro order_key_visible) (auto simp: boundary_types_def visible_def byte_of_def)
  ultimately show ?thesis using assms(1) by (simp add: boundary_doc_def Let_def string_at_def e'_def)
qed

lemma boundary_type: "boundary_doc args ty e \<Longrightarrow> mget e ''type'' = Some (GStr ty)"
  by (simp add: boundary_doc_def Let_def)

lemma boundary_events_docs:
  assumes "boundary_doc args ''user_message.created'' m" "boundary_doc args ''turn.submitted'' t"
  shows "\<exists>m' t'. boundary_events ap req ac [m, t] = (if tq_OmitUserMessage req then [t'] else [m', t']) \<and>
    boundary_doc args ''user_message.created'' m' \<and> boundary_doc args ''turn.submitted'' t'"
proof -
  have "\<exists>m' t'. retimeTurnBoundaryEvents (ap_random ap) [m, t] (tq_OrderBase req) = [m', t'] \<and>
      boundary_doc args ''user_message.created'' m' \<and> boundary_doc args ''turn.submitted'' t'"
    using assms retime_doc by (simp add: retimeTurnBoundaryEvents_def boundary_types_def)
  then obtain m1 t1 where one: "retimeTurnBoundaryEvents (ap_random ap) [m, t] (tq_OrderBase req) = [m1, t1]"
      "boundary_doc args ''user_message.created'' m1" "boundary_doc args ''turn.submitted'' t1" by blast
  have "\<exists>m' t'. stampTurnSubmittedSource [m1, t1] source task prompt = [m', t'] \<and>
      boundary_doc args ''user_message.created'' m' \<and> boundary_doc args ''turn.submitted'' t'" for source task prompt
    using one stamp_source_doc by (simp add: stampTurnSubmittedSource_def Let_def)
  then obtain m2 t2 where two: "stampTurnSubmittedSource [m1, t1] (sdkTurnSource (tq_Source req)) (tq_SourceTaskID req) (ac_Prompt ac) = [m2, t2]"
      "boundary_doc args ''user_message.created'' m2" "boundary_doc args ''turn.submitted'' t2" by blast
  then show ?thesis
    using boundary_type [OF two(2)] boundary_type [OF two(3)] one(1)
    by (auto simp: boundary_events_def Let_def omitUserMessageEvents_def)
qed

section \<open>Writing the boundary events\<close>

lemma boundary_identity:
  assumes "boundary_doc args ty e" "ty \<in> set boundary_types"
  shows "event_identity e = TurnIDForClientNonce (TrimSpace (us_ClientNonce args)) @ '':'' @ ty"
  using assms(1) boundary_id_trim [OF assms(2)]
  by (simp add: event_identity_def boundary_doc_def Let_def trimmed_at_def string_at_def)

text \<open>Trimming keeps every visible character.\<close>

lemma trim_runes_keeps:
  assumes "\<forall>r\<in>set rs. c \<notin> set r" "c \<in> set s"
  shows "c \<in> set (trim_runes rs s)"
  using assms
proof (induction rs s rule: trim_runes.induct)
  case (1 rs s)
  show ?case
  proof (cases "s \<noteq> [] \<and> rune_prefix rs s \<noteq> 0")
    case True
    then obtain r where "find (\<lambda>r. prefix r s) rs = Some r" "rune_prefix rs s = length r"
      by (auto simp: rune_prefix_def split: option.splits)
    then have "r \<in> set rs" "s = r @ drop (rune_prefix rs s) s" by (auto simp: find_Some_iff prefix_def)
    then have "c \<in> set (drop (rune_prefix rs s) s)" using "1.prems" by (metis Un_iff set_append)
    then show ?thesis using "1.IH" True "1.prems"(1) by (simp add: trim_runes_step)
  next
    case False
    then show ?thesis using "1.prems"(2) trim_runes_unchanged [of s rs] by auto
  qed
qed

lemma TrimSpace_keeps: "c \<in> set s \<Longrightarrow> visible c \<Longrightarrow> c \<in> set (TrimSpace s)"
proof -
  assume c: "c \<in> set s" "visible c"
  have "\<forall>r\<in>set space_runes. list_all (\<lambda>c. \<not> visible c) r" by (simp add: space_runes_def visible_def byte_of_def)
  then have "\<forall>r\<in>set space_runes. c \<notin> set r" using c(2) by (auto simp: list_all_iff)
  then show ?thesis using c(1) by (simp add: TrimSpace_def trim_runes_keeps)
qed

lemma boundary_storage_key:
  assumes "boundary_doc args ty e" "us_SessionStorageKey args = SessionStorageKey scope (us_SessionID args)"
  shows "storage_key_of (store_scope scope) e = TrimSpace (SessionStorageKey scope (us_SessionID args))"
proof (cases "TrimSpace (SessionStorageKey scope (us_SessionID args)) = []")
  case False
  then show ?thesis using assms by (simp add: storage_key_of_def trimmed_at_def boundary_doc_def Let_def)
next
  case True
  have eval: "TrimSpace ''default'' = ''default''" by code_simp
  have "visible (CHR '':'')" by (simp add: visible_def byte_of_def)
  then have "CHR '':'' \<notin> set (SessionStorageKey scope (us_SessionID args))" using True TrimSpace_keeps by fastforce
  then have "SessionStorageKey scope (us_SessionID args) = TrimSpace (us_SessionID args)" "SessionStorageKey (store_scope scope) (us_SessionID args) = TrimSpace (us_SessionID args)"
    by (auto simp: SessionStorageKey_def store_scope_def Let_def eval split: if_splits)
  moreover have "storage_key_of (store_scope scope) e = SessionStorageKey (store_scope scope) (us_SessionID args)"
    using assms True by (simp add: storage_key_of_def trimmed_at_def boundary_doc_def Let_def string_at_def SessionStorageKey_def)
  ultimately show ?thesis by simp
qed

lemma boundary_keys_differ:
  assumes "boundary_doc args ''user_message.created'' m" "boundary_doc args' ''turn.submitted'' t"
  shows "trimmed_at m ''order_key'' \<noteq> trimmed_at t ''order_key''"
proof
  assume eq: "trimmed_at m ''order_key'' = trimmed_at t ''order_key''"
  have trim: "trimmed_at m ''order_key'' = string_at m ''order_key''" "trimmed_at t ''order_key'' = string_at t ''order_key''"
    using assms TrimSpace_visible by (simp_all add: boundary_doc_def Let_def trimmed_at_def)
  obtain x y where "string_at m ''order_key'' = x @ ''user_message.cre'' @ ''ated''" "string_at t ''order_key'' = y @ ''turn.submi'' @ ''tted''"
    using assms by (auto simp: boundary_doc_def Let_def suffix_def)
  then have "(x @ ''user_message.cre'') @ ''ated'' = (y @ ''turn.submi'') @ ''tted''" using eq trim by simp
  then show False using append_eq_append_conv [of "''ated''" "''tted''"] by simp
qed

text \<open>After all the boundary events were written, each of them is recorded, unless it was before.\<close>

lemma persist_two:
  assumes "boundary_doc args ''user_message.created'' m" "boundary_doc args ''turn.submitted'' t"
    and "us_SessionStorageKey args = SessionStorageKey (ap_scope ap) (us_SessionID args)"
    and "persist_all ap key (if omitted then [t] else [m, t]) pl = (None, pl')"
  defines "turn \<equiv> TurnIDForClientNonce (TrimSpace (us_ClientNonce args))"
    and "k \<equiv> TrimSpace (SessionStorageKey (ap_scope ap) (us_SessionID args))"
  shows "recorded pl' k (turn @ '':turn.submitted'')"
    and "\<not> omitted \<Longrightarrow> \<not> recorded pl k (turn @ '':user_message.created'') \<Longrightarrow> recorded pl' k (turn @ '':user_message.created'')"
proof -
  define pl1 where "pl1 = (if omitted then pl else snd (persistBackendEvent ap key m pl))"
  have last: "persistBackendEvent ap key t pl1 = (None, pl')"
    using assms(4) by (auto simp: pl1_def split: if_splits prod.splits option.splits)
  have idt: "event_identity t = turn @ '':turn.submitted''" and idm: "event_identity m = turn @ '':user_message.created''"
    using boundary_identity [OF assms(2)] boundary_identity [OF assms(1)] by (simp_all add: boundary_types_def turn_def)
  have keyt: "storage_key_of (store_scope (ap_scope ap)) t = k" and keym: "storage_key_of (store_scope (ap_scope ap)) m = k"
    using boundary_storage_key [OF assms(2,3)] boundary_storage_key [OF assms(1,3)] by (simp_all add: k_def)
  show "recorded pl' k (turn @ '':turn.submitted'')"
    using persistBackendEvent_records(2) [of ap key t pl1] last idt keyt by simp
  assume new: "\<not> omitted" "\<not> recorded pl k (turn @ '':user_message.created'')"
  then have ok: "storable (store_scope (ap_scope ap)) m"
    using assms(4) persistBackendEvent_cases [of ap m key pl] by (auto split: prod.splits option.splits)
  let ?row = "row_of (store_scope (ap_scope ap)) (ap_db_now ap) m"
  have row: "er_tank_session_id ?row = k" "er_event_id ?row = turn @ '':user_message.created''" "er_order_key ?row = trimmed_at m ''order_key''"
    using idm keym by (simp_all add: row_of_def)
  have noclash: "\<not> identity_clash ?row (pl_events pl)" using new(2) row by (auto simp: recorded_def identity_clash_def)
  have ev: "pl_events pl1 = snd (insert_row ?row (pl_events pl))"
    using persistBackendEvent_cases [of ap m key pl] ok new(1) by (auto simp: pl1_def Upsert_storable)
  have "\<exists>r\<in>set (pl_events pl1). er_tank_session_id r = k \<and> er_event_id r = turn @ '':user_message.created'' \<and> er_order_key r = trimmed_at m ''order_key''"
    using insert_row_present [OF noclash] row unfolding ev by auto
  then obtain r where r: "r \<in> set (pl_events pl1)" "er_tank_session_id r = k" "er_event_id r = turn @ '':user_message.created''"
      "er_order_key r = trimmed_at m ''order_key''" by blast
  then have "r \<in> set (pl_events pl')"
    using persistBackendEvent_keeps [OF r(1), of t ap key] boundary_keys_differ [OF assms(1,2)] last by simp
  then show "recorded pl' k (turn @ '':user_message.created'')" using r by (auto simp: recorded_def)
qed

section \<open>Outcomes of a submission\<close>

definition nonce_of :: "appServer \<Rightarrow> sdkTurnRequest \<Rightarrow> string" where
  "nonce_of ap req = (if TrimSpace (tq_ClientNonce req) = [] then ap_random ap else TrimSpace (tq_ClientNonce req))"

lemma check_text_accepts:
  assumes "check_text ap req = Inr (nonce, prompt, display, attachments)"
  shows "prompt = TrimSpace (tq_Prompt req)" "nonce = nonce_of ap req" "turnIDPattern nonce"
  using assms unfolding check_text_def Let_def nonce_of_def [symmetric]
  by (simp_all split: if_split_asm sum.split_asm)

lemma check_request_accepts:
  assumes "check_request ap pl email sid req = Inr ac"
  shows "ac_Prompt ac = TrimSpace (tq_Prompt req)" "ac_ClientNonce ac = nonce_of ap req" "turnIDPattern (nonce_of ap req)"
    "ac_Provider ac \<in> {''claude'', ''codex''}" "ap_bus ap \<noteq> None"
proof -
  have provider: "sdkProviderForMode m = Some p \<Longrightarrow> p \<in> {''claude'', ''codex''}" for m p
    by (auto simp: sdkProviderForMode_def Let_def split: if_splits)
  obtain nonce prompt display attachments mode p skill model effort psid where
    "check_text ap req = Inr (nonce, prompt, display, attachments)" "sdkProviderForMode mode = Some p" "ap_bus ap \<noteq> None"
    "ac = \<lparr>ac_ClientNonce = nonce, ac_Prompt = prompt, ac_DisplayText = display, ac_Attachments = attachments, ac_Provider = p,
       ac_SkillName = skill, ac_Model = model, ac_Effort = effort, ac_ProviderSessionID = psid\<rparr>"
    using assms unfolding check_request_def
    by (simp split: sum.split_asm option.split_asm prod.split_asm if_split_asm; blast)
  then show "ac_Prompt ac = TrimSpace (tq_Prompt req)" "ac_ClientNonce ac = nonce_of ap req" "turnIDPattern (nonce_of ap req)"
    "ac_Provider ac \<in> {''claude'', ''codex''}" "ap_bus ap \<noteq> None"
    using check_text_accepts provider by simp_all
qed

lemma nonce_pattern_trim: "turnIDPattern n \<Longrightarrow> TrimSpace n = n"
  by (rule TrimSpace_safe) (auto simp: turnIDPattern_def list_all_iff nonce_char_def)

lemma normalize_attachments_error: "normalize_attachments as = Inl e \<Longrightarrow> fst e = 400"
proof (induction as)
  case (Cons a as)
  show ?case
    using Cons by (cases "normalize_attachments as") (auto simp: Let_def split: if_split_asm)
qed simp

lemma refusedE:
  "(if c then Inl (n, m) else x) = Inl e \<Longrightarrow> n \<noteq> (500 :: int) \<Longrightarrow> (x = Inl e \<Longrightarrow> fst e \<noteq> 500) \<Longrightarrow> fst e \<noteq> 500"
  by (auto split: if_split_asm)

lemma check_request_error: "check_request ap pl email sid req = Inl e \<Longrightarrow> fst e \<noteq> 500"
proof -
  have "check_pod ap n = Some e \<Longrightarrow> fst e \<noteq> 500" for n
    by (auto simp: check_pod_def split: option.split_asm pod_result.split_asm if_split_asm)
  moreover have "check_run_config ap pl email sid p req = Inl e \<Longrightarrow> fst e \<noteq> 500" for p
    unfolding check_run_config_def Let_def by (erule refusedE, simp)+ simp
  moreover have "check_skill p prompt req = Inl e \<Longrightarrow> fst e \<noteq> 500" for p prompt
    by (auto simp: check_skill_def Let_def split: if_split_asm)
  moreover have "normalizeDisplayAttachments as = Inl e \<Longrightarrow> fst e \<noteq> 500" for as
    by (cases "32 < length as") (auto simp: normalizeDisplayAttachments_def dest: normalize_attachments_error)
  then have "check_text ap req = Inl e \<Longrightarrow> fst e \<noteq> 500"
    unfolding check_text_def Let_def nonce_of_def [symmetric] by (auto split: if_split_asm sum.split_asm)
  ultimately show "check_request ap pl email sid req = Inl e \<Longrightarrow> fst e \<noteq> 500"
    unfolding check_request_def
    by (auto split: sum.split_asm option.split_asm prod.split_asm if_split_asm)
qed

lemma boundary_session:
  assumes "boundary_doc args ty e" "storable scope e"
  shows "us_SessionID args \<noteq> []"
proof -
  have "well_formed_event e" using assms(2) by (simp add: storable_def ValidateEventMap_iff)
  then have "has e ''session_id''" by (auto simp: well_formed_event_def envelope_ok_def envelope_fields_def)
  then show ?thesis using assms(1) by (auto simp: has_def string_at_def boundary_doc_def Let_def)
qed

text \<open>How far a submission gets: refused, stopped by the ledger, or on to the bus with its events recorded.\<close>

lemma enqueue_stages:
  assumes "enqueueSDKTurn ap email sid req pl = (res, pl')"
  defines "turn \<equiv> TurnIDForClientNonce (nonce_of ap req)"
    and "k \<equiv> TrimSpace (SessionStorageKey (ap_scope ap) sid)"
  shows "(\<exists>code msg q. res = Inl (code, msg) \<and> code \<noteq> 500 \<and> pl' = pl\<lparr>pl_sequence := q\<rparr>) \<or>
    (\<exists>m. res = Inl (500, ''persist boundary event: '' @ m) \<and> pl_sent pl' = pl_sent pl) \<or>
    (\<exists>ac pl1. check_request ap pl email sid req = Inr ac \<and> publish_turn ap email sid req ac turn pl1 = (res, pl') \<and>
       pl_sent pl1 = pl_sent pl \<and> recorded pl1 k (turn @ '':turn.submitted'') \<and> k \<noteq> [] \<and> sid \<noteq> [] \<and>
       (tq_OmitUserMessage req \<or> recorded pl k (turn @ '':user_message.created'') \<or> recorded pl1 k (turn @ '':user_message.created'')))"
proof (cases "check_request ap pl email sid req")
  case (Inl e)
  then have "res = Inl e" "pl' = pl\<lparr>pl_sequence := pl_sequence pl\<rparr>" using assms(1) by (simp_all add: enqueueSDKTurn_def)
  then show ?thesis using check_request_error [OF Inl] by (cases e) (metis fst_conv)
next
  case (Inr ac)
  let ?args = "submission_args ap email sid req ac"
  let ?built = "UserSubmissionEventMaps (ap_clock ap 0) (ap_clock ap 1) (ap_clock ap 2) (pl_sequence pl) ?args"
  let ?key = "SessionStorageKey (ap_scope ap) sid"
  note nonce = check_request_accepts(2,3) [OF Inr]
  show ?thesis
  proof (cases ?built)
    case (Inl e)
    then have r: "res = Inl (400, build_text e)" "pl' = pl\<lparr>pl_sequence := pl_sequence pl\<rparr>"
      using assms(1) Inr by (simp_all add: enqueueSDKTurn_def)
    show ?thesis by (rule disjI1, intro exI conjI, rule r(1), simp, rule r(2))
  next
    case built: (Inr b)
    obtain turnID events seq where b: "b = (turnID, events, seq)" by (cases b)
    have args: "us_SessionID ?args = sid" "us_SessionStorageKey ?args = ?key"
        "TrimSpace (us_ClientNonce ?args) = nonce_of ap req"
      using nonce nonce_pattern_trim by (simp_all add: submission_args_def)
    have turnID: "turnID = turn" using submission_built(1) [OF built [unfolded b]] args by (simp add: turn_def)
    obtain m t where mt: "boundary_events ap req ac events = (if tq_OmitUserMessage req then [t] else [m, t])"
        "boundary_doc ?args ''user_message.created'' m" "boundary_doc ?args ''turn.submitted'' t"
    proof -
      obtain m t where "events = [m, t]" "boundary_doc ?args ''user_message.created'' m" "boundary_doc ?args ''turn.submitted'' t"
        using submission_built(2) [OF built [unfolded b]] by blast
      then show ?thesis using boundary_events_docs [of ?args m t ap req ac] that by blast
    qed
    define pl0 where "pl0 = pl\<lparr>pl_sequence := seq\<rparr>"
    have rec0: "recorded pl0 = recorded pl" and sent0: "pl_sent pl0 = pl_sent pl" by (simp_all add: pl0_def recorded_def fun_eq_iff)
    note run = assms(1) [unfolded enqueueSDKTurn_def Inr sum.case built b prod.case turnID, folded pl0_def, unfolded Let_def]
    show ?thesis
    proof (cases "if tq_RequireExistingUserMessage req then requireExistingUserMessage ap pl0 sid turn else None")
      case (Some e)
      then have "res = Inl e" "pl' = pl\<lparr>pl_sequence := seq\<rparr>" "fst e = 400"
        using run by (auto simp: pl0_def requireExistingUserMessage_def split: if_splits)
      then show ?thesis by (cases e) auto
    next
      case None
      obtain err pl1 where p: "persist_all ap ?key (if tq_OmitUserMessage req then [t] else [m, t]) pl0 = (err, pl1)" by fastforce
      have sent: "pl_sent pl1 = pl_sent pl" using persist_all_frame [of ap ?key _ pl0] p sent0 by (metis snd_conv)
      show ?thesis
      proof (cases err)
        case (Some e)
        then show ?thesis using run None p sent unfolding mt(1) by auto
      next
        case none: None
        note two = persist_two [OF mt(2,3), of ap ?key "tq_OmitUserMessage req" pl0 pl1, unfolded args(1), OF _ p [unfolded none]]
        have "publish_turn ap email sid req ac turn pl1 = (res, pl')" using run None p none unfolding mt(1) by simp
        moreover have st: "storable (store_scope (ap_scope ap)) t"
        proof -
          have "\<exists>q. persistBackendEvent ap ?key t q = (None, pl1)"
            using p none by (auto split: if_splits prod.splits option.splits)
          then obtain q where "persistBackendEvent ap ?key t q = (None, pl1)" by blast
          then show ?thesis using persistBackendEvent_records(1) [of ap ?key t q] by simp
        qed
        moreover have "sid \<noteq> []" using boundary_session [OF mt(3) st] unfolding args(1) .
        moreover have "k \<noteq> []"
          using boundary_storage_key [OF mt(3), of "ap_scope ap", unfolded args(1,2), OF refl] st by (auto simp: storable_def k_def)
        ultimately show ?thesis
          using Inr sent two rec0 args by (auto simp: turn_def k_def)
      qed
    qed
  qed
qed

text \<open>
  C32: a turn that is refused with any status but 500 leaves no trace: nothing is written to the ledger, to the sessions
  or to the bus, and only the counter of the order keys may have moved.
\<close>

theorem refused_turn_leaves_no_trace:
  assumes "enqueueSDKTurn ap email sid req pl = (Inl (code, msg), pl')" "code \<noteq> 500"
  shows "\<exists>q. pl' = pl\<lparr>pl_sequence := q\<rparr>"
proof -
  have "\<not> publish_turn ap email sid req ac turn pl1 = (Inl (code, msg), pl')" for ac turn pl1
    using assms(2) by (auto simp: publish_turn_def Let_def split: prod.split option.split)
  then show ?thesis using enqueue_stages [OF assms(1)] assms(2) by auto
qed

lemma PublishCommand_sent:
  assumes "PublishCommand scope leg c sent = (None, sent')"
  shows "\<exists>c'. sent' = sent @ [(CommandStreamSubjectForCommand c', c'), (SubjectForCommand c', c')] \<and>
    (c' = Normalize c \<or> c' = (Normalize c)\<lparr>cm_SessionStorageKey := SessionStorageKey scope (cm_SessionID (Normalize c))\<rparr>)"
  using assms unfolding PublishCommand_def Let_def by (auto split: if_split_asm option.split_asm)

lemma submit_command_normal:
  fixes n
  assumes "check_request ap pl email sid req = Inr ac"
  defines "c \<equiv> Normalize (submit_command ap email sid req ac (TurnIDForClientNonce n))"
  shows "cm_Type c = CommandSubmitTurn" "cm_TurnID c = TurnIDForClientNonce n" "cm_Prompt c = TrimSpace (tq_Prompt req)"
    "cm_CommandID c \<noteq> []" "cm_Provider c \<noteq> []" "cm_SessionStorageKey c = TrimSpace (SessionStorageKey (ap_scope ap) sid)"
proof -
  note ac = check_request_accepts [OF assms(1)]
  have type: "TrimSpace CommandSubmitTurn = CommandSubmitTurn" by code_simp
  have "CHR ''t'' \<in> set (TrimSpace (''turn:'' @ ac_ClientNonce ac))"
    by (rule TrimSpace_keeps) (simp_all add: visible_def byte_of_def)
  then have "TrimSpace (''turn:'' @ ac_ClientNonce ac) \<noteq> []" by force
  moreover have "TrimSpace ''claude'' = ''claude''" "TrimSpace ''codex'' = ''codex''" by code_simp+
  ultimately show "cm_Type c = CommandSubmitTurn" "cm_TurnID c = TurnIDForClientNonce n" "cm_Prompt c = TrimSpace (tq_Prompt req)"
    "cm_CommandID c \<noteq> []" "cm_Provider c \<noteq> []" "cm_SessionStorageKey c = TrimSpace (SessionStorageKey (ap_scope ap) sid)"
    using ac(1,4) type TrimSpace_visible [OF TurnID_visible] by (auto simp: c_def Normalize_def submit_command_def)
qed

lemma accepted_turn:
  assumes "enqueueSDKTurn ap email sid req pl = (Inr resp, pl')"
  defines "turn \<equiv> turnIDFromEnqueueResponse resp" and "k \<equiv> TrimSpace (SessionStorageKey (ap_scope ap) sid)"
  shows "recorded pl' k (turn @ '':turn.submitted'') \<and>
    (tq_OmitUserMessage req \<or> recorded pl k (turn @ '':user_message.created'') \<or> recorded pl' k (turn @ '':user_message.created'')) \<and>
    (\<exists>c. pl_sent pl' = pl_sent pl @ [(CommandStreamSubjectForCommand c, c), (SubjectForCommand c, c)] \<and>
       cm_Type c = CommandSubmitTurn \<and> cm_TurnID c = turn \<and> cm_Prompt c = TrimSpace (tq_Prompt req))"
proof -
  define t where "t = TurnIDForClientNonce (nonce_of ap req)"
  obtain ac pl1 where ac: "check_request ap pl email sid req = Inr ac" "publish_turn ap email sid req ac t pl1 = (Inr resp, pl')"
    "pl_sent pl1 = pl_sent pl" "recorded pl1 k (t @ '':turn.submitted'')"
    "tq_OmitUserMessage req \<or> recorded pl k (t @ '':user_message.created'') \<or> recorded pl1 k (t @ '':user_message.created'')"
    using enqueue_stages [OF assms(1)] by (auto simp: t_def k_def)
  let ?c = "submit_command ap email sid req ac t"
  obtain sent where sent: "PublishCommand (ap_scope ap) (case ap_bus ap of None \<Rightarrow> (\<lambda>_ _. Some ''session bus unavailable'') | Some leg \<Rightarrow> leg)
      ?c (pl_sent pl1) = (None, sent)" "pl' = pl1\<lparr>pl_sent := sent\<rparr>" "resp = submit_response ap sid t ac"
    using ac(2) unfolding publish_turn_def Let_def by (auto split: prod.split_asm option.split_asm if_split_asm)
  have turn: "turn = t"
    using TurnID_visible TrimSpace_visible
    by (simp add: turn_def turnIDFromEnqueueResponse_def sent(3) submit_response_def trimmed_at_def string_at_def mget_def t_def)
  have same: "recorded pl' = recorded pl1" by (simp add: recorded_def sent(2) fun_eq_iff)
  show ?thesis
    using PublishCommand_sent [OF sent(1)] submit_command_normal(1-3) [OF ac(1)] ac(3,4,5)
    unfolding same turn by (auto simp: sent(2) t_def)
qed


section \<open>Failures to publish\<close>

lemma command_failed_event:
  assumes "TurnCommandFailedEventMap clock0 clock1 s args = Inr (event, seq)" "well_formed_event event"
    and "TrimSpace (cf_SessionStorageKey args) \<noteq> []" "list_all visible (cf_TurnID args)"
  shows "event_identity event = cf_TurnID args @ '':turn.command_failed''"
    "storage_key_of scope event = TrimSpace (cf_SessionStorageKey args)" "storable scope event"
proof -
  define draft where "draft = [(''event_id'', GStr (cf_TurnID args @ '':turn.command_failed'')),
    (''conversation_id'', GStr (cf_SessionID args)), (''session_id'', GStr (cf_SessionID args)),
    (''turn_id'', GStr (cf_TurnID args)), (''client_nonce'', GStr (cf_ClientNonce args)),
    (''actor'', GStr (actor_wire ActorSystem)), (''source'', GStr (source_wire SourceTank)),
    (''type'', GStr (event_wire EventTurnCommandFailed)), (''created_at'', GStr (FormatRFC3339Nano (default_now clock0 (cf_Now args)))),
    (''producer'', GMap (producer_for (cf_Runtime args))), (''visibility'', GStr (visibility_wire VisibilityDurable)),
    (''payload'', GMap [(''reason'', GStr (cf_Reason args))])]"
  have ev: "event = add_identity (cf_SessionStorageKey args) (cf_SessionID args) (cf_Email args) (cf_Runtime args) (stamp_out clock1 (add1_int64 s) draft)"
    using assms(1) unfolding TurnCommandFailedEventMap_def Let_def draft_def [symmetric]
    by (auto simp: map_event_def StampEventMap_def Let_def split: if_split_asm)
  have eid: "string_at draft ''event_id'' = cf_TurnID args @ '':turn.command_failed''" "string_at draft ''uuid'' = []" "mget draft ''order_key'' = None"
    by (simp_all add: draft_def)
  have vis: "list_all visible (cf_TurnID args @ '':turn.command_failed'')" using assms(4) by (simp add: visible_def byte_of_def)
  have "string_at (stamp_out clock1 q draft) ''id'' = cf_TurnID args @ '':turn.command_failed''" for q
    by (simp add: stamp_out_def Let_def eid)
  then show identity: "event_identity event = cf_TurnID args @ '':turn.command_failed''"
    using TrimSpace_visible [OF vis] by (simp add: event_identity_def trimmed_at_def ev add_identity_def)
  have key: "cf_SessionStorageKey args \<noteq> []" using assms(3) by auto
  then show storage: "storage_key_of scope event = TrimSpace (cf_SessionStorageKey args)"
    using assms(3) by (simp add: storage_key_of_def trimmed_at_def ev add_identity_def)
  have "string_at event ''order_key'' = order_key_for clock1 (add1_int64 s) (cf_TurnID args @ '':turn.command_failed'')"
    using stamp_out_order_key [OF eid(3), of clock1 "add1_int64 s"] by (simp add: ev add_identity_def has_def eid)
  then have "trimmed_at event ''order_key'' \<noteq> []"
    using TrimSpace_visible [OF order_key_visible [OF vis]] by (simp add: trimmed_at_def)
  then show "storable scope event" using identity storage assms(2,3) by (simp add: storable_def ValidateEventMap_iff)
qed

text \<open>The marker is written when the clock is sane and the turn belongs to a session.\<close>

lemma mark_command_failed_records:
  assumes "valid_gotime (ap_clock ap 3)" "valid_gotime (cf_Now args)" "cf_SessionID args \<noteq> []" "cf_TurnID args \<noteq> []" "cf_Reason args \<noteq> []"
    and "TrimSpace (cf_SessionStorageKey args) \<noteq> []" "list_all visible (cf_TurnID args)"
  shows "recorded (mark_command_failed ap args pl) (TrimSpace (cf_SessionStorageKey args)) (cf_TurnID args @ '':turn.command_failed'')"
    "pl_sent (mark_command_failed ap args pl) = pl_sent pl"
proof -
  obtain event where event: "TurnCommandFailedEventMap (ap_clock ap 3) (ap_clock ap 4) (pl_sequence pl) args = Inr (event, add1_int64 (pl_sequence pl))"
    "well_formed_event event"
    using TurnCommandFailed_valid [OF assms(1-5)] by blast
  note facts = command_failed_event(1,2) [OF event assms(6,7)] command_failed_event(3) [OF event assms(6,7), of "store_scope (ap_scope ap)"]
  show "recorded (mark_command_failed ap args pl) (TrimSpace (cf_SessionStorageKey args)) (cf_TurnID args @ '':turn.command_failed'')"
    using persistBackendEvent_adds [OF facts(3)] facts(1,2) by (simp add: mark_command_failed_def event(1))
  show "pl_sent (mark_command_failed ap args pl) = pl_sent pl"
    by (simp add: mark_command_failed_def event(1) persistBackendEvent_frame)
qed

text \<open>A submission that the bus refused: the command it tried to publish, and the marker.\<close>

lemma failed_publish:
  assumes "enqueueSDKTurn ap email sid req pl = (Inl (500, ''publish turn: '' @ e), pl')"
    and "\<not> isSelfResumeTurnSource (tq_Source req)" "valid_gotime (ap_clock ap 3)"
  defines "turn \<equiv> TurnIDForClientNonce (nonce_of ap req)" and "k \<equiv> TrimSpace (SessionStorageKey (ap_scope ap) sid)"
  shows "recorded pl' k (turn @ '':turn.command_failed'') \<and>
    (\<exists>leg c. ap_bus ap = Some leg \<and> cm_Type c = CommandSubmitTurn \<and> cm_TurnID c = turn \<and>
       (if leg (CommandStreamSubjectForCommand c) c = None
        then leg (SubjectForCommand c) c = Some e \<and> pl_sent pl' = pl_sent pl @ [(CommandStreamSubjectForCommand c, c)]
        else leg (CommandStreamSubjectForCommand c) c = Some e \<and> pl_sent pl' = pl_sent pl))"
proof -
  obtain ac pl1 where ac: "check_request ap pl email sid req = Inr ac"
    "publish_turn ap email sid req ac turn pl1 = (Inl (500, ''publish turn: '' @ e), pl')" "pl_sent pl1 = pl_sent pl" "k \<noteq> []" "sid \<noteq> []"
    using enqueue_stages [OF assms(1)] by (auto simp: turn_def k_def)
  obtain leg where leg: "ap_bus ap = Some leg" using check_request_accepts(5) [OF ac(1)] by blast
  let ?c = "Normalize (submit_command ap email sid req ac turn)"
  note c = submit_command_normal [OF ac(1), of "nonce_of ap req", folded turn_def k_def]
  define failed where "failed = \<lparr>cf_SessionID = sid, cf_SessionStorageKey = SessionStorageKey (ap_scope ap) sid, cf_Email = email, cf_TurnID = turn,
    cf_ClientNonce = ac_ClientNonce ac, cf_Runtime = ac_Provider ac, cf_Reason = ''publish_submit_turn_failed: '' @ e, cf_Now = ap_clock ap 3\<rparr>"
  obtain sent where sent: "PublishCommand (ap_scope ap) leg (submit_command ap email sid req ac turn) (pl_sent pl1) = (Some e, sent)"
    "pl' = mark_command_failed ap failed (pl1\<lparr>pl_sent := sent\<rparr>)"
    using ac(2) assms(2) leg unfolding publish_turn_def Let_def failed_def
    by (auto split: prod.split_asm option.split_asm if_split_asm)
  have "CommandSubmitTurn \<noteq> []" by code_simp
  then have "if leg (CommandStreamSubjectForCommand ?c) ?c = None
      then leg (SubjectForCommand ?c) ?c = Some e \<and> sent = pl_sent pl @ [(CommandStreamSubjectForCommand ?c, ?c)]
      else leg (CommandStreamSubjectForCommand ?c) ?c = Some e \<and> sent = pl_sent pl"
    using sent(1) c ac(3,4) by (auto simp: PublishCommand_def Let_def split: option.split_asm)
  moreover have "recorded pl' k (turn @ '':turn.command_failed'')" "pl_sent pl' = sent"
    using mark_command_failed_records [of ap failed "pl1\<lparr>pl_sent := sent\<rparr>"] assms(3) ac(4,5)
    by (simp_all add: sent(2) failed_def turn_def k_def)
  ultimately show ?thesis using c(1,2) leg by metis
qed


text \<open>
  where that marker is wrong. When the command stream accepts the command and the combined stream does not,
  the call fails and the ledger says that the turn's command failed, but the command is out and a runner that reads
  the command stream runs the turn.
\<close>

theorem half_published_turn:
  assumes "enqueueSDKTurn ap email sid req pl = (Inl (500, ''publish turn: '' @ e), pl')"
    and "\<not> isSelfResumeTurnSource (tq_Source req)" "valid_gotime (ap_clock ap 3)"
    and "ap_bus ap = Some (\<lambda>subject c. if subject = CommandStreamSubjectForCommand c then None else Some e)"
  defines "turn \<equiv> TurnIDForClientNonce (nonce_of ap req)"
  shows "recorded pl' (TrimSpace (SessionStorageKey (ap_scope ap) sid)) (turn @ '':turn.command_failed'') \<and>
    (\<exists>c. pl_sent pl' = pl_sent pl @ [(CommandStreamSubjectForCommand c, c)] \<and> cm_Type c = CommandSubmitTurn \<and> cm_TurnID c = turn)"
proof -
  obtain leg c where "recorded pl' (TrimSpace (SessionStorageKey (ap_scope ap) sid)) (turn @ '':turn.command_failed'')"
    "ap_bus ap = Some leg" "cm_Type c = CommandSubmitTurn" "cm_TurnID c = turn"
    "leg (CommandStreamSubjectForCommand c) c = None \<longrightarrow> pl_sent pl' = pl_sent pl @ [(CommandStreamSubjectForCommand c, c)]"
    using failed_publish [OF assms(1-3)] unfolding turn_def by (auto split: if_split_asm)
  then show ?thesis using assms(4) by auto
qed

section \<open>A submission that goes through\<close>

lemma plain_boundary_events:
  assumes "sdkTurnSource (tq_Source req) = ''sdk''" "IsZero (tq_OrderBase req)" "\<not> tq_OmitUserMessage req"
  shows "boundary_events ap req ac events = events"
proof -
  have "TrimSpace ''sdk'' = ''sdk''" by code_simp
  then show ?thesis using assms by (simp add: boundary_events_def retimeTurnBoundaryEvents_def stampTurnSubmittedSource_def Let_def)
qed

lemma boundary_storable:
  assumes "boundary_doc args ty e" "ty \<in> set boundary_types" "ValidateEventMap (Some e) = None"
    and "us_SessionStorageKey args = SessionStorageKey scope (us_SessionID args)" "TrimSpace (SessionStorageKey scope (us_SessionID args)) \<noteq> []"
  shows "storable (store_scope scope) e"
proof -
  have "string_at e ''order_key'' \<noteq> []" using assms(1,2) by (auto simp: boundary_doc_def Let_def boundary_types_def)
  moreover have "trimmed_at e ''order_key'' = string_at e ''order_key''"
    using assms(1) TrimSpace_visible by (simp add: boundary_doc_def Let_def trimmed_at_def)
  ultimately show ?thesis
    using boundary_identity [OF assms(1,2)] boundary_storage_key [OF assms(1,4)] assms(3,5) by (simp add: storable_def)
qed

lemma plain_submission:
  assumes "check_request ap pl email sid req = Inr ac"
    and "sdkTurnSource (tq_Source req) = ''sdk''" "IsZero (tq_OrderBase req)" "\<not> tq_OmitUserMessage req" "\<not> tq_RequireExistingUserMessage req"
    and "submission_inputs_ok (submission_args ap email sid req ac)" "valid_gotime (ap_clock ap 0)" "valid_gotime (tq_CreatedAt req)"
    and "TrimSpace (SessionStorageKey (ap_scope ap) sid) \<noteq> []"
  shows "\<exists>pl1. enqueueSDKTurn ap email sid req pl = publish_turn ap email sid req ac (TurnIDForClientNonce (nonce_of ap req)) pl1 \<and> pl_sent pl1 = pl_sent pl"
proof -
  let ?args = "submission_args ap email sid req ac" and ?key = "SessionStorageKey (ap_scope ap) sid"
  have valid_now: "valid_gotime (us_Now ?args)" using default_now_valid [OF assms(7,8)] by (simp add: submission_args_def)
  obtain m t where built: "UserSubmissionEventMaps (ap_clock ap 0) (ap_clock ap 1) (ap_clock ap 2) (pl_sequence pl) ?args =
      Inr (TurnIDForClientNonce (TrimSpace (us_ClientNonce ?args)), [m, t], add1_int64 (add1_int64 (pl_sequence pl)))"
      "ValidateEventMap (Some m) = None" "ValidateEventMap (Some t) = None"
    using submission_events_valid [OF assms(6,7) valid_now] by blast
  have docs: "boundary_doc ?args ''user_message.created'' m" "boundary_doc ?args ''turn.submitted'' t"
    using submission_built(2) [OF built(1)] by auto
  have args: "us_SessionID ?args = sid" "us_SessionStorageKey ?args = ?key" "TrimSpace (us_ClientNonce ?args) = nonce_of ap req"
    using check_request_accepts(2,3) [OF assms(1)] nonce_pattern_trim by (simp_all add: submission_args_def)
  have "storable (store_scope (ap_scope ap)) m" "storable (store_scope (ap_scope ap)) t"
    using boundary_storable [OF docs(1) _ built(2)] boundary_storable [OF docs(2) _ built(3)] args assms(9)
    by (simp_all add: boundary_types_def)
  then have "fst (persistBackendEvent ap ?key m q) = None" "fst (persistBackendEvent ap ?key t q) = None" for q
    using persistBackendEvent_cases by blast+
  then have ok: "persist_all ap ?key [m, t] p = (None, snd (persist_all ap ?key [m, t] p))" for p
    by (simp add: split_def)
  define q where "q = snd (persist_all ap ?key [m, t] (pl\<lparr>pl_sequence := add1_int64 (add1_int64 (pl_sequence pl))\<rparr>))"
  note q = ok [of "pl\<lparr>pl_sequence := add1_int64 (add1_int64 (pl_sequence pl))\<rparr>", folded q_def]
  have "pl_sent q = pl_sent pl" using persist_all_frame by (simp add: q_def del: persist_all.simps)
  moreover have "enqueueSDKTurn ap email sid req pl = publish_turn ap email sid req ac (TurnIDForClientNonce (nonce_of ap req)) q"
    using assms(5) q plain_boundary_events [OF assms(2-4)] by (simp add: enqueueSDKTurn_def assms(1) built(1) args(3) del: persist_all.simps One_nat_def)
  ultimately show ?thesis by blast
qed

definition sample_app :: "(string \<Rightarrow> Command \<Rightarrow> string option) \<Rightarrow> appServer" where
  "sample_app leg =
     \<lparr>ap_scope = ''default'', ap_refresher = None, ap_bus = Some leg,
      ap_cluster = \<lparr>kc_get = (\<lambda>_. PodNotFound), kc_list = (\<lambda>_. Inr [])\<rparr>, ap_random = ''r'', ap_clock = (\<lambda>_. sample_now), ap_db_now = 0,
      ap_turn_number = (\<lambda>_ _. None), ap_cause_text = (\<lambda>_. [])\<rparr>"

definition sample_plane :: plane where
  "sample_plane = \<lparr>pl_stores = sample_stores, pl_db = sample_db\<lparr>db_rows := []\<rparr>, pl_sequence = 0, pl_sent = []\<rparr>"

definition sample_turn :: "string \<Rightarrow> sdkTurnRequest" where
  "sample_turn prompt =
     \<lparr>tq_ClientNonce = ''nonce-1'', tq_RequireNonce = True, tq_Prompt = prompt, tq_DisplayText = [], tq_DisplayAttachments = [],
      tq_Model = [], tq_Effort = [], tq_PermissionMode = [], tq_SkillName = [], tq_FollowUp = False, tq_Source = [], tq_SourceTaskID = [],
      tq_AllowBeforeReady = True, tq_OmitUserMessage = False, tq_RequireExistingUserMessage = False, tq_SessionMode = ClaudeGUIMode,
      tq_Display = None, tq_CreatedAt = zero_time, tq_OrderBase = zero_time, tq_OriginSessionID = [], tq_OriginSessionAvatarID = [],
      tq_AuthorKind = [], tq_MCPActivateName = [], tq_MCPActivateURL = []\<rparr>"

lemma sample_accepted:
  "check_request (sample_app leg) sample_plane ''u@x'' ''7'' (sample_turn ''hi'') =
     Inr \<lparr>ac_ClientNonce = ''nonce-1'', ac_Prompt = ''hi'', ac_DisplayText = ''hi'', ac_Attachments = [], ac_Provider = ''claude'',
       ac_SkillName = [], ac_Model = [], ac_Effort = [], ac_ProviderSessionID = []\<rparr>"
proof -
  have eval: "TrimSpace ''nonce-1'' = ''nonce-1''" "turnIDPattern ''nonce-1''" "TrimSpace ''hi'' = ''hi''" "TrimSpace ClaudeGUIMode = ClaudeGUIMode"
    "NormalizeSessionMode ClaudeGUIMode = ClaudeGUIMode" "sdkProviderForMode ClaudeGUIMode = Some ''claude''" "ClaudeGUIMode \<noteq> []"
    by code_simp+
  have txt_ok: "check_text (sample_app leg) (sample_turn ''hi'') = Inr (''nonce-1'', ''hi'', ''hi'', [])"
    by (simp add: check_text_def sample_turn_def eval maxSDKTurnPromptBytes_def normalizeDisplayAttachments_def Let_def)
  have mode: "session_target (sample_app leg) ''u@x'' ''7'' (sample_turn ''hi'') = Some (ClaudeGUIMode, None)"
    by (simp add: session_target_def sample_turn_def eval Let_def)
  have skill: "check_skill ''claude'' ''hi'' (sample_turn ''hi'') = Inr []"
    by (simp add: check_skill_def sample_turn_def validateSkillName_def skillNameSyntax_def)
  have "check_run_config (sample_app leg) sample_plane ''u@x'' ''7'' ''claude'' (sample_turn ''hi'') = Inr ([], [], [])"
  proof -
    have "GetRegisteredByOwner (sample_app leg) sample_plane ''u@x'' ''7'' = None"
      by (simp add: GetRegisteredByOwner_def registry_Get_def find_session_def sample_plane_def)
    then show ?thesis
      by (simp add: check_run_config_def sample_turn_def Let_def isDefaultModelAlias_def ToLower_def validateModelArg_def validateEffort_def
          providerRequiresExplicitModel_def sanitizeProviderSessionID_def)
  qed
  then show ?thesis
    using txt_ok mode eval(6) skill by (simp add: check_request_def) (simp add: sample_turn_def sample_app_def)
qed

lemma sample_submitted:
  "\<exists>ac pl1. check_request (sample_app leg) sample_plane ''u@x'' ''7'' (sample_turn ''hi'') = Inr ac \<and>
     enqueueSDKTurn (sample_app leg) ''u@x'' ''7'' (sample_turn ''hi'') sample_plane =
       publish_turn (sample_app leg) ''u@x'' ''7'' (sample_turn ''hi'') ac (TurnIDForClientNonce ''nonce-1'') pl1"
proof -
  have eval: "TrimSpace ''nonce-1'' = ''nonce-1''" "TrimSpace ''hi'' = ''hi''" "TrimSpace ''claude'' = ''claude''" "sdkTurnSource [] = ''sdk''"
    "TrimSpace (SessionStorageKey ''default'' ''7'') = ''7''"
    by code_simp+
  have zero: "IsZero zero_time" "valid_gotime zero_time" by (simp_all add: IsZero_def valid_gotime_def zero_time_def days_in_def)
  let ?ac = "\<lparr>ac_ClientNonce = ''nonce-1'', ac_Prompt = ''hi'', ac_DisplayText = ''hi'', ac_Attachments = [], ac_Provider = ''claude'',
       ac_SkillName = [], ac_Model = [], ac_Effort = [], ac_ProviderSessionID = []\<rparr>"
  have "submission_inputs_ok (submission_args (sample_app leg) ''u@x'' ''7'' (sample_turn ''hi'') ?ac)"
    by (simp add: submission_inputs_ok_def submission_args_def sample_turn_def eval)
  moreover have "ap_scope (sample_app leg) = ''default''" "ap_clock (sample_app leg) 0 = sample_now" "tq_Source (sample_turn ''hi'') = []"
      "tq_OrderBase (sample_turn ''hi'') = zero_time" "tq_CreatedAt (sample_turn ''hi'') = zero_time" "\<not> tq_OmitUserMessage (sample_turn ''hi'')"
      "\<not> tq_RequireExistingUserMessage (sample_turn ''hi'')" "nonce_of (sample_app leg) (sample_turn ''hi'') = ''nonce-1''"
    by (simp_all add: sample_app_def sample_turn_def nonce_of_def eval)
  ultimately show ?thesis
    using plain_submission [OF sample_accepted [of leg]] sample_accepted [of leg] eval(4,5) zero sample_now_valid by auto
qed

lemma publish_turn_cases:
  fixes n
  assumes "ap_bus ap = Some leg" "check_request ap pl email sid req = Inr ac" "TrimSpace (SessionStorageKey (ap_scope ap) sid) \<noteq> []"
  defines "c \<equiv> Normalize (submit_command ap email sid req ac (TurnIDForClientNonce n))"
  shows "leg (CommandStreamSubjectForCommand c) c = None \<Longrightarrow> leg (SubjectForCommand c) c = None \<Longrightarrow>
      \<exists>resp pl'. publish_turn ap email sid req ac (TurnIDForClientNonce n) pl1 = (Inr resp, pl')"
    and "leg (CommandStreamSubjectForCommand c) c = None \<Longrightarrow> leg (SubjectForCommand c) c = Some e \<Longrightarrow>
      \<exists>pl'. publish_turn ap email sid req ac (TurnIDForClientNonce n) pl1 = (Inl (500, ''publish turn: '' @ e), pl')"
proof -
  have "CommandSubmitTurn \<noteq> []" by code_simp
  then have "PublishCommand (ap_scope ap) leg (submit_command ap email sid req ac (TurnIDForClientNonce n)) (pl_sent pl1) =
      (case leg (CommandStreamSubjectForCommand c) c of Some e \<Rightarrow> (Some e, pl_sent pl1)
       | None \<Rightarrow> (case leg (SubjectForCommand c) c of Some e \<Rightarrow> (Some e, pl_sent pl1 @ [(CommandStreamSubjectForCommand c, c)])
           | None \<Rightarrow> (None, pl_sent pl1 @ [(CommandStreamSubjectForCommand c, c)] @ [(SubjectForCommand c, c)])))"
    using submit_command_normal [OF assms(2), of n] assms(3)
    unfolding PublishCommand_def Let_def c_def [symmetric] by (auto split: option.split)
  then show "leg (CommandStreamSubjectForCommand c) c = None \<Longrightarrow> leg (SubjectForCommand c) c = None \<Longrightarrow>
      \<exists>resp pl'. publish_turn ap email sid req ac (TurnIDForClientNonce n) pl1 = (Inr resp, pl')"
    and "leg (CommandStreamSubjectForCommand c) c = None \<Longrightarrow> leg (SubjectForCommand c) c = Some e \<Longrightarrow>
      \<exists>pl'. publish_turn ap email sid req ac (TurnIDForClientNonce n) pl1 = (Inl (500, ''publish turn: '' @ e), pl')"
    using assms(1) by (simp_all add: publish_turn_def Let_def)
qed

text \<open>The same submission, accepted by the bus and refused by its second stream.\<close>

abbreviation half :: "string \<Rightarrow> Command \<Rightarrow> string option" where
  "half subject c \<equiv> (if subject = CommandStreamSubjectForCommand c then None else Some ''down'')"

lemma sample_outcomes:
  "\<exists>resp pl'. enqueueSDKTurn (sample_app (\<lambda>_ _. None)) ''u@x'' ''7'' (sample_turn ''hi'') sample_plane = (Inr resp, pl')"
  "\<exists>pl'. enqueueSDKTurn (sample_app half) ''u@x'' ''7'' (sample_turn ''hi'') sample_plane = (Inl (500, ''publish turn: '' @ ''down''), pl')"
proof -
  have key: "TrimSpace (SessionStorageKey (ap_scope (sample_app leg)) ''7'') \<noteq> []" for leg
  proof -
    have "TrimSpace (SessionStorageKey ''default'' ''7'') \<noteq> []" by code_simp
    then show ?thesis by (simp add: sample_app_def)
  qed
  have bus: "ap_bus (sample_app leg) = Some leg" for leg by (simp add: sample_app_def)
  show "\<exists>resp pl'. enqueueSDKTurn (sample_app (\<lambda>_ _. None)) ''u@x'' ''7'' (sample_turn ''hi'') sample_plane = (Inr resp, pl')"
    using sample_submitted [of "\<lambda>_ _. None"] publish_turn_cases(1) [OF bus _ key] by metis
  have differ: "SubjectForCommand c \<noteq> CommandStreamSubjectForCommand c" for c
    by (simp add: SubjectForCommand_def CommandStreamSubjectForCommand_def ControlSubject_def CommandSubject_def ControlStreamSubject_def
        CommandStreamSubject_def ScopedSessionSubjectPrefix_def ScopedSessionCommandSubjectPrefix_def scoped_prefix_def
        subjectRoot_def cmdRoot_def split: prod.split)
  show "\<exists>pl'. enqueueSDKTurn (sample_app half) ''u@x'' ''7'' (sample_turn ''hi'') sample_plane = (Inl (500, ''publish turn: '' @ ''down''), pl')"
  proof -
    obtain ac pl1 where a: "check_request (sample_app half) sample_plane ''u@x'' ''7'' (sample_turn ''hi'') = Inr ac"
      "enqueueSDKTurn (sample_app half) ''u@x'' ''7'' (sample_turn ''hi'') sample_plane =
         publish_turn (sample_app half) ''u@x'' ''7'' (sample_turn ''hi'') ac (TurnIDForClientNonce ''nonce-1'') pl1"
      using sample_submitted [of half] by blast
    show ?thesis unfolding a(2) by (rule publish_turn_cases(2) [OF bus a(1) key]) (simp_all add: differ)
  qed
qed

lemma sample_app_facts:
  "ap_scope (sample_app leg) = ''default''" "ap_clock (sample_app leg) n = sample_now" "ap_bus (sample_app leg) = Some leg"
  "nonce_of (sample_app leg) (sample_turn ''hi'') = ''nonce-1''" "\<not> isSelfResumeTurnSource (tq_Source (sample_turn ''hi''))"
  "TrimSpace (SessionStorageKey ''default'' ''7'') = ''7''"
proof -
  have "TrimSpace ''nonce-1'' = ''nonce-1''" by code_simp
  then show "ap_scope (sample_app leg) = ''default''" "ap_clock (sample_app leg) n = sample_now" "ap_bus (sample_app leg) = Some leg"
    "nonce_of (sample_app leg) (sample_turn ''hi'') = ''nonce-1''" "\<not> isSelfResumeTurnSource (tq_Source (sample_turn ''hi''))"
    by (simp_all add: sample_app_def sample_turn_def nonce_of_def isSelfResumeTurnSource_def)
  show "TrimSpace (SessionStorageKey ''default'' ''7'') = ''7''" by code_simp
qed

theorem refused_turn_leaves_no_trace_witness:
  "\<exists>q. snd (enqueueSDKTurn (sample_app half) ''u@x'' ''7'' (sample_turn []) sample_plane) = sample_plane\<lparr>pl_sequence := q\<rparr>"
proof -
  have eval: "TrimSpace ''nonce-1'' = ''nonce-1''" "turnIDPattern ''nonce-1''" by code_simp+
  have "check_text (sample_app half) (sample_turn []) = Inl (400, ''missing prompt'')"
    by (simp add: check_text_def sample_turn_def eval Let_def)
  then have "enqueueSDKTurn (sample_app half) ''u@x'' ''7'' (sample_turn []) sample_plane = (Inl (400, ''missing prompt''), sample_plane)"
    by (simp add: enqueueSDKTurn_def check_request_def)
  from refused_turn_leaves_no_trace [OF this] show ?thesis
    using \<open>enqueueSDKTurn (sample_app half) ''u@x'' ''7'' (sample_turn []) sample_plane = (Inl (400, ''missing prompt''), sample_plane)\<close> by simp
qed



theorem half_published_turn_witness:
  "\<exists>c. pl_sent (snd (enqueueSDKTurn (sample_app half) ''u@x'' ''7'' (sample_turn ''hi'') sample_plane)) = [(CommandStreamSubjectForCommand c, c)]"
proof -
  obtain pl' where r: "enqueueSDKTurn (sample_app half) ''u@x'' ''7'' (sample_turn ''hi'') sample_plane = (Inl (500, ''publish turn: '' @ ''down''), pl')"
    using sample_outcomes(2) by blast
  have "pl_sent sample_plane = []" by (simp add: sample_plane_def)
  then show ?thesis using half_published_turn [OF r] r sample_app_facts sample_now_valid by auto
qed

section \<open>Sources and run options\<close>

text \<open>
  the source of a turn survives the submit boundary for every value of the schema's enumeration but one: an
  orchestrate launch is recorded as an ordinary turn.
\<close>

theorem sdkTurnSource_keeps:
  "sdkTurnSource (turn_submitted_source_wire s) =
     (if s = TurnSubmittedSourceOrchestrateLaunch then ''sdk'' else turn_submitted_source_wire s)"
  by (cases s; hypsubst; code_simp)

text \<open>
  a run configuration that is accepted for a new session can be run: only chat modes carry one, a model and an
  effort are among those of the mode's provider, and a Codex session always names its model.
\<close>

theorem validateCreateRunConfig_sound:
  assumes "validateCreateRunConfig mode model effort = Inr (m, e)"
  shows "case sdkProviderForMode mode of None \<Rightarrow> m = [] \<and> e = []
    | Some p \<Rightarrow> (m = [] \<or> m \<in> set (the (allowedModelsForProvider p))) \<and> (e = [] \<or> e \<in> set (allowedEffortsForProvider p)) \<and>
        (p = ''codex'' \<longrightarrow> m \<noteq> []) \<and> \<not> isDefaultModelAlias m"
proof (cases "sdkProviderForMode mode")
  case None
  then show ?thesis using assms by (simp add: validateCreateRunConfig_def Let_def split: if_split_asm)
next
  case (Some p)
  have p: "p \<in> {''claude'', ''codex''}" using Some by (auto simp: sdkProviderForMode_def Let_def split: if_splits)
  have models: "allowedModelsForProvider p \<noteq> None" "list_all (\<lambda>m. m \<noteq> [] \<and> \<not> isDefaultModelAlias m) (the (allowedModelsForProvider p))"
  proof -
    have "list_all (\<lambda>p. allowedModelsForProvider p \<noteq> None \<and>
        list_all (\<lambda>m. m \<noteq> [] \<and> \<not> isDefaultModelAlias m) (the (allowedModelsForProvider p))) [''claude'', ''codex'']"
      by code_simp
    then show "allowedModelsForProvider p \<noteq> None" "list_all (\<lambda>m. m \<noteq> [] \<and> \<not> isDefaultModelAlias m) (the (allowedModelsForProvider p))"
      using p by auto
  qed
  have model: "validateModelArg p x = [] \<or> validateModelArg p x \<in> set (the (allowedModelsForProvider p))" for x
    using models(1) by (auto simp: validateModelArg_def Let_def split: option.split)
  have effort: "validateEffort p x = [] \<or> validateEffort p x \<in> set (allowedEffortsForProvider p)" for x
    by (simp add: validateEffort_def)
  have nil: "\<not> isDefaultModelAlias []" by code_simp
  have way: "(m = [] \<and> e = []) \<and> p \<noteq> ''codex'' \<or>
      (m = validateModelArg p (TrimSpace model) \<and> e = validateEffort p (TrimSpace effort) \<and>
       \<not> (providerRequiresExplicitModel p \<and> TrimSpace model = []) \<and> \<not> (TrimSpace model \<noteq> [] \<and> m = []))"
    using assms Some unfolding validateCreateRunConfig_def Let_def by (auto simp: providerRequiresExplicitModel_def split: if_split_asm)
  have m: "m = [] \<or> m \<in> set (the (allowedModelsForProvider p))"
    by (rule disjE [OF way], simp, elim conjE, hypsubst, rule model)
  moreover have "e = [] \<or> e \<in> set (allowedEffortsForProvider p)"
    by (rule disjE [OF way], simp, elim conjE, hypsubst, rule effort)
  moreover have "p = ''codex'' \<longrightarrow> m \<noteq> []"
    by (rule disjE [OF way], simp, elim conjE, rule impI, simp only: providerRequiresExplicitModel_def simp_thms)
  moreover have "\<not> isDefaultModelAlias m"
    using m nil models(2) unfolding list_all_iff by blast
  ultimately show ?thesis using Some by simp
qed

theorem validateCreateRunConfig_sound_witness:
  "\<exists>m e. validateCreateRunConfig CodexGUIMode ''gpt-5.5'' [] = Inr (m, e) \<and> m \<noteq> []"
proof -
  have eval: "TrimSpace ''gpt-5.5'' = ''gpt-5.5''" "sdkProviderForMode CodexGUIMode = Some ''codex''" "\<not> isDefaultModelAlias ''gpt-5.5''"
    "allowedModelsForProvider ''codex'' = Some [''gpt-5.5'', ''gpt-5.4'', ''gpt-5.4-mini'', ''gpt-5.3-codex-spark'']"
    by code_simp+
  have "validateModelArg ''codex'' ''gpt-5.5'' = ''gpt-5.5''" by (simp add: validateModelArg_def eval)
  then have run: "validateCreateRunConfig CodexGUIMode ''gpt-5.5'' [] = Inr (''gpt-5.5'', [])"
    by (simp add: validateCreateRunConfig_def eval Let_def validateEffort_def)
  show ?thesis using validateCreateRunConfig_sound [OF run] run eval(2) by auto
qed

end
