(* ===== verification/Wake_Fire.thy ===== *)
theory Wake_Fire
  imports Wake_Guarantees Turn_Guarantees
begin

text \<open>
  The wake-up loops of \<^verbatim>\<open>cmd/tank-operator/scheduled_wakeups.go\<close> and \<^verbatim>\<open>background_task_wakes.go\<close>: the registration
  of a wake by a session pod, the ladder a claimed wake climbs when it is fired, the bookkeeping of a failure, and the take-over
  by a user who submits a turn to a parked session. The state is the control plane with its two wake tables (\<open>wake_desk\<close>).
  Every place that reads the clock has a reading of its own, \<open>ap_clock n\<close>; statements run at \<open>ap_db_now\<close>.
\<close>

section \<open>Stored instants\<close>

text \<open>The UTC reading of a stored instant, by the calendar of \<open>days_from_civil\<close>.\<close>

definition time_of_instant :: "int \<Rightarrow> gotime" where
  "time_of_instant n =
     (let secs = n div 1000000000; days = secs div 86400 + 719468; s = nat (secs mod 86400);
          era = days div 146097; doe = days mod 146097;
          yoe = (doe - doe div 1460 + doe div 36524 - doe div 146096) div 365;
          doy = doe - (365 * yoe + yoe div 4 - yoe div 100); mp = (5 * doy + 2) div 153;
          month = (if mp < 10 then mp + 3 else mp - 9)
      in \<lparr>t_year = nat (yoe + era * 400 + (if month \<le> 2 then 1 else 0)), t_month = nat month,
          t_day = nat (doy - (153 * mp + 2) div 5 + 1), t_hour = s div 3600, t_min = s mod 3600 div 60, t_sec = s mod 60,
          t_nsec = nat (n mod 1000000000)\<rparr>)"

section \<open>The state\<close>

record wake_desk =
  wd_plane :: plane
  wd_scheduled :: "ScheduledWakeup list"
  wd_tasks :: "BackgroundTaskWake list"

datatype fire_fault =
    FaultBuild build_error
  | FaultPersist upsert_error
  | FaultNoRow
  | FaultReason string

definition scheduledWakeupBatchLimit :: int where "scheduledWakeupBatchLimit = 25"
definition scheduledWakeupClaimStaleAfter :: int where "scheduledWakeupClaimStaleAfter = 2 * 60 * 1000000000"
definition scheduledWakeupMaxProviderIDLen :: nat where "scheduledWakeupMaxProviderIDLen = 256"
definition backgroundTaskWakeBatchLimit :: int where "backgroundTaskWakeBatchLimit = 25"
definition backgroundTaskWakeClaimStaleAfter :: int where "backgroundTaskWakeClaimStaleAfter = 2 * 60 * 1000000000"

fun wake_status_wire :: "wake_status \<Rightarrow> string" where
  "wake_status_wire WakeScheduled = ''scheduled''"
| "wake_status_wire WakeClaiming = ''claiming''"
| "wake_status_wire WakeFired = ''fired''"
| "wake_status_wire WakeFailed = ''failed''"
| "wake_status_wire WakeCancelled = ''cancelled''"

section \<open>Events of a wake-up\<close>

definition wakeup_event_args :: "ScheduledWakeup \<Rightarrow> gotime \<Rightarrow> ScheduledWakeupUpdatedArgs" where
  "wakeup_event_args row now =
     \<lparr>sw_SessionID = wk_session_id row,
      sw_SessionStorageKey = (if wk_tank_session_id row = [] then SessionStorageKey (wk_session_scope row) (wk_session_id row)
                              else wk_tank_session_id row),
      sw_Email = wk_owner_email row, sw_Runtime = wk_provider row, sw_WakeupID = wk_id row,
      sw_Status = wake_status_wire (wk_status row), sw_Prompt = sw_prompt row, sw_ClientNonce = wk_client_nonce row,
      sw_ScheduledTurnID = sw_scheduled_turn_id row, sw_ProviderItemID = sw_provider_item_id row,
      sw_ScheduledAt = time_of_instant (sw_scheduled_at row), sw_DueAt = time_of_instant (wk_due_at row),
      sw_AttemptCount = wk_attempt_count row, sw_FiredTurnID = wk_fired_turn_id row, sw_LastError = wk_last_error row,
      sw_Now = now\<rparr>"

text \<open>The readings of the clock start at \<open>n\<close>.\<close>

definition persistScheduledWakeupEvent :: "appServer \<Rightarrow> nat \<Rightarrow> ScheduledWakeup \<Rightarrow> gotime \<Rightarrow> plane \<Rightarrow> fire_fault option \<times> plane" where
  "persistScheduledWakeupEvent ap n row now pl =
     (let args = wakeup_event_args row (default_now (ap_clock ap n) now)
      in case ScheduledWakeupUpdatedEventMap (ap_clock ap (n + 1)) (ap_clock ap (n + 2)) (pl_sequence pl) args of
           Inl e \<Rightarrow> (Some (FaultBuild e), pl)
         | Inr (event, seq) \<Rightarrow>
             (case persistBackendEvent ap (sw_SessionStorageKey args) event (pl\<lparr>pl_sequence := seq\<rparr>) of
                (Some e, pl') \<Rightarrow> (Some (FaultPersist e), pl')
              | (None, pl') \<Rightarrow> (None, pl')))"

section \<open>A durable failure\<close>

definition failed_wake_args :: "appServer \<Rightarrow> string \<Rightarrow> string \<Rightarrow> string \<Rightarrow> string \<Rightarrow> string \<Rightarrow> TurnCommandFailedArgs" where
  "failed_wake_args ap owner sessionID clientNonce runtime awayReason =
     \<lparr>cf_SessionID = sessionID, cf_SessionStorageKey = SessionStorageKey (ap_scope ap) sessionID, cf_Email = owner,
      cf_TurnID = TurnIDForClientNonce clientNonce, cf_ClientNonce = clientNonce, cf_Runtime = runtime,
      cf_Reason = awayReason, cf_Now = ap_clock ap 3\<rparr>"

definition resolveFailedWake :: "appServer \<Rightarrow> 'a wake_row_scheme \<Rightarrow> string \<Rightarrow> string \<Rightarrow> plane \<Rightarrow> plane" where
  "resolveFailedWake ap row runtime awayReason pl =
     (let args = failed_wake_args ap (wk_owner_email row) (wk_session_id row) (wk_client_nonce row) runtime awayReason;
          pl = mark_command_failed ap args pl
      in case ap_refresher ap of None \<Rightarrow> pl
         | Some e \<Rightarrow> scoped_refresh e (ap_scope ap) (wk_owner_email row) (wk_session_id row) pl)"

definition scheduledWakeupFireFailureLabel :: "string \<Rightarrow> string" where
  "scheduledWakeupFireFailureLabel reason =
     (if prefix ''session_not_found'' reason then ''session_not_found''
      else if prefix ''session_not_active'' reason then ''session_not_active''
      else if prefix ''enqueue_failed'' reason then ''enqueue_failed'' else ''failed'')"

section \<open>Firing a scheduled wake-up\<close>

definition failScheduledWakeup ::
  "appServer \<Rightarrow> ScheduledWakeup \<Rightarrow> string \<Rightarrow> string \<Rightarrow> wake_desk \<Rightarrow> fire_fault option \<times> wake_desk" where
  "failScheduledWakeup ap row provider reason d =
     (case mark_failed (wk_id row) reason (ap_db_now ap) (wd_scheduled d) of
        (None, T) \<Rightarrow> (Some FaultNoRow, d\<lparr>wd_scheduled := T\<rparr>)
      | (Some failed, T) \<Rightarrow>
          (let d = d\<lparr>wd_scheduled := T\<rparr>
           in case persistScheduledWakeupEvent ap 5 failed (ap_clock ap 8) (wd_plane d) of
                (Some e, pl) \<Rightarrow> (Some e, d\<lparr>wd_plane := pl\<rparr>)
              | (None, pl) \<Rightarrow>
                  (Some (FaultReason reason),
                   d\<lparr>wd_plane := resolveFailedWake ap row provider AwayErrorReasonScheduledWakeup pl\<rparr>)))"

definition markScheduledFired ::
  "appServer \<Rightarrow> ScheduledWakeup \<Rightarrow> string \<Rightarrow> gotime \<Rightarrow> wake_desk \<Rightarrow> fire_fault option \<times> wake_desk" where
  "markScheduledFired ap row turnID now d =
     (case mark_fired (wk_id row) turnID (ap_db_now ap) (wd_scheduled d) of
        (None, T) \<Rightarrow> (Some FaultNoRow, d\<lparr>wd_scheduled := T\<rparr>)
      | (Some fired, T) \<Rightarrow>
          (let (e, pl) = persistScheduledWakeupEvent ap 5 fired now (wd_plane d)
           in (e, d\<lparr>wd_scheduled := T, wd_plane := pl\<rparr>)))"

definition scheduledWakeupAnnouncementText :: string where
  "scheduledWakeupAnnouncementText = ''Timer went off!''"

definition plain_request :: sdkTurnRequest where
  "plain_request =
     \<lparr>tq_ClientNonce = [], tq_RequireNonce = False, tq_Prompt = [], tq_DisplayText = [], tq_DisplayAttachments = [],
      tq_Model = [], tq_Effort = [], tq_PermissionMode = [], tq_SkillName = [], tq_FollowUp = False, tq_Source = [],
      tq_SourceTaskID = [], tq_AllowBeforeReady = False, tq_OmitUserMessage = False, tq_RequireExistingUserMessage = False,
      tq_SessionMode = [], tq_Display = None, tq_CreatedAt = zero_time, tq_OrderBase = zero_time, tq_OriginSessionID = [],
      tq_OriginSessionAvatarID = [], tq_AuthorKind = [], tq_MCPActivateName = [], tq_MCPActivateURL = []\<rparr>"

definition wakeup_turn :: "ScheduledWakeup \<Rightarrow> gotime \<Rightarrow> sdkTurnRequest" where
  "wakeup_turn row now =
     plain_request\<lparr>tq_ClientNonce := wk_client_nonce row, tq_RequireNonce := True, tq_Prompt := sw_prompt row,
       tq_DisplayText := scheduledWakeupAnnouncementText, tq_Source := ''schedule-wakeup'', tq_CreatedAt := now,
       tq_AuthorKind := author_kind_wire AuthorKindSystem\<rparr>"

text \<open>The wake's turn is in the ledger.\<close>

definition turn_exists :: "appServer \<Rightarrow> 'a wake_row_scheme \<Rightarrow> plane \<Rightarrow> bool" where
  "turn_exists ap row pl \<longleftrightarrow>
     pg_Events (eventsForTurn (so_le (pl_stores pl)) (store_scope (wk_session_scope row)) (pl_events pl) (wk_session_id row)
       (TurnIDForClientNonce (wk_client_nonce row)) [] 1) \<noteq> []"

definition enqueue_failed :: "http_error \<Rightarrow> string" where
  "enqueue_failed e = ''enqueue_failed:'' @ int_dec (fst e) @ '':'' @ TrimSpace (snd e)"

definition fireScheduledWakeup ::
  "appServer \<Rightarrow> ScheduledWakeup \<times> session_view \<Rightarrow> gotime \<Rightarrow> wake_desk \<Rightarrow> fire_fault option \<times> wake_desk" where
  "fireScheduledWakeup ap claimed now d =
     (let (row, view) = claimed; provider = TrimSpace (wk_provider row)
      in if sv_Status view = [] then failScheduledWakeup ap row provider ''session_not_found'' d
         else if sv_Terminated view \<or> sv_Status view = ''Failed'' then failScheduledWakeup ap row provider ''session_not_active'' d
         else if sv_Status view \<noteq> ''Active''
         then (None, d\<lparr>wd_scheduled := ReleaseRetainingAttempt (wk_id row) (ap_db_now ap) (wd_scheduled d)\<rparr>)
         else if wk_attempt_count row > 1 \<and> turn_exists ap row (wd_plane d)
         then markScheduledFired ap row (TurnIDForClientNonce (wk_client_nonce row)) now d
         else (case enqueueSDKTurn ap (wk_owner_email row) (wk_session_id row) (wakeup_turn row now) (wd_plane d) of
                 (Inl e, pl) \<Rightarrow> failScheduledWakeup ap row provider (enqueue_failed e) (d\<lparr>wd_plane := pl\<rparr>)
               | (Inr resp, pl) \<Rightarrow> markScheduledFired ap row (turnIDFromEnqueueResponse resp) now (d\<lparr>wd_plane := pl\<rparr>)))"

section \<open>The scheduled-wakeup loop\<close>

definition fail_capped_wakeup :: "appServer \<Rightarrow> gotime \<Rightarrow> ScheduledWakeup \<Rightarrow> plane \<Rightarrow> plane" where
  "fail_capped_wakeup ap now row pl =
     (case persistScheduledWakeupEvent ap 5 row now pl of
        (Some _, pl) \<Rightarrow> pl
      | (None, pl) \<Rightarrow> resolveFailedWake ap row (TrimSpace (wk_provider row)) AwayErrorReasonScheduledWakeup pl)"

text \<open>One pass. \<open>aps i\<close> is the server as the i-th row of the pass finds it, \<open>locked\<close> the rows other processes hold.\<close>

definition failExceededScheduledWakeups :: "(nat \<Rightarrow> appServer) \<Rightarrow> (string \<Rightarrow> bool) \<Rightarrow> gotime \<Rightarrow> wake_desk \<Rightarrow> wake_desk" where
  "failExceededScheduledWakeups aps locked now d =
     (let (rows, T) = SW_FailExceeded (store_scope (ap_scope (aps 0))) locked (ap_db_now (aps 0)) (UnixNano now)
            scheduledWakeupBatchLimit scheduledWakeupClaimStaleAfter (wd_scheduled d)
      in d\<lparr>wd_scheduled := T, wd_plane := fold (\<lambda>(i, row). fail_capped_wakeup (aps i) now row) (enumerate 0 rows) (wd_plane d)\<rparr>)"

definition processScheduledWakeups ::
  "(nat \<Rightarrow> appServer) \<Rightarrow> (nat \<Rightarrow> appServer) \<Rightarrow> (string \<Rightarrow> bool) \<Rightarrow> (string \<Rightarrow> bool) \<Rightarrow> gotime \<Rightarrow> wake_desk \<Rightarrow> wake_desk" where
  "processScheduledWakeups capped fired locked1 locked2 now d =
     (let d = failExceededScheduledWakeups capped locked1 now d;
          pl = wd_plane d;
          (rows, T) = SW_ClaimDue (so_render (pl_stores pl)) (pl_db pl) (store_scope (ap_scope (fired 0))) locked2 (ap_db_now (fired 0))
            (UnixNano now) scheduledWakeupBatchLimit scheduledWakeupClaimStaleAfter (wd_scheduled d)
      in fold (\<lambda>(i, claimed) d. snd (fireScheduledWakeup (fired i) claimed now d)) (enumerate 0 rows) (d\<lparr>wd_scheduled := T\<rparr>))"

section \<open>Registering a scheduled wake-up\<close>

text \<open>\<^verbatim>\<open>time.Duration(ms) * time.Millisecond\<close> is a product of 64-bit integers.\<close>

definition wrap_int64 :: "int \<Rightarrow> int" where
  "wrap_int64 n = (n + 2 ^ 63) mod 2 ^ 64 - 2 ^ 63"

definition millis :: "int \<Rightarrow> int" where
  "millis ms = wrap_int64 (ms * 1000000)"

record wakeup_body =
  wb_DelayMs :: int
  wb_Prompt :: string
  wb_ProviderItemID :: string
  wb_ScheduledTurnID :: string

definition supportsScheduledWakeups :: "string \<Rightarrow> bool" where
  "supportsScheduledWakeups provider \<longleftrightarrow> TrimSpace provider = ''claude''"

definition check_wakeup :: "wakeup_body \<Rightarrow> http_error + (string \<times> string \<times> string)" where
  "check_wakeup body =
     (let prompt = TrimSpace (wb_Prompt body); item = TrimSpace (wb_ProviderItemID body); turn = TrimSpace (wb_ScheduledTurnID body)
      in if wb_DelayMs body < 0 then Inl (400, ''delay_ms must be non-negative'')
         else if prompt = [] then Inl (400, ''missing prompt'')
         else if length prompt > maxSDKTurnPromptBytes then Inl (400, ''prompt too large'')
         else if item = [] \<or> length item > scheduledWakeupMaxProviderIDLen then Inl (400, ''provider_item_id is required'')
         else if turn \<noteq> [] \<and> \<not> turnIDPattern turn then Inl (400, ''scheduled_turn_id is invalid'')
         else Inr (prompt, item, turn))"

definition wake_error_text :: "wake_error \<Rightarrow> string" where
  "wake_error_text e =
     (case e of UniqueViolation index \<Rightarrow> ''duplicate key value violates unique constraint '' @ index
      | MissingSessionID \<Rightarrow> ''missing session_id'')"

definition fault_text :: "appServer \<Rightarrow> fire_fault \<Rightarrow> string" where
  "fault_text ap f =
     (case f of FaultBuild e \<Rightarrow> build_text e | FaultPersist e \<Rightarrow> upsert_text ap e | FaultNoRow \<Rightarrow> ''no rows in result set''
      | FaultReason r \<Rightarrow> r)"

definition refresh_session :: "appServer \<Rightarrow> string \<Rightarrow> string \<Rightarrow> plane \<Rightarrow> plane" where
  "refresh_session ap owner sessionID pl =
     (case ap_refresher ap of None \<Rightarrow> pl | Some e \<Rightarrow> scoped_refresh e (ap_scope ap) owner sessionID pl)"

text \<open>The handlers of a session pod, after its token was checked: the caller is the session and the owner of its pod.\<close>

definition registerScheduledWakeup ::
  "appServer \<Rightarrow> string \<times> string \<Rightarrow> string \<Rightarrow> wakeup_body \<Rightarrow> wake_desk \<Rightarrow> (http_error + gomap) \<times> wake_desk" where
  "registerScheduledWakeup ap caller target body d =
     (let (callerID, email) = caller; sessionID = TrimSpace target
      in if sessionID = [] then (Inl (400, ''missing session_id''), d)
         else if sessionID \<noteq> callerID then (Inl (403, ''session target does not match caller pod''), d)
         else case check_wakeup body of
           Inl e \<Rightarrow> (Inl e, d)
         | Inr (prompt, item, turn) \<Rightarrow>
           (case GetRegisteredByOwner ap (wd_plane d) email sessionID of
              None \<Rightarrow> (Inl (404, ''session not found''), d)
            | Some info \<Rightarrow>
              (case sdkProviderForMode (re_Mode info) of
                 None \<Rightarrow> (Inl (400, ''scheduled wakeups are only supported for Claude SDK sessions''), d)
               | Some provider \<Rightarrow>
                 if \<not> supportsScheduledWakeups provider
                 then (Inl (400, ''scheduled wakeups are only supported for Claude SDK sessions''), d)
                 else let now = UnixNano (ap_clock ap 0)
                 in case SW_Register (store_scope (ap_scope ap)) (ap_db_now ap)
                        \<lparr>rq_SessionScope = ap_scope ap, rq_SessionID = sessionID, rq_OwnerEmail = email, rq_Provider = provider,
                         rq_Prompt = prompt, rq_ScheduledTurnID = turn, rq_ProviderItemID = item, rq_ScheduledAt = now,
                         rq_DueAt = now + millis (wb_DelayMs body)\<rparr> (wd_scheduled d) of
                      (Inl e, T) \<Rightarrow> (Inl (500, wake_error_text e), d\<lparr>wd_scheduled := T\<rparr>)
                    | (Inr row, T) \<Rightarrow>
                      (case persistScheduledWakeupEvent ap 1 row (time_of_instant (sw_scheduled_at row)) (wd_plane d) of
                         (Some f, pl) \<Rightarrow> (Inl (500, fault_text ap f), d\<lparr>wd_scheduled := T, wd_plane := pl\<rparr>)
                       | (None, pl) \<Rightarrow>
                           (Inr [(''status'', GStr (wake_status_wire (wk_status row))), (''wakeup_id'', GStr (wk_id row)),
                                 (''client_nonce'', GStr (wk_client_nonce row)),
                                 (''due_at'', GStr (FormatRFC3339Nano (time_of_instant (wk_due_at row))))],
                            d\<lparr>wd_scheduled := T, wd_plane := refresh_session ap email sessionID pl\<rparr>)))))"

definition wakeup_listing :: "ScheduledWakeup \<Rightarrow> gomap" where
  "wakeup_listing row =
     [(''wakeup_id'', GStr (wk_id row)), (''status'', GStr (wake_status_wire (wk_status row))), (''provider'', GStr (wk_provider row)),
      (''prompt'', GStr (sw_prompt row)), (''client_nonce'', GStr (wk_client_nonce row)),
      (''scheduled_turn_id'', GStr (sw_scheduled_turn_id row)), (''provider_item_id'', GStr (sw_provider_item_id row)),
      (''scheduled_at'', GStr (FormatRFC3339Nano (time_of_instant (sw_scheduled_at row)))),
      (''due_at'', GStr (FormatRFC3339Nano (time_of_instant (wk_due_at row)))),
      (''attempt_count'', GInt (wk_attempt_count row)), (''fired_turn_id'', GStr (wk_fired_turn_id row)),
      (''last_error'', GStr (wk_last_error row))]"

section \<open>Cancelling, and the take-over by a user\<close>

definition cancelPendingWakesForSession :: "appServer \<Rightarrow> string \<Rightarrow> wake_desk \<Rightarrow> int \<times> wake_desk" where
  "cancelPendingWakesForSession ap sessionID d =
     (let store = store_scope (ap_scope ap);
          (rows, T) = CancelPendingForSession store (ap_scope ap) sessionID (ap_db_now ap) (wd_scheduled d);
          (tasks, U) = CancelPendingForSession store (ap_scope ap) sessionID (ap_db_now ap) (wd_tasks d);
          pl = fold (\<lambda>(i, row) pl. snd (persistScheduledWakeupEvent ap (20 + 4 * i) row (ap_clock ap (23 + 4 * i)) pl))
                 (enumerate 0 rows) (wd_plane d)
      in (int (length rows) + int (length tasks), d\<lparr>wd_scheduled := T, wd_tasks := U, wd_plane := pl\<rparr>))"

definition cancelScheduledWakeups :: "appServer \<Rightarrow> string \<Rightarrow> string \<Rightarrow> wake_desk \<Rightarrow> (http_error + int) \<times> wake_desk" where
  "cancelScheduledWakeups ap owner target d =
     (let sessionID = TrimSpace target
      in if sessionID = [] then (Inl (400, ''missing session_id''), d)
         else if Reader_Get (ap_cluster ap) owner sessionID = None then (Inl (404, ''session not found''), d)
         else let (n, d) = cancelPendingWakesForSession ap sessionID d
              in (Inr n, d\<lparr>wd_plane := refresh_session ap owner sessionID (wd_plane d)\<rparr>))"

text \<open>\<^verbatim>\<open>handleEnqueueSessionTurn\<close> after the body was read: an accepted turn of a user takes the session over.\<close>

definition submitSessionTurn :: "appServer \<Rightarrow> string \<Rightarrow> string \<Rightarrow> sdkTurnRequest \<Rightarrow> wake_desk \<Rightarrow> (http_error + gomap) \<times> wake_desk" where
  "submitSessionTurn ap owner target req d =
     (let sessionID = TrimSpace target
      in if sessionID = [] then (Inl (400, ''missing session_id''), d)
         else case enqueueSDKTurn ap owner sessionID req (wd_plane d) of
                (Inl e, pl) \<Rightarrow> (Inl e, d\<lparr>wd_plane := pl\<rparr>)
              | (Inr resp, pl) \<Rightarrow> (Inr resp, snd (cancelPendingWakesForSession ap sessionID (d\<lparr>wd_plane := pl\<rparr>))))"

section \<open>The prompt of a background-task wake\<close>

definition clipWakeField :: "string \<Rightarrow> int \<Rightarrow> string" where
  "clipWakeField value limit =
     (if limit \<le> 0 \<or> int (length value) \<le> limit then value
      else if limit \<le> 1 then take (nat limit) value
      else take (nat limit - 1) value @ [CHR 0xE2, CHR 0x80, CHR 0xA6])"

definition wake_text_lost :: string where
  "wake_text_lost =
     ''Tank lost the ability to observe a background task you started earlier, while this session was idle. The task '' @
     ''may have finished or may still be running '' @
     [CHR 0xE2, CHR 0x80, CHR 0x94] @
     '' its true state is unknown to the harness.'' @
     [CHR 0x0A] @
     [CHR 0x0A]"

definition wake_text_done :: string where
  "wake_text_done =
     ''A background task you started earlier has finished while this session was idle, so it could not notify you mid-turn.'' @
     [CHR 0x0A] @
     [CHR 0x0A]"

definition wake_text_again :: string where
  "wake_text_again =
     [CHR 0x0A] @
     ''Note: an earlier notification for this task may have fired on a premature observation; this one reflects a '' @
     ''newer observation of the task'' @
     [CHR 0x27] @
     ''s terminal state.'' @
     [CHR 0x0A]"

definition wake_text_codex_check :: string where
  "wake_text_codex_check =
     ''Check the command'' @
     [CHR 0x27] @
     ''s real state and output with your shell (the command is shown above), then ''"

definition wake_text_codex_review :: string where
  "wake_text_codex_review =
     ''Review the command'' @
     [CHR 0x27] @
     ''s output with your shell if needed (the command is shown above), then ''"

definition wake_text_claude_check :: string where
  "wake_text_claude_check =
     ''Check the task'' @
     [CHR 0x27] @
     ''s real state and output (for example with BashOutput/TaskOutput for this task id), then ''"

definition wake_text_claude_review :: string where
  "wake_text_claude_review =
     ''Review the task'' @
     [CHR 0x27] @
     ''s output (for example with BashOutput/TaskOutput for this task id), then ''"

definition wake_text_report :: string where
  "wake_text_report =
     ''continue any work that was waiting on it. Always end by reporting the task'' @
     [CHR 0x27] @
     ''s outcome to the user in one or two sentences '' @
     [CHR 0xE2, CHR 0x80, CHR 0x94] @
     '' the user was promised this report when the task was started. Do not end the turn silently.''"

definition wake_text_codex_later :: string where
  "wake_text_codex_later =
     '' If the task is still running, say so plainly; should Tank later observe its real completion, you will be '' @
     ''re-invoked once more.''"

definition wake_text_claude_never :: string where
  "wake_text_claude_never =
     '' Tank can no longer track this task, so no further automatic notification will arrive for it '' @
     [CHR 0xE2, CHR 0x80, CHR 0x94] @
     '' report its current observed state and do not promise an automatic follow-up report.''"

definition fact_line :: "string \<Rightarrow> string \<Rightarrow> int \<Rightarrow> string" where
  "fact_line label v limit =
     (let v = TrimSpace v in if v = [] then [] else label @ clipWakeField v limit @ [CHR 0x0A])"

definition buildBackgroundTaskWakePromptForProvider :: "BackgroundTaskWake \<Rightarrow> string" where
  "buildBackgroundTaskWakePromptForProvider row =
     (let status = TrimSpace (bw_task_status row); unknown = (status = ''unknown'');
          codex = (TrimSpace (wk_provider row) = source_wire SourceCodex)
      in (if unknown then wake_text_lost else wake_text_done) @
         ''Task id: '' @ bw_task_id row @ [CHR 0x0A] @
         fact_line ''Final status: '' status 64 @
         fact_line ''Description: '' (bw_task_description row) 500 @
         fact_line ''Summary: '' (bw_task_summary row) 800 @
         fact_line ''Last tool: '' (bw_task_last_tool row) 64 @
         fact_line ''Error: '' (bw_task_error row) 800 @
         (if bw_generation row > 1 then wake_text_again else []) @
         [CHR 0x0A] @
         (if codex then (if unknown then wake_text_codex_check else wake_text_codex_review)
          else (if unknown then wake_text_claude_check else wake_text_claude_review)) @
         wake_text_report @
         (if unknown then (if codex then wake_text_codex_later else wake_text_claude_never) else []))"

section \<open>Registering a background-task wake\<close>

text \<open>
  A PostgreSQL \<^verbatim>\<open>text\<close> parameter must be valid UTF-8 without a NUL: \<open>rune_len\<close> is the length of the rune at
  the head of a text, 0 when it has none.
\<close>

definition continues :: "char \<Rightarrow> bool" where
  "continues c \<longleftrightarrow> 128 \<le> byte_of c \<and> byte_of c < 192"

definition rune_len :: "string \<Rightarrow> nat" where
  "rune_len s =
     (case s of
        [] \<Rightarrow> 0
      | c # cs \<Rightarrow>
          (let b = byte_of c; second = (case cs of [] \<Rightarrow> 0 | x # _ \<Rightarrow> byte_of x);
               ok = (\<lambda>n. length (takeWhile continues (take n cs)) = n)
           in if b < 128 then 1
              else if 194 \<le> b \<and> b < 224 then (if ok 1 then 2 else 0)
              else if 224 \<le> b \<and> b < 240
              then (if ok 2 \<and> (b = 224 \<longrightarrow> 160 \<le> second) \<and> (b = 237 \<longrightarrow> second < 160) then 3 else 0)
              else if 240 \<le> b \<and> b < 245
              then (if ok 3 \<and> (b = 240 \<longrightarrow> 144 \<le> second) \<and> (b = 244 \<longrightarrow> second < 144) then 4 else 0)
              else 0))"

function utf8_ok :: "string \<Rightarrow> bool" where
  "utf8_ok s = (if s = [] then True else if rune_len s = 0 then False else utf8_ok (drop (rune_len s) s))"
  by pat_completeness auto
termination by (relation "measure length") auto

declare utf8_ok.simps [simp del]

definition pg_text :: "string \<Rightarrow> bool" where
  "pg_text s \<longleftrightarrow> utf8_ok s \<and> CHR 0x00 \<notin> set s"

definition backgroundTaskIDPattern :: "string \<Rightarrow> bool" where
  "backgroundTaskIDPattern s \<longleftrightarrow> list_all safe_char s \<and> 1 \<le> length s \<and> length s \<le> 160"

record task_body =
  tb_TaskID :: string
  tb_Status :: string
  tb_Description :: string
  tb_Summary :: string
  tb_LastToolName :: string
  tb_Error :: string
  tb_ObservedEventID :: string

definition task_request :: "appServer \<Rightarrow> string \<Rightarrow> string \<Rightarrow> string \<Rightarrow> task_body \<Rightarrow> RegisterBackgroundTaskWakeRequest" where
  "task_request ap sessionID email provider body =
     \<lparr>rb_SessionScope = ap_scope ap, rb_SessionID = sessionID, rb_OwnerEmail = email, rb_Provider = provider,
      rb_TaskID = TrimSpace (tb_TaskID body), rb_TaskStatus = clipWakeField (TrimSpace (tb_Status body)) 64,
      rb_Description = clipWakeField (TrimSpace (tb_Description body)) 500,
      rb_Summary = clipWakeField (TrimSpace (tb_Summary body)) 800,
      rb_LastToolName = clipWakeField (TrimSpace (tb_LastToolName body)) 64,
      rb_Error = clipWakeField (TrimSpace (tb_Error body)) 800,
      rb_ObservedEventID = clipWakeField (TrimSpace (tb_ObservedEventID body)) 300,
      rb_RegisteredAt = Some (UnixNano (ap_clock ap 0))\<rparr>"

definition request_texts :: "RegisterBackgroundTaskWakeRequest \<Rightarrow> string list" where
  "request_texts req = [rb_TaskStatus req, rb_Description req, rb_Summary req, rb_LastToolName req, rb_Error req, rb_ObservedEventID req]"

fun register_outcome_wire :: "register_outcome \<Rightarrow> string" where
  "register_outcome_wire RegisterScheduled = ''scheduled''"
| "register_outcome_wire RegisterPendingUpdated = ''pending_updated''"
| "register_outcome_wire RegisterDuplicate = ''duplicate_observation''"
| "register_outcome_wire RegisterRearmed = ''rearmed''"
| "register_outcome_wire RegisterGenerationCapped = ''generation_capped''"
| "register_outcome_wire RegisterTerminalNoop = ''terminal_noop''"

text \<open>The outcomes whose statement carries the texts of the observation.\<close>

definition writes_texts :: "register_outcome \<Rightarrow> bool" where
  "writes_texts out \<longleftrightarrow> out \<in> {RegisterScheduled, RegisterPendingUpdated, RegisterRearmed}"

definition registerBackgroundTaskWake ::
  "appServer \<Rightarrow> string \<times> string \<Rightarrow> string \<Rightarrow> task_body \<Rightarrow> wake_desk \<Rightarrow> (http_error + gomap) \<times> wake_desk" where
  "registerBackgroundTaskWake ap caller target body d =
     (let (callerID, email) = caller; sessionID = TrimSpace target; taskID = TrimSpace (tb_TaskID body)
      in if sessionID = [] then (Inl (400, ''missing session_id''), d)
         else if sessionID \<noteq> callerID then (Inl (403, ''session target does not match caller pod''), d)
         else if taskID = [] \<or> \<not> backgroundTaskIDPattern taskID
         then (Inl (400, ''task_id is required and must match background task id syntax''), d)
         else case GetRegisteredByOwner ap (wd_plane d) email sessionID of
           None \<Rightarrow> (Inl (404, ''session not found''), d)
         | Some info \<Rightarrow>
           (case sdkProviderForMode (re_Mode info) of
              None \<Rightarrow> (Inl (400, ''session mode does not support background task wakes''), d)
            | Some provider \<Rightarrow>
              (let req = task_request ap sessionID email provider body
               in case BW_Register (store_scope (ap_scope ap)) (ap_db_now ap) (UnixNano (ap_clock ap 0)) req (wd_tasks d) of
                    (Inl e, _) \<Rightarrow> (Inl (500, wake_error_text e), d)
                  | (Inr (row, out), T) \<Rightarrow>
                      if writes_texts out \<and> \<not> list_all pg_text (request_texts req)
                      then (Inl (500, ''invalid byte sequence for encoding''), d)
                      else (Inr [(''status'', GStr (wake_status_wire (wk_status row))), (''outcome'', GStr (register_outcome_wire out)),
                                 (''wake_id'', GStr (wk_id row)), (''generation'', GInt (bw_generation row)),
                                 (''client_nonce'', GStr (wk_client_nonce row)),
                                 (''due_at'', GStr (FormatRFC3339Nano (time_of_instant (wk_due_at row))))],
                            d\<lparr>wd_tasks := T\<rparr>))))"

definition cancelBackgroundTaskWake ::
  "appServer \<Rightarrow> string \<times> string \<Rightarrow> string \<Rightarrow> string \<Rightarrow> string \<Rightarrow> wake_desk \<Rightarrow> (http_error + int) \<times> wake_desk" where
  "cancelBackgroundTaskWake ap caller target task rawReason d =
     (let sessionID = TrimSpace target; taskID = TrimSpace task;
          reason = clipWakeField (TrimSpace rawReason) 200;
          reason = (if reason = [] then ''delivered_mid_turn'' else reason)
      in if sessionID = [] \<or> sessionID \<noteq> fst caller then (Inl (403, ''session target does not match caller pod''), d)
         else if taskID = [] \<or> \<not> backgroundTaskIDPattern taskID
         then (Inl (400, ''task_id is required and must match background task id syntax''), d)
         else if \<not> pg_text reason then (Inl (500, ''invalid byte sequence for encoding''), d)
         else let (n, T) = CancelPendingForTask (store_scope (ap_scope ap)) (ap_scope ap) sessionID taskID reason (ap_db_now ap) (wd_tasks d)
              in (Inr n, d\<lparr>wd_tasks := T\<rparr>))"

section \<open>Firing a background-task wake\<close>

definition failBackgroundTaskWake ::
  "appServer \<Rightarrow> BackgroundTaskWake \<Rightarrow> string \<Rightarrow> string \<Rightarrow> wake_desk \<Rightarrow> fire_fault option \<times> wake_desk" where
  "failBackgroundTaskWake ap row provider reason d =
     (let T = snd (mark_failed (wk_id row) reason (ap_db_now ap) (wd_tasks d))
      in (Some (FaultReason reason),
          d\<lparr>wd_tasks := T, wd_plane := resolveFailedWake ap row provider AwayErrorReasonBackgroundTaskWake (wd_plane d)\<rparr>))"

definition backgroundTaskWakeActivityStatusBlocksFire :: "string \<Rightarrow> bool" where
  "backgroundTaskWakeActivityStatusBlocksFire status \<longleftrightarrow>
     TrimSpace status \<in> {''submitted'', ''claimed'', ''streaming'', ''stopping''}"

definition task_turn :: "BackgroundTaskWake \<Rightarrow> gotime \<Rightarrow> sdkTurnRequest" where
  "task_turn row now =
     plain_request\<lparr>tq_ClientNonce := wk_client_nonce row, tq_RequireNonce := True,
       tq_Prompt := buildBackgroundTaskWakePromptForProvider row, tq_Source := ''background-task'',
       tq_SourceTaskID := bw_task_id row, tq_CreatedAt := now, tq_OmitUserMessage := True,
       tq_AuthorKind := author_kind_wire AuthorKindSystem\<rparr>"

definition fireBackgroundTaskWake ::
  "appServer \<Rightarrow> BackgroundTaskWake \<times> session_view \<Rightarrow> gotime \<Rightarrow> wake_desk \<Rightarrow> fire_fault option \<times> wake_desk" where
  "fireBackgroundTaskWake ap claimed now d =
     (let (row, view) = claimed; provider = TrimSpace (wk_provider row);
          release = d\<lparr>wd_tasks := Release (wk_id row) (ap_db_now ap) (wd_tasks d)\<rparr>;
          turn = TurnIDForClientNonce (wk_client_nonce row);
          mark = (\<lambda>turnID d. d\<lparr>wd_tasks := snd (mark_fired (wk_id row) turnID (ap_db_now ap) (wd_tasks d))\<rparr>)
      in if sv_Status view = [] then failBackgroundTaskWake ap row provider ''session_not_found'' d
         else if sv_Terminated view \<or> sv_Status view = ''Failed'' then failBackgroundTaskWake ap row provider ''session_not_active'' d
         else if sv_Status view \<noteq> ''Active''
         then (None, d\<lparr>wd_tasks := ReleaseRetainingAttempt (wk_id row) (ap_db_now ap) (wd_tasks d)\<rparr>)
         else if sv_NeedsInput view then (None, release)
         else if backgroundTaskWakeActivityStatusBlocksFire (sv_ActivityStatus view) then (None, release)
         else if turn_exists ap row (wd_plane d) then (None, mark turn d)
         else (case enqueueSDKTurn ap (wk_owner_email row) (wk_session_id row) (task_turn row now) (wd_plane d) of
                 (Inl e, pl) \<Rightarrow> failBackgroundTaskWake ap row provider (enqueue_failed e) (d\<lparr>wd_plane := pl\<rparr>)
               | (Inr resp, pl) \<Rightarrow> (None, mark (turnIDFromEnqueueResponse resp) (d\<lparr>wd_plane := pl\<rparr>))))"

definition failExceededBackgroundTaskWakes :: "(nat \<Rightarrow> appServer) \<Rightarrow> (string \<Rightarrow> bool) \<Rightarrow> gotime \<Rightarrow> wake_desk \<Rightarrow> wake_desk" where
  "failExceededBackgroundTaskWakes aps locked now d =
     (let (rows, T) = BW_FailExceeded (store_scope (ap_scope (aps 0))) locked (ap_db_now (aps 0)) (UnixNano now)
            backgroundTaskWakeBatchLimit backgroundTaskWakeClaimStaleAfter (wd_tasks d)
      in d\<lparr>wd_tasks := T,
           wd_plane := fold (\<lambda>(i, row). resolveFailedWake (aps i) row (TrimSpace (wk_provider row)) AwayErrorReasonBackgroundTaskWake)
                         (enumerate 0 rows) (wd_plane d)\<rparr>)"

definition processBackgroundTaskWakes ::
  "(nat \<Rightarrow> appServer) \<Rightarrow> (nat \<Rightarrow> appServer) \<Rightarrow> (string \<Rightarrow> bool) \<Rightarrow> (string \<Rightarrow> bool) \<Rightarrow> gotime \<Rightarrow> wake_desk \<Rightarrow> wake_desk" where
  "processBackgroundTaskWakes capped fired locked1 locked2 now d =
     (let d = failExceededBackgroundTaskWakes capped locked1 now d;
          pl = wd_plane d;
          (rows, T) = BW_ClaimDue (so_render (pl_stores pl)) (pl_db pl) (store_scope (ap_scope (fired 0))) locked2 (ap_db_now (fired 0))
            (UnixNano now) backgroundTaskWakeBatchLimit backgroundTaskWakeClaimStaleAfter (wd_tasks d)
      in fold (\<lambda>(i, claimed) d. snd (fireBackgroundTaskWake (fired i) claimed now d)) (enumerate 0 rows) (d\<lparr>wd_tasks := T\<rparr>))"

end
