(* ===== verification/Wake_Outcomes.thy ===== *)
theory Wake_Outcomes
  imports Wake_Fire
begin

text \<open>
  What becomes of a wake that is fired, of a session that its user takes over, and of an observation that cannot be stored.
\<close>

section \<open>The event of a wake-up is written\<close>

lemma wakeup_event:
  assumes "ScheduledWakeupUpdatedEventMap clock0 clock1 s args = Inr (event, seq)" "well_formed_event event"
    and "TrimSpace (sw_SessionStorageKey args) \<noteq> []"
  shows "storable scope event"
proof -
  define timeline where "timeline = ''scheduled-wakeup:'' @ TrimSpace (sw_WakeupID args)"
  define eid where "eid = timeline @ '':'' @ TrimSpace (sw_Status args) @ '':'' @ int_dec (UnixNano (default_now clock0 (sw_Now args)))"
  obtain draft where draft: "string_at draft ''event_id'' = eid" "string_at draft ''uuid'' = []" "mget draft ''order_key'' = None"
    and ev: "event = (set_if (TrimSpace (sw_ProviderItemID args) \<noteq> []) ''provider_item_id'' (GStr (TrimSpace (sw_ProviderItemID args))) \<circ>
      add_identity (sw_SessionStorageKey args) (sw_SessionID args) (sw_Email args) (sw_Runtime args)) (stamp_out clock1 (add1_int64 s) draft)"
  proof -
    define d where "d = [(''event_id'', GStr eid), (''conversation_id'', GStr (sw_SessionID args)), (''session_id'', GStr (sw_SessionID args)),
       (''turn_id'', GStr (TrimSpace (sw_ScheduledTurnID args))), (''timeline_id'', GStr timeline),
       (''client_nonce'', GStr (TrimSpace (sw_ClientNonce args))), (''actor'', GStr (actor_wire ActorSystem)), (''source'', GStr (source_wire SourceTank)),
       (''type'', GStr (event_wire EventScheduledWakeupUpdated)), (''created_at'', GStr (FormatRFC3339Nano (default_now clock0 (sw_Now args)))),
       (''producer'', GMap (producer_for (sw_Runtime args))), (''visibility'', GStr (visibility_wire VisibilityDurable)),
       (''payload'', GMap [(''kind'', GStr ''scheduled_wakeup''), (''wakeup_id'', GStr (TrimSpace (sw_WakeupID args))),
          (''status'', GStr (TrimSpace (sw_Status args))), (''prompt'', GStr (TrimSpace (sw_Prompt args))),
          (''scheduled_turn_id'', GStr (TrimSpace (sw_ScheduledTurnID args))), (''provider_item_id'', GStr (TrimSpace (sw_ProviderItemID args))),
          (''scheduled_at'', GStr (FormatRFC3339Nano (sw_ScheduledAt args))), (''due_at'', GStr (FormatRFC3339Nano (sw_DueAt args))),
          (''attempt_count'', GInt (sw_AttemptCount args)), (''fired_turn_id'', GStr (TrimSpace (sw_FiredTurnID args))),
          (''last_error'', GStr (TrimSpace (sw_LastError args)))])]"
    have "event = (set_if (TrimSpace (sw_ProviderItemID args) \<noteq> []) ''provider_item_id'' (GStr (TrimSpace (sw_ProviderItemID args))) \<circ>
      add_identity (sw_SessionStorageKey args) (sw_SessionID args) (sw_Email args) (sw_Runtime args)) (stamp_out clock1 (add1_int64 s) d)"
      using assms(1) unfolding ScheduledWakeupUpdatedEventMap_def Let_def timeline_def [symmetric] eid_def [symmetric] d_def [symmetric]
      by (auto simp: map_event_def StampEventMap_def Let_def split: if_split_asm)
    then show thesis by (rule that [rotated 3]) (simp_all add: d_def)
  qed
  have vis: "visible (CHR '':'')" "visible (CHR ''-'')" by (simp_all add: visible_def byte_of_def)
  have "string_at event ''id'' = eid" by (simp add: ev add_identity_def stamp_out_def Let_def draft)
  moreover have "CHR '':'' \<in> set (TrimSpace eid)" by (rule TrimSpace_keeps) (simp_all add: eid_def vis)
  ultimately have identity: "event_identity event \<noteq> []" by (auto simp: event_identity_def trimmed_at_def)
  have "sw_SessionStorageKey args \<noteq> []" using assms(3) by auto
  then have storage: "storage_key_of scope event = TrimSpace (sw_SessionStorageKey args)"
    using assms(3) by (simp add: storage_key_of_def trimmed_at_def ev add_identity_def)
  have "string_at event ''order_key'' = order_key_for clock1 (add1_int64 s) eid"
    using stamp_out_order_key [OF draft(3), of clock1 "add1_int64 s"] by (simp add: ev add_identity_def has_def draft)
  moreover have "CHR ''-'' \<in> set (TrimSpace (order_key_for clock1 (add1_int64 s) eid))"
    by (rule TrimSpace_keeps) (simp_all add: order_key_for_def vis)
  ultimately have "trimmed_at event ''order_key'' \<noteq> []" by (auto simp: trimmed_at_def)
  then show ?thesis using identity storage assms(2,3) by (simp add: storable_def ValidateEventMap_iff)
qed

lemma persistScheduledWakeupEvent_frame:
  "pl_sent (snd (persistScheduledWakeupEvent ap n row now pl)) = pl_sent pl"
  by (simp add: persistScheduledWakeupEvent_def Let_def split: sum.split option.split prod.split)
     (metis persistBackendEvent_frame(2) snd_conv plane.select_convs(4) plane.surjective plane.update_convs(3))

text \<open>A row that was registered under the scope of the server, with a clock that works.\<close>

definition home_row :: "appServer \<Rightarrow> 'a wake_row_scheme \<Rightarrow> bool" where
  "home_row ap row \<longleftrightarrow>
     wk_session_id row \<noteq> [] \<and> wk_tank_session_id row = SessionStorageKey (ap_scope ap) (wk_session_id row) \<and>
     TrimSpace (wk_tank_session_id row) \<noteq> [] \<and> (\<forall>n. valid_gotime (ap_clock ap n))"

lemma persistScheduledWakeupEvent_ok:
  assumes "home_row ap row" "sw_identity row" "valid_gotime now"
  shows "fst (persistScheduledWakeupEvent ap n row now pl) = None"
proof -
  let ?args = "wakeup_event_args row (default_now (ap_clock ap n) now)"
  have eval: "TrimSpace ''scheduled'' = ''scheduled''" "TrimSpace ''claiming'' = ''claiming''" "TrimSpace ''fired'' = ''fired''"
    "TrimSpace ''failed'' = ''failed''" "TrimSpace ''cancelled'' = ''cancelled''" by code_simp+
  have status: "TrimSpace (wake_status_wire s) \<in> {''scheduled'', ''claiming'', ''fired'', ''failed'', ''cancelled''}" for s
    by (cases s) (simp_all add: eval)
  have ids: "TrimSpace (wk_id row) \<noteq> []" "TrimSpace (wk_client_nonce row) \<noteq> []"
  proof -
    show "TrimSpace (wk_id row) \<noteq> []" using assms(2) ScheduledWakeupID_nonempty by (simp add: sw_identity_def)
    have "list_all nonce_char (wk_client_nonce row)"
      using sw_nonce_of [OF assms(2)] ScheduledWakeupID_nonce assms(2) by (simp add: sw_identity_def nonce_eval)
    then show "TrimSpace (wk_client_nonce row) \<noteq> []" using sw_nonce_of [OF assms(2)] by (simp add: nonce_trim)
  qed
  have key: "sw_SessionStorageKey ?args = wk_tank_session_id row"
    using assms(1) by (auto simp: wakeup_event_args_def home_row_def)
  have "valid_gotime (sw_Now ?args)" using assms(1,3) default_now_valid by (simp add: wakeup_event_args_def home_row_def)
  then obtain event where event: "ScheduledWakeupUpdatedEventMap (ap_clock ap (n + 1)) (ap_clock ap (n + 2)) (pl_sequence pl) ?args =
      Inr (event, add1_int64 (pl_sequence pl))" "well_formed_event event"
    using ScheduledWakeupUpdated_valid [of "ap_clock ap (n + 1)" ?args "ap_clock ap (n + 2)" "pl_sequence pl"] assms(1) ids status
    by (auto simp: wakeup_event_args_def home_row_def)
  have "storable (store_scope (ap_scope ap)) event"
    by (rule wakeup_event [OF event]) (use assms(1) in \<open>simp add: key, simp add: home_row_def\<close>)
  then have "fst (persistBackendEvent ap k event q) = None" for k q using persistBackendEvent_cases by blast
  then show ?thesis
    unfolding persistScheduledWakeupEvent_def Let_def event(1) by (simp add: split_def split: option.split)
qed

section \<open>Every fire settles the claim\<close>

lemma set_wake_find:
  "keeps_id f \<Longrightarrow> TrimSpace i = i \<Longrightarrow> find_wake i (set_wake i f T) = map_option f (find_wake i T)"
  unfolding set_wake_def by (subst find_update_wakes) (auto simp: find_wake_def find_Some_iff split: option.split intro!: map_option_cong)

lemma failScheduledWakeup_row:
  assumes "find_wake (wk_id row) (wd_scheduled d) = Some row" "TrimSpace (wk_id row) = wk_id row"
    and "failScheduledWakeup ap row provider reason d = (fault, d')"
  shows "find_wake (wk_id row) (wd_scheduled d') = Some (failed_row reason (ap_db_now ap) row)" "fault \<noteq> None"
proof -
  have "mark_failed (wk_id row) reason (ap_db_now ap) (wd_scheduled d) =
      (Some (failed_row reason (ap_db_now ap) row), set_wake (wk_id row) (failed_row reason (ap_db_now ap)) (wd_scheduled d))"
    using assms(1,2) by (simp add: mark_failed_def Let_def set_wake_find)
  then show "find_wake (wk_id row) (wd_scheduled d') = Some (failed_row reason (ap_db_now ap) row)" "fault \<noteq> None"
    using assms by (auto simp: failScheduledWakeup_def set_wake_find Let_def split: prod.split_asm option.split_asm)
qed

lemma markScheduledFired_row:
  assumes "find_wake (wk_id row) (wd_scheduled d) = Some row" "TrimSpace (wk_id row) = wk_id row"
    and "markScheduledFired ap row turnID now d = (fault, d')"
  shows "find_wake (wk_id row) (wd_scheduled d') = Some (fired_row turnID (ap_db_now ap) row)"
    "pl_sent (wd_plane d') = pl_sent (wd_plane d)"
proof -
  let ?fired = "fired_row turnID (ap_db_now ap) row"
  have mark: "mark_fired (wk_id row) turnID (ap_db_now ap) (wd_scheduled d) =
      (Some ?fired, set_wake (wk_id row) (fired_row turnID (ap_db_now ap)) (wd_scheduled d))"
    using assms(1,2) by (simp add: mark_fired_def Let_def set_wake_find)
  then have d': "d' = d\<lparr>wd_scheduled := set_wake (wk_id row) (fired_row turnID (ap_db_now ap)) (wd_scheduled d),
      wd_plane := snd (persistScheduledWakeupEvent ap 5 ?fired now (wd_plane d))\<rparr>"
    using assms(3) by (auto simp: markScheduledFired_def split_def Let_def)
  show "find_wake (wk_id row) (wd_scheduled d') = Some ?fired" using assms(1,2) by (simp add: d' set_wake_find)
  show "pl_sent (wd_plane d') = pl_sent (wd_plane d)" by (simp add: d' persistScheduledWakeupEvent_frame)
qed

lemma table_row:
  assumes "wd_scheduled d = fold sw_step hist []" "row \<in> set (wd_scheduled d)"
  shows "sw_identity row" "TrimSpace (wk_id row) = wk_id row" "find_wake (wk_id row) (wd_scheduled d) = Some row"
proof -
  have ok: "sw_ok (wd_scheduled d)" unfolding assms(1) by (rule scheduled.run_inv) simp
  then show "sw_identity row" "find_wake (wk_id row) (wd_scheduled d) = Some row"
    using assms(2) by (auto simp: sw_ok_def list_all_iff table_ok_def find_wake_member)
  then show "TrimSpace (wk_id row) = wk_id row" by (simp add: sw_identity_def)
qed

text \<open>The ways through the ladder.\<close>

lemma fire_ways:
  assumes "fireScheduledWakeup ap (row, view) now d = (fault, d')"
  shows "(\<exists>reason pl. failScheduledWakeup ap row (TrimSpace (wk_provider row)) reason (d\<lparr>wd_plane := pl\<rparr>) = (fault, d') \<and>
        (pl = wd_plane d \<or> (\<exists>e. enqueueSDKTurn ap (wk_owner_email row) (wk_session_id row) (wakeup_turn row now) (wd_plane d) = (Inl e, pl)))) \<or>
    (sv_Status view \<notin> {[], ''Failed'', ''Active''} \<and> \<not> sv_Terminated view \<and> fault = None \<and>
        d' = d\<lparr>wd_scheduled := ReleaseRetainingAttempt (wk_id row) (ap_db_now ap) (wd_scheduled d)\<rparr>) \<or>
    (1 < wk_attempt_count row \<and> turn_exists ap row (wd_plane d) \<and>
        markScheduledFired ap row (TurnIDForClientNonce (wk_client_nonce row)) now d = (fault, d')) \<or>
    (\<exists>resp pl. enqueueSDKTurn ap (wk_owner_email row) (wk_session_id row) (wakeup_turn row now) (wd_plane d) = (Inr resp, pl) \<and>
        markScheduledFired ap row (turnIDFromEnqueueResponse resp) now (d\<lparr>wd_plane := pl\<rparr>) = (fault, d'))"
    (is "?failed \<or> ?deferred \<or> ?again \<or> ?fired")
proof -
  let ?go = "enqueueSDKTurn ap (wk_owner_email row) (wk_session_id row) (wakeup_turn row now) (wd_plane d)"
  have same: "failScheduledWakeup ap row (TrimSpace (wk_provider row)) reason d = (fault, d') \<Longrightarrow> ?failed" for reason
    by (rule exI [of _ reason], rule exI [of _ "wd_plane d"]) simp
  note run = assms [unfolded fireScheduledWakeup_def prod.case Let_def]
  consider "sv_Status view = []" | "sv_Status view \<noteq> []" "sv_Terminated view \<or> sv_Status view = ''Failed''"
    | "sv_Status view \<notin> {[], ''Failed'', ''Active''}" "\<not> sv_Terminated view"
    | "sv_Status view = ''Active''" "\<not> sv_Terminated view" "1 < wk_attempt_count row \<and> turn_exists ap row (wd_plane d)"
    | "sv_Status view = ''Active''" "\<not> sv_Terminated view" "\<not> (1 < wk_attempt_count row \<and> turn_exists ap row (wd_plane d))" by blast
  then show ?thesis
  proof cases
    case 1
    then have ?failed using run by (intro same) simp
    then show ?thesis ..
  next
    case 2
    then have ?failed using run by (intro same) simp
    then show ?thesis ..
  next
    case 3
    then show ?thesis using run by auto
  next
    case 4
    then have ?again using run by simp
    then show ?thesis by blast
  next
    case 5
    then have "(case ?go of (Inl e, pl) \<Rightarrow> failScheduledWakeup ap row (TrimSpace (wk_provider row)) (enqueue_failed e) (d\<lparr>wd_plane := pl\<rparr>)
      | (Inr resp, pl) \<Rightarrow> markScheduledFired ap row (turnIDFromEnqueueResponse resp) now (d\<lparr>wd_plane := pl\<rparr>)) = (fault, d')"
      using run by (simp only: list.distinct simp_thms if_False if_True) simp
    then have "?failed \<or> ?fired" by (cases ?go; cases "fst ?go") auto
    then show ?thesis by blast
  qed
qed

text \<open>
  C17: no fire leaves a wake-up hanging. When a claimed wake-up of the table is fired, its row is afterwards \<open>fired\<close>,
  \<open>failed\<close>, or released for another attempt that counts this one. It is released only while its session is neither active nor
  dead; it is fired only if its command was published on both streams or an earlier attempt left its turn in the ledger;
  and a failure is reported.
\<close>

theorem fire_settles_claim:
  assumes "wd_scheduled d = fold sw_step hist []" "row \<in> set (wd_scheduled d)"
    and "fireScheduledWakeup ap (row, view) now d = (fault, d')"
  shows "\<exists>r. find_wake (wk_id row) (wd_scheduled d') = Some r \<and> wk_attempt_count r = wk_attempt_count row \<and>
    ((wk_status r = WakeScheduled \<and> sv_Status view \<notin> {[], ''Failed'', ''Active''} \<and> \<not> sv_Terminated view \<and> wd_plane d' = wd_plane d) \<or>
     (wk_status r = WakeFailed \<and> fault \<noteq> None) \<or>
     (wk_status r = WakeFired \<and>
       (1 < wk_attempt_count row \<and> turn_exists ap row (wd_plane d) \<or>
        (\<exists>c. pl_sent (wd_plane d') = pl_sent (wd_plane d) @ [(CommandStreamSubjectForCommand c, c), (SubjectForCommand c, c)] \<and>
           cm_Type c = CommandSubmitTurn \<and> cm_TurnID c = wk_fired_turn_id r))))"
proof -
  note t = table_row [OF assms(1,2)]
  consider (failed) reason pl where "failScheduledWakeup ap row (TrimSpace (wk_provider row)) reason (d\<lparr>wd_plane := pl\<rparr>) = (fault, d')"
    | (deferred) "sv_Status view \<notin> {[], ''Failed'', ''Active''}" "\<not> sv_Terminated view"
        "d' = d\<lparr>wd_scheduled := ReleaseRetainingAttempt (wk_id row) (ap_db_now ap) (wd_scheduled d)\<rparr>"
    | (again) "1 < wk_attempt_count row" "turn_exists ap row (wd_plane d)"
        "markScheduledFired ap row (TurnIDForClientNonce (wk_client_nonce row)) now d = (fault, d')"
    | (fired) resp pl where "enqueueSDKTurn ap (wk_owner_email row) (wk_session_id row) (wakeup_turn row now) (wd_plane d) = (Inr resp, pl)"
        "markScheduledFired ap row (turnIDFromEnqueueResponse resp) now (d\<lparr>wd_plane := pl\<rparr>) = (fault, d')"
    using fire_ways [OF assms(3)] by blast
  then show ?thesis
  proof cases
    case failed
    then show ?thesis using failScheduledWakeup_row [OF _ t(2) failed] t(3) by (auto simp: failed_row_def)
  next
    case deferred
    then show ?thesis using t(2,3) by (simp add: ReleaseRetainingAttempt_def set_wake_find) (simp add: released_row_def)
  next
    case again
    then show ?thesis using markScheduledFired_row [OF t(3,2) again(3)] by (auto simp: fired_row_def)
  next
    case fired
    have f: "find_wake (wk_id row) (wd_scheduled (d\<lparr>wd_plane := pl\<rparr>)) = Some row" using t(3) by simp
    have trim: "TrimSpace (turnIDFromEnqueueResponse resp) = turnIDFromEnqueueResponse resp"
      by (simp add: turnIDFromEnqueueResponse_def trimmed_at_def)
    show ?thesis
      using markScheduledFired_row [OF f t(2) fired(2)] accepted_turn [OF fired(1)] trim by (auto simp: fired_row_def)
  qed
qed

lemma resolveFailedWake_records:
  assumes "home_row ap row" "awayReason \<noteq> []"
  shows "recorded (resolveFailedWake ap row runtime awayReason pl) (TrimSpace (wk_tank_session_id row))
    (TurnIDForClientNonce (wk_client_nonce row) @ '':turn.command_failed'')"
proof -
  let ?args = "failed_wake_args ap (wk_owner_email row) (wk_session_id row) (wk_client_nonce row) runtime awayReason"
  have "recorded (mark_command_failed ap ?args pl) (TrimSpace (cf_SessionStorageKey ?args)) (cf_TurnID ?args @ '':turn.command_failed'')"
    by (rule mark_command_failed_records(1)) (use assms in \<open>auto simp: failed_wake_args_def home_row_def\<close>)
  then have marked: "recorded (mark_command_failed ap ?args pl) (TrimSpace (wk_tank_session_id row)) (TurnIDForClientNonce (wk_client_nonce row) @ '':turn.command_failed'')"
    using assms(1) by (simp add: failed_wake_args_def home_row_def)
  have "pl_stores (scoped_refresh e scope owner sid q) = pl_stores q" for e scope owner sid q
    by (simp add: scoped_refresh_def Let_def)
  then show ?thesis
    using marked by (simp add: resolveFailedWake_def Let_def recorded_def split: option.split)
qed

lemma failScheduledWakeup_rings:
  assumes "home_row ap row" "sw_identity row" "find_wake (wk_id row) (wd_scheduled d) = Some row"
    and "failScheduledWakeup ap row provider reason d = (fault, d')"
  shows "recorded (wd_plane d') (TrimSpace (wk_tank_session_id row)) (TurnIDForClientNonce (wk_client_nonce row) @ '':turn.command_failed'')"
proof -
  let ?failed = "failed_row reason (ap_db_now ap) row"
  have trim: "TrimSpace (wk_id row) = wk_id row" using assms(2) by (simp add: sw_identity_def)
  have mark: "mark_failed (wk_id row) reason (ap_db_now ap) (wd_scheduled d) =
      (Some ?failed, set_wake (wk_id row) (failed_row reason (ap_db_now ap)) (wd_scheduled d))"
    using assms(3) trim by (simp add: mark_failed_def Let_def set_wake_find)
  have home: "home_row ap ?failed" "sw_identity ?failed" "valid_gotime (ap_clock ap 8)"
  proof -
    have "home_row ap ?failed = home_row ap row" "sw_identity ?failed = sw_identity row"
      by (simp_all add: home_row_def sw_identity_def failed_row_def)
    then show "home_row ap ?failed" "sw_identity ?failed" using assms(1,2) by simp_all
    show "valid_gotime (ap_clock ap 8)" using assms(1) by (simp add: home_row_def)
  qed
  obtain pl where "persistScheduledWakeupEvent ap 5 ?failed (ap_clock ap 8) (wd_plane d) = (None, pl)"
    using persistScheduledWakeupEvent_ok [OF home, of 5 "wd_plane d"] by (metis prod.collapse)
  then have "wd_plane d' = resolveFailedWake ap row provider AwayErrorReasonScheduledWakeup pl"
    using assms(4) mark by (auto simp: failScheduledWakeup_def Let_def)
  moreover have "AwayErrorReasonScheduledWakeup \<noteq> []" by code_simp
  ultimately show ?thesis using resolveFailedWake_records [OF assms(1)] by simp
qed


text \<open>
  an attempt that dies between its two halves loses the wake-up. The boundary events of a wake's turn are written before
  its command is published; when the process stops in between, the next attempt finds the turn in the ledger, takes it for a
  turn that was submitted, and marks the wake-up \<open>fired\<close> without publishing anything.
\<close>

theorem refire_publishes_nothing:
  assumes "wd_scheduled d = fold sw_step hist []" "row \<in> set (wd_scheduled d)" "1 < wk_attempt_count row"
    and "sv_Status view = ''Active''" "\<not> sv_Terminated view" "turn_exists ap row (wd_plane d)" "pl_sent (wd_plane d) = []"
    and "fireScheduledWakeup ap (row, view) now d = (fault, d')"
  shows "map_option wk_status (find_wake (wk_id row) (wd_scheduled d')) = Some WakeFired \<and> pl_sent (wd_plane d') = []"
proof -
  note t = table_row [OF assms(1,2)]
  have "markScheduledFired ap row (TurnIDForClientNonce (wk_client_nonce row)) now d = (fault, d')"
    using assms(3-6,8) by (simp add: fireScheduledWakeup_def)
  from markScheduledFired_row [OF t(3,2) this] show ?thesis using assms(7) by (simp add: fired_row_def)
qed

text \<open>A registered wake-up, before and after two claims.\<close>

abbreviation parked :: ScheduledWakeup where
  "parked \<equiv> requested_wakeup ''default'' 1 sample_request"

abbreviation parked_twice :: ScheduledWakeup where
  "parked_twice \<equiv> claim_row 20 200000000000 (claim_row 20 20 parked)"

definition sample_desk :: "ScheduledWakeup \<Rightarrow> ledger \<Rightarrow> wake_desk" where
  "sample_desk row L = \<lparr>wd_plane = set_events L sample_plane, wd_scheduled = [row], wd_tasks = []\<rparr>"

abbreviation gone_view :: session_view where
  "gone_view \<equiv> \<lparr>sv_Status = [], sv_Terminated = True, sv_NeedsInput = False, sv_ActivityStatus = []\<rparr>"

abbreviation alive_view :: session_view where
  "alive_view \<equiv> \<lparr>sv_Status = ''Active'', sv_Terminated = False, sv_NeedsInput = False, sv_ActivityStatus = []\<rparr>"

abbreviation sample_fire :: "ScheduledWakeup \<Rightarrow> session_view \<Rightarrow> ledger \<Rightarrow> fire_fault option \<times> wake_desk" where
  "sample_fire row view L \<equiv> fireScheduledWakeup (sample_app half) (row, view) sample_now (sample_desk row L)"

lemma parked_facts:
  "wd_scheduled (sample_desk parked L) = fold sw_step [(''default'', SwRegister 1 sample_request)] []"
  "wd_scheduled (sample_desk parked_twice L) = fold sw_step [(''default'', SwRegister 1 sample_request),
     (''default'', SwLife (ClaimDue (\<lambda>_. False) 20 20 1 0)), (''default'', SwLife (ClaimDue (\<lambda>_. False) 20 200000000000 1 0))] []"
proof -
  show "wd_scheduled (sample_desk parked L) = fold sw_step [(''default'', SwRegister 1 sample_request)] []"
    using sample_registered(1) by (simp add: sample_desk_def)
  have one: "claim_due ''default'' 5 (\<lambda>_. False) 20 20 1 0 [parked] = ([claim_row 20 20 parked], [claim_row 20 20 parked])"
    by (rule claim_single) (simp add: claimable_def sample_registered claim_expired_def)
  have two: "claim_due ''default'' 5 (\<lambda>_. False) 20 200000000000 1 0 [claim_row 20 20 parked] = ([parked_twice], [parked_twice])"
    by (rule claim_single) (simp add: claimable_def claim_row_def sample_registered claim_expired_def effective_stale_def)
  show "wd_scheduled (sample_desk parked_twice L) = fold sw_step [(''default'', SwRegister 1 sample_request),
     (''default'', SwLife (ClaimDue (\<lambda>_. False) 20 20 1 0)), (''default'', SwLife (ClaimDue (\<lambda>_. False) 20 200000000000 1 0))] []"
    using sample_registered(1) one two by (simp add: sample_desk_def MaxScheduledWakeupAttempts_def del: sw_step.simps(1))
qed

lemma parked_home: "home_row (sample_app half) parked" "wk_session_id parked = ''7''" "wk_tank_session_id parked = ''7''" "wk_session_scope parked = ''default''"
proof -
  have eval: "given_scope ''default'' ''default'' = ''default''" "TrimSpace ''7'' = ''7''" "SessionStorageKey ''default'' ''7'' = ''7''" by code_simp+
  show f: "wk_session_id parked = ''7''" "wk_tank_session_id parked = ''7''" "wk_session_scope parked = ''default''"
    by (simp_all add: requested_wakeup_def sample_request_def Let_def eval)
  show "home_row (sample_app half) parked"
    unfolding home_row_def f sample_app_facts using sample_now_valid by (simp add: eval)
qed

theorem fire_settles_claim_witness:
  "\<exists>r. find_wake (wk_id parked) (wd_scheduled (snd (sample_fire parked gone_view []))) = Some r \<and> wk_status r \<in> {WakeScheduled, WakeFailed, WakeFired}"
  using fire_settles_claim [OF parked_facts(1) _ prod.collapse [symmetric], of parked "[]" "sample_app half" gone_view sample_now]
  by (auto simp: sample_desk_def)


definition ghost :: event_row where
  "ghost = (row_of ''default'' 0 sample_stored)\<lparr>er_tank_session_id := ''7'', er_turn_id := Some (TurnIDForClientNonce (wk_client_nonce parked)), er_order_key := ''k''\<rparr>"

theorem refire_publishes_nothing_witness:
  "pl_sent (wd_plane (snd (sample_fire parked_twice alive_view [ghost]))) = []"
proof -
  have row: "parked_twice \<in> set (wd_scheduled (sample_desk parked_twice [ghost]))" by (simp add: sample_desk_def)
  have eval: "SessionStorageKey ''default'' ''7'' = ''7''" "store_scope ''default'' = ''default''" by code_simp+
  have "ValidateEventMap (Some (er_payload ghost)) = None"
    using storable_row_ok [OF sample_stored_storable, of 0] by (simp add: ghost_def row_ok_def)
  then have "turn_exists (sample_app half) parked_twice (set_events [ghost] sample_plane)"
    using TrimSpace_visible [OF TurnID_visible]
    by (simp add: turn_exists_def eventsForTurn_def Let_def claim_row_def parked_home eval rows_asc_def ghost_def sort_by_def decode_rows_def
        decodeStoredSessionEvent_def map_filter_simps sessionEventPageFromAscendingScan_def normalizeSessionEventLimit_def page_of_def)
  moreover have "1 < wk_attempt_count parked_twice" by (simp add: claim_row_def sample_registered)
  moreover have "pl_sent (wd_plane (sample_desk parked_twice [ghost])) = []" by (simp add: sample_desk_def sample_plane_def)
  ultimately show ?thesis
    using refire_publishes_nothing [OF parked_facts(2) row _ _ _ _ _ prod.collapse [symmetric], of alive_view "sample_app half" sample_now]
    by (simp add: sample_desk_def)
qed

section \<open>Take-over\<close>

lemma fold_events_frame:
  "pl_sent (fold (\<lambda>(i, row) pl. snd (persistScheduledWakeupEvent ap (f i) row (g i) pl)) rows pl) = pl_sent pl"
  by (induction rows arbitrary: pl) (auto simp: persistScheduledWakeupEvent_frame)

lemma cancelled_none: "\<not> HasPending store (snd (CancelPendingForSession store scope sid clock T)) scope sid"
proof -
  have "\<not> waits_for store scope sid (cancelled_row clock r)" for r :: "'a wake_row_scheme"
    by (simp add: waits_for_def pending_def cancelled_row_def)
  then show ?thesis by (auto simp: HasPending_def CancelPendingForSession_def set_update_wakes)
qed

text \<open>
  C23: only an accepted turn takes a parked session over. When a user's submission is accepted, no wake of the session is
  pending afterwards, in either table; when it is refused or fails, both tables are as they were and every wake stays armed.
\<close>

theorem takeover_iff_accepted:
  "case submitSessionTurn ap owner target req d of
     (Inl e, d') \<Rightarrow> wd_scheduled d' = wd_scheduled d \<and> wd_tasks d' = wd_tasks d
   | (Inr resp, d') \<Rightarrow> \<not> HasPending (store_scope (ap_scope ap)) (wd_scheduled d') (ap_scope ap) (TrimSpace target) \<and>
       \<not> HasPending (store_scope (ap_scope ap)) (wd_tasks d') (ap_scope ap) (TrimSpace target)"
proof -
  have "\<not> HasPending (store_scope (ap_scope ap)) (wd_scheduled (snd (cancelPendingWakesForSession ap sid q))) (ap_scope ap) sid \<and>
      \<not> HasPending (store_scope (ap_scope ap)) (wd_tasks (snd (cancelPendingWakesForSession ap sid q))) (ap_scope ap) sid" for sid q
    by (simp add: cancelled_none cancelPendingWakesForSession_def Let_def split_def)
  then show ?thesis
    by (auto simp: submitSessionTurn_def Let_def split: prod.split sum.split)
qed

section \<open>Delays\<close>

lemma wrap_int64_id: "wrap_int64 n = n \<longleftrightarrow> - (2 ^ 63) \<le> n \<and> n < 2 ^ 63"
proof
  assume eq: "wrap_int64 n = n"
  define m where "m = (n + 2 ^ 63) mod 2 ^ 64"
  have "n = m - 9223372036854775808" "0 \<le> m" "m < 18446744073709551616" using eq by (simp_all add: m_def wrap_int64_def)
  then show "- (2 ^ 63) \<le> n \<and> n < 2 ^ 63" by simp
next
  assume "- (2 ^ 63) \<le> n \<and> n < 2 ^ 63"
  then show "wrap_int64 n = n" by (simp add: wrap_int64_def)
qed

lemma SW_Register_new:
  "r \<in> set (snd (SW_Register store clock req T)) \<Longrightarrow> r \<notin> set T \<Longrightarrow> r = requested_wakeup store clock req"
  by (auto simp: SW_Register_def insert_wake_def split: option.split_asm if_split_asm)

lemma registerScheduledWakeup_new:
  assumes "registerScheduledWakeup ap caller target body d = (res, d')" "r \<in> set (wd_scheduled d')" "r \<notin> set (wd_scheduled d)"
  shows "wk_due_at r = UnixNano (ap_clock ap 0) + millis (wb_DelayMs body)" "0 \<le> wb_DelayMs body"
proof -
  have due: "wk_due_at (requested_wakeup store clock req) = rq_DueAt req" for store clock req
    by (simp add: requested_wakeup_def Let_def)
  obtain callerID email where c: "caller = (callerID, email)" by (cases caller)
  obtain prompt item turn where ok: "check_wakeup body = Inr (prompt, item, turn)"
    using assms unfolding registerScheduledWakeup_def c Let_def by (auto split: if_split_asm sum.split_asm)
  then show "0 \<le> wb_DelayMs body" by (auto simp: check_wakeup_def Let_def split: if_split_asm)
  show "wk_due_at r = UnixNano (ap_clock ap 0) + millis (wb_DelayMs body)"
    using assms unfolding registerScheduledWakeup_def c Let_def ok
    by (auto simp: due split: if_split_asm sum.split_asm option.split_asm prod.split_asm dest!: SW_Register_new [OF _ assms(3)] arg_cong [of _ _ snd])
qed

text \<open>
  a wake-up is due after exactly the delay that was asked for as long as that is at most 9223372036854 milliseconds. Any
  longer delay overflows the product with a millisecond, and the wake-up gets another due time, one in the past for instance.
\<close>

theorem wakeup_delay_exact:
  assumes "registerScheduledWakeup ap caller target body d = (res, d')" "r \<in> set (wd_scheduled d')" "r \<notin> set (wd_scheduled d)"
  shows "wk_due_at r = UnixNano (ap_clock ap 0) + wb_DelayMs body * 1000000 \<longleftrightarrow> wb_DelayMs body \<le> 9223372036854"
  using registerScheduledWakeup_new [OF assms] wrap_int64_id [of "wb_DelayMs body * 1000000"] by (auto simp: millis_def)

definition sample_body :: wakeup_body where
  "sample_body = \<lparr>wb_DelayMs = 5, wb_Prompt = ''go on'', wb_ProviderItemID = ''toolu_1'', wb_ScheduledTurnID = []\<rparr>"

definition fresh_desk :: wake_desk where
  "fresh_desk = \<lparr>wd_plane = sample_plane\<lparr>pl_db := sample_db\<rparr>, wd_scheduled = [], wd_tasks = []\<rparr>"

lemma sample_registration:
  "\<exists>r. wd_scheduled (snd (registerScheduledWakeup (sample_app half) (''7'', ''u@x'') ''7'' sample_body fresh_desk)) = [r]"
proof -
  have eval: "TrimSpace ''7'' = ''7''" "TrimSpace ''go on'' = ''go on''" "TrimSpace ''toolu_1'' = ''toolu_1''" "owner_key ''u@x'' = ''u@x''"
    "store_scope ''default'' = ''default''" "sdkProviderForMode ''claude_gui'' = Some ''claude''" "supportsScheduledWakeups ''claude''" by code_simp+
  have body: "check_wakeup sample_body = Inr (''go on'', ''toolu_1'', [])"
    by (simp add: check_wakeup_def sample_body_def eval Let_def maxSDKTurnPromptBytes_def scheduledWakeupMaxProviderIDLen_def)
  have "find_session sample_db ''u@x'' ''default'' ''7'' = Some sample_row"
    by (simp add: find_session_def is_row_def sample_db_def sample_row_def)
  then have "\<exists>rec. GetRegisteredByOwner (sample_app half) (wd_plane fresh_desk) ''u@x'' ''7'' = Some rec \<and> re_Mode rec = ''claude_gui''"
    by (simp add: GetRegisteredByOwner_def registry_Get_def fresh_desk_def sample_app_facts eval record_of_row_def sample_row_def)
  then obtain rec where rec: "GetRegisteredByOwner (sample_app half) (wd_plane fresh_desk) ''u@x'' ''7'' = Some rec" "re_Mode rec = ''claude_gui''" by blast
  have "wd_scheduled fresh_desk = []" by (simp add: fresh_desk_def)
  then show ?thesis
    by (simp add: registerScheduledWakeup_def eval body rec SW_Register_def insert_wake_def find_wake_def Let_def split: prod.split option.split)
qed

theorem wakeup_delay_exact_witness:
  "\<exists>r\<in>set (wd_scheduled (snd (registerScheduledWakeup (sample_app half) (''7'', ''u@x'') ''7'' sample_body fresh_desk))).
     wk_due_at r = UnixNano sample_now + 5000000"
proof -
  obtain r where r: "wd_scheduled (snd (registerScheduledWakeup (sample_app half) (''7'', ''u@x'') ''7'' sample_body fresh_desk)) = [r]"
    using sample_registration by blast
  then have "wk_due_at r = UnixNano (ap_clock (sample_app half) 0) + wb_DelayMs sample_body * 1000000 \<longleftrightarrow> wb_DelayMs sample_body \<le> 9223372036854"
    by (intro wakeup_delay_exact [OF prod.collapse [symmetric], of r "sample_app half" "(''7'', ''u@x'')" "''7''" sample_body fresh_desk])
      (simp_all add: fresh_desk_def)
  then show ?thesis using r by (simp add: sample_body_def sample_app_facts)
qed

section \<open>The prompt of a task wake\<close>

lemma clip_length: "1 < n \<Longrightarrow> length (clipWakeField v n) \<le> nat n + 2"
  by (auto simp: clipWakeField_def min_def)

lemma fact_line_length: "1 < n \<Longrightarrow> length (fact_line label v n) \<le> length label + nat n + 3"
  using clip_length [of n "TrimSpace v"] by (simp add: fact_line_def Let_def)

lemma wake_text_lengths:
  "length wake_text_lost \<le> 230" "length wake_text_done \<le> 230" "length wake_text_again \<le> 160" "length wake_text_codex_check \<le> 110"
  "length wake_text_codex_review \<le> 110" "length wake_text_claude_check \<le> 110" "length wake_text_claude_review \<le> 110"
  "length wake_text_report \<le> 220" "length wake_text_codex_later \<le> 190" "length wake_text_claude_never \<le> 190"
  by code_simp+

text \<open>
  the prompt of a background-task wake stays far below the limit of the submit boundary, whatever the task reported:
  every fact is clipped, and a wake is never refused for the size of its prompt.
\<close>

theorem task_prompt_bounded:
  assumes "backgroundTaskIDPattern (bw_task_id row)"
  shows "length (buildBackgroundTaskWakePromptForProvider row) \<le> 4096 \<and> length (buildBackgroundTaskWakePromptForProvider row) \<le> maxSDKTurnPromptBytes"
proof -
  have task: "length (bw_task_id row) \<le> 160" using assms by (simp add: backgroundTaskIDPattern_def)
  have pick: "length (if b then x else y) \<le> k" if "length x \<le> k" "length y \<le> k" for b and x y :: string and k
    using that by simp
  let ?u = "TrimSpace (bw_task_status row) = ''unknown''" and ?c = "TrimSpace (wk_provider row) = source_wire SourceCodex"
  note texts = wake_text_lengths
  have pieces: "length (if ?u then wake_text_lost else wake_text_done) \<le> 230" "length (if bw_generation row > 1 then wake_text_again else []) \<le> 160"
    "length (if ?c then (if ?u then wake_text_codex_check else wake_text_codex_review)
      else (if ?u then wake_text_claude_check else wake_text_claude_review)) \<le> 110"
    "length (if ?u then (if ?c then wake_text_codex_later else wake_text_claude_never) else []) \<le> 190"
    by (intro pick texts; simp)+
  have facts: "length (fact_line ''Final status: '' (TrimSpace (bw_task_status row)) 64) \<le> 81" "length (fact_line ''Description: '' (bw_task_description row) 500) \<le> 516"
    "length (fact_line ''Summary: '' (bw_task_summary row) 800) \<le> 812" "length (fact_line ''Last tool: '' (bw_task_last_tool row) 64) \<le> 78"
    "length (fact_line ''Error: '' (bw_task_error row) 800) \<le> 810"
    by (rule order_trans [OF fact_line_length]; simp)+
  have id_label: "length ''Task id: '' = 9" "length [CHR 0x0A] = 1" by simp_all
  have "length (buildBackgroundTaskWakePromptForProvider row) \<le> 4096"
    unfolding buildBackgroundTaskWakePromptForProvider_def Let_def length_append id_label
    using task pieces facts texts(8) by linarith
  then show ?thesis by (simp add: maxSDKTurnPromptBytes_def)
qed

theorem task_prompt_bounded_witness:
  "length (buildBackgroundTaskWakePromptForProvider (sample_wake ''a'' ''bash_1'' WakeScheduled)) \<le> 4096"
proof -
  have "bw_task_id (sample_wake ''a'' ''bash_1'' WakeScheduled) = ''bash_1''"
  proof -
    have "TrimSpace ''bash_1'' = ''bash_1''" by code_simp
    then show ?thesis by (simp add: sample_wake_def requested_wake_def sample_observation_def Let_def)
  qed
  moreover have "backgroundTaskIDPattern ''bash_1''" by code_simp
  ultimately show ?thesis using task_prompt_bounded [of "sample_wake ''a'' ''bash_1'' WakeScheduled"] by simp
qed

section \<open>Reports that cannot be stored\<close>

abbreviation u_umlaut :: string where "u_umlaut \<equiv> [CHR 0xC3, CHR 0xBC]"

lemma utf8_umlauts: "utf8_ok (concat (replicate n u_umlaut) @ s) = utf8_ok s"
proof (induction n)
  case (Suc n)
  have "rune_len (u_umlaut @ t) = 2" for t by (simp add: rune_len_def Let_def continues_def byte_of_def)
  then have "utf8_ok (u_umlaut @ t) = utf8_ok t" for t by (subst utf8_ok.simps) (simp add: numeral_2_eq_2)
  then show ?case using Suc.IH by (metis append_assoc concat.simps(2) replicate_Suc)
qed simp

lemma trim_umlauts: "TrimSpace (concat (replicate n u_umlaut)) = concat (replicate n u_umlaut)"
proof -
  let ?P = "\<lambda>c. c = CHR 0xC3 \<or> c = CHR 0xBC"
  have all: "list_all ?P (concat (replicate n u_umlaut))" by (induction n) simp_all
  have "list_all (\<lambda>r. r \<noteq> [] \<and> \<not> ?P (hd r)) space_runes" "list_all (\<lambda>r. r \<noteq> [] \<and> \<not> ?P (hd r)) (map rev space_runes)"
    by (simp_all add: space_runes_def)
  then show ?thesis using all by (simp add: TrimSpace_def trim_runes_none [of ?P])
qed

lemma clipped_umlauts:
  assumes "400 < n"
  shows "\<not> utf8_ok (clipWakeField (concat (replicate n u_umlaut)) 800)"
proof -
  have len: "length (concat (replicate k u_umlaut)) = 2 * k" for k by (induction k) simp_all
  obtain k where n: "n = 399 + Suc k" using assms less_imp_Suc_add [of 399 n] by auto
  have "concat (replicate n u_umlaut) = concat (replicate 399 u_umlaut) @ u_umlaut @ concat (replicate k u_umlaut)"
    unfolding n by (simp only: replicate_add concat_append replicate_Suc concat.simps)
  then have "take 799 (concat (replicate n u_umlaut)) = concat (replicate 399 u_umlaut) @ [CHR 0xC3]"
    by (simp add: take_append len)
  then have "clipWakeField (concat (replicate n u_umlaut)) 800 = concat (replicate 399 u_umlaut) @ [CHR 0xC3, CHR 0xE2, CHR 0x80, CHR 0xA6]"
    using len [of n] assms by (simp add: clipWakeField_def)
  moreover have "\<not> utf8_ok [CHR 0xC3, CHR 0xE2, CHR 0x80, CHR 0xA6]"
    by (subst utf8_ok.simps) (simp add: rune_len_def Let_def continues_def byte_of_def)
  ultimately show ?thesis using utf8_umlauts by simp
qed

lemma first_observation_outcome:
  assumes "BW_Register store clock now req T = (Inr (row, out), T')"
    and "latest_generation (SessionStorageKey (given_scope store (rb_SessionScope req)) (TrimSpace (rb_SessionID req))) (TrimSpace (rb_TaskID req)) T = None"
  shows "writes_texts out"
  using assms
  by (cases "insertGeneration store clock now req 1 T"; cases "fst (insertGeneration store clock now req 1 T)")
     (auto simp: BW_Register_def Let_def with_outcome_def writes_texts_def)

text \<open>
  clipping a report can lose it. The fields of an observation are cut at a byte, so that a valid UTF-8 text can end in
  half a rune, which the database refuses: a task that reports more than four hundred two-byte letters never
  gets its first wake, and its completion is never told.
\<close>

theorem clipped_report_is_lost:
  assumes "400 < n" "tb_Summary body = concat (replicate n u_umlaut)"
    and "latest_generation (SessionStorageKey (given_scope (store_scope (ap_scope ap)) (ap_scope ap)) (TrimSpace target))
           (TrimSpace (tb_TaskID body)) (wd_tasks d) = None"
  shows "utf8_ok (tb_Summary body) \<and> (\<exists>e. registerBackgroundTaskWake ap caller target body d = (Inl e, d))"
proof
  show "utf8_ok (tb_Summary body)" using utf8_umlauts [of n "[]"] by (simp add: assms(2) utf8_ok.simps [of "[]"])
  have bad: "\<not> list_all pg_text (request_texts (task_request ap sid email provider body))" for sid email provider
    using clipped_umlauts [OF assms(1)] by (simp add: request_texts_def task_request_def assms(2) trim_umlauts pg_text_def)
  have first: "writes_texts out"
    if "BW_Register (store_scope (ap_scope ap)) clock now (task_request ap (TrimSpace target) email provider body) (wd_tasks d) = (Inr (row, out), T')"
    for clock now email provider row out T'
    by (rule first_observation_outcome [OF that]) (use assms(3) in \<open>simp add: task_request_def\<close>)
  obtain callerID email where c: "caller = (callerID, email)" by (cases caller)
  show "\<exists>e. registerBackgroundTaskWake ap caller target body d = (Inl e, d)"
    unfolding registerBackgroundTaskWake_def c Let_def
    using bad by (auto split: sum.split option.split prod.split dest: first)
qed

theorem clipped_report_is_lost_witness:
  "\<exists>e. registerBackgroundTaskWake (sample_app half) (''7'', ''u@x'') ''7''
     \<lparr>tb_TaskID = ''bash_1'', tb_Status = [], tb_Description = [], tb_Summary = concat (replicate 401 u_umlaut), tb_LastToolName = [],
      tb_Error = [], tb_ObservedEventID = []\<rparr> (sample_desk parked []) = (Inl e, sample_desk parked [])"
  using clipped_report_is_lost [of 401 "\<lparr>tb_TaskID = ''bash_1'', tb_Status = [], tb_Description = [], tb_Summary = concat (replicate 401 u_umlaut),
      tb_LastToolName = [], tb_Error = [], tb_ObservedEventID = []\<rparr>" "sample_app half" "''7''" "sample_desk parked []" "(''7'', ''u@x'')"]
  by (simp add: sample_desk_def latest_generation_def)

end
