(* ===== verification/Turn_Pages.thy ===== *)
theory Turn_Pages
  imports Row_Writer
begin

text \<open>
  The reading of a turn for the browser (\<^verbatim>\<open>cmd/tank-operator/turn_pages.go\<close>, with the ordering of events and the field
  readers of \<^verbatim>\<open>transcript_projection.go\<close>): all events of a turn, the session start-up that the first turn adopts, and the
  pages into which the events of a turn are cut. A page belongs to an activity or to one question; the state of the
  cutting loop is the record \<open>page_cut\<close>, one event is \<open>cut_step\<close>.
\<close>

section \<open>Events in order\<close>

definition sequence_text :: "goany option \<Rightarrow> string" where
  "sequence_text v =
     (case v of Some (GFloat q) \<Rightarrow> int_dec (int64_of_float q) | Some (GInt64 n) \<Rightarrow> int_dec n | Some (GInt n) \<Rightarrow> int_dec n
      | Some (GStr s) \<Rightarrow> s | _ \<Rightarrow> [])"

definition transcriptEventSortKey :: "gomap \<Rightarrow> string" where
  "transcriptEventSortKey event =
     (let sep = [CHR 0x1F]; raw = sequence_text (mget event ''sequence''); seq = (if raw = [] then [] else pad0 12 raw)
      in trimmed_at event ''order_key'' @ sep @ trimmed_at event ''created_at'' @ sep @ seq @ sep @ trimmed_at event ''event_id'')"

definition orderedTranscriptEvents :: "gomap list \<Rightarrow> gomap list" where
  "orderedTranscriptEvents events = sort_by byte_le transcriptEventSortKey events"

definition transcriptPayload :: "gomap \<Rightarrow> gomap" where
  "transcriptPayload event = (case as_map (mget event ''payload'') of None \<Rightarrow> [] | Some m \<Rightarrow> m)"

definition transcriptPayloadString :: "gomap \<Rightarrow> string \<Rightarrow> string" where
  "transcriptPayloadString event key = trimmed_at (transcriptPayload event) key"

section \<open>The session start-up\<close>

definition firstEventOrderKey :: "gomap list \<Rightarrow> string" where
  "firstEventOrderKey events =
     fold (\<lambda>e best. let k = trimmed_at e ''order_key'' in if k = [] then best else if best = [] \<or> k < best then k else best) events []"

text \<open>The events to adopt, whether the scan stops, and whether an earlier turn owns the window.\<close>

fun scanLeadingLifecycle :: "gomap list \<Rightarrow> string \<Rightarrow> gomap list \<times> bool \<times> bool" where
  "scanLeadingLifecycle [] bound = ([], False, False)"
| "scanLeadingLifecycle (e # es) bound =
     (if bound \<le> trimmed_at e ''order_key'' then ([], True, False)
      else if trimmed_at e ''type'' = ''user_message.created'' then ([], True, True)
      else let (adopt, stop, prior) = scanLeadingLifecycle es bound
           in if prior then ([], stop, True)
              else if trimmed_at e ''type'' = ''session.status'' \<and> transcriptPayloadString e ''status'' \<in> {''loading'', ''ready''}
              then (e # adopt, stop, False) else (adopt, stop, False))"

text \<open>The loop over the pages of the session: \<open>Some None\<close> when an earlier turn owns the window.\<close>

partial_function (option) leading_lifecycle :: "(string \<Rightarrow> SessionEventPage) \<Rightarrow> string \<Rightarrow> string \<Rightarrow> gomap list option option" where
  "leading_lifecycle page bound cursor =
     (let p = page cursor; (adopt, stop, prior) = scanLeadingLifecycle (pg_Events p) bound
      in if prior then Some None
         else if stop \<or> last_page cursor p then Some (Some adopt)
         else Option.bind (leading_lifecycle page bound (pg_NextOrderKey p)) (\<lambda>rest. Some (map_option (\<lambda>r. adopt @ r) rest)))"

definition adoptLeadingSessionLifecycle ::
  "(string \<Rightarrow> string \<Rightarrow> bool) \<Rightarrow> string \<Rightarrow> ledger \<Rightarrow> string \<Rightarrow> gomap list \<Rightarrow> gomap list option" where
  "adoptLeadingSessionLifecycle le scope L sessionID turnEvents =
     (let bound = firstEventOrderKey turnEvents
      in if bound = [] then Some turnEvents
         else Option.bind
                (leading_lifecycle (\<lambda>c. listBySession le scope L sessionID (session_cursor c) turnPageReadBatch) bound [])
                (\<lambda>r. Some (case r of None \<Rightarrow> turnEvents | Some lifecycle \<Rightarrow> lifecycle @ turnEvents)))"

definition readAllTurnEvents ::
  "(string \<Rightarrow> string \<Rightarrow> bool) \<Rightarrow> string \<Rightarrow> ledger \<Rightarrow> string \<Rightarrow> string \<Rightarrow> gomap list option" where
  "readAllTurnEvents le scope L sessionID turnID =
     Option.bind (readAllTurnPages le scope L sessionID turnID) (adoptLeadingSessionLifecycle le scope L sessionID)"

section \<open>Pages of equal size\<close>

definition turnPageEventLimit :: nat where
  "turnPageEventLimit = 1000"

definition put_event :: "nat \<Rightarrow> 'a \<Rightarrow> 'a list list \<times> 'a list \<Rightarrow> 'a list list \<times> 'a list" where
  "put_event limit e st =
     (let (pages, current) = st
      in if length current \<ge> limit then (pages @ [current], [e]) else (pages, current @ [e]))"

definition cut_pages :: "nat \<Rightarrow> 'a list \<Rightarrow> 'a list list" where
  "cut_pages limit es =
     (let (pages, current) = fold (put_event limit) es ([], []) in if current = [] then pages else pages @ [current])"

definition splitTurnEventsIntoPages :: "gomap list \<Rightarrow> gomap list list" where
  "splitTurnEventsIntoPages events = cut_pages turnPageEventLimit (orderedTranscriptEvents events)"

section \<open>The events that cut a page\<close>

definition isTurnAwaitingInputEvent :: "gomap \<Rightarrow> bool" where
  "isTurnAwaitingInputEvent event \<longleftrightarrow> trimmed_at event ''type'' = ''turn.awaiting_input''"

definition isQuestionOnlyAwaitingInputEvent :: "gomap \<Rightarrow> bool" where
  "isQuestionOnlyAwaitingInputEvent event \<longleftrightarrow>
     (let turn = trimmed_at event ''turn_id''; asking = transcriptPayloadString event ''asking_turn_id''
      in isTurnAwaitingInputEvent event \<and> turn \<noteq> [] \<and> transcriptPayloadString event ''question_turn_id'' = turn \<and>
         asking \<noteq> [] \<and> asking \<noteq> turn)"

definition turnPageEventsHaveBody :: "gomap list \<Rightarrow> bool" where
  "turnPageEventsHaveBody events \<longleftrightarrow>
     (\<exists>e\<in>set events. trimmed_at e ''type'' \<notin> {''turn.submitted'', ''turn.claimed'', ''turn.started'', ''user_message.created''})"

definition awaitingInputInvocationEvent :: "gomap \<Rightarrow> gomap" where
  "awaitingInputInvocationEvent event = mset_key ''type'' (GStr ''turn.awaiting_input.invocation'') event"

definition projectionAwaitingInputQuestions :: "gomap \<Rightarrow> goany list" where
  "projectionAwaitingInputQuestions event =
     (case mget (transcriptPayload event) ''questions'' of Some (GAnys qs) \<Rightarrow> qs | _ \<Rightarrow> [])"

definition awaitingInputQuestionPageEvent :: "gomap \<Rightarrow> nat \<Rightarrow> nat \<Rightarrow> nat \<Rightarrow> gomap" where
  "awaitingInputQuestionPageEvent event index count qset =
     mset_key ''payload''
       (GMap (mset_key ''question_set'' (GInt (int qset))
               (mset_key ''question_count'' (GInt (int count))
                 (mset_key ''question_index'' (GInt (int index + 1)) (transcriptPayload event))))) event"

datatype page_kind = ActivityPage | QuestionPage

record turnEventPage =
  te_Kind :: page_kind
  te_Events :: "gomap list"
  te_QuestionIndex :: nat
  te_QuestionSet :: nat

definition awaitingInputQuestionPages :: "gomap \<Rightarrow> nat \<Rightarrow> turnEventPage list" where
  "awaitingInputQuestionPages event qset =
     (let n = length (projectionAwaitingInputQuestions event)
      in if n = 0 then [\<lparr>te_Kind = QuestionPage, te_Events = [event], te_QuestionIndex = 0, te_QuestionSet = qset\<rparr>]
         else map (\<lambda>i. \<lparr>te_Kind = QuestionPage, te_Events = [awaitingInputQuestionPageEvent event i n qset],
                        te_QuestionIndex = i + 1, te_QuestionSet = qset\<rparr>) [0..<n])"

definition awaitingInputTimelineID :: "gomap \<Rightarrow> string" where
  "awaitingInputTimelineID event =
     (if transcriptPayloadString event ''timeline_id'' \<noteq> [] then transcriptPayloadString event ''timeline_id''
      else trimmed_at event ''timeline_id'')"

definition isQuestionDismissalTerminal :: "gomap \<Rightarrow> string \<Rightarrow> bool" where
  "isQuestionDismissalTerminal event questionTurnID \<longleftrightarrow>
     questionTurnID \<noteq> [] \<and> trimmed_at event ''turn_id'' = questionTurnID \<and>
     trimmed_at event ''type'' \<in> {''turn.interrupted'', ''turn.failed'', ''turn.command_failed''}"

definition isQuestionInterruptRequested :: "gomap \<Rightarrow> string \<Rightarrow> bool" where
  "isQuestionInterruptRequested event questionTurnID \<longleftrightarrow>
     questionTurnID \<noteq> [] \<and> trimmed_at event ''turn_id'' = questionTurnID \<and> trimmed_at event ''type'' = ''turn.interrupt_requested''"

definition isTurnInputAnsweredForQuestion :: "gomap \<Rightarrow> string \<Rightarrow> bool" where
  "isTurnInputAnsweredForQuestion event questionTimelineID \<longleftrightarrow>
     trimmed_at event ''type'' = ''turn.input_answered'' \<and> questionTimelineID \<noteq> [] \<and>
     transcriptPayloadString event ''question_timeline_id'' = questionTimelineID"

section \<open>Pages of activities and questions\<close>

record page_cut =
  cut_pages_done :: "turnEventPage list"
  cut_current :: "gomap list"
  cut_pending :: "turnEventPage list"
  cut_timeline :: string
  cut_turn :: string
  cut_set :: nat

definition cut_start :: page_cut where
  "cut_start = \<lparr>cut_pages_done = [], cut_current = [], cut_pending = [], cut_timeline = [], cut_turn = [], cut_set = 0\<rparr>"

definition flush_page :: "page_cut \<Rightarrow> page_cut" where
  "flush_page st =
     (if cut_current st = [] then st
      else st\<lparr>cut_pages_done := cut_pages_done st @
                [\<lparr>te_Kind = ActivityPage, te_Events = cut_current st, te_QuestionIndex = 0, te_QuestionSet = 0\<rparr>],
              cut_current := []\<rparr>)"

definition flushPendingQuestionPages :: "gomap option \<Rightarrow> page_cut \<Rightarrow> page_cut" where
  "flushPendingQuestionPages answer st =
     (if cut_pending st = [] then st
      else st\<lparr>cut_pages_done := cut_pages_done st @
                map (\<lambda>p. case answer of None \<Rightarrow> p | Some a \<Rightarrow> p\<lparr>te_Events := te_Events p @ [a]\<rparr>) (cut_pending st),
              cut_pending := [], cut_timeline := [], cut_turn := []\<rparr>)"

definition open_questions :: "gomap \<Rightarrow> page_cut \<Rightarrow> page_cut" where
  "open_questions e st =
     (let st = (if isQuestionOnlyAwaitingInputEvent e
                then (if turnPageEventsHaveBody (cut_current st) then flush_page st else st\<lparr>cut_current := []\<rparr>)
                else flush_page (st\<lparr>cut_current := cut_current st @ [awaitingInputInvocationEvent e]\<rparr>))
      in st\<lparr>cut_set := cut_set st + 1, cut_pending := awaitingInputQuestionPages e (cut_set st + 1),
            cut_timeline := awaitingInputTimelineID e, cut_turn := trimmed_at e ''turn_id''\<rparr>)"

definition add_activity :: "gomap \<Rightarrow> page_cut \<Rightarrow> page_cut" where
  "add_activity e st =
     (let st = st\<lparr>cut_current := cut_current st @ [e]\<rparr>
      in if length (cut_current st) \<ge> turnPageEventLimit then flush_page st else st)"

definition cut_step :: "gomap \<Rightarrow> page_cut \<Rightarrow> page_cut" where
  "cut_step e st =
     (let pending = (cut_pending st \<noteq> [])
      in if pending \<and> (isTurnInputAnsweredForQuestion e (cut_timeline st) \<or> isQuestionDismissalTerminal e (cut_turn st))
         then flushPendingQuestionPages (Some e) st
         else if pending \<and> isQuestionInterruptRequested e (cut_turn st) then st
         else let st = flushPendingQuestionPages None st
              in if isTurnAwaitingInputEvent e then open_questions e st else add_activity e st)"

definition splitTurnEventsIntoSemanticPages :: "gomap list \<Rightarrow> turnEventPage list" where
  "splitTurnEventsIntoSemanticPages events =
     cut_pages_done (flushPendingQuestionPages None (flush_page (fold cut_step (orderedTranscriptEvents events) cut_start)))"

section \<open>The state of a page\<close>

definition turnPageStatusIsLive :: "string \<Rightarrow> bool" where
  "turnPageStatusIsLive status \<longleftrightarrow> status = ''active'' \<or> status = ''needs_input'' \<or> status = []"

text \<open>Page \<open>number\<close> of \<open>count\<close>, of a turn whose shell has the given status.\<close>

definition page_sealed :: "nat \<Rightarrow> nat \<Rightarrow> string \<Rightarrow> bool" where
  "page_sealed number count status \<longleftrightarrow> number < count \<or> \<not> turnPageStatusIsLive status"

definition transcriptNumeric :: "goany option \<Rightarrow> rat option" where
  "transcriptNumeric v =
     (case v of Some (GFloat q) \<Rightarrow> Some q | Some (GInt n) \<Rightarrow> Some (of_int n) | Some (GInt64 n) \<Rightarrow> Some (of_int n) | _ \<Rightarrow> None)"

record question_state =
  qs_Timeline :: string
  qs_Set :: int
  qs_Index :: int
  qs_Count :: nat
  qs_Answered :: bool

definition question_state_step :: "gomap \<Rightarrow> question_state \<Rightarrow> question_state" where
  "question_state_step e st =
     (if isTurnAwaitingInputEvent e
      then (let num = (\<lambda>key old. case transcriptNumeric (mget (transcriptPayload e) key) of None \<Rightarrow> old | Some q \<Rightarrow> int64_of_float q)
            in st\<lparr>qs_Timeline := awaitingInputTimelineID e, qs_Index := num ''question_index'' (qs_Index st),
                  qs_Set := num ''question_set'' (qs_Set st),
                  qs_Count := (case mget (transcriptPayload e) ''questions'' of Some (GAnys qs) \<Rightarrow> length qs | _ \<Rightarrow> qs_Count st)\<rparr>)
      else if isTurnInputAnsweredForQuestion e (qs_Timeline st) then st\<lparr>qs_Answered := True\<rparr> else st)"

definition turnPageQuestionSetState :: "turnEventPage \<Rightarrow> question_state" where
  "turnPageQuestionSetState page =
     fold question_state_step (orderedTranscriptEvents (te_Events page))
       \<lparr>qs_Timeline = [], qs_Set = int (te_QuestionSet page), qs_Index = int (te_QuestionIndex page), qs_Count = 0, qs_Answered = False\<rparr>"

text \<open>The page that the browser opens: the first unanswered question of a waiting turn, otherwise the last page.\<close>

definition defaultTurnActivityPageNumber :: "string \<Rightarrow> turnEventPage list \<Rightarrow> nat" where
  "defaultTurnActivityPageNumber status pages =
     (if status = ''needs_input''
      then (case find (\<lambda>i. te_Kind (pages ! i) = QuestionPage \<and> \<not> qs_Answered (turnPageQuestionSetState (pages ! i))) [0..<length pages] of
              Some i \<Rightarrow> i + 1 | None \<Rightarrow> length pages)
      else length pages)"

section \<open>The turn that asked a question\<close>

definition finalAnswerTimelineIDsFromPayload :: "gomap \<Rightarrow> string \<Rightarrow> string list" where
  "finalAnswerTimelineIDsFromPayload payload field =
     (case as_map (mget payload field) of
        None \<Rightarrow> []
      | Some raw \<Rightarrow>
          (case mget raw ''timeline_ids'' of
             Some (GAnys ids) \<Rightarrow>
               filter (\<lambda>s. s \<noteq> []) (map (\<lambda>v. TrimSpace (case as_string (Some v) of Some s \<Rightarrow> s | None \<Rightarrow> [])) ids)
           | _ \<Rightarrow> []))"

definition asks_for :: "string \<Rightarrow> gomap \<Rightarrow> bool" where
  "asks_for questionTurnID e \<longleftrightarrow>
     isQuestionOnlyAwaitingInputEvent e \<and> transcriptPayloadString e ''question_turn_id'' = questionTurnID \<and>
     transcriptPayloadString e ''asking_turn_id'' \<noteq> [] \<and> transcriptPayloadString e ''asking_turn_id'' \<noteq> questionTurnID"

definition askUserQuestionAskingTurnFinalAnswer :: "string \<Rightarrow> gomap list \<Rightarrow> string \<times> string list" where
  "askUserQuestionAskingTurnFinalAnswer questionTurnID events =
     (if questionTurnID = [] then ([], [])
      else case find (\<lambda>e. asks_for questionTurnID e \<and> finalAnswerTimelineIDsFromPayload (transcriptPayload e) ''asking_turn_final_answer'' \<noteq> [])
                  (orderedTranscriptEvents events) of
             None \<Rightarrow> ([], [])
           | Some e \<Rightarrow> (transcriptPayloadString e ''asking_turn_id'',
                        finalAnswerTimelineIDsFromPayload (transcriptPayload e) ''asking_turn_final_answer''))"

definition askUserQuestionAskingTurnID :: "string \<Rightarrow> gomap list \<Rightarrow> string" where
  "askUserQuestionAskingTurnID questionTurnID events =
     (if questionTurnID = [] then []
      else case find (asks_for questionTurnID) (orderedTranscriptEvents events) of
             None \<Rightarrow> [] | Some e \<Rightarrow> transcriptPayloadString e ''asking_turn_id'')"

definition questionFinalAnswerContextForTurnField :: string where
  "questionFinalAnswerContextForTurnField = ''_tank_question_final_answer_context_for_turn''"

definition questionPromptContextForTurnField :: string where
  "questionPromptContextForTurnField = ''_tank_question_prompt_context_for_turn''"

definition askingTurnFinalAnswerContextEvents :: "string \<Rightarrow> gomap list \<Rightarrow> gomap list \<Rightarrow> gomap list" where
  "askingTurnFinalAnswerContextEvents questionTurnID questionEvents askingEvents =
     (let ids = snd (askUserQuestionAskingTurnFinalAnswer questionTurnID questionEvents)
      in if questionTurnID = [] \<or> ids = [] then []
         else map (mset_key questionFinalAnswerContextForTurnField (GStr questionTurnID))
                (filter (\<lambda>e. trimmed_at e ''type'' = ''item.completed'' \<and> trimmed_at e ''actor'' = ''assistant'' \<and>
                             trimmed_at e ''timeline_id'' \<in> set ids) (orderedTranscriptEvents askingEvents)))"

definition askingTurnPromptContextEvents :: "string \<Rightarrow> gomap list \<Rightarrow> gomap list" where
  "askingTurnPromptContextEvents questionTurnID askingEvents =
     (if questionTurnID = [] then []
      else case find (\<lambda>e. trimmed_at e ''type'' = ''user_message.created'') (orderedTranscriptEvents askingEvents) of
             None \<Rightarrow> [] | Some e \<Rightarrow> [mset_key questionPromptContextForTurnField (GStr questionTurnID) e])"

definition eventIsQuestionFinalAnswerContextForTurn :: "gomap \<Rightarrow> string \<Rightarrow> bool" where
  "eventIsQuestionFinalAnswerContextForTurn event turnID \<longleftrightarrow>
     turnID \<noteq> [] \<and> trimmed_at event questionFinalAnswerContextForTurnField = turnID"

definition eventIsQuestionPromptContextForTurn :: "gomap \<Rightarrow> string \<Rightarrow> bool" where
  "eventIsQuestionPromptContextForTurn event turnID \<longleftrightarrow>
     turnID \<noteq> [] \<and> trimmed_at event questionPromptContextForTurnField = turnID"

definition ownTurnPageEvents :: "gomap list \<Rightarrow> string \<Rightarrow> gomap list" where
  "ownTurnPageEvents events turnID =
     filter (\<lambda>e. \<not> eventIsQuestionFinalAnswerContextForTurn e turnID \<and> \<not> eventIsQuestionPromptContextForTurn e turnID) events"

end
