(* ===== verification/Turn_Page_Facts.thy ===== *)
theory Turn_Page_Facts
  imports Turn_Pages
begin

text \<open>
  What the pages of a turn keep of its events, and what the reading of a turn returns. The invariant of the cutting loop is
  \<open>cut_ok\<close>; the loop over the session's start-up is resolved in the locale \<open>paged_read\<close> of the event store.
\<close>

section \<open>Pages of equal size\<close>

lemma put_event_pair: "put_event n e (ps, cs) = (if n \<le> length cs then (ps @ [cs], [e]) else (ps, cs @ [e]))"
  by (simp add: put_event_def)

lemma fold_put_event:
  assumes "fold (put_event n) es (ps, cs) = (pages, current)" "\<forall>p\<in>set ps. length p = n" "length cs \<le> n" "0 < n"
  shows "concat pages @ current = concat ps @ cs @ es \<and> (\<forall>p\<in>set pages. length p = n) \<and> length current \<le> n"
  using assms
proof (induction es arbitrary: ps cs)
  case (Cons e es)
  show ?case
  proof (cases "n \<le> length cs")
    case True
    then have "fold (put_event n) es (ps @ [cs], [e]) = (pages, current)" using Cons.prems(1) by (simp add: put_event_pair)
    from Cons.IH [OF this] show ?thesis using True Cons.prems(2-4) by auto
  next
    case False
    then have "fold (put_event n) es (ps, cs @ [e]) = (pages, current)" using Cons.prems(1) by (simp add: put_event_pair)
    from Cons.IH [OF this] show ?thesis using False Cons.prems(2-4) by auto
  qed
qed simp

lemma cut_pages_exact:
  assumes "0 < n"
  shows "concat (cut_pages n es) = es \<and> (\<forall>p\<in>set (cut_pages n es). length p \<le> n) \<and> (\<forall>p\<in>set (butlast (cut_pages n es)). length p = n)"
proof -
  obtain pages current where f: "fold (put_event n) es ([], []) = (pages, current)" by fastforce
  from fold_put_event [OF f _ _ assms] have "concat pages @ current = es" "\<forall>p\<in>set pages. length p = n" "length current \<le> n" by auto
  then show ?thesis by (auto simp: cut_pages_def f dest: in_set_butlastD)
qed

section \<open>The events that a page keeps\<close>

text \<open>The work of a turn: everything but its life cycle, its prompt and the events of a question.\<close>

definition work_event :: "gomap \<Rightarrow> bool" where
  "work_event e \<longleftrightarrow>
     trimmed_at e ''type'' \<notin> {''turn.submitted'', ''turn.claimed'', ''turn.started'', ''user_message.created'',
       ''turn.awaiting_input'', ''turn.awaiting_input.invocation'', ''turn.input_answered'', ''turn.interrupt_requested'',
       ''turn.interrupted'', ''turn.failed'', ''turn.command_failed''}"

definition page_ok :: "turnEventPage \<Rightarrow> bool" where
  "page_ok p \<longleftrightarrow> te_Events p \<noteq> [] \<and>
     (case te_Kind p of ActivityPage \<Rightarrow> length (te_Events p) \<le> turnPageEventLimit | QuestionPage \<Rightarrow> length (te_Events p) \<le> 2)"

definition question_page_ok :: "turnEventPage \<Rightarrow> bool" where
  "question_page_ok p \<longleftrightarrow> te_Kind p = QuestionPage \<and> length (te_Events p) = 1 \<and> filter work_event (te_Events p) = []"

abbreviation events_of :: "turnEventPage list \<Rightarrow> gomap list" where
  "events_of pages \<equiv> concat (map te_Events pages)"

definition cut_ok :: "gomap list \<Rightarrow> page_cut \<Rightarrow> bool" where
  "cut_ok seen st \<longleftrightarrow>
     filter work_event (events_of (cut_pages_done st) @ cut_current st) = filter work_event seen \<and>
     length (cut_current st) < turnPageEventLimit \<and> list_all page_ok (cut_pages_done st) \<and> list_all question_page_ok (cut_pending st)"

lemma limit_pos [simp]: "0 < turnPageEventLimit"
  by (simp add: turnPageEventLimit_def)

lemma invocation_no_work [simp]: "\<not> work_event (awaitingInputInvocationEvent e)"
proof -
  have "trimmed_at (awaitingInputInvocationEvent e) ''type'' = ''turn.awaiting_input.invocation''"
    unfolding awaitingInputInvocationEvent_def trimmed_at_def by simp (code_simp)
  then show ?thesis by (simp add: work_event_def)
qed

lemma question_event_type [simp]:
  "trimmed_at (awaitingInputQuestionPageEvent e i n q) ''type'' = trimmed_at e ''type''"
  by (simp add: awaitingInputQuestionPageEvent_def trimmed_at_def)

lemma question_pages_ok: "isTurnAwaitingInputEvent e \<Longrightarrow> list_all question_page_ok (awaitingInputQuestionPages e q)"
  by (auto simp: awaitingInputQuestionPages_def question_page_ok_def Let_def list_all_iff work_event_def isTurnAwaitingInputEvent_def)

lemma question_pages_work: "list_all question_page_ok ps \<Longrightarrow> filter work_event (events_of ps) = [] \<and> list_all page_ok ps"
  by (induction ps) (auto simp: question_page_ok_def page_ok_def)

lemma answered_pages_work:
  assumes "list_all question_page_ok ps" "\<not> work_event a"
  shows "filter work_event (events_of (map (\<lambda>p. p\<lparr>te_Events := te_Events p @ [a]\<rparr>) ps)) = [] \<and>
    list_all page_ok (map (\<lambda>p. p\<lparr>te_Events := te_Events p @ [a]\<rparr>) ps)"
  using assms by (induction ps) (auto simp: question_page_ok_def page_ok_def)

lemma flush_page_ok: "cut_ok seen st \<Longrightarrow> cut_ok seen (flush_page st)"
  by (auto simp: cut_ok_def flush_page_def page_ok_def)

lemma flush_pending_ok: "cut_ok seen st \<Longrightarrow> cut_current st = [] \<or> cut_pending st = [] \<Longrightarrow> cut_ok seen (flushPendingQuestionPages None st)"
  using question_pages_work [of "cut_pending st"] by (auto simp: cut_ok_def flushPendingQuestionPages_def)

lemma answer_pending_ok:
  "cut_ok seen st \<Longrightarrow> cut_current st = [] \<Longrightarrow> \<not> work_event a \<Longrightarrow> cut_ok seen (flushPendingQuestionPages (Some a) st)"
  using answered_pages_work [of "cut_pending st" a] by (auto simp: cut_ok_def flushPendingQuestionPages_def)

text \<open>While questions are pending, no activity is open.\<close>

definition one_open :: "page_cut \<Rightarrow> bool" where
  "one_open st \<longleftrightarrow> cut_current st = [] \<or> cut_pending st = []"

lemma flush_fields [simp]:
  "cut_current (flush_page st) = []" "cut_pending (flush_page st) = cut_pending st" "cut_set (flush_page st) = cut_set st"
  "cut_pending (flushPendingQuestionPages a st) = []" "cut_current (flushPendingQuestionPages a st) = cut_current st"
  by (simp_all add: flush_page_def flushPendingQuestionPages_def)

lemma no_body_no_work: "\<not> turnPageEventsHaveBody es \<Longrightarrow> filter work_event es = []"
  by (force simp: turnPageEventsHaveBody_def work_event_def filter_empty_conv)

lemma flush_long_ok:
  assumes "filter work_event (events_of (cut_pages_done st) @ cut_current st) = filter work_event seen"
    "length (cut_current st) \<le> turnPageEventLimit" "list_all page_ok (cut_pages_done st)" "list_all question_page_ok (cut_pending st)"
  shows "cut_ok seen (flush_page st)"
  using assms by (auto simp: cut_ok_def flush_page_def page_ok_def)

lemma open_questions_ok:
  assumes "cut_ok seen st" "isTurnAwaitingInputEvent e"
  shows "cut_ok (seen @ [e]) (open_questions e st)"
proof -
  have e: "\<not> work_event e" using assms(2) by (simp add: work_event_def isTurnAwaitingInputEvent_def)
  define st' where "st' = (if isQuestionOnlyAwaitingInputEvent e
      then (if turnPageEventsHaveBody (cut_current st) then flush_page st else st\<lparr>cut_current := []\<rparr>)
      else flush_page (st\<lparr>cut_current := cut_current st @ [awaitingInputInvocationEvent e]\<rparr>))"
  have "cut_ok seen (st\<lparr>cut_current := []\<rparr>)" if "\<not> turnPageEventsHaveBody (cut_current st)"
    using assms(1) no_body_no_work [OF that] by (simp add: cut_ok_def)
  moreover have "cut_ok seen (flush_page (st\<lparr>cut_current := cut_current st @ [awaitingInputInvocationEvent e]\<rparr>))"
    by (rule flush_long_ok) (use assms(1) in \<open>auto simp: cut_ok_def\<close>)
  ultimately have "cut_ok seen st'" using flush_page_ok [OF assms(1)] by (simp add: st'_def)
  then show ?thesis
    using e question_pages_ok [OF assms(2)] by (simp add: open_questions_def Let_def st'_def [symmetric] cut_ok_def)
qed

lemma open_questions_current [simp]: "cut_current (open_questions e st) = []"
  by (simp add: open_questions_def Let_def)

lemma add_activity_ok:
  assumes "cut_ok seen st" "cut_pending st = []"
  shows "cut_ok (seen @ [e]) (add_activity e st) \<and> cut_pending (add_activity e st) = []"
proof -
  let ?st = "st\<lparr>cut_current := cut_current st @ [e]\<rparr>"
  have w: "filter work_event (events_of (cut_pages_done ?st) @ cut_current ?st) = filter work_event (seen @ [e])"
    using assms(1) by (simp add: cut_ok_def)
  have "cut_ok (seen @ [e]) (flush_page ?st)" by (rule flush_long_ok [OF w]) (use assms in \<open>auto simp: cut_ok_def\<close>)
  moreover have "length (cut_current ?st) < turnPageEventLimit \<Longrightarrow> cut_ok (seen @ [e]) ?st"
    using assms w by (simp add: cut_ok_def)
  ultimately show ?thesis using assms(2) by (auto simp: add_activity_def Let_def)
qed

lemma cut_step_ok:
  assumes "cut_ok seen st" "one_open st"
  shows "cut_ok (seen @ [e]) (cut_step e st) \<and> one_open (cut_step e st)"
proof (cases "cut_pending st \<noteq> [] \<and> (isTurnInputAnsweredForQuestion e (cut_timeline st) \<or> isQuestionDismissalTerminal e (cut_turn st))")
  case True
  then have "\<not> work_event e"
    by (auto simp: work_event_def isTurnInputAnsweredForQuestion_def isQuestionDismissalTerminal_def)
  moreover have "cut_current st = []" using True assms(2) by (auto simp: one_open_def)
  ultimately show ?thesis
    using True answer_pending_ok [OF assms(1)] by (simp add: cut_step_def one_open_def cut_ok_def)
next
  case False
  show ?thesis
  proof (cases "cut_pending st \<noteq> [] \<and> isQuestionInterruptRequested e (cut_turn st)")
    case True
    then have "\<not> work_event e" by (simp add: work_event_def isQuestionInterruptRequested_def)
    moreover have "cut_step e st = st" using True False by (simp add: cut_step_def)
    ultimately show ?thesis using assms by (simp add: cut_ok_def)
  next
    case interrupt: False
    let ?st = "flushPendingQuestionPages None st"
    have ok: "cut_ok seen ?st" by (rule flush_pending_ok [OF assms(1)]) (use assms(2) in \<open>auto simp: one_open_def\<close>)
    have "cut_step e st = (if isTurnAwaitingInputEvent e then open_questions e ?st else add_activity e ?st)"
      using False interrupt by (auto simp: cut_step_def Let_def)
    then show ?thesis using open_questions_ok [OF ok] add_activity_ok [OF ok] by (simp add: one_open_def)
  qed
qed

lemma cut_all_ok:
  "cut_ok seen st \<Longrightarrow> one_open st \<Longrightarrow> cut_ok (seen @ es) (fold cut_step es st) \<and> one_open (fold cut_step es st)"
proof (induction es arbitrary: seen st)
  case (Cons e es)
  have step: "cut_ok (seen @ [e]) (cut_step e st)" "one_open (cut_step e st)" using cut_step_ok [OF Cons.prems] by auto
  show ?case using Cons.IH [OF step] by simp
qed simp

text \<open>
  the pages of a turn lose no work. Whatever the events of a turn are and in whatever order they are given, the pages
  show every event of its work exactly once and in the order of the ledger, no page is empty, an activity page holds at most
  1000 events and a question page at most the question and its outcome.
\<close>

theorem pages_keep_the_work:
  "filter work_event (concat (map te_Events (splitTurnEventsIntoSemanticPages es))) = filter work_event (orderedTranscriptEvents es) \<and>
   list_all page_ok (splitTurnEventsIntoSemanticPages es)"
proof -
  let ?es = "orderedTranscriptEvents es"
  have "cut_ok [] cut_start" "one_open cut_start" by (simp_all add: cut_ok_def cut_start_def one_open_def)
  from cut_all_ok [OF this, of ?es] have ok: "cut_ok ?es (fold cut_step ?es cut_start)" by simp
  have "cut_ok ?es (flushPendingQuestionPages None (flush_page (fold cut_step ?es cut_start)))"
    by (rule flush_pending_ok [OF flush_page_ok [OF ok]]) simp
  then show ?thesis by (simp add: cut_ok_def splitTurnEventsIntoSemanticPages_def)
qed

section \<open>Reading a turn\<close>

lemma scan_prior: "scanLeadingLifecycle es bound = (adopt, stop, True) \<Longrightarrow> adopt = [] \<and> stop"
  by (induction es arbitrary: adopt stop) (auto simp: Let_def split: prod.splits if_splits)

lemma scan_append:
  "scanLeadingLifecycle (xs @ ys) bound =
     (let (adopt, stop, prior) = scanLeadingLifecycle xs bound
      in if stop \<or> prior then (adopt, stop, prior)
         else let (adopt', stop', prior') = scanLeadingLifecycle ys bound
              in (if prior' then [] else adopt @ adopt', stop', prior'))"
  by (induction xs) (auto simp: Let_def dest: scan_prior split: prod.splits)

definition leading_events :: "gomap list \<Rightarrow> string \<Rightarrow> gomap list option" where
  "leading_events es bound =
     (let (adopt, stop, prior) = scanLeadingLifecycle es bound in if prior then None else Some adopt)"

lemma leading_events_append:
  "\<not> fst (snd (scanLeadingLifecycle xs bound)) \<Longrightarrow>
   leading_events (xs @ ys) bound = map_option (\<lambda>r. fst (scanLeadingLifecycle xs bound) @ r) (leading_events ys bound)"
  using scan_prior [of xs bound] by (auto simp: leading_events_def scan_append Let_def split: prod.splits)

lemma leading_events_stop:
  "fst (snd (scanLeadingLifecycle xs bound)) \<Longrightarrow> leading_events (xs @ ys) bound = leading_events xs bound"
  by (auto simp: leading_events_def scan_append Let_def split: prod.splits)

context paged_read begin

text \<open>The loop over the pages scans the whole session as one list.\<close>

lemma leading_from:
  assumes le: "collation le" and ok: "okL L" and lim: "0 < limit" "limit \<le> 1000"
    and split: "scan le scope L sid = pre @ post" and cur: "cursor = (if pre = [] then [] else row_cursor (last pre))"
  shows "leading_lifecycle (\<lambda>c. page le scope L sid c limit) bound cursor = Some (leading_events (map (row_doc sid) post) bound)"
  using split cur
proof (induction "length post" arbitrary: pre post cursor rule: less_induct)
  case less
  let ?n = "nat limit"
  let ?p = "page le scope L sid cursor limit"
  let ?first = "map (row_doc sid) (take ?n post)"
  note law = page_law [OF le ok lim less.prems]
  obtain adopt stop prior where s: "scanLeadingLifecycle ?first bound = (adopt, stop, prior)" by (metis prod_cases3)
  have whole: "map (row_doc sid) post = ?first @ map (row_doc sid) (drop ?n post)"
    by (metis append_take_drop_id map_append)
  show ?case
  proof (cases "prior \<or> stop")
    case True
    then have "fst (snd (scanLeadingLifecycle ?first bound))" using s scan_prior [of ?first bound adopt stop] by (cases prior) auto
    from leading_events_stop [OF this] whole have "leading_events (map (row_doc sid) post) bound = leading_events ?first bound" by simp
    then show ?thesis using law True s by (subst leading_lifecycle.simps) (auto simp: leading_events_def)
  next
    case go: False
    show ?thesis
    proof (cases "length post \<le> ?n")
      case True
      then show ?thesis using law s go by (subst leading_lifecycle.simps) (simp add: last_page_def leading_events_def)
    next
      case False
      note nxt = next_page [OF le ok lim less.prems False]
      have "leading_events (map (row_doc sid) post) bound = map_option (\<lambda>r. adopt @ r) (leading_events (map (row_doc sid) (drop ?n post)) bound)"
        using leading_events_append [of ?first bound "map (row_doc sid) (drop ?n post)"] s go whole by simp
      then show ?thesis
        using law nxt(1) less.hyps [OF nxt(4,2,3)] s go by (subst leading_lifecycle.simps) simp
    qed
  qed
qed

end

text \<open>What the start-up scan finds, as one pass over the events before the turn.\<close>

definition start_up_event :: "gomap \<Rightarrow> bool" where
  "start_up_event e \<longleftrightarrow> trimmed_at e ''type'' = ''session.status'' \<and> transcriptPayloadString e ''status'' \<in> {''loading'', ''ready''}"

definition user_message :: "gomap \<Rightarrow> bool" where
  "user_message e \<longleftrightarrow> trimmed_at e ''type'' = ''user_message.created''"

definition events_before :: "string \<Rightarrow> gomap list \<Rightarrow> gomap list" where
  "events_before bound es = takeWhile (\<lambda>e. trimmed_at e ''order_key'' < bound) es"

definition start_up_of :: "string \<Rightarrow> gomap list \<Rightarrow> gomap list" where
  "start_up_of bound session =
     (if bound = [] \<or> (\<exists>e\<in>set (events_before bound session). user_message e) then []
      else filter start_up_event (events_before bound session))"

lemma scan_spec:
  "leading_events es bound =
     (if \<exists>e\<in>set (events_before bound es). user_message e then None else Some (filter start_up_event (events_before bound es)))"
proof (induction es)
  case (Cons e es)
  then show ?case
    by (auto simp: leading_events_def events_before_def user_message_def start_up_event_def Let_def not_less not_le
        split: prod.splits if_splits)
qed (simp add: leading_events_def events_before_def)

lemma read_turn_events:
  assumes "collation le" "ledger_reach L" "tidy_keys L"
  shows "readAllTurnEvents le scope L sid turn =
    (let own = map (row_doc sid) (turn_scan turn le scope L sid); session = map (row_doc sid) (session_scan le scope L sid)
     in Some (start_up_of (firstEventOrderKey own) session @ own))"
proof -
  have ok: "ledger_ok L" using assms(2) by (rule reachable_ledger_ok)
  let ?own = "map (row_doc sid) (turn_scan turn le scope L sid)"
  let ?session = "map (row_doc sid) (session_scan le scope L sid)"
  let ?bound = "firstEventOrderKey ?own"
  have own: "readAllTurnPages le scope L sid turn = Some ?own"
    unfolding readAllTurnPages_def turnPageReadBatch_def by (rule turn_pages.read_pages_all [OF assms(1) ok]) simp_all
  have lead: "leading_lifecycle (\<lambda>c. listBySession le scope L sid (session_cursor c) turnPageReadBatch) ?bound [] =
      Some (leading_events ?session ?bound)"
    unfolding turnPageReadBatch_def by (rule session_pages.leading_from [where pre = "[]"]) (use assms(1,3) ok in auto)
  show ?thesis
    unfolding readAllTurnEvents_def own
    by (simp add: adoptLeadingSessionLifecycle_def lead scan_spec start_up_of_def Let_def)
qed

text \<open>
  C35: the paged reading of a turn equals its specification. On every reachable ledger whose keys are tidy and under every
  collation, the two loops over pages end, and the result is the start-up of the session (its \<^verbatim>\<open>loading\<close> and \<^verbatim>\<open>ready\<close>
  reports before the turn, and only when no user message precedes the turn) followed by all events of the turn in key order.
\<close>

theorem readAllTurnEvents_spec:
  assumes "collation le" "ledger_reach L" "tidy_keys L"
  shows "readAllTurnEvents le scope L sid turn =
    (let own = map (row_doc sid) (turn_scan turn le scope L sid); session = map (row_doc sid) (session_scan le scope L sid)
     in Some (start_up_of (firstEventOrderKey own) session @ own))"
  by (rule read_turn_events [OF assms])

theorem readAllTurnEvents_spec_witness:
  "readAllTurnEvents byte_le ''default'' sample_ledger ''s1'' ''t1'' =
    (let own = map (row_doc ''s1'') (turn_scan ''t1'' byte_le ''default'' sample_ledger ''s1'');
         session = map (row_doc ''s1'') (session_scan byte_le ''default'' sample_ledger ''s1'')
     in Some (start_up_of (firstEventOrderKey own) session @ own))"
  by (rule readAllTurnEvents_spec [OF bytewise.collation_axioms sample_ledger_reach sample_ledger_tidy])

section \<open>A sealed page that changes\<close>

lemma two_in_order: "byte_le (transcriptEventSortKey e) (transcriptEventSortKey a) \<Longrightarrow> orderedTranscriptEvents [e, a] = [e, a]"
  by (simp add: orderedTranscriptEvents_def sort_by_def)

lemma question_alone:
  assumes "isQuestionOnlyAwaitingInputEvent e"
  shows "cut_step e cut_start =
    cut_start\<lparr>cut_set := 1, cut_pending := awaitingInputQuestionPages e 1, cut_timeline := awaitingInputTimelineID e,
      cut_turn := trimmed_at e ''turn_id''\<rparr>"
  using assms
  by (simp add: cut_step_def cut_start_def flushPendingQuestionPages_def open_questions_def turnPageEventsHaveBody_def Let_def
      isQuestionOnlyAwaitingInputEvent_def)

lemma question_pages_nonempty: "awaitingInputQuestionPages e q \<noteq> []"
  by (simp add: awaitingInputQuestionPages_def Let_def)

lemma question_pages_alone:
  assumes "isQuestionOnlyAwaitingInputEvent e"
  shows "splitTurnEventsIntoSemanticPages [e] = awaitingInputQuestionPages e 1"
proof -
  have "orderedTranscriptEvents [e] = [e]" by (simp add: orderedTranscriptEvents_def sort_by_def)
  then show ?thesis
    by (simp add: splitTurnEventsIntoSemanticPages_def question_alone [OF assms])
      (simp add: flush_page_def flushPendingQuestionPages_def cut_start_def question_pages_nonempty)
qed

text \<open>
  a sealed page changes. The comment of \<^verbatim>\<open>turn_pages.go\<close> says that a sealed page is immutable and only the live last page
  changes. The answer to a set of several questions is appended to the page of every question of the set, so the first of
  them changes although it was sealed from the start.
\<close>

theorem sealed_question_page_changes:
  assumes "isQuestionOnlyAwaitingInputEvent e" "2 \<le> length (projectionAwaitingInputQuestions e)"
    and "byte_le (transcriptEventSortKey e) (transcriptEventSortKey a)"
    and "isTurnInputAnsweredForQuestion a (awaitingInputTimelineID e)"
  shows "page_sealed 1 (length (splitTurnEventsIntoSemanticPages [e])) status \<and>
    length (splitTurnEventsIntoSemanticPages [e, a]) = length (splitTurnEventsIntoSemanticPages [e]) \<and>
    te_Events (splitTurnEventsIntoSemanticPages [e, a] ! 0) = te_Events (splitTurnEventsIntoSemanticPages [e] ! 0) @ [a]"
proof -
  have n: "2 \<le> length (awaitingInputQuestionPages e 1)" using assms(2) by (auto simp: awaitingInputQuestionPages_def Let_def)
  have "splitTurnEventsIntoSemanticPages [e, a] = map (\<lambda>p. p\<lparr>te_Events := te_Events p @ [a]\<rparr>) (awaitingInputQuestionPages e 1)"
    using assms(4)
    by (simp add: splitTurnEventsIntoSemanticPages_def two_in_order [OF assms(3)] question_alone [OF assms(1)])
      (simp add: cut_step_def flush_page_def flushPendingQuestionPages_def cut_start_def question_pages_nonempty)
  then show ?thesis
    using n by (cases "awaitingInputQuestionPages e 1") (auto simp: question_pages_alone [OF assms(1)] page_sealed_def)
qed

definition sample_question :: gomap where
  "sample_question =
     [(''type'', GStr ''turn.awaiting_input''), (''order_key'', GStr ''1''), (''turn_id'', GStr ''q1''),
      (''payload'', GMap [(''timeline_id'', GStr ''line''), (''question_turn_id'', GStr ''q1''), (''asking_turn_id'', GStr ''t1''),
        (''questions'', GAnys [GStr ''a'', GStr ''b''])])]"

definition sample_answer :: gomap where
  "sample_answer =
     [(''type'', GStr ''turn.input_answered''), (''order_key'', GStr ''2''), (''turn_id'', GStr ''q1''),
      (''payload'', GMap [(''question_timeline_id'', GStr ''line'')])]"

theorem sealed_question_page_changes_witness:
  "te_Events (splitTurnEventsIntoSemanticPages [sample_question, sample_answer] ! 0) =
     te_Events (splitTurnEventsIntoSemanticPages [sample_question] ! 0) @ [sample_answer]"
proof -
  have "isQuestionOnlyAwaitingInputEvent sample_question" "2 \<le> length (projectionAwaitingInputQuestions sample_question)"
    "byte_le (transcriptEventSortKey sample_question) (transcriptEventSortKey sample_answer)"
    "isTurnInputAnsweredForQuestion sample_answer (awaitingInputTimelineID sample_question)"
    by code_simp+
  from sealed_question_page_changes [OF this, of "[]"] show ?thesis by simp
qed

end
