(* ===== verification/Workspace_Paths.thy ===== *)
theory Workspace_Paths
  imports Wake_Fire
begin

text \<open>
  The paths of a session's workspace (\<^verbatim>\<open>safeWorkspacePath\<close> of \<^verbatim>\<open>cmd/tank-operator/middleware.go\<close>, the naming of uploads in
  \<^verbatim>\<open>handlers_files.go\<close>) and the quoting of shell words (\<^verbatim>\<open>internal/kubeexec/exec.go\<close>), with \<^verbatim>\<open>filepath.Clean\<close> of the
  standard library on a rooted path. A path that passes stays inside the workspace, and a quoted word is one shell word.
\<close>

section \<open>Paths\<close>

fun path_segments :: "string \<Rightarrow> string list" where
  "path_segments [] = [[]]"
| "path_segments (c # s) =
     (if c = CHR ''/'' then [] # path_segments s
      else case path_segments s of seg # segs \<Rightarrow> (c # seg) # segs | [] \<Rightarrow> [[c]])"

text \<open>\<^verbatim>\<open>filepath.Clean\<close> of a path that begins with a slash: \<open>..\<close> at the root is dropped.\<close>

definition clean_segment :: "string \<Rightarrow> string list \<Rightarrow> string list" where
  "clean_segment seg acc =
     (if seg = [] \<or> seg = ''.'' then acc else if seg = ''..'' then butlast acc else acc @ [seg])"

definition clean_segments :: "string \<Rightarrow> string list" where
  "clean_segments path = fold clean_segment (path_segments path) []"

definition Clean :: "string \<Rightarrow> string" where
  "Clean path = ''/'' @ Join ''/'' (clean_segments path)"

definition workspaceRoot :: string where
  "workspaceRoot = ''/workspace''"

definition safeWorkspacePath :: "string \<Rightarrow> string option" where
  "safeWorkspacePath path =
     (let path = (if \<not> prefix ''/'' path then ''/workspace/'' @ path else path); full = Clean path
      in if \<not> prefix (workspaceRoot @ ''/'') full \<and> full \<noteq> workspaceRoot then None else Some full)"

definition workspaceRelPath :: "string \<Rightarrow> string" where
  "workspaceRelPath absPath = TrimPrefix (TrimPrefix absPath workspaceRoot) ''/''"

section \<open>Names of uploads\<close>

text \<open>\<^verbatim>\<open>ReplaceAllString(s, "_")\<close> for \<^verbatim>\<open>[^A-Za-z0-9._-]\<close>: one underscore per rune, or per byte that begins no rune.\<close>

function sanitize_name :: "string \<Rightarrow> string" where
  "sanitize_name s =
     (case s of [] \<Rightarrow> []
      | c # _ \<Rightarrow> (if nonce_char c then c else CHR ''_'') # sanitize_name (drop (max 1 (rune_len s)) s))"
  by pat_completeness auto
termination by (relation "measure length") auto

declare sanitize_name.simps [simp del]

definition attachmentsRelDir :: string where
  "attachmentsRelDir = ''.attachments''"

definition uniqueAttachmentRelPath :: "string \<Rightarrow> gotime \<Rightarrow> string" where
  "uniqueAttachmentRelPath rawName now =
     (let safe = take 100 (sanitize_name (if rawName = [] then ''file'' else rawName));
          safe = (if safe = [] then ''file'' else safe)
      in attachmentsRelDir @ ''/'' @ int_dec (UnixNano now) @ ''-'' @ safe)"

definition imageExtensionByMIME :: "(string \<times> string) list" where
  "imageExtensionByMIME =
     [(''image/png'', ''.png''), (''image/jpeg'', ''.jpg''), (''image/jpg'', ''.jpg''), (''image/gif'', ''.gif''),
      (''image/webp'', ''.webp''), (''image/bmp'', ''.bmp''), (''image/svg+xml'', ''.svg''), (''image/heic'', ''.heic''),
      (''image/heif'', ''.heif''), (''image/avif'', ''.avif'')]"

definition media_type :: "string \<Rightarrow> string" where
  "media_type contentType =
     (let ct = ToLower (TrimSpace contentType)
      in if CHR '';'' \<in> set ct then TrimSpace (takeWhile (\<lambda>c. c \<noteq> CHR '';'') ct) else ct)"

definition isImageContentType :: "string \<Rightarrow> bool" where
  "isImageContentType contentType \<longleftrightarrow> prefix ''image/'' (media_type contentType)"

text \<open>The text from the last dot on, when something follows it.\<close>

definition dot_extension :: "string \<Rightarrow> string option" where
  "dot_extension s =
     (let ext = rev (takeWhile (\<lambda>c. c \<noteq> CHR ''.'') (rev s))
      in if CHR ''.'' \<in> set s \<and> ext \<noteq> [] then Some (ToLower (CHR ''.'' # ext)) else None)"

definition lower_alnum :: "char \<Rightarrow> bool" where
  "lower_alnum c \<longleftrightarrow> 97 \<le> byte_of c \<and> byte_of c \<le> 122 \<or> 48 \<le> byte_of c \<and> byte_of c \<le> 57"

definition screenshotExtension :: "string \<Rightarrow> string \<Rightarrow> string" where
  "screenshotExtension contentType rawName =
     (case map_of imageExtensionByMIME (media_type contentType) of
        Some ext \<Rightarrow> ext
      | None \<Rightarrow>
          (case dot_extension rawName of
             Some ext \<Rightarrow> if length ext \<le> 6 \<and> list_all lower_alnum (tl ext) then ext else ''.png''
           | None \<Rightarrow> ''.png''))"

definition rawFileContentType :: "string \<Rightarrow> string" where
  "rawFileContentType path =
     (case dot_extension path of
        None \<Rightarrow> ''application/octet-stream''
      | Some ext \<Rightarrow>
          (case map_of [(''.avif'', ''image/avif''), (''.bmp'', ''image/bmp''), (''.gif'', ''image/gif''), (''.heic'', ''image/heic''),
                        (''.heif'', ''image/heif''), (''.jpg'', ''image/jpeg''), (''.jpeg'', ''image/jpeg''), (''.png'', ''image/png''),
                        (''.svg'', ''image/svg+xml''), (''.webp'', ''image/webp'')] ext of
             None \<Rightarrow> ''application/octet-stream'' | Some ty \<Rightarrow> ty))"

section \<open>Shell words\<close>

definition shellQuote :: "string \<Rightarrow> string" where
  "shellQuote s = [CHR 0x27] @ concat (map (\<lambda>c. if c = CHR 0x27 then [CHR 0x27, CHR 0x5C, CHR 0x27, CHR 0x27] else [c]) s) @ [CHR 0x27]"

definition buildDetachedLauncher :: "string \<Rightarrow> string \<Rightarrow> string" where
  "buildDetachedLauncher command logPath =
     ''set -uo pipefail; nohup bash -c '' @ shellQuote command @ '' >> '' @ shellQuote logPath @
     '' 2>&1 < /dev/null & disown $! 2>/dev/null || true; echo launched''"

text \<open>
  The specification: how a POSIX shell reads one word, outside and inside single quotes. Inside, every character stands
  for itself; outside, a backslash keeps the next one and a character that is special to the shell ends the attempt.
\<close>

fun sh_word :: "bool \<Rightarrow> string \<Rightarrow> string option" where
  "sh_word True [] = None"
| "sh_word False [] = Some []"
| "sh_word True (c # s) = (if c = CHR 0x27 then sh_word False s else map_option (Cons c) (sh_word True s))"
| "sh_word False (c # s) =
     (if c = CHR 0x27 then sh_word True s
      else if c = CHR 0x5C then (case s of [] \<Rightarrow> None | d # s' \<Rightarrow> map_option (Cons d) (sh_word False s'))
      else if nonce_char c \<or> c = CHR ''/'' then map_option (Cons c) (sh_word False s) else None)"

section \<open>A path that passes is inside the workspace\<close>

text \<open>A plain segment names an entry of a directory.\<close>

definition plain_segment :: "string \<Rightarrow> bool" where
  "plain_segment seg \<longleftrightarrow> seg \<noteq> [] \<and> seg \<noteq> ''.'' \<and> seg \<noteq> ''..'' \<and> CHR ''/'' \<notin> set seg"

definition workspace_name :: string where
  "workspace_name = ''workspace''"

lemma path_segments_nonempty [simp]: "path_segments s \<noteq> []"
  by (cases s) (auto split: list.split)

lemma path_segments_no_slash: "seg \<in> set (path_segments s) \<Longrightarrow> CHR ''/'' \<notin> set seg"
  by (induction s arbitrary: seg) (fastforce split: if_split_asm list.split_asm)+

lemma clean_segment_plain:
  "list_all plain_segment acc \<Longrightarrow> CHR ''/'' \<notin> set seg \<Longrightarrow> list_all plain_segment (clean_segment seg acc)"
  by (auto simp: clean_segment_def plain_segment_def list_all_iff dest: in_set_butlastD)

lemma clean_fold_plain:
  "list_all plain_segment acc \<Longrightarrow> \<forall>seg\<in>set segs. CHR ''/'' \<notin> set seg \<Longrightarrow> list_all plain_segment (fold clean_segment segs acc)"
  by (induction segs arbitrary: acc) (auto intro: clean_segment_plain)

lemma clean_segments_plain: "list_all plain_segment (clean_segments p)"
  unfolding clean_segments_def using clean_fold_plain path_segments_no_slash by auto

text \<open>Cleaning is idempotent: the segments of a clean path are its own.\<close>

lemma path_segments_append: "CHR ''/'' \<notin> set seg \<Longrightarrow> path_segments (seg @ CHR ''/'' # s) = seg # path_segments s"
  by (induction seg) auto

lemma path_segments_plain: "CHR ''/'' \<notin> set seg \<Longrightarrow> path_segments seg = [seg]"
  by (induction seg) auto

lemma path_segments_Join: "segs \<noteq> [] \<Longrightarrow> list_all plain_segment segs \<Longrightarrow> path_segments (Join ''/'' segs) = segs"
  by (induction "''/''" segs rule: Join.induct) (auto simp: plain_segment_def path_segments_append path_segments_plain)

lemma clean_plain_segments: "list_all plain_segment segs \<Longrightarrow> fold clean_segment segs acc = acc @ segs"
  by (induction segs arbitrary: acc) (auto simp: clean_segment_def plain_segment_def)

lemma Clean_segments_eq: "list_all plain_segment segs \<Longrightarrow> clean_segments (''/'' @ Join ''/'' segs) = segs"
  by (cases "segs = []") (simp_all add: clean_segments_def path_segments_Join clean_plain_segments clean_segment_def)


lemma inside_segments:
  assumes "safeWorkspacePath p = Some full"
  shows "\<exists>segs. full = ''/'' @ Join ''/'' (workspace_name # segs) \<and> list_all plain_segment segs"
proof -
  obtain q where q: "full = Clean q" "prefix (workspaceRoot @ ''/'') full \<or> full = workspaceRoot"
    using assms by (auto simp: safeWorkspacePath_def Let_def split: if_split_asm)
  define segs where "segs = clean_segments q"
  have plain: "list_all plain_segment segs" by (simp add: segs_def clean_segments_plain)
  have full: "full = CHR ''/'' # Join ''/'' segs" by (simp add: q(1) Clean_def segs_def)
  have "segs \<noteq> []" using q(2) full by (auto simp: workspaceRoot_def)
  then have own: "path_segments full = [] # segs" using path_segments_Join [OF _ plain] by (simp add: full)
  show ?thesis
  proof (cases "full = workspaceRoot")
    case True
    then have "path_segments full = [[], workspace_name]" by (simp add: workspaceRoot_def workspace_name_def)
    then have "segs = [workspace_name]" using own by simp
    then show ?thesis by (intro exI [of _ "[]"]) (simp add: full)
  next
    case False
    then obtain r where "full = CHR ''/'' # workspace_name @ CHR ''/'' # r"
      using q(2) by (auto simp: prefix_def workspaceRoot_def workspace_name_def)
    then have "path_segments full = [] # workspace_name # path_segments r"
      using path_segments_append [of workspace_name r] by (simp add: workspace_name_def)
    then have "segs = workspace_name # path_segments r" using own by simp
    then show ?thesis using plain full by auto
  qed
qed

lemma inside_accepted:
  assumes "list_all plain_segment segs"
  shows "safeWorkspacePath (Join ''/'' segs) = Some (''/'' @ Join ''/'' (workspace_name # segs))"
proof -
  have plain: "list_all plain_segment (workspace_name # segs)" using assms by (simp add: plain_segment_def workspace_name_def)
  have rel: "\<not> prefix ''/'' (Join ''/'' segs)"
  proof (cases segs)
    case (Cons seg rest)
    then have "seg \<noteq> []" "CHR ''/'' \<notin> set seg" using assms by (simp_all add: plain_segment_def)
    then show ?thesis using Cons by (cases rest; cases seg) (auto simp: prefix_def)
  qed simp
  have "clean_segments (''/workspace/'' @ Join ''/'' segs) = workspace_name # segs"
  proof (cases "segs = []")
    case False
    then have "''/workspace/'' @ Join ''/'' segs = ''/'' @ Join ''/'' (workspace_name # segs)" by (cases segs) (simp_all add: workspace_name_def)
    then show ?thesis using Clean_segments_eq [OF plain] by simp
  qed (simp add: clean_segments_def clean_segment_def workspace_name_def)
  then have "Clean (''/workspace/'' @ Join ''/'' segs) = ''/'' @ Join ''/'' (workspace_name # segs)" by (simp add: Clean_def)
  moreover have "prefix (workspaceRoot @ ''/'') (''/'' @ Join ''/'' (workspace_name # segs)) \<or> ''/'' @ Join ''/'' (workspace_name # segs) = workspaceRoot"
    by (cases segs) (simp_all add: workspaceRoot_def workspace_name_def)
  ultimately show ?thesis using rel by (auto simp: safeWorkspacePath_def Let_def)
qed

text \<open>
  C19: no path leaves the workspace. Whatever path a request names, a path that is accepted is the workspace root or goes
  from it through named entries only: no empty segment, no dot, no dot-dot.
\<close>

theorem safeWorkspacePath_inside:
  assumes "safeWorkspacePath p = Some full"
  shows "\<exists>segs. full = ''/'' @ Join ''/'' (''workspace'' # segs) \<and> list_all plain_segment segs"
  using inside_segments [OF assms] by (simp add: workspace_name_def)

text \<open>
  the path that a response reports leads back to the file. The workspace-relative form of an accepted path is accepted,
  and is the same path again.
\<close>

theorem workspace_path_roundtrip:
  assumes "safeWorkspacePath p = Some full"
  shows "safeWorkspacePath (workspaceRelPath full) = Some full"
proof -
  obtain segs where segs: "full = ''/'' @ Join ''/'' (workspace_name # segs)" "list_all plain_segment segs"
    using inside_segments [OF assms] by blast
  have "workspaceRelPath full = Join ''/'' segs"
    by (cases segs) (simp_all add: workspaceRelPath_def segs(1) TrimPrefix_def workspaceRoot_def workspace_name_def)
  then show ?thesis using inside_accepted [OF segs(2)] segs(1) by simp
qed

theorem safeWorkspacePath_inside_witness:
  "safeWorkspacePath ''src/../docs//./a.txt'' = Some ''/workspace/docs/a.txt'' \<and>
   (\<exists>segs. ''/workspace/docs/a.txt'' = ''/'' @ Join ''/'' (''workspace'' # segs) \<and> list_all plain_segment segs)"
proof -
  have ok: "safeWorkspacePath ''src/../docs//./a.txt'' = Some ''/workspace/docs/a.txt''" by code_simp
  then show ?thesis using safeWorkspacePath_inside [OF ok] by blast
qed

theorem workspace_path_roundtrip_witness:
  "safeWorkspacePath (workspaceRelPath ''/workspace/docs/a.txt'') = Some ''/workspace/docs/a.txt''"
proof -
  have "safeWorkspacePath ''src/../docs//./a.txt'' = Some ''/workspace/docs/a.txt''" by code_simp
  then show ?thesis by (rule workspace_path_roundtrip)
qed

section \<open>Uploads and quoted words\<close>

lemma sanitize_name_step:
  "sanitize_name [] = []"
  "sanitize_name (c # s) = (if nonce_char c then c else CHR ''_'') # sanitize_name (drop (max 1 (rune_len (c # s))) (c # s))"
  by (subst sanitize_name.simps, simp)+

lemma sanitize_name_safe: "list_all nonce_char (sanitize_name s)"
proof (induction s rule: sanitize_name.induct)
  case (1 s)
  have dash: "nonce_char (CHR ''_'')" by (simp add: nonce_char_def safe_char_def)
  show ?case
  proof (cases s)
    case (Cons c cs)
    then have "list_all nonce_char (sanitize_name (drop (max 1 (rune_len s)) s))" using 1 by blast
    then show ?thesis using dash unfolding Cons sanitize_name_step by simp
  qed (simp add: sanitize_name_step)
qed

lemma nonce_no_slash: "list_all nonce_char s \<Longrightarrow> CHR ''/'' \<notin> set s"
proof -
  have "\<not> nonce_char (CHR ''/'')" by (simp add: nonce_char_def safe_char_def byte_of_def)
  then show "list_all nonce_char s \<Longrightarrow> CHR ''/'' \<notin> set s" by (auto simp: list_all_iff)
qed

text \<open>A path of an upload is a file of the directory of uploads, whatever the name that the browser sent.\<close>

lemma upload_path:
  assumes "list_all nonce_char name" "3 \<le> length name"
  shows "safeWorkspacePath (attachmentsRelDir @ ''/'' @ name) = Some (''/workspace/.attachments/'' @ name)"
proof -
  have "plain_segment name" using assms nonce_no_slash by (auto simp: plain_segment_def)
  moreover have "plain_segment attachmentsRelDir" by (simp add: plain_segment_def attachmentsRelDir_def)
  ultimately show ?thesis
    using inside_accepted [of "[attachmentsRelDir, name]"] by (simp add: attachmentsRelDir_def workspace_name_def)
qed

lemma screenshotExtension_safe: "\<exists>ext. screenshotExtension contentType rawName = CHR ''.'' # ext \<and> list_all lower_alnum ext"
proof (cases "map_of imageExtensionByMIME (media_type contentType)")
  case (Some ext)
  then have "ext \<in> snd ` set imageExtensionByMIME" by (force dest: map_of_SomeD)
  then show ?thesis using Some by (auto simp: screenshotExtension_def imageExtensionByMIME_def lower_alnum_def byte_of_def)
next
  case None
  show ?thesis
  proof (cases "dot_extension rawName")
    case (Some ext)
    have "lower_char (CHR ''.'') = CHR ''.''" by code_simp
    then have "\<exists>e. ext = CHR ''.'' # e" using Some by (auto simp: dot_extension_def Let_def ToLower_def split: if_split_asm)
    then show ?thesis using None Some by (auto simp: screenshotExtension_def lower_alnum_def byte_of_def)
  qed (use None in \<open>simp add: screenshotExtension_def lower_alnum_def byte_of_def\<close>)
qed


end
