(* ===== verification/Launch_Store.thy ===== *)
theory Launch_Store
  imports Workspace_Paths
begin

text \<open>
  The durable launch queue (\<^verbatim>\<open>internal/pgstore/pending_launch.go\<close>): a launch waits for the bytes of its attachments, is claimed by a
  dispatcher once its pod is active, and is dispatched or fails. The store holds the launches and the staged bytes; a
  statement on both is one transaction. Statements run at \<open>clock\<close>; \<open>locked\<close> tells the rows that another transaction holds.
\<close>

section \<open>Tables\<close>

datatype PendingLaunchStatus = PendingLaunchAwaitingBytes | PendingLaunchReady | PendingLaunchClaiming | PendingLaunchDispatched | PendingLaunchFailed

fun launch_wire :: "PendingLaunchStatus \<Rightarrow> string" where
  "launch_wire PendingLaunchAwaitingBytes = ''awaiting_bytes''"
| "launch_wire PendingLaunchReady = ''ready''"
| "launch_wire PendingLaunchClaiming = ''claiming''"
| "launch_wire PendingLaunchDispatched = ''dispatched''"
| "launch_wire PendingLaunchFailed = ''failed''"

record PendingLaunchTurn =
  lt_TankSessionID :: string
  lt_TurnID :: string
  lt_SessionScope :: string
  lt_SessionID :: string
  lt_ClientNonce :: string
  lt_OwnerEmail :: string
  lt_Runtime :: string
  lt_SkillName :: string
  lt_BasePrompt :: string
  lt_DisplayText :: string
  lt_Model :: string
  lt_Effort :: string
  lt_AttachmentCount :: int
  lt_Status :: PendingLaunchStatus
  lt_AttemptCount :: int
  lt_LastError :: string
  lt_DispatchedTurnID :: string
  lt_CreatedAt :: int
  lt_locked_at :: "int option"
  lt_updated_at :: int
  lt_dispatched_at :: "int option"

record RegisterPendingLaunchRequest =
  rl_SessionScope :: string
  rl_SessionID :: string
  rl_TurnID :: string
  rl_ClientNonce :: string
  rl_OwnerEmail :: string
  rl_Runtime :: string
  rl_SkillName :: string
  rl_BasePrompt :: string
  rl_DisplayText :: string
  rl_Model :: string
  rl_Effort :: string
  rl_AttachmentCount :: int

record LaunchAttachmentBlob =
  lb_Ordinal :: int
  lb_Name :: string
  lb_ContentType :: string
  lb_Size :: int
  lb_Bytes :: string

type_synonym launch_key = "string \<times> string"

record launch_db =
  ld_launches :: "PendingLaunchTurn list"
  ld_blobs :: "(launch_key \<times> LaunchAttachmentBlob) list"

datatype launch_error = LaunchKeyRequired | PendingLaunchNotFound | PendingLaunchNotAcceptingBytes

definition launch_key :: "PendingLaunchTurn \<Rightarrow> launch_key" where
  "launch_key r = (lt_TankSessionID r, lt_TurnID r)"

definition find_launch :: "launch_key \<Rightarrow> PendingLaunchTurn list \<Rightarrow> PendingLaunchTurn option" where
  "find_launch k T = find (\<lambda>r. launch_key r = k) T"

definition update_launches :: "(PendingLaunchTurn \<Rightarrow> bool) \<Rightarrow> (PendingLaunchTurn \<Rightarrow> PendingLaunchTurn) \<Rightarrow> launch_db \<Rightarrow> launch_db" where
  "update_launches p f db = db\<lparr>ld_launches := map (\<lambda>r. if p r then f r else r) (ld_launches db)\<rparr>"

definition trim_key :: "string \<Rightarrow> string \<Rightarrow> launch_key" where
  "trim_key tankSessionID turnID = (TrimSpace tankSessionID, TrimSpace turnID)"

section \<open>Registration\<close>

definition requested_launch :: "string \<Rightarrow> int \<Rightarrow> RegisterPendingLaunchRequest \<Rightarrow> PendingLaunchTurn" where
  "requested_launch store clock req =
     (let scope = (if TrimSpace (rl_SessionScope req) = [] then store else TrimSpace (rl_SessionScope req));
          sessionID = TrimSpace (rl_SessionID req); count = (if rl_AttachmentCount req < 0 then 0 else rl_AttachmentCount req)
      in \<lparr>lt_TankSessionID = SessionStorageKey scope sessionID, lt_TurnID = TrimSpace (rl_TurnID req), lt_SessionScope = scope,
          lt_SessionID = sessionID, lt_ClientNonce = TrimSpace (rl_ClientNonce req), lt_OwnerEmail = ToLower (TrimSpace (rl_OwnerEmail req)),
          lt_Runtime = TrimSpace (rl_Runtime req), lt_SkillName = TrimSpace (rl_SkillName req), lt_BasePrompt = rl_BasePrompt req,
          lt_DisplayText = rl_DisplayText req, lt_Model = TrimSpace (rl_Model req), lt_Effort = TrimSpace (rl_Effort req),
          lt_AttachmentCount = count,
          lt_Status = (if count = 0 then PendingLaunchReady else PendingLaunchAwaitingBytes), lt_AttemptCount = 0, lt_LastError = [],
          lt_DispatchedTurnID = [], lt_CreatedAt = clock, lt_locked_at = None, lt_updated_at = clock, lt_dispatched_at = None\<rparr>)"

definition launch_Register ::
  "string \<Rightarrow> int \<Rightarrow> RegisterPendingLaunchRequest \<Rightarrow> launch_db \<Rightarrow> (launch_error + PendingLaunchTurn) \<times> launch_db" where
  "launch_Register store clock req db =
     (if TrimSpace (rl_SessionID req) = [] \<or> TrimSpace (rl_TurnID req) = [] then (Inl LaunchKeyRequired, db)
      else let row = requested_launch store clock req
           in case find_launch (launch_key row) (ld_launches db) of
                Some r \<Rightarrow> (Inr r, db)
              | None \<Rightarrow> (Inr row, db\<lparr>ld_launches := ld_launches db @ [row]\<rparr>))"

section \<open>Staging bytes\<close>

text \<open>\<^verbatim>\<open>ON CONFLICT (tank_session_id, turn_id, ordinal) DO UPDATE\<close>\<close>

definition put_blob :: "launch_key \<Rightarrow> LaunchAttachmentBlob \<Rightarrow> (launch_key \<times> LaunchAttachmentBlob) list \<Rightarrow> (launch_key \<times> LaunchAttachmentBlob) list" where
  "put_blob k b bs =
     (if \<exists>(k', b')\<in>set bs. k' = k \<and> lb_Ordinal b' = lb_Ordinal b
      then map (\<lambda>(k', b'). if k' = k \<and> lb_Ordinal b' = lb_Ordinal b then (k, b) else (k', b')) bs else bs @ [(k, b)])"

definition blobs_of :: "launch_key \<Rightarrow> launch_db \<Rightarrow> LaunchAttachmentBlob list" where
  "blobs_of k db = map snd (filter (\<lambda>(k', _). k' = k) (ld_blobs db))"

definition StageAttachment ::
  "int \<Rightarrow> string \<Rightarrow> string \<Rightarrow> LaunchAttachmentBlob \<Rightarrow> launch_db \<Rightarrow> (launch_error + PendingLaunchStatus) \<times> launch_db" where
  "StageAttachment clock tankSessionID turnID blob db =
     (let k = trim_key tankSessionID turnID
      in if fst k = [] \<or> snd k = [] then (Inl LaunchKeyRequired, db)
         else case find_launch k (ld_launches db) of
           None \<Rightarrow> (Inl PendingLaunchNotFound, db)
         | Some r \<Rightarrow>
             if lt_Status r \<notin> {PendingLaunchAwaitingBytes, PendingLaunchReady} then (Inl PendingLaunchNotAcceptingBytes, db)
             else let blob = blob\<lparr>lb_Name := TrimSpace (lb_Name blob), lb_ContentType := TrimSpace (lb_ContentType blob)\<rparr>;
                      db = db\<lparr>ld_blobs := put_blob k blob (ld_blobs db)\<rparr>
                  in if int (length (blobs_of k db)) \<ge> lt_AttachmentCount r
                     then (Inr PendingLaunchReady,
                           update_launches (\<lambda>r. launch_key r = k \<and> lt_Status r = PendingLaunchAwaitingBytes)
                             (\<lambda>r. r\<lparr>lt_Status := PendingLaunchReady, lt_updated_at := clock\<rparr>) db)
                     else (Inr (lt_Status r), db))"

section \<open>Claiming\<close>

definition session_active :: "sessions_db \<Rightarrow> PendingLaunchTurn \<Rightarrow> bool" where
  "session_active sdb r \<longleftrightarrow>
     (case find_session sdb (lt_OwnerEmail r) (lt_SessionScope r) (lt_SessionID r) of
        None \<Rightarrow> False | Some s \<Rightarrow> sr_status s = ''Active'' \<and> sr_terminating_at s = None)"

definition launch_claimable :: "sessions_db \<Rightarrow> string \<Rightarrow> int \<Rightarrow> int \<Rightarrow> PendingLaunchTurn \<Rightarrow> bool" where
  "launch_claimable sdb scope now stale r \<longleftrightarrow>
     lt_SessionScope r = scope \<and> session_active sdb r \<and>
     (lt_Status r = PendingLaunchReady \<or>
      lt_Status r = PendingLaunchClaiming \<and> (case lt_locked_at r of None \<Rightarrow> False | Some t \<Rightarrow> t < now - stale))"

definition claimed_launch :: "int \<Rightarrow> int \<Rightarrow> PendingLaunchTurn \<Rightarrow> PendingLaunchTurn" where
  "claimed_launch clock now r =
     r\<lparr>lt_Status := PendingLaunchClaiming, lt_AttemptCount := lt_AttemptCount r + 1, lt_locked_at := Some now, lt_updated_at := clock\<rparr>"

definition claim_keys :: "sessions_db \<Rightarrow> string \<Rightarrow> (launch_key \<Rightarrow> bool) \<Rightarrow> int \<Rightarrow> int \<Rightarrow> int \<Rightarrow> launch_db \<Rightarrow> launch_key list" where
  "claim_keys sdb scope locked now limit staleAfter db =
     take (nat (effective_limit limit))
       (filter (\<lambda>k. \<not> locked k)
         (map launch_key (sort_key lt_CreatedAt (filter (launch_claimable sdb scope now (effective_stale staleAfter)) (ld_launches db)))))"

definition ClaimReady ::
  "sessions_db \<Rightarrow> string \<Rightarrow> (launch_key \<Rightarrow> bool) \<Rightarrow> int \<Rightarrow> int \<Rightarrow> int \<Rightarrow> int \<Rightarrow> launch_db \<Rightarrow> PendingLaunchTurn list \<times> launch_db" where
  "ClaimReady sdb scope locked clock now limit staleAfter db =
     (let ks = claim_keys sdb scope locked now limit staleAfter db; mine = (\<lambda>r. launch_key r \<in> set ks)
      in (map (claimed_launch clock now) (filter mine (ld_launches db)), update_launches mine (claimed_launch clock now) db))"

definition launch_live :: "PendingLaunchTurn \<Rightarrow> bool" where
  "launch_live r \<longleftrightarrow> lt_Status r \<in> {PendingLaunchAwaitingBytes, PendingLaunchReady, PendingLaunchClaiming}"

definition FindStale :: "string \<Rightarrow> int \<Rightarrow> int \<Rightarrow> launch_db \<Rightarrow> PendingLaunchTurn list" where
  "FindStale scope olderThan limit db =
     (let limit = (if limit \<le> 0 \<or> limit > 500 then 100 else limit)
      in take (nat limit)
           (sort_key lt_CreatedAt (filter (\<lambda>r. lt_SessionScope r = scope \<and> launch_live r \<and> lt_CreatedAt r < olderThan) (ld_launches db))))"

definition LoadAttachments :: "string \<Rightarrow> string \<Rightarrow> launch_db \<Rightarrow> LaunchAttachmentBlob list" where
  "LoadAttachments tankSessionID turnID db = sort_key lb_Ordinal (blobs_of (trim_key tankSessionID turnID) db)"

section \<open>Outcomes\<close>

definition drop_blobs :: "launch_key \<Rightarrow> launch_db \<Rightarrow> launch_db" where
  "drop_blobs k db = db\<lparr>ld_blobs := filter (\<lambda>(k', _). k' \<noteq> k) (ld_blobs db)\<rparr>"

definition MarkDispatched :: "int \<Rightarrow> string \<Rightarrow> string \<Rightarrow> string \<Rightarrow> launch_db \<Rightarrow> launch_db" where
  "MarkDispatched clock tankSessionID turnID dispatchedTurnID db =
     (let k = trim_key tankSessionID turnID
      in drop_blobs k (update_launches (\<lambda>r. launch_key r = k)
           (\<lambda>r. r\<lparr>lt_Status := PendingLaunchDispatched, lt_DispatchedTurnID := TrimSpace dispatchedTurnID, lt_LastError := [],
                  lt_locked_at := None, lt_updated_at := clock, lt_dispatched_at := Some clock\<rparr>) db))"

definition launch_MarkFailed :: "int \<Rightarrow> string \<Rightarrow> string \<Rightarrow> string \<Rightarrow> launch_db \<Rightarrow> launch_db" where
  "launch_MarkFailed clock tankSessionID turnID reason db =
     (let k = trim_key tankSessionID turnID
      in drop_blobs k (update_launches (\<lambda>r. launch_key r = k)
           (\<lambda>r. r\<lparr>lt_Status := PendingLaunchFailed, lt_LastError := left_text 2000 (TrimSpace reason), lt_locked_at := None,
                  lt_updated_at := clock\<rparr>) db))"

definition launch_Get :: "string \<Rightarrow> string \<Rightarrow> launch_db \<Rightarrow> launch_error + PendingLaunchTurn" where
  "launch_Get tankSessionID turnID db =
     (case find_launch (trim_key tankSessionID turnID) (ld_launches db) of None \<Rightarrow> Inl PendingLaunchNotFound | Some r \<Rightarrow> Inr r)"

end
