(* ===== verification/Turn_Control.thy ===== *)
theory Turn_Control
  imports Wake_Fire Turn_Pages
begin

text \<open>
  The control handlers of a turn (\<^verbatim>\<open>cmd/tank-operator/handlers_turns.go\<close>): stopping a turn, stopping a background task and
  answering a question, each after the token of the caller was checked and the body was decoded. A handler checks its
  session, writes its durable events first and publishes its command last; when the publish fails it writes a
  \<^verbatim>\<open>turn.command_failed\<close> event. A Go map of answers is a list of pairs in the order in which the map is visited;
  \<open>rand\<close> gives the random values of one request.
\<close>

section \<open>Submitting a turn from a browser\<close>

record turn_body =
  tn_ClientNonce :: string
  tn_Prompt :: string
  tn_DisplayText :: string
  tn_DisplayAttachments :: "UserMessageAttachment list"
  tn_Model :: string
  tn_Effort :: string
  tn_PermissionMode :: string
  tn_SkillName :: string
  tn_FollowUp :: bool
  tn_OriginSessionID :: string
  tn_OriginSessionAvatarID :: string
  tn_ExistingUserMessage :: bool

text \<open>The caller: the owner key of the token, the roles that make it a system author, and the two origin headers.\<close>

record caller =
  cl_Owner :: string
  cl_IsService :: bool
  cl_IsBot :: bool
  cl_OriginSession :: string
  cl_OriginAvatar :: string

definition authorKindForUser :: "caller \<Rightarrow> string" where
  "authorKindForUser user = (if cl_IsService user \<or> cl_IsBot user then author_kind_wire AuthorKindSystem else [])"

definition originSessionIDFromRequest :: "caller \<Rightarrow> string \<Rightarrow> string" where
  "originSessionIDFromRequest user explicit = (if TrimSpace explicit \<noteq> [] then TrimSpace explicit else TrimSpace (cl_OriginSession user))"

definition originSessionAvatarIDFromRequest :: "caller \<Rightarrow> string \<Rightarrow> string" where
  "originSessionAvatarIDFromRequest user explicit = (if TrimSpace explicit \<noteq> [] then TrimSpace explicit else TrimSpace (cl_OriginAvatar user))"

definition turn_request :: "caller \<Rightarrow> turn_body \<Rightarrow> sdkTurnRequest" where
  "turn_request user body =
     plain_request\<lparr>tq_ClientNonce := tn_ClientNonce body, tq_RequireNonce := True, tq_Prompt := tn_Prompt body,
       tq_DisplayText := tn_DisplayText body, tq_DisplayAttachments := tn_DisplayAttachments body, tq_Model := tn_Model body,
       tq_Effort := tn_Effort body, tq_PermissionMode := tn_PermissionMode body, tq_SkillName := tn_SkillName body,
       tq_FollowUp := tn_FollowUp body, tq_OmitUserMessage := tn_ExistingUserMessage body,
       tq_RequireExistingUserMessage := tn_ExistingUserMessage body,
       tq_OriginSessionID := originSessionIDFromRequest user (tn_OriginSessionID body),
       tq_OriginSessionAvatarID := originSessionAvatarIDFromRequest user (tn_OriginSessionAvatarID body),
       tq_AuthorKind := authorKindForUser user\<rparr>"

definition handleEnqueueSessionTurn :: "appServer \<Rightarrow> caller \<Rightarrow> string \<Rightarrow> turn_body \<Rightarrow> wake_desk \<Rightarrow> (http_error + gomap) \<times> wake_desk" where
  "handleEnqueueSessionTurn ap user target body d = submitSessionTurn ap (cl_Owner user) target (turn_request user body) d"

section \<open>The steps the handlers share\<close>

definition control_target :: "appServer \<Rightarrow> string \<Rightarrow> string \<Rightarrow> string \<Rightarrow> http_error + string" where
  "control_target ap owner sessionID unsupported =
     (case Reader_Get (ap_cluster ap) owner sessionID of
        None \<Rightarrow> Inl (404, ''session not found'')
      | Some (mode, _) \<Rightarrow>
          (case sdkProviderForMode mode of
             None \<Rightarrow> Inl (400, unsupported)
           | Some provider \<Rightarrow> if ap_bus ap = None then Inl (503, ''session bus unavailable'') else Inr provider))"

text \<open>An event is built and written; the text is that of the error.\<close>

definition write_event :: "appServer \<Rightarrow> string \<Rightarrow> (int \<Rightarrow> build_error + gomap \<times> int) \<Rightarrow> plane \<Rightarrow> string option \<times> plane" where
  "write_event ap key build pl =
     (case build (pl_sequence pl) of
        Inl e \<Rightarrow> (Some (build_text e), pl)
      | Inr (event, seq) \<Rightarrow>
          (case persistBackendEvent ap key event (pl\<lparr>pl_sequence := seq\<rparr>) of
             (Some e, pl') \<Rightarrow> (Some (upsert_text ap e), pl')
           | (None, pl') \<Rightarrow> (None, pl')))"

definition no_command :: Command where
  "no_command =
     \<lparr>cm_SchemaVersion = 0, cm_CommandID = [], cm_Type = [], cm_SessionID = [], cm_SessionStorageKey = [], cm_Email = [],
      cm_Provider = [], cm_Source = [], cm_TurnID = [], cm_ClientNonce = [], cm_Prompt = [], cm_Model = [],
      cm_ProviderSessionID = [], cm_Effort = [], cm_PermissionMode = [], cm_SkillName = [], cm_FollowUp = False,
      cm_TargetTurnID = [], cm_TargetTimelineID = [], cm_TargetProviderItemID = [], cm_TargetTaskID = [], cm_TargetProcessID = [],
      cm_Answers = [], cm_Annotations = [], cm_Attachments = [], cm_MCPActivateName = [], cm_MCPActivateURL = [], cm_CreatedAt = []\<rparr>"

definition control_command :: "appServer \<Rightarrow> string \<Rightarrow> string \<Rightarrow> string \<Rightarrow> Command" where
  "control_command ap owner sessionID provider =
     no_command\<lparr>cm_SessionID := sessionID, cm_SessionStorageKey := SessionStorageKey (ap_scope ap) sessionID, cm_Email := owner,
       cm_Provider := provider, cm_CreatedAt := FormatRFC3339Nano (ap_clock ap 5)\<rparr>"

text \<open>The command, or the marker of its failure on the given turn.\<close>

definition publish_control ::
  "appServer \<Rightarrow> Command \<Rightarrow> string \<Rightarrow> string \<Rightarrow> string \<Rightarrow> plane \<Rightarrow> http_error option \<times> plane" where
  "publish_control ap command turnID reason what pl =
     (let leg = (case ap_bus ap of None \<Rightarrow> (\<lambda>_ _. Some ''session bus unavailable'') | Some leg \<Rightarrow> leg)
      in case PublishCommand (ap_scope ap) leg command (pl_sent pl) of
           (None, sent) \<Rightarrow> (None, pl\<lparr>pl_sent := sent\<rparr>)
         | (Some e, sent) \<Rightarrow>
             (Some (500, what @ e),
              mark_command_failed ap
                \<lparr>cf_SessionID = cm_SessionID command, cf_SessionStorageKey = cm_SessionStorageKey command, cf_Email = cm_Email command,
                 cf_TurnID = turnID, cf_ClientNonce = cm_ClientNonce command, cf_Runtime = cm_Provider command,
                 cf_Reason = reason @ e, cf_Now = ap_clock ap 3\<rparr>
                (pl\<lparr>pl_sent := sent\<rparr>)))"

section \<open>Stopping a turn\<close>

definition interrupt_args :: "appServer \<Rightarrow> string \<Rightarrow> string \<Rightarrow> string \<Rightarrow> string \<Rightarrow> TurnInterruptRequestedArgs" where
  "interrupt_args ap owner sessionID provider turnID =
     \<lparr>ir_SessionID = sessionID, ir_SessionStorageKey = SessionStorageKey (ap_scope ap) sessionID, ir_Email = owner,
      ir_TurnID = turnID, ir_ClientNonce = turnID, ir_Runtime = provider, ir_Now = ap_clock ap 0\<rparr>"

definition interrupt_command :: "appServer \<Rightarrow> (nat \<Rightarrow> string) \<Rightarrow> string \<Rightarrow> string \<Rightarrow> string \<Rightarrow> string \<Rightarrow> Command" where
  "interrupt_command ap rand owner sessionID provider turnID =
     (control_command ap owner sessionID provider)
       \<lparr>cm_CommandID := ''interrupt:'' @ turnID @ '':'' @ rand 1, cm_Type := CommandInterrupt, cm_Source := ''interrupt'',
        cm_TurnID := ''interrupt_'' @ rand 0, cm_ClientNonce := turnID, cm_TargetTurnID := turnID\<rparr>"

definition target_terminal :: "appServer \<Rightarrow> plane \<Rightarrow> string \<Rightarrow> string \<Rightarrow> gomap option" where
  "target_terminal ap pl sessionID turnID =
     FindTurnTerminal (so_le (pl_stores pl)) (store_scope (ap_scope ap)) (pl_events pl) sessionID turnID"

definition handleInterruptSessionTurn ::
  "appServer \<Rightarrow> (nat \<Rightarrow> string) \<Rightarrow> string \<Rightarrow> string \<Rightarrow> string \<Rightarrow> plane \<Rightarrow> (http_error + gomap) \<times> plane" where
  "handleInterruptSessionTurn ap rand owner session turn pl =
     (let sessionID = TrimSpace session; turnID = TrimSpace turn; key = SessionStorageKey (ap_scope ap) sessionID
      in if sessionID = [] \<or> turnID = [] \<or> \<not> turnIDPattern turnID
         then (Inl (400, ''turn_id is required and must match turn id syntax''), pl)
         else case control_target ap owner sessionID ''session mode does not support app chat turns'' of
           Inl e \<Rightarrow> (Inl e, pl)
         | Inr provider \<Rightarrow>
           (case target_terminal ap pl sessionID turnID of
              Some terminal \<Rightarrow>
                (Inr [(''status'', GStr ''already_terminal''), (''target_turn_id'', GStr turnID),
                      (''target_terminal_type'', GStr (trimmed_at terminal ''type''))],
                 refresh_session ap owner sessionID pl)
            | None \<Rightarrow>
                (case write_event ap key
                        (\<lambda>seq. TurnInterruptRequestedEventMap (ap_clock ap 1) (ap_clock ap 2) seq
                                 (interrupt_args ap owner sessionID provider turnID)) pl of
                   (Some e, pl) \<Rightarrow> (Inl (500, ''persist interrupt request: '' @ e), pl)
                 | (None, pl) \<Rightarrow>
                     (case publish_control ap (interrupt_command ap rand owner sessionID provider turnID)
                             (''interrupt_'' @ rand 0) ''publish_interrupt_failed: '' ''publish interrupt: '' pl of
                        (Some e, pl) \<Rightarrow> (Inl e, pl)
                      | (None, pl) \<Rightarrow> (Inr [(''status'', GStr ''accepted''), (''target_turn_id'', GStr turnID)], pl)))))"

section \<open>Stopping a background task\<close>

record stopBackgroundTaskRequest =
  sb_TurnID :: string
  sb_TimelineID :: string
  sb_ProviderItemID :: string
  sb_ProcessID :: string

definition stop_command ::
  "appServer \<Rightarrow> (nat \<Rightarrow> string) \<Rightarrow> string \<Rightarrow> string \<Rightarrow> string \<Rightarrow> string \<Rightarrow> stopBackgroundTaskRequest \<Rightarrow> Command" where
  "stop_command ap rand owner sessionID provider taskID body =
     (control_command ap owner sessionID provider)
       \<lparr>cm_CommandID := ''stop-background:'' @ taskID @ '':'' @ rand 1, cm_Type := CommandStopBackgroundTask,
        cm_Source := ''background-stop'', cm_TurnID := ''stop_background_'' @ rand 0, cm_ClientNonce := TrimSpace (sb_TurnID body),
        cm_TargetTurnID := TrimSpace (sb_TurnID body), cm_TargetTimelineID := TrimSpace (sb_TimelineID body),
        cm_TargetProviderItemID := TrimSpace (sb_ProviderItemID body), cm_TargetTaskID := taskID,
        cm_TargetProcessID := TrimSpace (sb_ProcessID body)\<rparr>"

definition handleStopBackgroundTask ::
  "appServer \<Rightarrow> (nat \<Rightarrow> string) \<Rightarrow> string \<Rightarrow> string \<Rightarrow> string \<Rightarrow> stopBackgroundTaskRequest \<Rightarrow> plane \<Rightarrow> (http_error + gomap) \<times> plane" where
  "handleStopBackgroundTask ap rand owner session task body pl =
     (let sessionID = TrimSpace session; taskID = TrimSpace task; turnID = TrimSpace (sb_TurnID body)
      in if sessionID = [] \<or> taskID = [] \<or> \<not> backgroundTaskIDPattern taskID
         then (Inl (400, ''task_id is required and must match task id syntax''), pl)
         else if turnID = [] \<or> \<not> turnIDPattern turnID
         then (Inl (400, ''turn_id is required and must match turn id syntax''), pl)
         else case control_target ap owner sessionID ''session mode does not support background task stops'' of
           Inl e \<Rightarrow> (Inl e, pl)
         | Inr provider \<Rightarrow>
           (case publish_control ap (stop_command ap rand owner sessionID provider taskID body)
                   (''stop_background_'' @ rand 0) ''publish_background_stop_failed: '' ''publish background stop: '' pl of
              (Some e, pl) \<Rightarrow> (Inl e, pl)
            | (None, pl) \<Rightarrow>
                (Inr [(''status'', GStr ''accepted''), (''target_turn_id'', GStr turnID), (''target_task_id'', GStr taskID)], pl)))"

section \<open>Answers\<close>

definition maxSDKAnswerBytes :: nat where
  "maxSDKAnswerBytes = 64 * 1024"

record answerAnnotation =
  an_Preview :: string
  an_Notes :: string

record answerRequest =
  ar_ProviderItemID :: string
  ar_TimelineID :: string
  ar_Answers :: "(string \<times> string list) list"
  ar_Annotations :: "(string \<times> answerAnnotation) list"
  ar_DisplayAttachments :: "UserMessageAttachment list"

definition normalizeAnswers :: "(string \<times> string list) list \<Rightarrow> (string \<times> string list) list" where
  "normalizeAnswers raw =
     fold (\<lambda>(question, labels) out.
             let q = TrimSpace question; cleaned = filter (\<lambda>l. l \<noteq> []) (map TrimSpace labels)
             in if q = [] \<or> cleaned = [] then out else AList.update q cleaned out) raw []"

definition normalizeAnswerAnnotations :: "(string \<times> answerAnnotation) list \<Rightarrow> (string \<times> answerAnnotation) list" where
  "normalizeAnswerAnnotations raw =
     fold (\<lambda>(question, ann) out.
             let q = TrimSpace question; cleaned = \<lparr>an_Preview = TrimSpace (an_Preview ann), an_Notes = TrimSpace (an_Notes ann)\<rparr>
             in if q = [] \<or> (an_Preview cleaned = [] \<and> an_Notes cleaned = []) then out else AList.update q cleaned out) raw []"

definition answerPayloadSize :: "(string \<times> string list) list \<Rightarrow> (string \<times> answerAnnotation) list \<Rightarrow> nat" where
  "answerPayloadSize answers annotations =
     sum_list (map (\<lambda>(q, labels). length q + sum_list (map length labels)) answers) +
     sum_list (map (\<lambda>(q, ann). length q + length (an_Preview ann) + length (an_Notes ann)) annotations)"

definition annotationsToDisplayMap :: "(string \<times> answerAnnotation) list \<Rightarrow> gomap" where
  "annotationsToDisplayMap anns =
     List.map_filter (\<lambda>(q, ann).
       let entry = set_if (an_Notes ann \<noteq> []) ''notes'' (GStr (an_Notes ann))
                     (set_if (an_Preview ann \<noteq> []) ''preview'' (GStr (an_Preview ann)) [])
       in if entry = [] then None else Some (q, GMap entry)) anns"

definition commandAnswerAnnotations :: "(string \<times> answerAnnotation) list \<Rightarrow> (string \<times> InputReplyAnnotation) list" where
  "commandAnswerAnnotations anns = map (\<lambda>(q, ann). (q, \<lparr>ia_Preview = an_Preview ann, ia_Notes = an_Notes ann\<rparr>)) anns"

definition commandAttachments :: "UserMessageAttachment list \<Rightarrow> CommandAttachment list" where
  "commandAttachments atts =
     map (\<lambda>a. \<lparr>ca_Label = att_Label a, ca_Name = att_Name a, ca_Kind = att_Kind a, ca_Path = att_Path a,
               ca_AbsPath = att_AbsPath a, ca_Size = att_Size a\<rparr>) atts"

text \<open>The text of one question, and the whole text, with the questions in byte order.\<close>

definition answer_entry :: "nat \<Rightarrow> string \<Rightarrow> string list \<Rightarrow> string \<Rightarrow> string" where
  "answer_entry number question labels notes =
     (let shown = filter (\<lambda>l. l \<noteq> [] \<and> ToLower l \<noteq> ''other'') (map TrimSpace labels); note = TrimSpace notes
      in nat_dec number @ ''. '' @ question @ [CHR 0x0A] @
         (if shown \<noteq> []
          then ''Answer: '' @ Join '', '' shown @ (if note \<noteq> [] then [CHR 0x0A] @ ''Additional text: '' @ note else [])
          else if note \<noteq> [] then ''Answer: '' @ note else []))"

definition askUserQuestionAnswerTranscriptText :: "(string \<times> string list) list \<Rightarrow> (string \<times> answerAnnotation) list \<Rightarrow> string" where
  "askUserQuestionAnswerTranscriptText answers annotations =
     (let notes = (\<lambda>q. case map_of annotations q of None \<Rightarrow> [] | Some ann \<Rightarrow> an_Notes ann);
          sorted = sort_by byte_le fst answers
      in TrimSpace (Join [CHR 0x0A, CHR 0x0A]
           (map (\<lambda>(i, q, labels). answer_entry (i + 1) q labels (notes q)) (enumerate 0 sorted))))"

section \<open>The question that waits\<close>

record awaitingQuestionTarget =
  aw_QuestionTurnID :: string
  aw_QuestionTimelineID :: string
  aw_ProviderTurnID :: string
  aw_ProviderTimelineID :: string
  aw_ProviderItemID :: string

definition no_target :: awaitingQuestionTarget where
  "no_target = \<lparr>aw_QuestionTurnID = [], aw_QuestionTimelineID = [], aw_ProviderTurnID = [], aw_ProviderTimelineID = [], aw_ProviderItemID = []\<rparr>"

definition turn_ended :: "gomap \<Rightarrow> bool" where
  "turn_ended e \<longleftrightarrow>
     trimmed_at e ''type'' \<in> event_wire ` {EventTurnCompleted, EventTurnFailed, EventTurnCommandFailed, EventTurnInterrupted}"

definition asks :: "string \<Rightarrow> string \<Rightarrow> gomap \<Rightarrow> bool" where
  "asks timelineID providerItemID e \<longleftrightarrow>
     trimmed_at e ''type'' = event_wire EventTurnAwaitingInput \<and>
     (let tl = transcriptPayloadString e ''timeline_id''; item = transcriptPayloadString e ''provider_item_id''
      in (tl = [] \<or> tl = timelineID) \<and> (item = [] \<or> item = providerItemID))"

definition target_of :: "gomap \<Rightarrow> awaitingQuestionTarget" where
  "target_of e =
     \<lparr>aw_QuestionTurnID = trimmed_at e ''turn_id'', aw_QuestionTimelineID = transcriptPayloadString e ''timeline_id'',
      aw_ProviderTurnID = transcriptPayloadString e ''asking_turn_id'',
      aw_ProviderTimelineID = transcriptPayloadString e ''provider_timeline_id'',
      aw_ProviderItemID = transcriptPayloadString e ''provider_item_id''\<rparr>"

fun awaiting_scan :: "string \<Rightarrow> string \<Rightarrow> gomap list \<Rightarrow> awaitingQuestionTarget \<Rightarrow> awaitingQuestionTarget option" where
  "awaiting_scan line item [] found = Some found"
| "awaiting_scan line item (e # es) found =
     (if turn_ended e then None
      else awaiting_scan line item es (if asks line item e then target_of e else found))"

definition turnAwaitingQuestionTarget :: "gomap list \<Rightarrow> string \<Rightarrow> string \<Rightarrow> awaitingQuestionTarget option" where
  "turnAwaitingQuestionTarget events timelineID providerItemID =
     (case awaiting_scan timelineID providerItemID events no_target of
        None \<Rightarrow> None
      | Some t \<Rightarrow> if aw_ProviderTurnID t = [] \<or> aw_ProviderTimelineID t = [] then None else Some t)"

section \<open>Answering a question\<close>

text \<open>What the first half of the handler accepts.\<close>

record accepted_answer =
  aa_ProviderItemID :: string
  aa_TimelineID :: string
  aa_Answers :: "(string \<times> string list) list"
  aa_Annotations :: "(string \<times> answerAnnotation) list"
  aa_Attachments :: "UserMessageAttachment list"

definition check_answer :: "answerRequest \<Rightarrow> http_error + accepted_answer" where
  "check_answer body =
     (let item = TrimSpace (ar_ProviderItemID body); tl = TrimSpace (ar_TimelineID body);
          answers = normalizeAnswers (ar_Answers body); annotations = normalizeAnswerAnnotations (ar_Annotations body)
      in if item = [] \<or> tl = [] then Inl (400, ''provider_item_id and timeline_id are required'')
         else if answers = [] then Inl (400, ''answers must contain at least one non-empty selection'')
         else if answerPayloadSize answers annotations > maxSDKAnswerBytes then Inl (400, ''answer too large'')
         else case normalizeDisplayAttachments (ar_DisplayAttachments body) of
                Inl e \<Rightarrow> Inl e
              | Inr atts \<Rightarrow> Inr \<lparr>aa_ProviderItemID = item, aa_TimelineID = tl, aa_Answers = answers, aa_Annotations = annotations,
                               aa_Attachments = atts\<rparr>)"

definition answer_nonce :: "string \<Rightarrow> string \<Rightarrow> string" where
  "answer_nonce turnID timelineID = ''answer-'' @ take 24 (sha256_hex (turnID @ [CHR 0x00] @ timelineID))"

definition answered_args :: "appServer \<Rightarrow> string \<Rightarrow> string \<Rightarrow> string \<Rightarrow> accepted_answer \<Rightarrow> TurnInputAnsweredArgs" where
  "answered_args ap owner sessionID turnID aa =
     \<lparr>ia_SessionID = sessionID, ia_SessionStorageKey = SessionStorageKey (ap_scope ap) sessionID, ia_Email = owner,
      ia_TurnID = turnID, ia_ClientNonce = answer_nonce turnID (aa_TimelineID aa), ia_ProviderItemID = aa_ProviderItemID aa,
      ia_QuestionTimelineID = aa_TimelineID aa, ia_Answers = aa_Answers aa,
      ia_Annotations = annotationsToDisplayMap (aa_Annotations aa), ia_Attachments = aa_Attachments aa, ia_Now = ap_clock ap 0\<rparr>"

definition continuation_args :: "appServer \<Rightarrow> string \<Rightarrow> string \<Rightarrow> string \<Rightarrow> string \<Rightarrow> accepted_answer \<Rightarrow> UserSubmissionArgs" where
  "continuation_args ap owner sessionID provider turnID aa =
     (let answerText = askUserQuestionAnswerTranscriptText (aa_Answers aa) (aa_Annotations aa)
      in \<lparr>us_SessionID = sessionID, us_SessionStorageKey = SessionStorageKey (ap_scope ap) sessionID, us_Email = owner,
          us_ClientNonce = answer_nonce turnID (aa_TimelineID aa), us_Text = answerText,
          us_Message = Some (GMap [(''role'', GStr ''user''), (''content'', GStr answerText)]),
          us_Attachments = aa_Attachments aa, us_Runtime = provider, us_SkillName = [], us_Model = [], us_Effort = [],
          us_Display = Some [(''kind'', GStr ''plain'')], us_OriginSessionID = [], us_OriginSessionAvatarID = [],
          us_AuthorKind = [], us_Now = ap_clock ap 6\<rparr>)"

definition reply_command ::
  "appServer \<Rightarrow> (nat \<Rightarrow> string) \<Rightarrow> string \<Rightarrow> string \<Rightarrow> string \<Rightarrow> string \<Rightarrow> accepted_answer \<Rightarrow> awaitingQuestionTarget \<Rightarrow> Command" where
  "reply_command ap rand owner sessionID provider turnID aa aw =
     (let nonce = answer_nonce turnID (aa_TimelineID aa)
      in (control_command ap owner sessionID provider)
           \<lparr>cm_CommandID := ''input_reply:'' @ aw_ProviderTurnID aw @ '':'' @ nonce, cm_Type := CommandInputReply,
            cm_Source := ''answer'', cm_TurnID := ''input_reply_'' @ rand 0, cm_ClientNonce := nonce,
            cm_TargetTurnID := aw_ProviderTurnID aw, cm_TargetTimelineID := aw_ProviderTimelineID aw,
            cm_TargetProviderItemID := aa_ProviderItemID aa, cm_Answers := aa_Answers aa,
            cm_Annotations := commandAnswerAnnotations (aa_Annotations aa), cm_Attachments := commandAttachments (aa_Attachments aa)\<rparr>)"

text \<open>The durable half: the answer on the question turn, then the boundary events of the continuation turn.\<close>

definition record_answer ::
  "appServer \<Rightarrow> string \<Rightarrow> string \<Rightarrow> string \<Rightarrow> string \<Rightarrow> accepted_answer \<Rightarrow> plane \<Rightarrow> http_error option \<times> plane" where
  "record_answer ap owner sessionID provider turnID aa pl =
     (let key = SessionStorageKey (ap_scope ap) sessionID
      in case write_event ap key (\<lambda>seq. TurnInputAnsweredEventMap (ap_clock ap 1) (ap_clock ap 2) seq
                                          (answered_args ap owner sessionID turnID aa)) pl of
           (Some e, pl) \<Rightarrow> (Some (500, ''persist answer: '' @ e), pl)
         | (None, pl) \<Rightarrow>
             (case UserSubmissionEventMaps (ap_clock ap 7) (ap_clock ap 8) (ap_clock ap 9) (pl_sequence pl)
                     (continuation_args ap owner sessionID provider turnID aa) of
                Inl e \<Rightarrow> (Some (500, ''build answer turn: '' @ build_text e), pl)
              | Inr (_, events, seq) \<Rightarrow>
                  (case persist_all ap key events (pl\<lparr>pl_sequence := seq\<rparr>) of
                     (Some e, pl) \<Rightarrow> (Some (500, ''persist answer turn: '' @ upsert_text ap e), pl)
                   | (None, pl) \<Rightarrow> (None, pl))))"

text \<open>The handler; \<open>None\<close> when the reading of the turn does not end.\<close>

definition handleAnswerSessionTurn ::
  "appServer \<Rightarrow> (nat \<Rightarrow> string) \<Rightarrow> string \<Rightarrow> string \<Rightarrow> string \<Rightarrow> answerRequest \<Rightarrow> plane \<Rightarrow> ((http_error + gomap) \<times> plane) option" where
  "handleAnswerSessionTurn ap rand owner session turn body pl =
     (let sessionID = TrimSpace session; turnID = TrimSpace turn
      in if sessionID = [] \<or> turnID = [] \<or> \<not> turnIDPattern turnID
         then Some (Inl (400, ''turn_id is required and must match turn id syntax''), pl)
         else case check_answer body of
           Inl e \<Rightarrow> Some (Inl e, pl)
         | Inr aa \<Rightarrow>
           (case control_target ap owner sessionID ''session mode does not support app chat turns'' of
              Inl e \<Rightarrow> Some (Inl e, pl)
            | Inr provider \<Rightarrow>
              Option.bind (readAllTurnEvents (so_le (pl_stores pl)) (store_scope (ap_scope ap)) (pl_events pl) sessionID turnID)
                (\<lambda>events. Some
                  (case turnAwaitingQuestionTarget events (aa_TimelineID aa) (aa_ProviderItemID aa) of
                     None \<Rightarrow> (Inl (409, ''question turn is not awaiting input''), pl)
                   | Some aw \<Rightarrow>
                     (case record_answer ap owner sessionID provider turnID aa pl of
                        (Some e, pl) \<Rightarrow> (Inl e, pl)
                      | (None, pl) \<Rightarrow>
                        (case publish_control ap (reply_command ap rand owner sessionID provider turnID aa aw)
                                turnID ''publish_input_reply_failed: '' ''publish answer: '' pl of
                           (Some e, pl) \<Rightarrow> (Inl e, pl)
                         | (None, pl) \<Rightarrow>
                           (Inr [(''status'', GStr ''accepted''), (''target_turn_id'', GStr turnID),
                                 (''turn_id'', GStr (TurnIDForClientNonce (answer_nonce turnID (aa_TimelineID aa))))], pl)))))))"

end
