(* ===== verification/Launch_Dispatch.thy ===== *)
theory Launch_Dispatch
  imports Launch_Store Turn_Control
begin

text \<open>
  The dispatcher of durable launches (\<^verbatim>\<open>cmd/tank-operator/launch_dispatch.go\<close>), the sweep of stranded launches
  (\<^verbatim>\<open>stranded_launch_sweep.go\<close>) and the upload of launch attachments (\<^verbatim>\<open>handlers_files.go\<close>). The state is the control plane with the
  launch queue and the files written into pods; \<open>wr\<close> is the error of writing a file into a pod. The texts of failed
  reads of the cluster are left out.
\<close>

record launch_desk =
  la_plane :: plane
  la_db :: launch_db
  la_files :: "(string \<times> string \<times> string) list"

definition launchDispatchBatchLimit :: int where "launchDispatchBatchLimit = 20"
definition launchDispatchClaimStaleAfter :: int where "launchDispatchClaimStaleAfter = 2 * 60 * 1000000000"
definition maxLaunchDispatchAttempts :: int where "maxLaunchDispatchAttempts = 5"
definition launchStaleDeadline :: int where "launchStaleDeadline = 20 * 60 * 1000000000"
definition launchAlreadyTerminalReason :: string where "launchAlreadyTerminalReason = ''terminal_already_present''"

section \<open>The prompt and the files\<close>

definition isLaunchSkillRuntime :: "string \<Rightarrow> bool" where
  "isLaunchSkillRuntime runtime \<longleftrightarrow> TrimSpace runtime \<in> {''claude'', ''codex''}"

definition attachment_list :: "string \<Rightarrow> string list \<Rightarrow> string" where
  "attachment_list body absPaths =
     body @ (if body \<noteq> [] then [CHR 0x0A, CHR 0x0A] else []) @ ''Attachments:'' @ concat (map (\<lambda>p. [CHR 0x0A] @ ''- '' @ p) absPaths)"

definition composeLaunchDispatchPrompt :: "string \<Rightarrow> string \<Rightarrow> string \<Rightarrow> string list \<Rightarrow> string" where
  "composeLaunchDispatchPrompt runtime skillName basePrompt absPaths =
     (let body = TrimSpace basePrompt; body = (if absPaths \<noteq> [] then attachment_list body absPaths else body);
          skillName = TrimSpace skillName; trigger = skillPromptTrigger (TrimSpace runtime) skillName
      in if skillName = [] then body
         else if promptMatchesSkillTrigger (TrimSpace runtime) skillName body then body
         else if body = [] then trigger
         else trigger @ [CHR 0x0A, CHR 0x0A] @ body)"

definition launchAttachmentAbsPath :: "string \<Rightarrow> LaunchAttachmentBlob \<Rightarrow> string option" where
  "launchAttachmentAbsPath turnID blob =
     (let name = (if TrimSpace (lb_Name blob) = [] then ''file'' else TrimSpace (lb_Name blob))
      in safeWorkspacePath (attachmentsRelDir @ ''/'' @ sanitize_name (TrimSpace turnID) @ ''-'' @ int_dec (lb_Ordinal blob) @ ''-'' @
           take 100 (sanitize_name name)))"

text \<open>The files in their order, up to the first that fails: permanently when it has no path, else for now.\<close>

fun materialize ::
  "(string \<Rightarrow> string \<Rightarrow> string \<Rightarrow> string option) \<Rightarrow> string \<Rightarrow> string \<Rightarrow> LaunchAttachmentBlob list \<Rightarrow>
   (bool \<times> string) option \<times> string list \<times> (string \<times> string \<times> string) list" where
  "materialize wr podName turnID [] = (None, [], [])"
| "materialize wr podName turnID (b # bs) =
     (case launchAttachmentAbsPath turnID b of
        None \<Rightarrow> (Some (True, ''attachment '' @ int_dec (lb_Ordinal b) @ '' path: path escapes workspace''), [], [])
      | Some absPath \<Rightarrow>
          (case wr podName absPath (lb_Bytes b) of
             Some e \<Rightarrow> (Some (False, ''materialize attachment '' @ int_dec (lb_Ordinal b) @ '': '' @ e), [], [])
           | None \<Rightarrow> (let (err, paths, files) = materialize wr podName turnID bs
                     in (err, absPath # paths, (podName, absPath, lb_Bytes b) # files))))"

section \<open>Dispatching one launch\<close>

definition launch_turn :: "PendingLaunchTurn \<Rightarrow> string \<Rightarrow> string \<Rightarrow> gotime \<Rightarrow> sdkTurnRequest" where
  "launch_turn launch prompt mode now =
     plain_request\<lparr>tq_ClientNonce := lt_ClientNonce launch, tq_RequireNonce := True, tq_Prompt := prompt, tq_Model := lt_Model launch,
       tq_Effort := lt_Effort launch, tq_SkillName := lt_SkillName launch, tq_OmitUserMessage := True,
       tq_RequireExistingUserMessage := True, tq_Source := ''launch-dispatch'', tq_SessionMode := mode, tq_AllowBeforeReady := True,
       tq_CreatedAt := now\<rparr>"

definition already_terminal_reason :: "gomap \<Rightarrow> string" where
  "already_terminal_reason terminal =
     launchAlreadyTerminalReason @ '': launch turn already carries a durable '' @ trimmed_at terminal ''type'' @
     ''; dispatch skipped so turn.submitted is never written after a terminal''"

text \<open>The error of a dispatch, with whether it is permanent.\<close>

definition dispatchPendingLaunch ::
  "appServer \<Rightarrow> (string \<Rightarrow> string \<Rightarrow> string \<Rightarrow> string option) \<Rightarrow> PendingLaunchTurn \<Rightarrow> gotime \<Rightarrow> launch_desk \<Rightarrow>
   (bool \<times> string) option \<times> launch_desk" where
  "dispatchPendingLaunch ap wr launch now d =
     (case target_terminal ap (la_plane d) (lt_SessionID launch) (lt_TurnID launch) of
        Some terminal \<Rightarrow>
          (None, d\<lparr>la_db := launch_MarkFailed (ap_db_now ap) (lt_TankSessionID launch) (lt_TurnID launch)
                             (already_terminal_reason terminal) (la_db d)\<rparr>)
      | None \<Rightarrow>
          (case Reader_Get (ap_cluster ap) (lt_OwnerEmail launch) (lt_SessionID launch) of
             None \<Rightarrow> (Some (False, ''resolve session''), d)
           | Some (mode, podName) \<Rightarrow>
               (let (err, absPaths, files) = materialize wr podName (lt_TurnID launch)
                      (LoadAttachments (lt_TankSessionID launch) (lt_TurnID launch) (la_db d));
                    d = d\<lparr>la_files := la_files d @ files\<rparr>; runtime = TrimSpace (lt_Runtime launch)
                in case err of
                     Some e \<Rightarrow> (Some e, d)
                   | None \<Rightarrow>
                       if TrimSpace (lt_SkillName launch) \<noteq> [] \<and> \<not> isLaunchSkillRuntime runtime
                       then (Some (True, ''skill launch runtime is invalid''), d)
                       else let prompt = composeLaunchDispatchPrompt runtime (lt_SkillName launch) (lt_BasePrompt launch) absPaths
                            in case enqueueSDKTurn ap (lt_OwnerEmail launch) (lt_SessionID launch) (launch_turn launch prompt mode now) (la_plane d) of
                                 (Inl e, pl) \<Rightarrow>
                                   (Some (400 \<le> fst e \<and> fst e < 500, ''enqueue turn ('' @ int_dec (fst e) @ ''): '' @ TrimSpace (snd e)), d\<lparr>la_plane := pl\<rparr>)
                               | (Inr resp, pl) \<Rightarrow>
                                   (None, d\<lparr>la_plane := pl, la_db := MarkDispatched (ap_db_now ap) (lt_TankSessionID launch) (lt_TurnID launch)
                                              (turnIDFromEnqueueResponse resp) (la_db d)\<rparr>))))"

definition launch_failed_args :: "PendingLaunchTurn \<Rightarrow> gotime \<Rightarrow> string \<Rightarrow> TurnCommandFailedArgs" where
  "launch_failed_args launch now reason =
     \<lparr>cf_SessionID = lt_SessionID launch, cf_SessionStorageKey = lt_TankSessionID launch, cf_Email = lt_OwnerEmail launch,
      cf_TurnID = lt_TurnID launch, cf_ClientNonce = lt_ClientNonce launch,
      cf_Runtime = (if TrimSpace (lt_Runtime launch) = [] then ''claude'' else TrimSpace (lt_Runtime launch)),
      cf_Reason = reason, cf_Now = now\<rparr>"

definition failPendingLaunch :: "appServer \<Rightarrow> PendingLaunchTurn \<Rightarrow> gotime \<Rightarrow> string \<Rightarrow> launch_desk \<Rightarrow> string option \<times> launch_desk" where
  "failPendingLaunch ap launch now reason d =
     (let d = d\<lparr>la_db := launch_MarkFailed (ap_db_now ap) (lt_TankSessionID launch) (lt_TurnID launch) reason (la_db d)\<rparr>;
          (e, pl) = write_event ap (lt_TankSessionID launch)
            (\<lambda>seq. TurnCommandFailedEventMap (ap_clock ap 3) (ap_clock ap 4) seq (launch_failed_args launch now reason)) (la_plane d)
      in (e, d\<lparr>la_plane := pl\<rparr>))"

section \<open>The loops\<close>

definition dispatch_failed_reason :: "PendingLaunchTurn \<Rightarrow> string \<Rightarrow> string" where
  "dispatch_failed_reason launch e = ''launch_dispatch_failed (attempt '' @ int_dec (lt_AttemptCount launch) @ ''): '' @ e"

definition dispatch_or_fail ::
  "appServer \<Rightarrow> (string \<Rightarrow> string \<Rightarrow> string \<Rightarrow> string option) \<Rightarrow> gotime \<Rightarrow> PendingLaunchTurn \<Rightarrow> launch_desk \<Rightarrow> launch_desk" where
  "dispatch_or_fail ap wr now launch d =
     (case dispatchPendingLaunch ap wr launch now d of
        (None, d) \<Rightarrow> d
      | (Some (permanent, e), d) \<Rightarrow>
          if permanent \<or> lt_AttemptCount launch \<ge> maxLaunchDispatchAttempts
          then snd (failPendingLaunch ap launch now (dispatch_failed_reason launch e) d)
          else d)"

definition processPendingLaunches ::
  "(nat \<Rightarrow> appServer) \<Rightarrow> (string \<Rightarrow> string \<Rightarrow> string \<Rightarrow> string option) \<Rightarrow> (launch_key \<Rightarrow> bool) \<Rightarrow> gotime \<Rightarrow> launch_desk \<Rightarrow> launch_desk" where
  "processPendingLaunches aps wr locked now d =
     (let (rows, db) = ClaimReady (pl_db (la_plane d)) (store_scope (ap_scope (aps 0))) locked (ap_db_now (aps 0)) (UnixNano now)
            launchDispatchBatchLimit launchDispatchClaimStaleAfter (la_db d)
      in fold (\<lambda>(i, launch). dispatch_or_fail (aps i) wr now launch) (enumerate 0 rows) (d\<lparr>la_db := db\<rparr>))"

definition stale_reason :: "PendingLaunchTurn \<Rightarrow> string" where
  "stale_reason launch =
     ''launch_never_completed: stuck in '' @ launch_wire (lt_Status launch) @
     '' for >20m0s (attachment bytes never finished staging, or the session went away before dispatch)''"

definition processStaleLaunches :: "(nat \<Rightarrow> appServer) \<Rightarrow> gotime \<Rightarrow> launch_desk \<Rightarrow> launch_desk" where
  "processStaleLaunches aps now d =
     (let rows = FindStale (store_scope (ap_scope (aps 0))) (UnixNano now - launchStaleDeadline) launchDispatchBatchLimit (la_db d)
      in fold (\<lambda>(i, launch) d. snd (failPendingLaunch (aps i) launch now (stale_reason launch) d)) (enumerate 0 rows) d)"

section \<open>Stranded launches\<close>

definition strandedLaunchMinAge :: int where "strandedLaunchMinAge = 15 * 60 * 1000000000"
definition strandedLaunchMaxAge :: int where "strandedLaunchMaxAge = 30 * 24 * 60 * 60 * 1000000000"
definition strandedLaunchBatchLimit :: int where "strandedLaunchBatchLimit = 100"

definition strandedLaunchFailureReason :: string where
  "strandedLaunchFailureReason =
     ''launch_never_dispatched: deferred launch turn recorded user_message.created but no turn.submitted; '' @
     ''the create flow did not complete the upload + dispatch step''"

definition pending_view :: "PendingLaunchTurn \<Rightarrow> pending_launch" where
  "pending_view r = \<lparr>pl_tank_session_id = lt_TankSessionID r, pl_turn_id = lt_TurnID r, pl_status = launch_wire (lt_Status r)\<rparr>"

definition failStrandedLaunch :: "appServer \<Rightarrow> gotime \<Rightarrow> StrandedLaunchTurn \<Rightarrow> plane \<Rightarrow> plane" where
  "failStrandedLaunch ap now row pl =
     (let sessionID = TrimSpace (sl_SessionID row); turnID = TrimSpace (sl_TurnID row);
          storageKey = (if TrimSpace (sl_TankSessionID row) = [] then SessionStorageKey (ap_scope ap) sessionID else TrimSpace (sl_TankSessionID row))
      in if sessionID = [] \<or> turnID = [] then pl
         else snd (write_event ap storageKey
                (\<lambda>seq. TurnCommandFailedEventMap (ap_clock ap 3) (ap_clock ap 4) seq
                   \<lparr>cf_SessionID = sessionID, cf_SessionStorageKey = storageKey, cf_Email = TrimSpace (sl_Email row), cf_TurnID = turnID,
                    cf_ClientNonce = TrimSpace (sl_ClientNonce row),
                    cf_Runtime = (if TrimSpace (sl_Runtime row) = [] then ''claude'' else TrimSpace (sl_Runtime row)),
                    cf_Reason = strandedLaunchFailureReason, cf_Now = now\<rparr>) pl))"

definition processStrandedLaunches :: "(nat \<Rightarrow> appServer) \<Rightarrow> gotime \<Rightarrow> launch_desk \<Rightarrow> launch_desk" where
  "processStrandedLaunches aps now d =
     (let pl = la_plane d;
          rows = FindStrandedLaunchTurns (so_render (pl_stores pl)) (store_scope (ap_scope (aps 0))) (pl_events pl)
            (map pending_view (ld_launches (la_db d))) (UnixNano now - strandedLaunchMinAge) (UnixNano now - strandedLaunchMaxAge)
            strandedLaunchBatchLimit
      in d\<lparr>la_plane := fold (\<lambda>(i, row). failStrandedLaunch (aps i) now row) (enumerate 0 rows) pl\<rparr>)"

section \<open>Uploading an attachment of a launch\<close>

definition maxLaunchAttachments :: int where "maxLaunchAttachments = 32"
definition maxRawBytes :: nat where "maxRawBytes = 8388608"

text \<open>After authentication; \<open>ordinal\<close> is \<open>None\<close> when the path segment is no number.\<close>

definition handleStageLaunchAttachment ::
  "appServer \<Rightarrow> string \<Rightarrow> string \<Rightarrow> int option \<Rightarrow> string \<Rightarrow> string \<Rightarrow> string \<Rightarrow> string \<Rightarrow> launch_desk \<Rightarrow> (http_error + gomap) \<times> launch_desk" where
  "handleStageLaunchAttachment ap owner session ordinal nonce rawName contentType body d =
     (let sessionID = TrimSpace session; clientNonce = TrimSpace nonce; turnID = TurnIDForClientNonce clientNonce; name = TrimSpace rawName;
          storageKey = SessionStorageKey (ap_scope ap) sessionID
      in if sessionID = [] then (Inl (400, ''missing session_id''), d)
         else case ordinal of
           None \<Rightarrow> (Inl (400, ''ordinal must be an integer in [0, 32)''), d)
         | Some n \<Rightarrow>
             if n < 0 \<or> n \<ge> maxLaunchAttachments then (Inl (400, ''ordinal must be an integer in [0, 32)''), d)
             else if clientNonce = [] \<or> \<not> turnIDPattern clientNonce
             then (Inl (400, ''client_nonce is required and must match turn id syntax''), d)
             else if name = [] then (Inl (400, ''missing name''), d)
             else if Reader_Get (ap_cluster ap) owner sessionID = None then (Inl (404, ''session not found''), d)
             else (case launch_Get storageKey turnID (la_db d) of
                     Inl _ \<Rightarrow> (Inl (404, ''no pending launch for that turn''), d)
                   | Inr launch \<Rightarrow>
                       if n \<ge> lt_AttachmentCount launch then (Inl (400, ''ordinal exceeds the launch attachment count''), d)
                       else let bytes = take maxRawBytes body;
                                (res, db) = StageAttachment (ap_db_now ap) storageKey turnID
                                  \<lparr>lb_Ordinal = n, lb_Name = name, lb_ContentType = contentType, lb_Size = int (length bytes), lb_Bytes = bytes\<rparr> (la_db d)
                            in (case res of
                                  Inl PendingLaunchNotFound \<Rightarrow> Inl (404, ''no pending launch for that turn'')
                                | Inl PendingLaunchNotAcceptingBytes \<Rightarrow> Inl (409, ''launch is no longer accepting attachments'')
                                | Inl LaunchKeyRequired \<Rightarrow> Inl (500, ''stage attachment: stage attachment requires tank_session_id and turn_id'')
                                | Inr status \<Rightarrow> Inr [(''status'', GStr (launch_wire status)), (''ordinal'', GInt n),
                                                   (''size'', GInt (int (length bytes))), (''turn_id'', GStr turnID)],
                                d\<lparr>la_db := db\<rparr>)))"

end
