(* ===== verification/Turn_Control_Facts.thy ===== *)
theory Turn_Control_Facts
  imports Turn_Control Turn_Guarantees
begin

text \<open>
  What the stop handler guarantees: an accepted stop is in the ledger before its command is out and a repeated stop does not
  grow the ledger; a turn of a long nonce cannot be stopped. The first section has the facts about building, writing and
  publishing that the answer handler shares.
\<close>

section \<open>Control events and their writing\<close>

lemma session_key_nonempty: "TrimSpace sid \<noteq> [] \<Longrightarrow> TrimSpace (SessionStorageKey scope (TrimSpace sid)) \<noteq> []"
proof -
  assume sid: "TrimSpace sid \<noteq> []"
  have "visible (CHR '':'')" by (simp add: visible_def byte_of_def)
  then have "CHR '':'' \<in> set s \<Longrightarrow> TrimSpace s \<noteq> []" for s using TrimSpace_keeps [of "CHR '':''" s] by fastforce
  then show ?thesis using sid by (simp add: SessionStorageKey_def Let_def)
qed

text \<open>Two trimmed texts with a colon between them are a trimmed text, so a storage key never needs trimming.\<close>

lemma trimmed_sides:
  assumes "TrimSpace a = a"
  shows "trim_runes space_runes a = a" "trim_runes (map rev space_runes) (rev a) = rev a"
proof -
  obtain u v where "a = u @ trim_runes space_runes a" "trim_runes space_runes a = a @ v"
    using trim_runes_suffix [of space_runes a] TrimSpace_prefix [of a] assms by (auto simp: suffix_def prefix_def)
  moreover from this have "length a = length u + (length a + length v)" by (metis length_append)
  ultimately show left: "trim_runes space_runes a = a" by simp
  show "trim_runes (map rev space_runes) (rev a) = rev a"
    using assms left by (simp add: TrimSpace_def rev_swap)
qed

lemma untrimmed_join:
  assumes "trim_runes rs a = a" "\<forall>r\<in>set rs. r \<noteq> [] \<and> CHR '':'' \<notin> set r"
  shows "trim_runes rs (a @ CHR '':'' # b) = a @ CHR '':'' # b"
proof (rule trim_runes_unchanged)
  have start: "\<not> prefix r a" if r: "r \<in> set rs" for r
  proof
    assume "prefix r a"
    then obtain q where "find (\<lambda>r. prefix r a) rs = Some q" "a \<noteq> []" using r assms(2) by (force simp: find_None_iff)
    then show False using trim_runes_done [of rs a] assms find_hit by (fastforce simp: rune_prefix_def)
  qed
  have "\<not> prefix r (a @ CHR '':'' # b)" if r: "r \<in> set rs" for r
    using start [OF r] assms(2) r by (auto simp: prefix_append prefix_Cons)
  then have "find (\<lambda>r. prefix r (a @ CHR '':'' # b)) rs = None" by (simp add: find_None_iff)
  then show "a @ CHR '':'' # b = [] \<or> rune_prefix rs (a @ CHR '':'' # b) = 0" by (simp add: rune_prefix_def)
qed

lemma TrimSpace_join: "TrimSpace (TrimSpace a @ CHR '':'' # TrimSpace b) = TrimSpace a @ CHR '':'' # TrimSpace b"
proof -
  have "trim_runes space_runes (TrimSpace a @ CHR '':'' # TrimSpace b) = TrimSpace a @ CHR '':'' # TrimSpace b"
    by (rule untrimmed_join) (simp_all add: trimmed_sides, simp add: space_runes_def)
  moreover have "trim_runes (map rev space_runes) (rev (TrimSpace b) @ CHR '':'' # rev (TrimSpace a)) = rev (TrimSpace b) @ CHR '':'' # rev (TrimSpace a)"
    by (rule untrimmed_join) (simp_all add: trimmed_sides, simp add: space_runes_def)
  ultimately show ?thesis by (simp add: TrimSpace_def)
qed

lemma session_key_trimmed [simp]: "TrimSpace (SessionStorageKey scope sid) = SessionStorageKey scope sid"
  using TrimSpace_join [of scope sid] by (simp add: SessionStorageKey_def Let_def)

lemma session_key_store: "SessionStorageKey (store_scope scope) sid = SessionStorageKey scope sid"
proof -
  have "TrimSpace ''default'' = ''default''" by code_simp
  then show ?thesis by (simp add: SessionStorageKey_def store_scope_def Let_def)
qed

lemma pattern_visible: "turnIDPattern t \<Longrightarrow> list_all visible t"
  using safe_char_visible by (auto simp: turnIDPattern_def nonce_char_def list_all_iff)

text \<open>An event of a control builder: the draft, stamped and with the identity of its session.\<close>

lemma control_event:
  assumes "event = add_identity key sid email runtime (stamp_out now s draft)"
    and "string_at draft ''event_id'' = name" "string_at draft ''uuid'' = []" "mget draft ''order_key'' = None"
    and "list_all visible name" "name \<noteq> []" "TrimSpace key \<noteq> []"
  shows "event_identity event = name" "storage_key_of scope event = TrimSpace key"
    "string_at event ''order_key'' = order_key_for now s name" "trimmed_at event ''order_key'' = order_key_for now s name"
    "k \<notin> set (stamp_fields @ [''runtime'', ''email'', ''tank_public_session_id'', ''tank_session_id'']) \<Longrightarrow> mget event k = mget draft k"
proof -
  have "string_at (stamp_out now s draft) ''id'' = name" by (simp add: stamp_out_def Let_def assms(2,3))
  then show "event_identity event = name"
    using TrimSpace_visible [OF assms(5)] assms(6) by (simp add: event_identity_def trimmed_at_def assms(1) add_identity_def)
  have "key \<noteq> []" using assms(7) by auto
  then show "storage_key_of scope event = TrimSpace key"
    using assms(7) by (simp add: storage_key_of_def trimmed_at_def assms(1) add_identity_def)
  show key: "string_at event ''order_key'' = order_key_for now s name"
    using stamp_out_order_key [OF assms(4), of now s] by (simp add: assms(1,2,3) add_identity_def has_def)
  show "trimmed_at event ''order_key'' = order_key_for now s name"
    using TrimSpace_visible [OF order_key_visible [OF assms(5)]] by (simp add: trimmed_at_def key)
  show "k \<notin> set (stamp_fields @ [''runtime'', ''email'', ''tank_public_session_id'', ''tank_session_id'']) \<Longrightarrow> mget event k = mget draft k"
    by (simp add: assms(1) add_identity_def stamp_out_frame)
qed

lemma interrupt_event:
  assumes "TurnInterruptRequestedEventMap c0 c1 s args = Inr (event, seq)" "turnIDPattern (ir_TurnID args)"
    and "TrimSpace (ir_SessionStorageKey args) \<noteq> []"
  shows "event_identity event = ir_TurnID args @ '':turn.interrupt_requested'' \<and>
    storage_key_of scope event = TrimSpace (ir_SessionStorageKey args)"
proof -
  obtain draft now where "event = add_identity (ir_SessionStorageKey args) (ir_SessionID args) (ir_Email args) (ir_Runtime args) (stamp_out now (add1_int64 s) draft)"
    and "string_at draft ''event_id'' = ir_TurnID args @ '':turn.interrupt_requested''" "string_at draft ''uuid'' = []"
      "mget draft ''order_key'' = None"
    using assms(1) unfolding TurnInterruptRequestedEventMap_def Let_def
    by (auto simp: map_event_def StampEventMap_def Let_def split: if_split_asm)
  from control_event(1,2) [OF this] show ?thesis
    using pattern_visible [OF assms(2)] assms(3) by (simp add: visible_def byte_of_def)
qed

lemma interrupt_storable:
  assumes "TurnInterruptRequestedEventMap c0 c1 s args = Inr (event, seq)" "well_formed_event event" "turnIDPattern (ir_TurnID args)"
    and "TrimSpace (ir_SessionStorageKey args) \<noteq> []"
  shows "storable scope event"
proof -
  obtain draft now where "event = add_identity (ir_SessionStorageKey args) (ir_SessionID args) (ir_Email args) (ir_Runtime args) (stamp_out now (add1_int64 s) draft)"
    and "string_at draft ''event_id'' = ir_TurnID args @ '':turn.interrupt_requested''" "string_at draft ''uuid'' = []"
      "mget draft ''order_key'' = None"
    using assms(1) unfolding TurnInterruptRequestedEventMap_def Let_def
    by (auto simp: map_event_def StampEventMap_def Let_def split: if_split_asm)
  from control_event(1,2,4) [OF this] show ?thesis
    using pattern_visible [OF assms(3)] assms(2,4) by (simp add: storable_def ValidateEventMap_iff visible_def byte_of_def)
qed

text \<open>A step that writes an event: on success the event is recorded and nothing is sent.\<close>

lemma write_event_done:
  assumes "write_event ap key build pl = (None, pl')"
  shows "\<exists>event seq. build (pl_sequence pl) = Inr (event, seq) \<and> storable (store_scope (ap_scope ap)) event \<and>
    recorded pl' (storage_key_of (store_scope (ap_scope ap)) event) (event_identity event) \<and> pl_sent pl' = pl_sent pl \<and>
    pl_events pl' = snd (insert_row (row_of (store_scope (ap_scope ap)) (ap_db_now ap) event) (pl_events pl))"
proof -
  obtain event seq where b: "build (pl_sequence pl) = Inr (event, seq)" "persistBackendEvent ap key event (pl\<lparr>pl_sequence := seq\<rparr>) = (None, pl')"
    using assms by (auto simp: write_event_def split: sum.split_asm prod.split_asm option.split_asm)
  then show ?thesis
    using persistBackendEvent_records [of ap key event "pl\<lparr>pl_sequence := seq\<rparr>"]
      persistBackendEvent_frame(2) [of ap key event "pl\<lparr>pl_sequence := seq\<rparr>"]
      persistBackendEvent_cases [of ap event key "pl\<lparr>pl_sequence := seq\<rparr>"] by (auto simp: Upsert_storable)
qed

lemma write_event_ok:
  assumes "build (pl_sequence pl) = Inr (event, seq)" "storable (store_scope (ap_scope ap)) event"
  shows "fst (write_event ap key build pl) = None"
  using persistBackendEvent_cases [of ap event key "pl\<lparr>pl_sequence := seq\<rparr>"] assms
  by (auto simp: write_event_def split: prod.split option.split)

lemma write_event_failed: "write_event ap key build pl = (Some e, pl') \<Longrightarrow> pl_events pl' = pl_events pl \<and> pl_sent pl' = pl_sent pl"
  using persistBackendEvent_cases [of ap _ key]
  by (auto simp: write_event_def split: sum.split_asm prod.split_asm option.split_asm) (metis fst_conv option.distinct(1) plane.select_convs plane.surjective plane.update_convs snd_conv)+

text \<open>A command that went out on both streams; the ledger is not touched.\<close>

definition sent_both :: "plane \<Rightarrow> plane \<Rightarrow> Command \<Rightarrow> bool" where
  "sent_both pl pl' c \<longleftrightarrow> pl_sent pl' = pl_sent pl @ [(CommandStreamSubjectForCommand c, c), (SubjectForCommand c, c)]"

lemma publish_control_done:
  assumes "publish_control ap command turnID reason what pl = (None, pl')"
  shows "pl_stores pl' = pl_stores pl \<and>
    (\<exists>c. sent_both pl pl' c \<and> cm_Type c = TrimSpace (cm_Type command) \<and> cm_TargetTurnID c = TrimSpace (cm_TargetTurnID command) \<and>
       cm_Answers c = cm_Answers command)"
proof -
  define leg where "leg = (case ap_bus ap of None \<Rightarrow> (\<lambda>_ _. Some ''session bus unavailable'') | Some leg \<Rightarrow> leg)"
  obtain sent where sent: "PublishCommand (ap_scope ap) leg command (pl_sent pl) = (None, sent)" "pl' = pl\<lparr>pl_sent := sent\<rparr>"
    using assms unfolding publish_control_def leg_def Let_def by (auto split: prod.split_asm option.split_asm)
  show ?thesis using PublishCommand_sent [OF sent(1)] by (auto simp: sent(2) sent_both_def Normalize_def)
qed

text \<open>The ledgers that the reads are specified on, and the events that keep them so.\<close>

definition tidy_event :: "gomap \<Rightarrow> bool" where
  "tidy_event e \<longleftrightarrow> trimmed_at e ''order_key'' = string_at e ''order_key''"

definition sound_ledger :: "ledger \<Rightarrow> bool" where
  "sound_ledger L \<longleftrightarrow> ledger_reach L \<and> tidy_keys L"

lemma row_of_cursor: "tidy_event e \<Longrightarrow> row_cursor (row_of scope now e) = er_order_key (row_of scope now e)"
  by (simp add: row_cursor_def row_of_def string_at_stored_doc tidy_event_def)

lemma Upsert_sound: "sound_ledger L \<Longrightarrow> tidy_event e \<Longrightarrow> sound_ledger (snd (Upsert scope now e L))"
  using Upsert_not_storable [of scope e now L] row_of_cursor [of e scope now] ledger_reach.upsert [of L scope now e]
  by (cases "storable scope e")
    (auto simp: sound_ledger_def Upsert_storable tidy_keys_def insert_row_def replace_row_def row_cursor_def)

lemma persist_sound: "sound_ledger (pl_events pl) \<Longrightarrow> tidy_event e \<Longrightarrow> sound_ledger (pl_events (snd (persistBackendEvent ap key e pl)))"
  using persistBackendEvent_cases [of ap e key pl] Upsert_sound by auto

lemma boundary_tidy: "boundary_doc args ty e \<Longrightarrow> tidy_event e"
  using TrimSpace_visible by (simp add: boundary_doc_def Let_def trimmed_at_def tidy_event_def)

lemma persist_all_sound:
  "sound_ledger (pl_events pl) \<Longrightarrow> list_all tidy_event es \<Longrightarrow> sound_ledger (pl_events (snd (persist_all ap key es pl)))"
proof (induction es arbitrary: pl)
  case (Cons e es)
  then have "sound_ledger (pl_events (snd (persistBackendEvent ap key e pl)))" by (simp add: persist_sound)
  then show ?case using Cons by (auto split: prod.split option.split)
qed simp

text \<open>A row that is inserted under a fresh identity is there with all its columns but the time of creation; nothing else is new.\<close>

lemma insert_row_stored: "\<not> identity_clash row L \<Longrightarrow> \<exists>c. row\<lparr>er_created_at := c\<rparr> \<in> set (snd (insert_row row L))"
proof (cases "key_taken row L")
  case True
  then obtain r where "r \<in> set L" "same_key (er_tank_session_id row) (er_order_key row) r" by (auto simp: key_taken_def)
  then have "row\<lparr>er_created_at := er_created_at r\<rparr> \<in> set (replace_row row L)" by (force simp: replace_row_def)
  then show "\<not> identity_clash row L \<Longrightarrow> ?thesis" using True by (auto simp: insert_row_def)
qed (auto simp: insert_row_def intro!: exI [of _ "er_created_at row"])

lemma insert_row_identities: "set (map row_identity (snd (insert_row row L))) \<subseteq> insert (row_identity row) (set (map row_identity L))"
  by (auto simp: insert_row_def replace_row_def)

lemma recorded_sequence [simp]: "recorded (pl\<lparr>pl_sequence := s\<rparr>) = recorded pl"
  by (simp add: recorded_def fun_eq_iff)

lemma persist_identities:
  assumes "recorded (snd (persistBackendEvent ap key e pl)) k n"
  shows "recorded pl k n \<or> n = event_identity e"
proof (cases "storable (store_scope (ap_scope ap)) e")
  case True
  let ?row = "row_of (store_scope (ap_scope ap)) (ap_db_now ap) e"
  have "pl_events (snd (persistBackendEvent ap key e pl)) = snd (insert_row ?row (pl_events pl))"
    using persistBackendEvent_cases [of ap e key pl] True by (auto simp: Upsert_storable)
  then show ?thesis using assms insert_row_identities [of ?row "pl_events pl"] by (fastforce simp: recorded_def row_of_def)
next
  case False
  then show ?thesis using persistBackendEvent_cases [of ap e key pl] assms by auto
qed

lemma persist_all_identities:
  "recorded (snd (persist_all ap key es pl)) k n \<Longrightarrow> recorded pl k n \<or> n \<in> set (map event_identity es)"
proof (induction es arbitrary: pl)
  case (Cons e es)
  then show ?case using persist_identities [of ap key e pl k n] by (auto split: prod.split_asm option.split_asm)
qed simp

text \<open>The collation of the database is not part of what a write changes.\<close>

lemma persist_collation: "persistBackendEvent ap key e pl = (r, pl') \<Longrightarrow> so_le (pl_stores pl') = so_le (pl_stores pl)"
  by (auto simp: persistBackendEvent_def set_events_def split: prod.split_asm sum.split_asm)

lemma persist_all_collation: "persist_all ap key es pl = (r, pl') \<Longrightarrow> so_le (pl_stores pl') = so_le (pl_stores pl)"
  by (induction es arbitrary: pl) (auto split: prod.split_asm option.split_asm dest: persist_collation)

lemma write_event_collation: "write_event ap key build pl = (r, pl') \<Longrightarrow> so_le (pl_stores pl') = so_le (pl_stores pl)"
  by (auto simp: write_event_def split: sum.split_asm prod.split_asm option.split_asm dest!: persist_collation)

section \<open>Stopping a turn\<close>

lemma refresh_session_frame [simp]:
  "pl_stores (refresh_session ap owner sid pl) = pl_stores pl" "pl_sent (refresh_session ap owner sid pl) = pl_sent pl"
  by (simp_all add: refresh_session_def scoped_refresh_def Let_def split: option.split)

lemma interrupt_stages:
  assumes "handleInterruptSessionTurn ap rand owner session turn pl = (Inr resp, pl')"
  defines "sid \<equiv> TrimSpace session" and "t \<equiv> TrimSpace turn"
  shows "turnIDPattern t \<and> sid \<noteq> [] \<and>
    (target_terminal ap pl sid t \<noteq> None \<and> pl_stores pl' = pl_stores pl \<and> pl_sent pl' = pl_sent pl \<or>
     target_terminal ap pl sid t = None \<and>
     (\<exists>provider pl1. write_event ap (SessionStorageKey (ap_scope ap) sid)
         (\<lambda>seq. TurnInterruptRequestedEventMap (ap_clock ap 1) (ap_clock ap 2) seq (interrupt_args ap owner sid provider t)) pl = (None, pl1) \<and>
        publish_control ap (interrupt_command ap rand owner sid provider t) (''interrupt_'' @ rand 0) ''publish_interrupt_failed: ''
          ''publish interrupt: '' pl1 = (None, pl')))"
  using assms(1) unfolding handleInterruptSessionTurn_def Let_def sid_def [symmetric] t_def [symmetric]
  by (auto split: if_split_asm sum.split_asm option.split_asm prod.split_asm)

lemma accepted_interrupt_facts:
  assumes "handleInterruptSessionTurn ap rand owner session turn pl = (Inr resp, pl')"
  defines "sid \<equiv> TrimSpace session" and "t \<equiv> TrimSpace turn"
  defines "k \<equiv> TrimSpace (SessionStorageKey (ap_scope ap) sid)"
  assumes "target_terminal ap pl sid t = None"
  shows "recorded pl' k (t @ '':turn.interrupt_requested'') \<and> (\<exists>c. sent_both pl pl' c \<and> cm_Type c = CommandInterrupt \<and> cm_TargetTurnID c = t) \<and>
    (\<exists>row. pl_events pl' = snd (insert_row row (pl_events pl)) \<and> er_tank_session_id row = k \<and> er_event_id row = t @ '':turn.interrupt_requested'')"
proof -
  obtain provider pl1 where st: "turnIDPattern t" "sid \<noteq> []"
    "write_event ap (SessionStorageKey (ap_scope ap) sid)
       (\<lambda>seq. TurnInterruptRequestedEventMap (ap_clock ap 1) (ap_clock ap 2) seq (interrupt_args ap owner sid provider t)) pl = (None, pl1)"
    "publish_control ap (interrupt_command ap rand owner sid provider t) (''interrupt_'' @ rand 0) ''publish_interrupt_failed: ''
       ''publish interrupt: '' pl1 = (None, pl')"
    using interrupt_stages [OF assms(1)] assms(5) unfolding sid_def t_def by blast
  obtain event seq where e: "TurnInterruptRequestedEventMap (ap_clock ap 1) (ap_clock ap 2) (pl_sequence pl) (interrupt_args ap owner sid provider t) = Inr (event, seq)"
    "recorded pl1 (storage_key_of (store_scope (ap_scope ap)) event) (event_identity event)" "pl_sent pl1 = pl_sent pl"
    "pl_events pl1 = snd (insert_row (row_of (store_scope (ap_scope ap)) (ap_db_now ap) event) (pl_events pl))"
    using write_event_done [OF st(3)] by blast
  have key: "TrimSpace (SessionStorageKey (ap_scope ap) sid) \<noteq> []"
    unfolding sid_def by (rule session_key_nonempty) (use st(2) in \<open>simp add: sid_def\<close>)
  have id: "event_identity event = t @ '':turn.interrupt_requested''" "storage_key_of (store_scope (ap_scope ap)) event = k"
    using interrupt_event [OF e(1)] st(1) key by (simp_all add: interrupt_args_def k_def)
  have "TrimSpace CommandInterrupt = CommandInterrupt" by code_simp
  then obtain c where "pl_stores pl' = pl_stores pl1" "sent_both pl1 pl' c" "cm_Type c = CommandInterrupt" "cm_TargetTurnID c = t"
    using publish_control_done [OF st(4)] nonce_pattern_trim [OF st(1)] by (auto simp: interrupt_command_def)
  then show ?thesis using e(2-4) id by (auto simp: recorded_def sent_both_def row_of_def)
qed

text \<open>
  C4: an accepted stop is durable and addressed. When a stop is accepted for a turn that has a terminal event, neither the
  ledger nor the bus changes; otherwise the ledger holds the turn's \<open>turn.interrupt_requested\<close> event and both streams have
  accepted one command, the interruption of exactly that turn.
\<close>

theorem accepted_interrupt:
  assumes "handleInterruptSessionTurn ap rand owner session turn pl = (Inr resp, pl')"
  defines "sid \<equiv> TrimSpace session" and "t \<equiv> TrimSpace turn"
  shows "if target_terminal ap pl sid t \<noteq> None then pl_events pl' = pl_events pl \<and> pl_sent pl' = pl_sent pl
    else recorded pl' (TrimSpace (SessionStorageKey (ap_scope ap) sid)) (t @ '':turn.interrupt_requested'') \<and>
      (\<exists>c. pl_sent pl' = pl_sent pl @ [(CommandStreamSubjectForCommand c, c), (SubjectForCommand c, c)] \<and>
         cm_Type c = CommandInterrupt \<and> cm_TargetTurnID c = t)"
proof (cases "target_terminal ap pl sid t")
  case None
  then show ?thesis using accepted_interrupt_facts [OF assms(1)] unfolding sid_def t_def sent_both_def by simp
next
  case (Some a)
  then show ?thesis using interrupt_stages [OF assms(1)] unfolding sid_def t_def by simp
qed

text \<open>An event that is recorded already does not make the ledger grow.\<close>

lemma recorded_no_growth:
  assumes "\<exists>r\<in>set L. er_tank_session_id r = er_tank_session_id row \<and> er_event_id r = er_event_id row"
  shows "length (snd (insert_row row L)) = length L"
proof (cases "identity_clash row L")
  case False
  then have "key_taken row L" using assms by (auto simp: identity_clash_def key_taken_def same_key_def)
  then show ?thesis using False by (simp add: insert_row_def replace_row_def)
qed (simp add: insert_row_def)

text \<open>
  C20: a repeated stop does not grow the ledger. When a stop was accepted and another one for the same turn is accepted next
  (with other clocks and random values), the ledger has as many rows after the second as after the first.
\<close>

theorem double_interrupt_stores_once:
  assumes "handleInterruptSessionTurn ap rand owner session turn pl = (Inr resp, pl1)"
    and "handleInterruptSessionTurn (ap\<lparr>ap_clock := clock, ap_db_now := db_now\<rparr>) rand' owner session turn pl1 = (Inr resp', pl2)"
    and "target_terminal ap pl (TrimSpace session) (TrimSpace turn) = None"
  shows "length (pl_events pl2) = length (pl_events pl1)"
proof -
  let ?ap = "ap\<lparr>ap_clock := clock, ap_db_now := db_now\<rparr>"
  let ?k = "TrimSpace (SessionStorageKey (ap_scope ap) (TrimSpace session))"
  have there: "recorded pl1 ?k (TrimSpace turn @ '':turn.interrupt_requested'')"
    using accepted_interrupt_facts [OF assms(1,3)] by blast
  show ?thesis
  proof (cases "target_terminal ?ap pl1 (TrimSpace session) (TrimSpace turn)")
    case None
    then obtain row where "pl_events pl2 = snd (insert_row row (pl_events pl1))" "er_tank_session_id row = ?k"
      "er_event_id row = TrimSpace turn @ '':turn.interrupt_requested''"
      using accepted_interrupt_facts [OF assms(2)] by auto
    then show ?thesis using recorded_no_growth there unfolding recorded_def by metis
  next
    case (Some a)
    then show ?thesis using interrupt_stages [OF assms(2)] by simp
  qed
qed

text \<open>A chat session whose bus answers every publish alike, and a stop in it.\<close>

definition chat_app :: "string option \<Rightarrow> appServer" where
  "chat_app r = (sample_app (\<lambda>_ _. r))
     \<lparr>ap_cluster := \<lparr>kc_get = (\<lambda>_. PodFound \<lparr>po_Name = ''session-7'', po_Labels = [(''tank-operator/owner'', OwnerLabel ''u@x''),
        (''tank-operator/mode'', ''claude_gui'')], po_Containers = [''claude-runner'']\<rparr>), kc_list = (\<lambda>_. Inr [])\<rparr>\<rparr>"

lemma chat_app_facts:
  "ap_scope (chat_app r) = ''default''" "ap_bus (chat_app r) = Some (\<lambda>_ _. r)" "ap_clock (chat_app r) n = sample_now"
  "control_target (chat_app r) ''u@x'' ''7'' msg = Inr ''claude''"
proof -
  show "ap_scope (chat_app r) = ''default''" "ap_bus (chat_app r) = Some (\<lambda>_ _. r)" "ap_clock (chat_app r) n = sample_now"
    by (simp_all add: chat_app_def sample_app_def)
  have "NormalizeSessionMode ''claude_gui'' = ''claude_gui''" "sdkProviderForMode ''claude_gui'' = Some ''claude''" by code_simp+
  then show "control_target (chat_app r) ''u@x'' ''7'' msg = Inr ''claude''"
    by (simp add: control_target_def Reader_Get_def pod_label_def chat_app_def sample_app_def)
qed

lemma interrupt_runs:
  assumes "turnIDPattern (TrimSpace turn)" "TrimSpace session \<noteq> []" "ap_bus ap = Some (\<lambda>_ _. None)"
    and "control_target ap owner (TrimSpace session) ''session mode does not support app chat turns'' = Inr provider"
    and "provider \<in> {''claude'', ''codex''}" "\<And>n. valid_gotime (ap_clock ap n)"
  shows "\<exists>resp pl'. handleInterruptSessionTurn ap rand owner session turn pl = (Inr resp, pl')"
proof (cases "target_terminal ap pl (TrimSpace session) (TrimSpace turn)")
  case None
  define sid t key where "sid = TrimSpace session" and "t = TrimSpace turn" and "key = SessionStorageKey (ap_scope ap) sid"
  have t: "turnIDPattern t" "t \<noteq> []" "sid \<noteq> []" using assms(1,2) by (auto simp: t_def sid_def turnIDPattern_def)
  have key: "TrimSpace key \<noteq> []" unfolding key_def sid_def by (rule session_key_nonempty) (rule assms(2))
  let ?build = "\<lambda>seq. TurnInterruptRequestedEventMap (ap_clock ap 1) (ap_clock ap 2) seq (interrupt_args ap owner sid provider t)"
  obtain event where ev: "?build (pl_sequence pl) = Inr (event, add1_int64 (pl_sequence pl))" "well_formed_event event"
    using TurnInterruptRequested_valid [of "ap_clock ap 1" "interrupt_args ap owner sid provider t"
        "ap_clock ap 2" "pl_sequence pl"] assms(6) t by (auto simp: interrupt_args_def)
  have "storable (store_scope (ap_scope ap)) event"
    using interrupt_storable [OF ev] t(1) key by (simp add: interrupt_args_def key_def)
  then obtain pl1 where w: "write_event ap key ?build pl = (None, pl1)"
    using write_event_ok [of ?build pl event] ev(1) by (metis prod.collapse)
  let ?c = "Normalize (interrupt_command ap rand owner sid provider t)"
  have "CHR '':'' \<in> set (TrimSpace (''interrupt:'' @ x))" for x by (rule TrimSpace_keeps) (simp_all add: visible_def byte_of_def)
  then have "TrimSpace (''interrupt:'' @ x) \<noteq> []" for x by (metis empty_iff empty_set)
  moreover have "TrimSpace ''claude'' = ''claude''" "TrimSpace ''codex'' = ''codex''" "TrimSpace CommandInterrupt = CommandInterrupt" "CommandInterrupt \<noteq> []"
    by code_simp+
  ultimately have "cm_CommandID ?c \<noteq> []" "cm_Type ?c \<noteq> []" "cm_Provider ?c \<noteq> []" "cm_SessionStorageKey ?c \<noteq> []"
    using assms(5) key by (auto simp: Normalize_def interrupt_command_def control_command_def key_def)
  then have "fst (publish_control ap (interrupt_command ap rand owner sid provider t) turnID reason what q) = None" for turnID reason what q
    using assms(3) by (simp add: publish_control_def PublishCommand_def Let_def)
  then obtain pl2 where "publish_control ap (interrupt_command ap rand owner sid provider t) (''interrupt_'' @ rand 0) ''publish_interrupt_failed: ''
      ''publish interrupt: '' pl1 = (None, pl2)" by (metis prod.collapse)
  then show ?thesis
    using None t w assms(4) by (simp add: handleInterruptSessionTurn_def Let_def sid_def t_def key_def)
next
  case (Some terminal)
  have "TrimSpace turn \<noteq> []" using assms(1) by (auto simp: turnIDPattern_def)
  then show ?thesis using Some assms(1,2,4) by (simp add: handleInterruptSessionTurn_def Let_def)
qed

lemma chat_interrupt:
  "\<exists>resp pl'. handleInterruptSessionTurn ((chat_app None)\<lparr>ap_clock := (\<lambda>_. sample_now), ap_db_now := n\<rparr>) rand ''u@x'' ''7'' ''t1'' pl = (Inr resp, pl')"
proof -
  have "turnIDPattern ''t1''" "TrimSpace ''t1'' = ''t1''" "TrimSpace ''7'' = ''7''" by code_simp+
  moreover have "control_target ((chat_app None)\<lparr>ap_clock := (\<lambda>_. sample_now), ap_db_now := n\<rparr>) ''u@x'' ''7'' msg = Inr ''claude''" for msg
    using chat_app_facts(4) [of None msg] by (simp add: control_target_def cong: option.case_cong)
  ultimately show ?thesis
    by (intro interrupt_runs [where provider = "''claude''"]) (simp_all add: chat_app_facts sample_now_valid)
qed

lemma chat_app_same: "(chat_app None)\<lparr>ap_clock := (\<lambda>_. sample_now), ap_db_now := 0\<rparr> = chat_app None"
  by (simp add: chat_app_def sample_app_def)

theorem accepted_interrupt_witness:
  "recorded (snd (handleInterruptSessionTurn (chat_app None) (\<lambda>_. []) ''u@x'' ''7'' ''t1'' sample_plane)) ''7'' ''t1:turn.interrupt_requested''"
proof -
  obtain resp pl' where run: "handleInterruptSessionTurn (chat_app None) (\<lambda>_. []) ''u@x'' ''7'' ''t1'' sample_plane = (Inr resp, pl')"
    using chat_interrupt [of 0 "\<lambda>_. []" sample_plane] by (auto simp: chat_app_same)
  have "TrimSpace ''t1'' = ''t1''" "TrimSpace ''7'' = ''7''" "TrimSpace (SessionStorageKey ''default'' ''7'') = ''7''" by code_simp+
  moreover have "target_terminal (chat_app None) sample_plane ''7'' ''t1'' = None"
    by (simp add: target_terminal_def FindTurnTerminal_def rows_asc_def sort_by_def last_row_def sample_plane_def sample_stores_def)
  ultimately show ?thesis using accepted_interrupt [OF run] run by (simp add: chat_app_facts)
qed

theorem double_interrupt_stores_once_witness:
  "\<exists>pl1 pl2 resp. handleInterruptSessionTurn (chat_app None) (\<lambda>_. []) ''u@x'' ''7'' ''t1'' sample_plane = (Inr resp, pl1) \<and>
     pl2 = snd (handleInterruptSessionTurn ((chat_app None)\<lparr>ap_clock := (\<lambda>_. sample_now), ap_db_now := 9\<rparr>) (\<lambda>_. ''x'') ''u@x'' ''7'' ''t1'' pl1) \<and>
     length (pl_events pl2) = length (pl_events pl1)"
proof -
  obtain resp pl1 where one: "handleInterruptSessionTurn (chat_app None) (\<lambda>_. []) ''u@x'' ''7'' ''t1'' sample_plane = (Inr resp, pl1)"
    using chat_interrupt [of 0 "\<lambda>_. []" sample_plane] by (auto simp: chat_app_same)
  obtain resp' pl2 where two: "handleInterruptSessionTurn ((chat_app None)\<lparr>ap_clock := (\<lambda>_. sample_now), ap_db_now := 9\<rparr>) (\<lambda>_. ''x'')
      ''u@x'' ''7'' ''t1'' pl1 = (Inr resp', pl2)" using chat_interrupt [of 9] by blast
  have "TrimSpace ''t1'' = ''t1''" "TrimSpace ''7'' = ''7''" by code_simp+
  then have "target_terminal (chat_app None) sample_plane (TrimSpace ''7'') (TrimSpace ''t1'') = None"
    by (simp add: target_terminal_def FindTurnTerminal_def rows_asc_def sort_by_def last_row_def sample_plane_def sample_stores_def)
  from double_interrupt_stores_once [OF one two this] show ?thesis using one two by (metis snd_conv)
qed

text \<open>
  C40: a turn of a long nonce cannot be stopped or answered. The submit boundary accepts client nonces of up to 80 characters,
  but the turn identity of a canonical nonce of more than 75 characters is longer than 80 and is refused by the handlers
  that take a turn identity, whatever the state.
\<close>

theorem long_nonce_turn_cannot_be_stopped:
  assumes "canonical_nonce nonce" "75 < length nonce" "CHR '':'' \<notin> set nonce"
  shows "turnIDPattern nonce \<and>
    fst (handleInterruptSessionTurn ap rand owner session (TurnIDForClientNonce nonce) pl) =
      Inl (400, ''turn_id is required and must match turn id syntax'')"
proof -
  have safe: "list_all safe_char nonce" "6 \<le> length nonce" "length nonce \<le> 80" using assms(1) by (simp_all add: canonical_nonce_def)
  then have ok: "turnIDPattern nonce"
    using assms(3) by (auto simp: turnIDPattern_def nonce_char_def list_all_iff)
  have t: "TurnIDForClientNonce nonce = ''turn_'' @ nonce" using TurnIDForClientNonce_shape assms(1) by blast
  have "TrimSpace (TurnIDForClientNonce nonce) = TurnIDForClientNonce nonce" using TrimSpace_visible [OF TurnID_visible] .
  moreover have "\<not> turnIDPattern (TurnIDForClientNonce nonce)" using assms(2) by (simp add: turnIDPattern_def t)
  ultimately show ?thesis using ok by (simp add: handleInterruptSessionTurn_def Let_def)
qed


theorem long_nonce_turn_cannot_be_stopped_witness:
  "fst (handleInterruptSessionTurn (chat_app None) (\<lambda>_. []) ''u@x'' ''7'' (TurnIDForClientNonce (replicate 76 CHR ''a'')) sample_plane) =
     Inl (400, ''turn_id is required and must match turn id syntax'')"
proof -
  have "canonical_nonce (replicate 76 CHR ''a'')"
  proof -
    have "\<not> sublist ''--'' (replicate 76 CHR ''a'')" using set_mono_sublist by fastforce
    then show ?thesis by (simp add: canonical_nonce_def safe_char_def byte_of_def list_all_iff)
  qed
  moreover have "75 < length (replicate 76 CHR ''a'')" "CHR '':'' \<notin> set (replicate 76 CHR ''a'')" by simp_all
  ultimately show ?thesis using long_nonce_turn_cannot_be_stopped by blast
qed

end
