(* ===== verification/Launch_Queue.thy ===== *)
theory Launch_Queue
  imports Launch_Dispatch Leases Turn_Control_Facts
begin

text \<open>
  What the launch queue guarantees, whatever registrations, uploads, claims, dispatches and sweeps any number of processes
  run on it and in whatever order: the queue meets the contract \<open>lease_table\<close> of \<open>Leases\<close>, a launch is claimed only with all
  its attachments, and the staged bytes of a launch that is over are gone.
\<close>

section \<open>Statements\<close>

definition keeps_key :: "(PendingLaunchTurn \<Rightarrow> PendingLaunchTurn) \<Rightarrow> bool" where
  "keeps_key f \<longleftrightarrow> (\<forall>r. launch_key (f r) = launch_key r \<and> lt_AttachmentCount (f r) = lt_AttachmentCount r)"

lemma keys_update [simp]: "keeps_key f \<Longrightarrow> map launch_key (ld_launches (update_launches p f db)) = map launch_key (ld_launches db)"
  by (simp add: update_launches_def keeps_key_def)

lemma find_update:
  "keeps_key f \<Longrightarrow> find_launch k (ld_launches (update_launches p f db)) =
     map_option (\<lambda>r. if p r then f r else r) (find_launch k (ld_launches db))"
  unfolding find_launch_def update_launches_def by (simp add: keeps_key_def find_map_same)

lemma find_launch_member: "distinct (map launch_key T) \<Longrightarrow> r \<in> set T \<Longrightarrow> find_launch (launch_key r) T = Some r"
  by (induction T) (auto simp: find_launch_def)

lemma find_launchD: "find_launch k T = Some r \<Longrightarrow> r \<in> set T \<and> launch_key r = k"
  unfolding find_launch_def by (rule find_hit)

lemma find_launch_append:
  "find_launch k (T @ [r]) = (case find_launch k T of Some x \<Rightarrow> Some x | None \<Rightarrow> if launch_key r = k then Some r else None)"
  by (simp add: find_launch_def find_append split: option.split)

lemma find_launch_None: "find_launch k T = None \<longleftrightarrow> k \<notin> launch_key ` set T"
  by (auto simp: find_launch_def find_None_iff)

lemma blobs_of_frame [simp]:
  "blobs_of k (update_launches p f db) = blobs_of k db" "blobs_of k (db\<lparr>ld_launches := T\<rparr>) = blobs_of k db"
  "ld_blobs (update_launches p f db) = ld_blobs db"
  by (simp_all add: blobs_of_def update_launches_def)

lemma blobs_of_drop [simp]: "blobs_of k (drop_blobs k' db) = (if k = k' then [] else blobs_of k db)"
  by (auto simp: blobs_of_def drop_blobs_def filter_empty_conv intro!: arg_cong [where f = "map snd"] filter_cong)

lemma launches_drop [simp]: "ld_launches (drop_blobs k db) = ld_launches db"
  by (simp add: drop_blobs_def)

text \<open>Storing bytes keeps the slots of a launch apart and never loses one.\<close>

definition slot :: "launch_key \<times> LaunchAttachmentBlob \<Rightarrow> launch_key \<times> int" where
  "slot kb = (fst kb, lb_Ordinal (snd kb))"

lemma put_blob_slots:
  "put_blob k b bs =
     (if (k, lb_Ordinal b) \<in> slot ` set bs then map (\<lambda>kb. if slot kb = (k, lb_Ordinal b) then (k, b) else kb) bs else bs @ [(k, b)])"
proof -
  have "(\<exists>(k', b')\<in>set bs. k' = k \<and> lb_Ordinal b' = lb_Ordinal b) \<longleftrightarrow> (k, lb_Ordinal b) \<in> slot ` set bs"
    by (force simp: slot_def)
  moreover have "(\<lambda>(k', b'). if k' = k \<and> lb_Ordinal b' = lb_Ordinal b then (k, b) else (k', b')) =
      (\<lambda>kb. if slot kb = (k, lb_Ordinal b) then (k, b) else kb)"
    by (auto simp: slot_def fun_eq_iff)
  ultimately show ?thesis by (simp only: put_blob_def)
qed

lemma slots_put:
  "map slot (put_blob k b bs) = (if (k, lb_Ordinal b) \<in> slot ` set bs then map slot bs else map slot bs @ [(k, lb_Ordinal b)])"
proof -
  have sl: "slot (k, b) = (k, lb_Ordinal b)" by (simp add: slot_def)
  have g: "slot (if slot kb = (k, lb_Ordinal b) then (k, b) else kb) = slot kb" for kb using sl by (cases "slot kb = (k, lb_Ordinal b)") simp_all
  show ?thesis unfolding put_blob_slots by (simp only: map_map comp_def g map_append list.map sl split: if_split) simp
qed

lemma set_put: "kb \<in> set (put_blob k b bs) \<Longrightarrow> kb = (k, b) \<or> kb \<in> set bs"
  unfolding put_blob_slots by (auto split: if_split_asm)

lemma blob_count: "length (blobs_of k db) = length (filter (\<lambda>s. fst s = k) (map slot (ld_blobs db)))"
  by (simp add: blobs_of_def filter_map comp_def slot_def case_prod_unfold)

lemma put_keeps_count: "length (blobs_of k db) \<le> length (blobs_of k (db\<lparr>ld_blobs := put_blob k' b (ld_blobs db)\<rparr>))"
  by (simp add: blob_count slots_put)

section \<open>The invariant\<close>

definition launch_row_ok :: "launch_db \<Rightarrow> PendingLaunchTurn \<Rightarrow> bool" where
  "launch_row_ok db r \<longleftrightarrow> trim_key (lt_TankSessionID r) (lt_TurnID r) = launch_key r \<and>
     (lt_Status r = PendingLaunchClaiming \<longrightarrow> lt_locked_at r \<noteq> None) \<and>
     (lt_Status r \<in> {PendingLaunchReady, PendingLaunchClaiming} \<longrightarrow> lt_AttachmentCount r \<le> int (length (blobs_of (launch_key r) db)))"

definition blob_ok :: "launch_db \<Rightarrow> launch_key \<times> LaunchAttachmentBlob \<Rightarrow> bool" where
  "blob_ok db kb \<longleftrightarrow>
     (\<exists>r. find_launch (fst kb) (ld_launches db) = Some r \<and> launch_live r \<and> 0 \<le> lb_Ordinal (snd kb) \<and> lb_Ordinal (snd kb) < lt_AttachmentCount r)"

definition queue_ok :: "launch_db \<Rightarrow> bool" where
  "queue_ok db \<longleftrightarrow> distinct (map launch_key (ld_launches db)) \<and> distinct (map slot (ld_blobs db)) \<and>
     (\<forall>r\<in>set (ld_launches db). launch_row_ok db r) \<and> (\<forall>kb\<in>set (ld_blobs db). blob_ok db kb)"

text \<open>An update of launches that stay live, and the closing of one launch.\<close>

lemma queue_ok_update:
  assumes "queue_ok db" "keeps_key f"
    and "\<And>r. r \<in> set (ld_launches db) \<Longrightarrow> p r \<Longrightarrow> launch_live (f r) \<and> launch_row_ok db (f r)"
  shows "queue_ok (update_launches p f db)"
proof -
  have rows: "launch_row_ok (update_launches p f db) r" if r: "r \<in> set (ld_launches (update_launches p f db))" for r
  proof -
    obtain r0 where "r0 \<in> set (ld_launches db)" "r = (if p r0 then f r0 else r0)" using r by (auto simp: update_launches_def)
    then have "launch_row_ok db r" using assms(1,3) by (auto simp: queue_ok_def)
    then show ?thesis by (simp add: launch_row_ok_def)
  qed
  have "blob_ok (update_launches p f db) kb" if kb: "blob_ok db kb" for kb
  proof -
    obtain r where r: "find_launch (fst kb) (ld_launches db) = Some r" "launch_live r" "0 \<le> lb_Ordinal (snd kb)"
      "lb_Ordinal (snd kb) < lt_AttachmentCount r" using kb by (auto simp: blob_ok_def)
    then have "p r \<Longrightarrow> launch_live (f r)" using assms(3) find_launchD by blast
    then show ?thesis using r assms(2) by (auto simp: blob_ok_def find_update keeps_key_def)
  qed
  then show ?thesis using assms(1,2) rows by (simp add: queue_ok_def)
qed

lemma queue_ok_close:
  assumes "queue_ok db" "keeps_key f"
    and "\<And>r. lt_TankSessionID (f r) = lt_TankSessionID r \<and> lt_TurnID (f r) = lt_TurnID r \<and>
      lt_Status (f r) \<in> {PendingLaunchDispatched, PendingLaunchFailed}"
  shows "queue_ok (drop_blobs k (update_launches (\<lambda>r. launch_key r = k) f db))"
proof -
  let ?db = "drop_blobs k (update_launches (\<lambda>r. launch_key r = k) f db)"
  have "launch_row_ok ?db r" if r: "r \<in> set (ld_launches ?db)" for r
  proof -
    obtain r0 where r0: "r0 \<in> set (ld_launches db)" "r = (if launch_key r0 = k then f r0 else r0)" using r by (auto simp: update_launches_def)
    have "lt_Status (f r0) \<noteq> PendingLaunchReady" "lt_Status (f r0) \<noteq> PendingLaunchClaiming" using assms(3) [of r0] by auto
    moreover have "launch_row_ok db r0" using assms(1) r0(1) by (simp add: queue_ok_def)
    ultimately show ?thesis
      using assms(2) assms(3) [of r0] r0(2) by (cases "launch_key r0 = k") (simp_all add: launch_row_ok_def keeps_key_def)
  qed
  moreover have "blob_ok ?db kb" if kb: "kb \<in> set (ld_blobs ?db)" for kb
  proof -
    have kb: "kb \<in> set (ld_blobs db)" "fst kb \<noteq> k" using kb by (auto simp: drop_blobs_def)
    then obtain r where "find_launch (fst kb) (ld_launches db) = Some r" "launch_live r" "0 \<le> lb_Ordinal (snd kb)"
      "lb_Ordinal (snd kb) < lt_AttachmentCount r" "launch_key r = fst kb"
      using assms(1) find_launchD by (fastforce simp: queue_ok_def blob_ok_def)
    then show ?thesis using kb(2) assms(2) by (simp add: blob_ok_def find_update)
  qed
  moreover have "distinct (map slot (ld_blobs ?db))"
    using assms(1) by (auto simp: queue_ok_def drop_blobs_def distinct_map intro: inj_on_subset)
  ultimately show ?thesis using assms(1,2) by (simp add: queue_ok_def)
qed

lemma mark_close: "queue_ok db \<Longrightarrow> queue_ok (MarkDispatched clock a b t db)" "queue_ok db \<Longrightarrow> queue_ok (launch_MarkFailed clock a b reason db)"
  unfolding MarkDispatched_def launch_MarkFailed_def Let_def by (rule queue_ok_close; simp add: keeps_key_def launch_key_def)+

lemma register_ok:
  assumes "queue_ok db"
  shows "queue_ok (snd (launch_Register store clock req db))"
proof -
  let ?row = "requested_launch store clock req"
  have trimmed: "trim_key (lt_TankSessionID ?row) (lt_TurnID ?row) = launch_key ?row"
    by (simp add: trim_key_def requested_launch_def Let_def launch_key_def)
  have row: "launch_row_ok (db\<lparr>ld_launches := ld_launches db @ [?row]\<rparr>) ?row"
    using trimmed by (auto simp: launch_row_ok_def requested_launch_def Let_def)
  show ?thesis
  proof (cases "find_launch (launch_key ?row) (ld_launches db)")
    case None
    have "blob_ok (db\<lparr>ld_launches := ld_launches db @ [?row]\<rparr>) kb" if "blob_ok db kb" for kb
      using that by (auto simp: blob_ok_def find_launch_append)
    moreover have old: "launch_row_ok (db\<lparr>ld_launches := ld_launches db @ [?row]\<rparr>) r = launch_row_ok db r" for r
      by (simp add: launch_row_ok_def)
    moreover have "TrimSpace (rl_SessionID req) = [] \<or> TrimSpace (rl_TurnID req) = [] \<or>
        snd (launch_Register store clock req db) = db\<lparr>ld_launches := ld_launches db @ [?row]\<rparr>"
      by (simp add: launch_Register_def None Let_def)
    moreover have "launch_key ?row \<notin> launch_key ` set (ld_launches db)" using None by (simp add: find_launch_None)
    ultimately show ?thesis
      using assms row by (auto simp: launch_Register_def queue_ok_def)
  qed (use assms in \<open>simp add: launch_Register_def Let_def\<close>)
qed

lemma stage_ok:
  assumes "queue_ok db" "find_launch (trim_key a b) (ld_launches db) = Some r0" "0 \<le> lb_Ordinal blob" "lb_Ordinal blob < lt_AttachmentCount r0"
  shows "queue_ok (snd (StageAttachment clock a b blob db))"
proof -
  define k where "k = trim_key a b"
  define blob' where "blob' = blob\<lparr>lb_Name := TrimSpace (lb_Name blob), lb_ContentType := TrimSpace (lb_ContentType blob)\<rparr>"
  define db' where "db' = db\<lparr>ld_blobs := put_blob k blob' (ld_blobs db)\<rparr>"
  have r0: "find_launch k (ld_launches db) = Some r0" using assms(2) by (simp add: k_def)
  have ok: "queue_ok db'" if live: "lt_Status r0 \<in> {PendingLaunchAwaitingBytes, PendingLaunchReady}"
  proof -
    have "distinct (map slot (ld_blobs db'))" using assms(1) by (auto simp: db'_def queue_ok_def slots_put)
    moreover have "launch_row_ok db' r" if "launch_row_ok db r" for r
      using that put_keeps_count [of "launch_key r" db k blob'] by (auto simp: launch_row_ok_def db'_def)
    moreover have "blob_ok db' kb" if "kb \<in> set (ld_blobs db')" for kb
    proof -
      have "blob_ok db (k, blob')" using r0 live assms(3,4) by (auto simp: blob_ok_def launch_live_def blob'_def)
      then have "blob_ok db kb"
        using set_put [of kb k blob' "ld_blobs db"] that assms(1) by (auto simp: db'_def queue_ok_def)
      then show ?thesis by (simp add: blob_ok_def db'_def)
    qed
    ultimately show ?thesis using assms(1) by (simp add: queue_ok_def db'_def)
  qed
  have "queue_ok (update_launches (\<lambda>r. launch_key r = k \<and> lt_Status r = PendingLaunchAwaitingBytes)
      (\<lambda>r. r\<lparr>lt_Status := PendingLaunchReady, lt_updated_at := clock\<rparr>) db')"
    if "lt_Status r0 \<in> {PendingLaunchAwaitingBytes, PendingLaunchReady}" "lt_AttachmentCount r0 \<le> int (length (blobs_of k db'))"
  proof (rule queue_ok_update [OF ok [OF that(1)]])
    fix r assume r: "r \<in> set (ld_launches db')" "launch_key r = k \<and> lt_Status r = PendingLaunchAwaitingBytes"
    then have "r = r0" using r0 find_launch_member [of "ld_launches db" r] assms(1) by (auto simp: db'_def queue_ok_def)
    then show "launch_live (r\<lparr>lt_Status := PendingLaunchReady, lt_updated_at := clock\<rparr>) \<and>
        launch_row_ok db' (r\<lparr>lt_Status := PendingLaunchReady, lt_updated_at := clock\<rparr>)"
      using r that(2) ok [OF that(1)] by (auto simp: launch_live_def launch_row_ok_def queue_ok_def launch_key_def)
  qed (simp add: keeps_key_def launch_key_def)
  then show ?thesis
    using assms(1) r0 ok unfolding StageAttachment_def Let_def k_def [symmetric] blob'_def [symmetric] db'_def [symmetric]
    by (auto simp: db'_def [symmetric])
qed

lemma claim_keysD:
  assumes "queue_ok db" "k \<in> set (claim_keys sdb scope locked now limit stale db)"
  shows "\<exists>r. find_launch k (ld_launches db) = Some r \<and> launch_claimable sdb scope now (effective_stale stale) r \<and> \<not> locked k"
proof -
  obtain r where "r \<in> set (ld_launches db)" "launch_claimable sdb scope now (effective_stale stale) r" "\<not> locked k" "launch_key r = k"
    using assms(2) in_set_takeD unfolding claim_keys_def by fastforce
  then show ?thesis using find_launch_member assms(1) unfolding queue_ok_def by blast
qed

lemma claimed_launch_simps [simp]:
  "launch_key (claimed_launch clock now r) = launch_key r" "keeps_key (claimed_launch clock now)"
  "lt_Status (claimed_launch clock now r) = PendingLaunchClaiming" "lt_locked_at (claimed_launch clock now r) = Some now"
  by (simp_all add: claimed_launch_def launch_key_def keeps_key_def)

lemma claim_ok:
  assumes "queue_ok db"
  shows "queue_ok (snd (ClaimReady sdb scope locked clock now limit stale db))"
proof -
  let ?ks = "claim_keys sdb scope locked now limit stale db"
  have "queue_ok (update_launches (\<lambda>r. launch_key r \<in> set ?ks) (claimed_launch clock now) db)"
  proof (rule queue_ok_update [OF assms])
    fix r assume r: "r \<in> set (ld_launches db)" "launch_key r \<in> set ?ks"
    then have "launch_claimable sdb scope now (effective_stale stale) r" "launch_row_ok db r"
      using claim_keysD [OF assms r(2)] find_launch_member [of "ld_launches db" r] assms by (auto simp: queue_ok_def)
    then show "launch_live (claimed_launch clock now r) \<and> launch_row_ok db (claimed_launch clock now r)"
      by (auto simp: launch_live_def launch_row_ok_def launch_claimable_def claimed_launch_def launch_key_def)
  qed simp
  then show ?thesis by (simp add: ClaimReady_def Let_def)
qed

lemma claimed_rows:
  "map launch_key (fst (ClaimReady sdb scope locked clock now limit stale db)) =
     filter (\<lambda>k. k \<in> set (claim_keys sdb scope locked now limit stale db)) (map launch_key (ld_launches db))"
  by (simp add: ClaimReady_def Let_def filter_map comp_def)

section \<open>The operations of the program on the queue\<close>

datatype launch_op =
    LaunchRegister int RegisterPendingLaunchRequest
  | LaunchUpload appServer string string "int option" string string string string
  | LaunchClaim sessions_db "launch_key \<Rightarrow> bool" int int int int
  | LaunchDispatch appServer "string \<Rightarrow> string \<Rightarrow> string \<Rightarrow> string option" gotime PendingLaunchTurn
  | LaunchStale "nat \<Rightarrow> appServer" gotime

fun launch_step :: "string \<Rightarrow> launch_op \<Rightarrow> launch_desk \<Rightarrow> launch_desk" where
  "launch_step store (LaunchRegister clock req) d = d\<lparr>la_db := snd (launch_Register store clock req (la_db d))\<rparr>"
| "launch_step store (LaunchUpload ap owner session ordinal nonce rawName contentType body) d =
     snd (handleStageLaunchAttachment ap owner session ordinal nonce rawName contentType body d)"
| "launch_step store (LaunchClaim sdb locked clock now limit stale) d =
     d\<lparr>la_db := snd (ClaimReady sdb store locked clock now limit stale (la_db d))\<rparr>"
| "launch_step store (LaunchDispatch ap wr now launch) d = dispatch_or_fail ap wr now launch d"
| "launch_step store (LaunchStale aps now) d = processStaleLaunches aps now d"

fun launch_handed :: "string \<Rightarrow> launch_op \<Rightarrow> launch_desk \<Rightarrow> launch_key list" where
  "launch_handed store (LaunchClaim sdb locked clock now limit stale) d =
     map launch_key (fst (ClaimReady sdb store locked clock now limit stale (la_db d)))"
| "launch_handed store a d = []"

fun launch_moment :: "launch_op \<Rightarrow> int" where
  "launch_moment (LaunchClaim sdb locked clock now limit stale) = now"
| "launch_moment a = 0"

fun launch_patience :: "launch_op \<Rightarrow> int" where
  "launch_patience (LaunchClaim sdb locked clock now limit stale) = effective_stale stale"
| "launch_patience a = 0"

text \<open>Dispatching and failing only ever close launches.\<close>

inductive closes :: "launch_db \<Rightarrow> launch_db \<Rightarrow> bool" where
  kept: "closes db db"
| dispatched: "closes db db' \<Longrightarrow> closes db (MarkDispatched clock a b t db')"
| failed: "closes db db' \<Longrightarrow> closes db (launch_MarkFailed clock a b reason db')"

lemma closes_trans: "closes b c \<Longrightarrow> closes a b \<Longrightarrow> closes a c"
  by (induction rule: closes.induct) (auto intro: closes.intros)

lemma fail_closes: "la_db (snd (failPendingLaunch ap launch now reason d)) =
    launch_MarkFailed (ap_db_now ap) (lt_TankSessionID launch) (lt_TurnID launch) reason (la_db d)"
  by (simp add: failPendingLaunch_def Let_def split: prod.split)

lemma dispatch_closes: "closes (la_db d) (la_db (snd (dispatchPendingLaunch ap wr launch now d)))"
  unfolding dispatchPendingLaunch_def Let_def
  by (auto split: option.split prod.split sum.split intro: closes.intros)

lemma dispatch_or_fail_closes: "closes (la_db d) (la_db (dispatch_or_fail ap wr now launch d))"
  using dispatch_closes [of d ap wr launch now]
  by (auto simp: dispatch_or_fail_def fail_closes split: prod.split option.split intro: closes.failed)

lemma stale_closes: "closes (la_db d) (la_db (processStaleLaunches aps now d))"
proof -
  have "closes (la_db d) (la_db (fold (\<lambda>(i, launch) d. snd (failPendingLaunch (aps i) launch now (stale_reason launch) d)) rows d))" for rows
  proof (induction rows arbitrary: d)
    case (Cons row rows)
    have "closes (la_db d) (la_db (snd (failPendingLaunch (aps (fst row)) (snd row) now (stale_reason (snd row)) d)))"
      by (simp add: fail_closes closes.intros)
    from closes_trans [OF Cons.IH this] show ?case by (simp add: case_prod_unfold)
  qed (simp add: closes.kept)
  then show ?thesis by (simp add: processStaleLaunches_def Let_def)
qed

lemma closes_ok: "closes db db' \<Longrightarrow> queue_ok db \<Longrightarrow> queue_ok db'"
  by (induction rule: closes.induct) (auto intro: mark_close)

lemma upload_cases:
  "la_db (snd (handleStageLaunchAttachment ap owner session ordinal nonce rawName contentType body d)) = la_db d \<or>
   (\<exists>a b r blob. find_launch (trim_key a b) (ld_launches (la_db d)) = Some r \<and> 0 \<le> lb_Ordinal blob \<and> lb_Ordinal blob < lt_AttachmentCount r \<and>
      la_db (snd (handleStageLaunchAttachment ap owner session ordinal nonce rawName contentType body d)) =
        snd (StageAttachment (ap_db_now ap) a b blob (la_db d)))"
proof -
  let ?a = "SessionStorageKey (ap_scope ap) (TrimSpace session)" and ?b = "TurnIDForClientNonce (TrimSpace nonce)"
  let ?k = "trim_key ?a ?b" and ?bytes = "take maxRawBytes body"
  show ?thesis
  proof (cases "\<exists>n r. ordinal = Some n \<and> 0 \<le> n \<and> find_launch ?k (ld_launches (la_db d)) = Some r \<and> n < lt_AttachmentCount r")
    case True
    then obtain n r where n: "ordinal = Some n" "0 \<le> n" "find_launch ?k (ld_launches (la_db d)) = Some r" "n < lt_AttachmentCount r" by auto
    let ?blob = "\<lparr>lb_Ordinal = n, lb_Name = TrimSpace rawName, lb_ContentType = contentType, lb_Size = int (length ?bytes), lb_Bytes = ?bytes\<rparr>"
    have "la_db (snd (handleStageLaunchAttachment ap owner session ordinal nonce rawName contentType body d)) \<in>
        {la_db d, snd (StageAttachment (ap_db_now ap) ?a ?b ?blob (la_db d))}"
      using n by (auto simp: handleStageLaunchAttachment_def launch_Get_def Let_def case_prod_unfold)
    moreover have "find_launch (trim_key ?a ?b) (ld_launches (la_db d)) = Some r \<and> 0 \<le> lb_Ordinal ?blob \<and> lb_Ordinal ?blob < lt_AttachmentCount r"
      using n by simp
    ultimately show ?thesis unfolding insert_iff by blast
  next
    case False
    then have "la_db (snd (handleStageLaunchAttachment ap owner session ordinal nonce rawName contentType body d)) = la_db d"
      by (cases ordinal; cases "find_launch ?k (ld_launches (la_db d))"; cases "0 \<le> the ordinal") (simp_all add: handleStageLaunchAttachment_def launch_Get_def Let_def)
    then show ?thesis ..
  qed
qed

lemma launch_step_ok: "queue_ok (la_db d) \<Longrightarrow> queue_ok (la_db (launch_step store a d))"
proof (cases a)
  case (LaunchUpload ap owner session ordinal nonce rawName contentType body)
  then show "queue_ok (la_db d) \<Longrightarrow> ?thesis"
    using upload_cases [of ap owner session ordinal nonce rawName contentType body d] stage_ok by auto
qed (auto intro: register_ok claim_ok closes_ok [OF dispatch_or_fail_closes] closes_ok [OF stale_closes])

section \<open>The lease contract\<close>

definition launch_row_phase :: "PendingLaunchTurn \<Rightarrow> wake_phase" where
  "launch_row_phase r =
     (case lt_Status r of
        PendingLaunchAwaitingBytes \<Rightarrow> Open
      | PendingLaunchReady \<Rightarrow> Open
      | PendingLaunchClaiming \<Rightarrow> (case lt_locked_at r of None \<Rightarrow> Closed | Some t \<Rightarrow> Leased t)
      | _ \<Rightarrow> Closed)"

definition launch_phase :: "launch_key \<Rightarrow> launch_desk \<Rightarrow> wake_phase" where
  "launch_phase k d = (case find_launch k (ld_launches (la_db d)) of None \<Rightarrow> Absent | Some r \<Rightarrow> launch_row_phase r)"

lemma handed_key:
  assumes "queue_ok db"
  shows "k \<in> set (map launch_key (fst (ClaimReady sdb store locked clock now limit stale db))) \<longleftrightarrow>
    k \<in> set (claim_keys sdb store locked now limit stale db)"
proof -
  have "k \<in> launch_key ` set (ld_launches db)" if "k \<in> set (claim_keys sdb store locked now limit stale db)"
    using claim_keysD [OF assms that] find_launchD by blast
  then show ?thesis by (auto simp: claimed_rows)
qed

lemma claim_step_find:
  "find_launch k (ld_launches (snd (ClaimReady sdb store locked clock now limit stale db))) =
     map_option (\<lambda>r. if launch_key r \<in> set (claim_keys sdb store locked now limit stale db) then claimed_launch clock now r else r)
       (find_launch k (ld_launches db))"
  by (simp add: ClaimReady_def Let_def find_update)

lemma mark_find:
  "find_launch k (ld_launches (MarkDispatched clock a b t db)) = map_option (\<lambda>r. if launch_key r = trim_key a b
     then r\<lparr>lt_Status := PendingLaunchDispatched, lt_DispatchedTurnID := TrimSpace t, lt_LastError := [],
            lt_locked_at := None, lt_updated_at := clock, lt_dispatched_at := Some clock\<rparr> else r) (find_launch k (ld_launches db))"
  "find_launch k (ld_launches (launch_MarkFailed clock a b reason db)) = map_option (\<lambda>r. if launch_key r = trim_key a b
     then r\<lparr>lt_Status := PendingLaunchFailed, lt_LastError := left_text 2000 (TrimSpace reason), lt_locked_at := None,
            lt_updated_at := clock\<rparr> else r) (find_launch k (ld_launches db))"
  unfolding MarkDispatched_def launch_MarkFailed_def Let_def launches_drop by (rule find_update; simp add: keeps_key_def launch_key_def)+

lemma marked_phase:
  "launch_row_phase (r\<lparr>lt_Status := PendingLaunchDispatched, lt_DispatchedTurnID := t, lt_LastError := e,
     lt_locked_at := l, lt_updated_at := u, lt_dispatched_at := v\<rparr>) = Closed"
  "launch_row_phase (r\<lparr>lt_Status := PendingLaunchFailed, lt_LastError := e, lt_locked_at := l, lt_updated_at := u\<rparr>) = Closed"
  by (simp_all add: launch_row_phase_def)

lemma closes_phase:
  "closes db db' \<Longrightarrow> find_launch k (ld_launches db) = Some r \<and> launch_row_phase r \<in> {Leased t, Closed} \<Longrightarrow>
   \<exists>r. find_launch k (ld_launches db') = Some r \<and> launch_row_phase r \<in> {Leased t, Closed}"
proof (induction rule: closes.induct)
  case (dispatched db db' clock a b u)
  then obtain r' where "find_launch k (ld_launches db') = Some r'" "launch_row_phase r' \<in> {Leased t, Closed}" by blast
  then show ?case by (simp add: mark_find marked_phase)
next
  case (failed db db' clock a b reason)
  then obtain r' where "find_launch k (ld_launches db') = Some r'" "launch_row_phase r' \<in> {Leased t, Closed}" by blast
  then show ?case by (simp add: mark_find marked_phase)
qed blast

lemma stage_phase:
  "find_launch k (ld_launches db) = Some r \<Longrightarrow> launch_row_phase r \<in> {Leased t, Closed} \<Longrightarrow>
   find_launch k (ld_launches (snd (StageAttachment clock a b blob db))) = Some r"
  by (auto simp: StageAttachment_def Let_def find_update keeps_key_def launch_key_def launch_row_phase_def split: option.split)

lemma register_find:
  "find_launch k (ld_launches db) = Some r \<Longrightarrow> find_launch k (ld_launches (snd (launch_Register store clock req db))) = Some r"
  by (simp add: launch_Register_def Let_def find_launch_append split: option.split)

lemma phase_row: "launch_phase k d \<in> {Leased t, Closed} \<longleftrightarrow>
    (\<exists>r. find_launch k (ld_launches (la_db d)) = Some r \<and> launch_row_phase r \<in> {Leased t, Closed})"
  by (auto simp: launch_phase_def split: option.split)

interpretation launches: lease_table "\<lambda>d. queue_ok (la_db d)" "launch_step store" "launch_handed store" launch_moment launch_patience
    launch_phase "\<lambda>_ _. False" for store
proof
  fix d :: launch_desk and a k assume ok: "queue_ok (la_db d)"
  show "queue_ok (la_db (launch_step store a d))" using ok by (rule launch_step_ok)
  assume "k \<in> set (launch_handed store a d)"
  then obtain sdb locked clock now limit stale where a: "a = LaunchClaim sdb locked clock now limit stale"
    "k \<in> set (claim_keys sdb store locked now limit stale (la_db d))"
    using handed_key [OF ok] by (cases a) auto
  obtain r where r: "find_launch k (ld_launches (la_db d)) = Some r" "launch_claimable sdb store now (effective_stale stale) r" "launch_key r = k"
    using claim_keysD [OF ok a(2)] find_launchD by blast
  show "launch_phase k (launch_step store a d) = Leased (launch_moment a)"
    using a r by (simp add: launch_phase_def claim_step_find launch_row_phase_def)
  show "launch_phase k d = Open \<or> (\<exists>t. launch_phase k d = Leased t \<and> t + launch_patience a < launch_moment a)"
    using a r by (auto simp: launch_phase_def launch_claimable_def launch_row_phase_def split: option.split_asm)
next
  fix d :: launch_desk and a k t assume ok: "queue_ok (la_db d)" and no: "k \<notin> set (launch_handed store a d)" and ph: "launch_phase k d \<in> {Leased t, Closed}"
  obtain r where r: "find_launch k (ld_launches (la_db d)) = Some r" "launch_row_phase r \<in> {Leased t, Closed}" "launch_key r = k"
    using ph find_launchD unfolding phase_row by blast
  show "launch_phase k (launch_step store a d) \<in> {Leased t, Closed}"
  proof (cases a)
    case (LaunchUpload ap owner session ordinal nonce rawName contentType body)
    then have "find_launch k (ld_launches (la_db (launch_step store a d))) = Some r"
      using upload_cases [of ap owner session ordinal nonce rawName contentType body d] r(1) stage_phase [OF r(1,2)] by auto
    then show ?thesis using r(2) unfolding phase_row by blast
  next
    case (LaunchClaim sdb locked clock now limit stale)
    then have "k \<notin> set (claim_keys sdb store locked now limit stale (la_db d))" using no handed_key [OF ok] by auto
    then show ?thesis using r LaunchClaim unfolding phase_row by (simp add: claim_step_find)
  next
    case (LaunchRegister clock req)
    then show ?thesis using register_find [OF r(1)] r(2) unfolding phase_row by auto
  next
    case (LaunchDispatch ap wr now launch)
    then show ?thesis using closes_phase [OF dispatch_or_fail_closes, of k d r t] r(1,2) unfolding phase_row by simp
  next
    case (LaunchStale aps now)
    then show ?thesis using closes_phase [OF stale_closes, of k d r t] r(1,2) unfolding phase_row by simp
  qed
qed

section \<open>What a claimer gets\<close>

lemma claimed_row_kept:
  assumes "queue_ok (la_db d)" "r \<in> set (fst (ClaimReady sdb store locked clock now limit stale (la_db d)))"
  shows "r \<in> set (ld_launches (snd (ClaimReady sdb store locked clock now limit stale (la_db d))))" "lt_Status r = PendingLaunchClaiming"
  using assms(2) by (auto simp: ClaimReady_def Let_def update_launches_def)

text \<open>The attachments of a launch that waits for its dispatch are complete and in order.\<close>

lemma complete_attachments:
  assumes "queue_ok db" "r \<in> set (ld_launches db)" "lt_Status r \<in> {PendingLaunchReady, PendingLaunchClaiming}"
  shows "map lb_Ordinal (LoadAttachments (lt_TankSessionID r) (lt_TurnID r) db) = [0..lt_AttachmentCount r - 1]"
proof -
  let ?k = "launch_key r" and ?bs = "blobs_of (launch_key r) db"
  have row: "trim_key (lt_TankSessionID r) (lt_TurnID r) = ?k" "lt_AttachmentCount r \<le> int (length ?bs)"
    using assms by (auto simp: queue_ok_def launch_row_ok_def)
  have "map slot (filter (\<lambda>(k', _). k' = ?k) (ld_blobs db)) = map (Pair ?k) (map lb_Ordinal ?bs)"
    by (auto simp: blobs_of_def slot_def)
  then have dist: "distinct (map lb_Ordinal ?bs)"
    using assms(1) distinct_map_filter [of slot "ld_blobs db"] unfolding queue_ok_def by (metis distinct_map)
  have range: "set (map lb_Ordinal ?bs) \<subseteq> {0..<lt_AttachmentCount r}"
  proof
    fix n assume "n \<in> set (map lb_Ordinal ?bs)"
    then obtain b where b: "(?k, b) \<in> set (ld_blobs db)" "n = lb_Ordinal b" by (auto simp: blobs_of_def)
    then have "blob_ok db (?k, b)" using assms(1) by (simp add: queue_ok_def)
    moreover have "find_launch ?k (ld_launches db) = Some r" using assms(1,2) find_launch_member by (auto simp: queue_ok_def)
    ultimately show "n \<in> {0..<lt_AttachmentCount r}" using b(2) by (simp add: blob_ok_def)
  qed
  have "card (set (map lb_Ordinal ?bs)) = length ?bs" using distinct_card [OF dist] by simp
  then have all: "set (map lb_Ordinal ?bs) = {0..<lt_AttachmentCount r}"
    using range row(2) by (intro card_subset_eq) (auto intro!: antisym dest: card_mono [rotated])
  let ?ls = "map lb_Ordinal (sort_key lb_Ordinal ?bs)"
  have "sorted ?ls" "set ?ls = set [0..lt_AttachmentCount r - 1]" using all by auto
  moreover have "distinct ?ls" using distinct_card [OF dist] by (intro card_distinct) simp
  ultimately show ?thesis
    unfolding LoadAttachments_def row(1) by (intro sorted_distinct_set_unique) auto
qed

lemma empty_queue_ok: "queue_ok \<lparr>ld_launches = [], ld_blobs = []\<rparr>"
  by (simp add: queue_ok_def)

end
