(* ===== verification/Answer_Facts.thy ===== *)
theory Answer_Facts
  imports Turn_Control_Facts Turn_Page_Facts
begin

text \<open>
  What the answer handler guarantees: a question waits as long as its turn has no terminal event, an accepted answer is in the
  ledger before its reply is out, and an answer whose reply could not be published closes its question for good.
\<close>

section \<open>The question that waits\<close>

lemma awaiting_scan_ended: "awaiting_scan line item es found = None \<longleftrightarrow> (\<exists>e\<in>set es. turn_ended e)"
  by (induction line item es found rule: awaiting_scan.induct) auto

lemma awaiting_scan_last:
  "awaiting_scan line item es found = Some t \<Longrightarrow>
   t = (case filter (asks line item) es of [] \<Rightarrow> found | _ \<Rightarrow> target_of (last (filter (asks line item) es)))"
  by (induction line item es found rule: awaiting_scan.induct) (auto split: if_split_asm list.splits)

text \<open>A question waits as long as its turn has not ended, and the target is that of its last invocation.\<close>

lemma turnAwaitingQuestionTarget_iff:
  "turnAwaitingQuestionTarget es line item = Some t \<longleftrightarrow>
   \<not> (\<exists>e\<in>set es. turn_ended e) \<and> filter (asks line item) es \<noteq> [] \<and> t = target_of (last (filter (asks line item) es)) \<and>
   aw_ProviderTurnID t \<noteq> [] \<and> aw_ProviderTimelineID t \<noteq> []" (is "?lhs \<longleftrightarrow> ?rhs")
proof (cases "awaiting_scan line item es no_target")
  case None
  then have "\<exists>e\<in>set es. turn_ended e" using awaiting_scan_ended by metis
  then show ?thesis using None by (simp add: turnAwaitingQuestionTarget_def)
next
  case (Some t')
  then have "\<not> (\<exists>e\<in>set es. turn_ended e)" using awaiting_scan_ended by (metis option.distinct(1))
  then show ?thesis
    using awaiting_scan_last [OF Some] Some
    by (auto simp: turnAwaitingQuestionTarget_def no_target_def split: list.splits)
qed

text \<open>A terminal row of the turn closes its question for good: the reading of the turn ends and finds the terminal.\<close>

lemma terminal_closes_question:
  assumes "collation le" "ledger_reach L" "tidy_keys L" "r \<in> set L" "er_tank_session_id r = SessionStorageKey scope sid"
    and "er_turn_id r = Some (TrimSpace turn)" "turn_ended (er_payload r)"
  shows "\<exists>es. readAllTurnEvents le scope L sid turn = Some es \<and> turnAwaitingQuestionTarget es line item = None"
proof -
  define es where "es = start_up_of (firstEventOrderKey (map (row_doc sid) (turn_scan turn le scope L sid))) (map (row_doc sid) (session_scan le scope L sid)) @
    map (row_doc sid) (turn_scan turn le scope L sid)"
  have rd: "readAllTurnEvents le scope L sid turn = Some es"
    using read_turn_events [OF assms(1-3)] by (simp add: es_def Let_def)
  have "er_order_key r \<noteq> []" using reachable_ledger_ok [OF assms(2)] assms(4) by (auto simp: ledger_ok_def row_ok_def)
  then have "r \<in> set (turn_scan turn le scope L sid)"
    using assms(4-6) by (simp add: turn_scan_def collation.set_rows_asc [OF assms(1)])
  then have "row_doc sid r \<in> set es" by (simp add: es_def)
  moreover have "turn_ended (row_doc sid r)" using assms(7) by (simp add: turn_ended_def row_doc_def trimmed_at_def)
  ultimately have "awaiting_scan line item es no_target = None" unfolding awaiting_scan_ended by blast
  then show ?thesis using rd by (simp add: turnAwaitingQuestionTarget_def)
qed


section \<open>Answers\<close>

lemma normalize_attachments_length: "normalize_attachments atts = Inr atts' \<Longrightarrow> length atts' \<le> length atts"
proof (induction atts arbitrary: atts')
  case (Cons a atts)
  then show ?case
    by (cases "normalize_attachments atts") (auto simp: Let_def le_SucI split: if_split_asm)
qed simp

lemma check_answer_accepts:
  assumes "check_answer body = Inr aa"
  shows "aa_ProviderItemID aa \<noteq> [] \<and> aa_TimelineID aa \<noteq> [] \<and> aa_Answers aa \<noteq> [] \<and> length (aa_Attachments aa) \<le> 32"
  using assms normalize_attachments_length unfolding check_answer_def Let_def normalizeDisplayAttachments_def
  by (auto split: if_split_asm sum.split_asm) fastforce

lemma answer_nonce_shape: "TrimSpace (answer_nonce t line) = answer_nonce t line" "list_all visible (answer_nonce t line)" "answer_nonce t line \<noteq> []"
proof -
  have "list_all nonce_char (answer_nonce t line)"
    using hex_nonce by (simp add: answer_nonce_def nonce_char_def safe_char_def byte_of_def)
  then show "TrimSpace (answer_nonce t line) = answer_nonce t line" "list_all visible (answer_nonce t line)"
    using nonce_trim safe_char_visible by (auto simp: nonce_char_def list_all_iff)
qed (simp add: answer_nonce_def)

lemma answered_event:
  assumes "TurnInputAnsweredEventMap c0 c1 s (answered_args ap owner sid t aa) = Inr (event, seq)" "turnIDPattern t"
    and "TrimSpace (SessionStorageKey (ap_scope ap) sid) \<noteq> []"
  defines "name \<equiv> t @ '':turn.input_answered:'' @ answer_nonce t (aa_TimelineID aa)"
  shows "event_identity event = name" "storage_key_of scope event = TrimSpace (SessionStorageKey (ap_scope ap) sid)"
    "trimmed_at event ''order_key'' = order_key_for c1 (add1_int64 s) name" "tidy_event event"
proof -
  let ?key = "SessionStorageKey (ap_scope ap) sid"
  obtain draft where "event = stamp_out c1 (add1_int64 s) draft" and d: "string_at draft ''event_id'' = name" "string_at draft ''uuid'' = []"
      "mget draft ''order_key'' = None" "string_at draft ''tank_session_id'' = ?key"
    using assms(1) unfolding TurnInputAnsweredEventMap_def Let_def
    by (auto simp: StampEventMap_def Let_def name_def answered_args_def split: if_split_asm)
  then have e: "event = stamp_out c1 (add1_int64 s) draft" by simp
  have vis: "list_all visible name" using pattern_visible [OF assms(2)] answer_nonce_shape(2) by (simp add: name_def visible_def byte_of_def)
  have "string_at event ''id'' = name" by (simp add: e stamp_out_def Let_def d)
  then show "event_identity event = name"
    using TrimSpace_visible [OF vis] by (simp add: event_identity_def trimmed_at_def name_def)
  have "string_at event ''tank_session_id'' = ?key" using d(4) by (simp add: e stamp_out_def Let_def)
  then show "storage_key_of scope event = TrimSpace ?key" using assms(3) by (simp add: storage_key_of_def trimmed_at_def)
  have "string_at event ''order_key'' = order_key_for c1 (add1_int64 s) name"
    using stamp_out_order_key [OF d(3), of c1 "add1_int64 s"] by (simp add: e has_def d)
  then show "trimmed_at event ''order_key'' = order_key_for c1 (add1_int64 s) name" "tidy_event event"
    using TrimSpace_visible [OF order_key_visible [OF vis]] by (simp_all add: trimmed_at_def tidy_event_def)
qed

text \<open>
  The key of an answer is not the key of a boundary event: the third character from its end is a hexadecimal digit, and
  that of a boundary event is a \<^verbatim>\<open>t\<close>.
\<close>

lemma answer_key_differs:
  assumes "boundary_doc args ty e" "ty \<in> set boundary_types"
  shows "trimmed_at e ''order_key'' \<noteq> order_key_for now s (t @ '':turn.input_answered:'' @ answer_nonce t' line)"
proof
  assume eq: "trimmed_at e ''order_key'' = order_key_for now s (t @ '':turn.input_answered:'' @ answer_nonce t' line)"
  define h where "h = take 24 (sha256_hex (t' @ [CHR 0x00] @ line))"
  have len: "length h = 24" by (simp add: h_def)
  then have "rev h ! 2 \<in> set h" using nth_mem [of 2 "rev h"] by simp
  then obtain n where n: "n < 16" "rev h ! 2 = hex_digit n"
    using in_set_takeD [of _ 24] sha256_hex_digits unfolding h_def by metis
  have "suffix h (order_key_for now s (t @ '':turn.input_answered:'' @ answer_nonce t' line))"
    by (rule suffix_through [OF _ order_key_suffix]) (auto simp: answer_nonce_def h_def suffix_def)
  then have "rev (trimmed_at e ''order_key'') ! 2 = hex_digit n"
    using n(2) len unfolding eq [symmetric] by (auto simp: suffix_def nth_append)
  moreover have "trimmed_at e ''order_key'' = string_at e ''order_key''" "suffix ty (string_at e ''order_key'')"
    using assms(1) TrimSpace_visible by (simp_all add: boundary_doc_def Let_def trimmed_at_def)
  then have "rev (trimmed_at e ''order_key'') ! 2 = CHR ''t''"
    using assms(2) by (auto simp: suffix_def boundary_types_def numeral_2_eq_2)
  moreover have "\<forall>m\<in>set [0..<16]. hex_digit m \<noteq> CHR ''t''" by code_simp
  moreover have "n \<in> set [0..<16]" using n(1) by simp
  ultimately show False by metis
qed

lemma persist_all_keeps:
  "r \<in> set (pl_events pl) \<Longrightarrow> \<forall>e\<in>set es. er_order_key r \<noteq> trimmed_at e ''order_key'' \<Longrightarrow> r \<in> set (pl_events (snd (persist_all ap key es pl)))"
proof (induction es arbitrary: pl)
  case (Cons e es)
  then have "r \<in> set (pl_events (snd (persistBackendEvent ap key e pl)))" by (simp add: persistBackendEvent_keeps)
  then show ?case using Cons by (auto split: prod.split option.split)
qed simp

text \<open>The durable half of an answer, with what it has recorded.\<close>

lemma record_answer_stages:
  assumes "record_answer ap owner sid provider t aa pl = (None, pl')"
  defines "key \<equiv> SessionStorageKey (ap_scope ap) sid"
  shows "\<exists>pl1 m e seq. write_event ap key (\<lambda>seq. TurnInputAnsweredEventMap (ap_clock ap 1) (ap_clock ap 2) seq (answered_args ap owner sid t aa)) pl = (None, pl1) \<and>
    persist_all ap key [m, e] (pl1\<lparr>pl_sequence := seq\<rparr>) = (None, pl') \<and>
    boundary_doc (continuation_args ap owner sid provider t aa) ''user_message.created'' m \<and>
    boundary_doc (continuation_args ap owner sid provider t aa) ''turn.submitted'' e"
proof -
  obtain pl1 turn events seq where w: "write_event ap key (\<lambda>seq. TurnInputAnsweredEventMap (ap_clock ap 1) (ap_clock ap 2) seq (answered_args ap owner sid t aa)) pl = (None, pl1)"
    "UserSubmissionEventMaps (ap_clock ap 7) (ap_clock ap 8) (ap_clock ap 9) (pl_sequence pl1) (continuation_args ap owner sid provider t aa) = Inr (turn, events, seq)"
    "persist_all ap key events (pl1\<lparr>pl_sequence := seq\<rparr>) = (None, pl')"
    using assms(1) unfolding record_answer_def Let_def key_def by (auto split: prod.split_asm option.split_asm sum.split_asm)
  then show ?thesis using submission_built(2) [OF w(2)] by blast
qed

lemma continuation_fields:
  "us_SessionStorageKey (continuation_args ap owner sid provider t aa) = SessionStorageKey (ap_scope ap) sid"
  "us_SessionID (continuation_args ap owner sid provider t aa) = sid"
  "TrimSpace (us_ClientNonce (continuation_args ap owner sid provider t aa)) = answer_nonce t (aa_TimelineID aa)"
  by (simp_all add: continuation_args_def Let_def answer_nonce_shape(1))

lemma record_answer_done:
  assumes "record_answer ap owner sid provider t aa pl = (None, pl')" "turnIDPattern t" "TrimSpace (SessionStorageKey (ap_scope ap) sid) \<noteq> []"
  defines "k \<equiv> TrimSpace (SessionStorageKey (ap_scope ap) sid)" and "nonce \<equiv> answer_nonce t (aa_TimelineID aa)"
  defines "answered \<equiv> t @ '':turn.input_answered:'' @ nonce"
  shows "pl_sent pl' = pl_sent pl \<and> (recorded pl k answered \<or> recorded pl' k answered) \<and> recorded pl' k (TurnIDForClientNonce nonce @ '':turn.submitted'')"
proof -
  let ?key = "SessionStorageKey (ap_scope ap) sid" and ?args = "continuation_args ap owner sid provider t aa"
  obtain pl1 m e seq where st: "write_event ap ?key (\<lambda>seq. TurnInputAnsweredEventMap (ap_clock ap 1) (ap_clock ap 2) seq (answered_args ap owner sid t aa)) pl = (None, pl1)"
    "persist_all ap ?key [m, e] (pl1\<lparr>pl_sequence := seq\<rparr>) = (None, pl')"
    "boundary_doc ?args ''user_message.created'' m" "boundary_doc ?args ''turn.submitted'' e"
    using record_answer_stages [OF assms(1)] by blast
  obtain event seq' where ev: "TurnInputAnsweredEventMap (ap_clock ap 1) (ap_clock ap 2) (pl_sequence pl) (answered_args ap owner sid t aa) = Inr (event, seq')"
    "pl_sent pl1 = pl_sent pl" "pl_events pl1 = snd (insert_row (row_of (store_scope (ap_scope ap)) (ap_db_now ap) event) (pl_events pl))"
    using write_event_done [OF st(1)] by blast
  note id = answered_event [OF ev(1) assms(2,3)]
  let ?row = "row_of (store_scope (ap_scope ap)) (ap_db_now ap) event"
  have row: "er_tank_session_id ?row = k" "er_event_id ?row = answered" "er_order_key ?row = trimmed_at event ''order_key''"
    using id by (simp_all add: row_of_def k_def answered_def nonce_def)
  have "recorded pl k answered \<or> recorded pl' k answered"
  proof (cases "identity_clash ?row (pl_events pl)")
    case True
    then show ?thesis using row by (auto simp: identity_clash_def recorded_def)
  next
    case False
    then obtain r where r: "r \<in> set (pl_events pl1)" "er_tank_session_id r = k" "er_event_id r = answered" "er_order_key r = trimmed_at event ''order_key''"
      using insert_row_present [OF False] row unfolding ev(3) by metis
    have "er_order_key r \<noteq> trimmed_at m ''order_key''" "er_order_key r \<noteq> trimmed_at e ''order_key''"
      using answer_key_differs [OF st(3)] answer_key_differs [OF st(4)] r(4) id(3) by (simp_all add: boundary_types_def) metis+
    then have "r \<in> set (pl_events pl')"
      using persist_all_keeps [of r "pl1\<lparr>pl_sequence := seq\<rparr>" "[m, e]" ap ?key] r(1) st(2) by simp
    then show ?thesis using r by (auto simp: recorded_def)
  qed
  moreover have "recorded pl' k (TurnIDForClientNonce nonce @ '':turn.submitted'')"
    using persist_two(1) [OF st(3,4), where omitted = False] st(2) by (simp add: continuation_fields k_def nonce_def)
  moreover have "pl_sent pl' = pl_sent pl"
    using persist_all_frame [of ap ?key "[m, e]" "pl1\<lparr>pl_sequence := seq\<rparr>"] st(2) ev(2) by simp
  ultimately show ?thesis by blast
qed

text \<open>The three ways in which an answer can end: refused without a trace, not recorded, or recorded and published or not.\<close>

lemma check_answer_error: "check_answer body = Inl e \<Longrightarrow> fst e = 400"
  using normalize_attachments_error unfolding check_answer_def Let_def normalizeDisplayAttachments_def
  by (auto split: if_split_asm sum.split_asm)

lemma control_target_error: "control_target ap owner sid msg = Inl e \<Longrightarrow> fst e \<noteq> 500"
  by (auto simp: control_target_def split: option.split_asm if_split_asm)

lemma answer_stages:
  assumes "handleAnswerSessionTurn ap rand owner session turn body pl = Some (res, pl')"
  defines "sid \<equiv> TrimSpace session" and "t \<equiv> TrimSpace turn"
  shows "(pl' = pl \<and> (\<exists>e. res = Inl e \<and> fst e \<noteq> 500)) \<or> turnIDPattern t \<and> sid \<noteq> [] \<and>
    (\<exists>aa provider es aw. check_answer body = Inr aa \<and> control_target ap owner sid ''session mode does not support app chat turns'' = Inr provider \<and>
       readAllTurnEvents (so_le (pl_stores pl)) (store_scope (ap_scope ap)) (pl_events pl) sid t = Some es \<and>
       turnAwaitingQuestionTarget es (aa_TimelineID aa) (aa_ProviderItemID aa) = Some aw \<and>
       ((\<exists>e. record_answer ap owner sid provider t aa pl = (Some e, pl') \<and> res = Inl e) \<or>
        (\<exists>pl1 out. record_answer ap owner sid provider t aa pl = (None, pl1) \<and>
           publish_control ap (reply_command ap rand owner sid provider t aa aw) t ''publish_input_reply_failed: '' ''publish answer: '' pl1 = (out, pl') \<and>
           (out = None \<and> \<not> isl res \<or> (\<exists>e. out = Some e \<and> res = Inl e)))))"
proof (cases "sid = [] \<or> t = [] \<or> \<not> turnIDPattern t")
  case True
  then show ?thesis using assms(1) by (auto simp: handleAnswerSessionTurn_def Let_def sid_def t_def)
next
  case False
  then have ok: "turnIDPattern t" "sid \<noteq> []" "t \<noteq> []" by simp_all
  note step = assms(1) [unfolded handleAnswerSessionTurn_def Let_def, folded sid_def t_def]
  show ?thesis
  proof (cases "check_answer body")
    case (Inl e)
    then show ?thesis using step ok check_answer_error [OF Inl] by (cases e) auto
  next
    case (Inr aa)
    note aa = Inr
    show ?thesis
    proof (cases "control_target ap owner sid ''session mode does not support app chat turns''")
      case (Inl e)
      then show ?thesis using step ok aa control_target_error [OF Inl] by (cases e) auto
    next
      case (Inr provider)
      then show ?thesis using step ok aa
        by (cases "readAllTurnEvents (so_le (pl_stores pl)) (store_scope (ap_scope ap)) (pl_events pl) sid t")
          (simp_all, auto split: option.split_asm prod.split_asm)
    qed
  qed
qed




section \<open>Every well-formed answer can be recorded\<close>

lemma Join_contains: "c \<in> set x \<Longrightarrow> c \<in> set (Join sep (x # xs))"
  by (cases xs) simp_all

lemma answer_text_nonempty: "answers \<noteq> [] \<Longrightarrow> askUserQuestionAnswerTranscriptText answers anns \<noteq> []"
proof -
  assume a: "answers \<noteq> []"
  define f where "f = (\<lambda>(i :: nat, q, labels). answer_entry (i + 1) q labels (case map_of anns q of None \<Rightarrow> [] | Some ann \<Rightarrow> an_Notes ann))"
  have one: "nat_dec 1 = ''1''" by code_simp
  from a have "length (sort_by byte_le fst answers) \<noteq> 0" by simp
  then obtain q labels rest where split: "sort_by byte_le fst answers = (q, labels) # rest"
    by (metis length_0_conv list.exhaust surj_pair)
  have "f (0, q, labels) = answer_entry 1 q labels (case map_of anns q of None \<Rightarrow> [] | Some ann \<Rightarrow> an_Notes ann)"
    by (simp add: f_def)
  then have "CHR ''1'' \<in> set (f (0, q, labels))" unfolding answer_entry_def Let_def one by simp
  moreover have "map f (enumerate 0 ((q, labels) # rest)) = f (0, q, labels) # map f (enumerate 1 rest)" by simp
  ultimately have "CHR ''1'' \<in> set (Join [CHR 0x0A, CHR 0x0A] (map f (enumerate 0 (sort_by byte_le fst answers))))"
    unfolding split using Join_contains by metis
  moreover have "visible (CHR ''1'')" by (simp add: visible_def byte_of_def)
  ultimately have "CHR ''1'' \<in> set (askUserQuestionAnswerTranscriptText answers anns)"
    unfolding askUserQuestionAnswerTranscriptText_def Let_def f_def by (rule TrimSpace_keeps)
  then show ?thesis by force
qed

lemma record_answer_ok:
  assumes "turnIDPattern t" "sid \<noteq> []" "TrimSpace (SessionStorageKey (ap_scope ap) sid) \<noteq> []" "check_answer body = Inr aa"
    and "provider \<in> {''claude'', ''codex''}" "\<And>n. valid_gotime (ap_clock ap n)"
  shows "\<exists>pl1. record_answer ap owner sid provider t aa pl = (None, pl1)"
proof -
  let ?key = "SessionStorageKey (ap_scope ap) sid" and ?args = "continuation_args ap owner sid provider t aa"
  have aa: "aa_ProviderItemID aa \<noteq> []" "aa_TimelineID aa \<noteq> []" "aa_Answers aa \<noteq> []" "length (aa_Attachments aa) \<le> 32"
    using check_answer_accepts [OF assms(4)] by auto
  have t: "t \<noteq> []" using assms(1) by (auto simp: turnIDPattern_def)
  obtain event where ev: "TurnInputAnsweredEventMap (ap_clock ap 1) (ap_clock ap 2) (pl_sequence pl) (answered_args ap owner sid t aa) = Inr (event, add1_int64 (pl_sequence pl))"
    "well_formed_event event"
    using TurnInputAnswered_valid [of "ap_clock ap 1" "answered_args ap owner sid t aa" "ap_clock ap 2" "pl_sequence pl"] assms(2,6) aa t answer_nonce_shape(3)
    by (auto simp: answered_args_def)
  note id = answered_event [OF ev(1) assms(1,3)]
  have "storable (store_scope (ap_scope ap)) event"
    using id(1-3) assms(3) ev(2) t by (simp add: storable_def ValidateEventMap_iff)
  then obtain pl1 where w: "write_event ap ?key (\<lambda>seq. TurnInputAnsweredEventMap (ap_clock ap 1) (ap_clock ap 2) seq (answered_args ap owner sid t aa)) pl = (None, pl1)"
    using write_event_ok [of "\<lambda>seq. TurnInputAnsweredEventMap (ap_clock ap 1) (ap_clock ap 2) seq (answered_args ap owner sid t aa)" pl] ev(1)
    by (metis prod.collapse)
  have "TrimSpace (us_Text ?args) \<noteq> []"
    using answer_text_nonempty [OF aa(3)] by (simp add: continuation_args_def Let_def askUserQuestionAnswerTranscriptText_def)
  moreover have "TrimSpace ''claude'' = ''claude''" "TrimSpace ''codex'' = ''codex''" by code_simp+
  moreover have "display_ok [(''kind'', GStr ''plain'')]" by code_simp
  ultimately have inputs: "submission_inputs_ok ?args"
    using assms(2,5) aa(4) answer_nonce_shape(1,3) by (auto simp: submission_inputs_ok_def continuation_args_def Let_def)
  have now: "valid_gotime (us_Now ?args)" using assms(6) by (simp add: continuation_args_def Let_def)
  obtain m e where built: "UserSubmissionEventMaps (ap_clock ap 7) (ap_clock ap 8) (ap_clock ap 9) (pl_sequence pl1) ?args =
      Inr (TurnIDForClientNonce (TrimSpace (us_ClientNonce ?args)), [m, e], add1_int64 (add1_int64 (pl_sequence pl1)))"
      "ValidateEventMap (Some m) = None" "ValidateEventMap (Some e) = None"
    using submission_events_valid [OF inputs assms(6) [of 7] now] by blast
  have docs: "boundary_doc ?args ''user_message.created'' m" "boundary_doc ?args ''turn.submitted'' e"
    using submission_built(2) [OF built(1)] by auto
  have "storable (store_scope (ap_scope ap)) m" "storable (store_scope (ap_scope ap)) e"
    using boundary_storable [OF docs(1) _ built(2)] boundary_storable [OF docs(2) _ built(3)] assms(3)
    by (simp_all add: boundary_types_def continuation_fields)
  then have "fst (persistBackendEvent ap ?key m q) = None" "fst (persistBackendEvent ap ?key e q) = None" for q
    using persistBackendEvent_cases by blast+
  then have "fst (persist_all ap ?key [m, e] q) = None" for q by (simp add: split_def)
  then obtain pl2 where p: "persist_all ap ?key [m, e] (pl1\<lparr>pl_sequence := add1_int64 (add1_int64 (pl_sequence pl1))\<rparr>) = (None, pl2)"
    by (metis prod.collapse)
  have "record_answer ap owner sid provider t aa pl = (None, pl2)"
    unfolding record_answer_def Let_def w prod.case option.case built(1) sum.case p by (rule refl)
  then show ?thesis by blast
qed

section \<open>An answer whose command was lost\<close>

lemma record_answer_sound:
  assumes "record_answer ap owner sid provider t aa pl = (None, pl')" "turnIDPattern t" "TrimSpace (SessionStorageKey (ap_scope ap) sid) \<noteq> []"
    and "sound_ledger (pl_events pl)"
  shows "sound_ledger (pl_events pl')"
    "recorded pl' k (t @ '':turn.command_failed'') \<Longrightarrow> recorded pl k (t @ '':turn.command_failed'')"
proof -
  let ?key = "SessionStorageKey (ap_scope ap) sid" and ?args = "continuation_args ap owner sid provider t aa"
  obtain pl1 m e seq where st: "write_event ap ?key (\<lambda>seq. TurnInputAnsweredEventMap (ap_clock ap 1) (ap_clock ap 2) seq (answered_args ap owner sid t aa)) pl = (None, pl1)"
    "persist_all ap ?key [m, e] (pl1\<lparr>pl_sequence := seq\<rparr>) = (None, pl')"
    "boundary_doc ?args ''user_message.created'' m" "boundary_doc ?args ''turn.submitted'' e"
    using record_answer_stages [OF assms(1)] by blast
  obtain event seq' where ev: "TurnInputAnsweredEventMap (ap_clock ap 1) (ap_clock ap 2) (pl_sequence pl) (answered_args ap owner sid t aa) = Inr (event, seq')"
    "storable (store_scope (ap_scope ap)) event"
    "pl_events pl1 = snd (insert_row (row_of (store_scope (ap_scope ap)) (ap_db_now ap) event) (pl_events pl))"
    using write_event_done [OF st(1)] by blast
  note id = answered_event [OF ev(1) assms(2,3)]
  have "sound_ledger (pl_events pl1)"
    using Upsert_sound [OF assms(4) id(4), of "store_scope (ap_scope ap)" "ap_db_now ap"] ev(2,3) by (simp add: Upsert_storable)
  then show "sound_ledger (pl_events pl')"
    using persist_all_sound [of "pl1\<lparr>pl_sequence := seq\<rparr>" "[m, e]" ap ?key] boundary_tidy [OF st(3)] boundary_tidy [OF st(4)] st(2) by simp
  assume now: "recorded pl' k (t @ '':turn.command_failed'')"
  let ?nonce = "answer_nonce t (aa_TimelineID aa)"
  have "event_identity m = TurnIDForClientNonce ?nonce @ '':user_message.cre'' @ ''ated''" "event_identity e = TurnIDForClientNonce ?nonce @ '':turn.submi'' @ ''tted''"
    using boundary_identity [OF st(3)] boundary_identity [OF st(4)] by (simp_all add: boundary_types_def continuation_fields)
  moreover have "(a @ b) @ c = a @ b @ c" for a b c :: string by simp
  ultimately have "event_identity m \<noteq> t @ '':turn.command_failed''" "event_identity e \<noteq> t @ '':turn.command_failed''"
    using append_eq_append_conv [of "''ated''" "''iled''" "TurnIDForClientNonce ?nonce @ '':user_message.cre''" "t @ '':turn.command_fa''"]
      append_eq_append_conv [of "''tted''" "''iled''" "TurnIDForClientNonce ?nonce @ '':turn.submi''" "t @ '':turn.command_fa''"] by auto
  then have "recorded pl1 k (t @ '':turn.command_failed'')"
    using persist_all_identities [of ap ?key "[m, e]" "pl1\<lparr>pl_sequence := seq\<rparr>" k "t @ '':turn.command_failed''"] now
    unfolding st(2) by auto
  moreover have "event_identity event \<noteq> t @ '':turn.command_failed''" using id(1) by auto
  ultimately show "recorded pl k (t @ '':turn.command_failed'')"
    using insert_row_identities [of "row_of (store_scope (ap_scope ap)) (ap_db_now ap) event" "pl_events pl"] ev(3)
    by (fastforce simp: recorded_def row_of_def)
qed

text \<open>A marker that is written under a fresh identity is a terminal row of its turn.\<close>

lemma fresh_marker:
  assumes "valid_gotime (ap_clock ap 3)" "valid_gotime (cf_Now args)" "cf_SessionID args \<noteq> []" "cf_Reason args \<noteq> []"
    and "turnIDPattern (cf_TurnID args)" "TrimSpace (cf_SessionStorageKey args) \<noteq> []" "sound_ledger (pl_events pl)"
    and "\<not> recorded pl (TrimSpace (cf_SessionStorageKey args)) (cf_TurnID args @ '':turn.command_failed'')"
  defines "pl' \<equiv> mark_command_failed ap args pl"
  shows "sound_ledger (pl_events pl')"
    "\<exists>r\<in>set (pl_events pl'). er_tank_session_id r = TrimSpace (cf_SessionStorageKey args) \<and> er_turn_id r = Some (cf_TurnID args) \<and>
       turn_ended (er_payload r) \<and> er_event_type r = Some ''turn.command_failed''"
proof -
  have t: "cf_TurnID args \<noteq> []" "list_all visible (cf_TurnID args)" "TrimSpace (cf_TurnID args) = cf_TurnID args"
    using assms(5) pattern_visible nonce_pattern_trim by (auto simp: turnIDPattern_def)
  let ?name = "cf_TurnID args @ '':turn.command_failed''"
  obtain event where event: "TurnCommandFailedEventMap (ap_clock ap 3) (ap_clock ap 4) (pl_sequence pl) args = Inr (event, add1_int64 (pl_sequence pl))"
    "well_formed_event event"
    using TurnCommandFailed_valid [OF assms(1-3) t(1) assms(4)] by blast
  note facts = command_failed_event(1,2) [OF event assms(6) t(2)] command_failed_event(3) [OF event assms(6) t(2), of "store_scope (ap_scope ap)"]
  obtain draft now s where d: "event = add_identity (cf_SessionStorageKey args) (cf_SessionID args) (cf_Email args) (cf_Runtime args) (stamp_out now s draft)"
    "string_at draft ''event_id'' = ?name" "string_at draft ''uuid'' = []" "mget draft ''order_key'' = None"
    and extra: "mget draft ''turn_id'' = Some (GStr (cf_TurnID args))" "mget draft ''type'' = Some (GStr ''turn.command_failed'')"
    using event(1) unfolding TurnCommandFailedEventMap_def Let_def
    by (auto simp: map_event_def StampEventMap_def Let_def split: if_split_asm)
  have vis: "list_all visible ?name" using t(2) by (simp add: visible_def byte_of_def)
  note ce = control_event [OF d vis _ assms(6)]
  have fields: "mget event ''turn_id'' = Some (GStr (cf_TurnID args))" "mget event ''type'' = Some (GStr ''turn.command_failed'')"
    using ce(5) [of "''turn_id''"] ce(5) [of "''type''"] extra by (simp_all add: stamp_fields_def)
  have tidy: "tidy_event event" using ce(3,4) by (simp add: tidy_event_def)
  let ?scope = "store_scope (ap_scope ap)"
  let ?row = "row_of ?scope (ap_db_now ap) event"
  have pl': "pl_events pl' = snd (insert_row ?row (pl_events pl))"
    using persistBackendEvent_cases [of ap event "cf_SessionStorageKey args" "pl\<lparr>pl_sequence := add1_int64 (pl_sequence pl)\<rparr>"] facts(3)
    by (auto simp: pl'_def mark_command_failed_def event(1) Upsert_storable)
  then show "sound_ledger (pl_events pl')"
    using Upsert_sound [OF assms(7) tidy, of ?scope "ap_db_now ap"] facts(3) by (simp add: Upsert_storable)
  have row: "er_tank_session_id ?row = TrimSpace (cf_SessionStorageKey args)" "er_event_id ?row = ?name" "er_turn_id ?row = Some (cf_TurnID args)"
    using facts(1,2) t(1,3) fields(1) by (simp_all add: row_of_def nullif_empty_def trimmed_at_def string_at_def)
  have "TrimSpace ''turn.command_failed'' = ''turn.command_failed''" by code_simp
  then have type: "er_event_type ?row = Some ''turn.command_failed''"
    using fields(2) by (simp add: row_of_def nullif_empty_def trimmed_at_def string_at_def)
  from type have "trimmed_at (er_payload ?row) ''type'' = ''turn.command_failed''"
    using storable_row_ok [OF facts(3), of "ap_db_now ap"] \<open>TrimSpace ''turn.command_failed'' = ''turn.command_failed''\<close>
    by (simp add: row_ok_def event_type_of_def trimmed_at_def)
  then have ended: "turn_ended (er_payload ?row)" by (simp add: turn_ended_def)
  have "\<not> identity_clash ?row (pl_events pl)" using assms(8) row by (auto simp: identity_clash_def recorded_def)
  from insert_row_stored [OF this] obtain c where "?row\<lparr>er_created_at := c\<rparr> \<in> set (pl_events pl')" unfolding pl' by blast
  then show "\<exists>r\<in>set (pl_events pl'). er_tank_session_id r = TrimSpace (cf_SessionStorageKey args) \<and> er_turn_id r = Some (cf_TurnID args) \<and>
      turn_ended (er_payload r) \<and> er_event_type r = Some ''turn.command_failed''"
    using row ended type by (intro bexI) simp_all
qed


lemma record_answer_collation:
  "record_answer ap owner sid provider t aa pl = (None, pl') \<Longrightarrow> so_le (pl_stores pl') = so_le (pl_stores pl)"
proof -
  assume a: "record_answer ap owner sid provider t aa pl = (None, pl')"
  let ?key = "SessionStorageKey (ap_scope ap) sid"
  obtain pl1 m e seq where "write_event ap ?key (\<lambda>seq. TurnInputAnsweredEventMap (ap_clock ap 1) (ap_clock ap 2) seq (answered_args ap owner sid t aa)) pl = (None, pl1)"
    "persist_all ap ?key [m, e] (pl1\<lparr>pl_sequence := seq\<rparr>) = (None, pl')"
    using record_answer_stages [OF a] by blast
  then show ?thesis using write_event_collation persist_all_collation [of ap ?key "[m, e]" "pl1\<lparr>pl_sequence := seq\<rparr>"] by fastforce
qed

lemma publish_control_failed:
  assumes "publish_control ap command t reason what pl = (Some e, pl')"
  shows "\<exists>why sent. e = (500, what @ why) \<and> pl' = mark_command_failed ap
    \<lparr>cf_SessionID = cm_SessionID command, cf_SessionStorageKey = cm_SessionStorageKey command, cf_Email = cm_Email command,
     cf_TurnID = t, cf_ClientNonce = cm_ClientNonce command, cf_Runtime = cm_Provider command, cf_Reason = reason @ why, cf_Now = ap_clock ap 3\<rparr>
    (pl\<lparr>pl_sent := sent\<rparr>)"
  using assms unfolding publish_control_def Let_def by (auto split: prod.split_asm option.split_asm)

lemma mark_command_failed_collation: "so_le (pl_stores (mark_command_failed ap args pl)) = so_le (pl_stores pl)"
  using persist_collation [OF surjective_pairing] by (simp add: mark_command_failed_def split: sum.split prod.split)

lemma record_answer_texts:
  assumes "record_answer ap owner sid provider t aa pl = (Some e, pl')" shows "snd e \<noteq> ''publish answer: '' @ w"
  using assms unfolding record_answer_def Let_def by (auto split: prod.split_asm option.split_asm sum.split_asm)

text \<open>
  C37: an answer whose command was lost cannot be given again. When the publish of the reply fails, the handler marks the
  question turn itself as failed; from then on every well-formed answer to that question is refused with a conflict, and the
  reply that the agent waits for can never be sent, although the answer is in the ledger.
\<close>

theorem failed_answer_cannot_be_retried:
  assumes "handleAnswerSessionTurn ap rand owner session turn body pl = Some (Inl (500, ''publish answer: '' @ why), pl')"
    and "valid_gotime (ap_clock ap 3)"
    and "collation (so_le (pl_stores pl))" "ledger_reach (pl_events pl)" "tidy_keys (pl_events pl)"
    and "\<not> recorded pl (SessionStorageKey (ap_scope ap) (TrimSpace session)) (TrimSpace turn @ '':turn.command_failed'')"
    and "check_answer body' = Inr aa'" "ap_scope ap' = ap_scope ap"
    and "control_target ap' owner (TrimSpace session) ''session mode does not support app chat turns'' = Inr provider'"
  shows "handleAnswerSessionTurn ap' rand' owner session turn body' pl' = Some (Inl (409, ''question turn is not awaiting input''), pl')"
proof -
  define sid t key where "sid = TrimSpace session" and "t = TrimSpace turn" and "key = SessionStorageKey (ap_scope ap) sid"
  obtain aa provider aw pl1 e where st: "turnIDPattern t" "sid \<noteq> []" "record_answer ap owner sid provider t aa pl = (None, pl1)"
    "publish_control ap (reply_command ap rand owner sid provider t aa aw) t ''publish_input_reply_failed: '' ''publish answer: '' pl1 = (Some e, pl')"
    using answer_stages [OF assms(1)] record_answer_texts unfolding sid_def t_def by auto (metis snd_conv)+
  have sid: "TrimSpace sid = sid" by (simp add: sid_def)
  have key: "TrimSpace key = key" "key \<noteq> []" "SessionStorageKey (store_scope (ap_scope ap)) sid = key"
    using session_key_store session_key_nonempty [of session "ap_scope ap"] st(2) by (simp_all add: key_def sid_def)
  have key0: "TrimSpace (SessionStorageKey (ap_scope ap) sid) \<noteq> []" using key by (simp add: key_def)
  have "sound_ledger (pl_events pl)" using assms(4,5) by (simp add: sound_ledger_def)
  note rec = record_answer_sound [OF st(3,1) key0 this]
  have fresh: "\<not> recorded pl1 key (t @ '':turn.command_failed'')"
    using rec(2) [of key] assms(6) by (auto simp: key_def sid_def t_def)
  obtain why' sent where "pl' = mark_command_failed ap
    \<lparr>cf_SessionID = sid, cf_SessionStorageKey = key, cf_Email = owner, cf_TurnID = t, cf_ClientNonce = answer_nonce t (aa_TimelineID aa),
     cf_Runtime = provider, cf_Reason = ''publish_input_reply_failed: '' @ why', cf_Now = ap_clock ap 3\<rparr> (pl1\<lparr>pl_sent := sent\<rparr>)" (is "_ = mark_command_failed ap ?args _")
    using publish_control_failed [OF st(4)] by (auto simp: reply_command_def control_command_def Let_def key_def no_command_def)
  then have pl': "pl' = mark_command_failed ap ?args (pl1\<lparr>pl_sent := sent\<rparr>)" .
  have "recorded (pl1\<lparr>pl_sent := sent\<rparr>) = recorded pl1" by (simp add: recorded_def fun_eq_iff)
  then have marker: "sound_ledger (pl_events pl')"
    "\<exists>r\<in>set (pl_events pl'). er_tank_session_id r = key \<and> er_turn_id r = Some t \<and> turn_ended (er_payload r) \<and>
       er_event_type r = Some ''turn.command_failed''"
    using fresh_marker [of ap ?args "pl1\<lparr>pl_sent := sent\<rparr>"] assms(2) st(1,2) key rec(1) fresh unfolding pl' by simp_all
  have "so_le (pl_stores pl') = so_le (pl_stores pl)"
    using record_answer_collation [OF st(3)] by (simp add: pl' mark_command_failed_collation)
  then have le: "collation (so_le (pl_stores pl'))" using assms(3) by simp
  obtain r where r: "r \<in> set (pl_events pl')" "er_tank_session_id r = key" "er_turn_id r = Some t" "turn_ended (er_payload r)"
    using marker(2) by blast
  have snd_led: "ledger_reach (pl_events pl')" "tidy_keys (pl_events pl')" using marker(1) by (simp_all add: sound_ledger_def)
  obtain es where "readAllTurnEvents (so_le (pl_stores pl')) (store_scope (ap_scope ap)) (pl_events pl') sid t = Some es"
    "turnAwaitingQuestionTarget es (aa_TimelineID aa') (aa_ProviderItemID aa') = None"
    using terminal_closes_question [OF le snd_led r(1), of "store_scope (ap_scope ap)" sid t "aa_TimelineID aa'" "aa_ProviderItemID aa'"] r(2-4) key(3)
    by (auto simp: t_def)
  moreover have "t \<noteq> []" using st(1) by (auto simp: turnIDPattern_def)
  ultimately show ?thesis
    using st(1,2) assms(7-9) by (simp add: handleAnswerSessionTurn_def Let_def sid_def t_def)
qed


section \<open>A question that is answered\<close>

lemma answer_reaches_publish:
  assumes "turnIDPattern (TrimSpace turn)" "TrimSpace session \<noteq> []" "check_answer body = Inr aa"
    and "control_target ap owner (TrimSpace session) ''session mode does not support app chat turns'' = Inr provider"
    and "readAllTurnEvents (so_le (pl_stores pl)) (store_scope (ap_scope ap)) (pl_events pl) (TrimSpace session) (TrimSpace turn) = Some es"
    and "turnAwaitingQuestionTarget es (aa_TimelineID aa) (aa_ProviderItemID aa) = Some aw"
    and "record_answer ap owner (TrimSpace session) provider (TrimSpace turn) aa pl = (None, pl1)"
    and "publish_control ap (reply_command ap rand owner (TrimSpace session) provider (TrimSpace turn) aa aw) (TrimSpace turn)
      ''publish_input_reply_failed: '' ''publish answer: '' pl1 = (out, pl2)"
  shows "case out of None \<Rightarrow> \<exists>resp. handleAnswerSessionTurn ap rand owner session turn body pl = Some (Inr resp, pl2)
    | Some e \<Rightarrow> handleAnswerSessionTurn ap rand owner session turn body pl = Some (Inl e, pl2)"
proof -
  have "TrimSpace turn \<noteq> []" using assms(1) by (auto simp: turnIDPattern_def)
  then show ?thesis using assms by (simp add: handleAnswerSessionTurn_def Let_def split: option.split)
qed

lemma reply_publish:
  assumes "ap_bus ap = Some (\<lambda>_ _. r)" "TrimSpace (SessionStorageKey (ap_scope ap) sid) \<noteq> []" "provider \<in> {''claude'', ''codex''}"
  shows "fst (publish_control ap (reply_command ap rand owner sid provider t aa aw) turnID reason what pl1) = map_option (\<lambda>e. (500, what @ e)) r"
proof -
  let ?c = "Normalize (reply_command ap rand owner sid provider t aa aw)"
  have "CHR '':'' \<in> set (TrimSpace (''input_reply:'' @ x))" for x by (rule TrimSpace_keeps) (simp_all add: visible_def byte_of_def)
  then have "TrimSpace (''input_reply:'' @ x) \<noteq> []" for x by (metis empty_iff empty_set)
  moreover have "TrimSpace ''claude'' = ''claude''" "TrimSpace ''codex'' = ''codex''" "TrimSpace CommandInputReply = CommandInputReply" "CommandInputReply \<noteq> []"
    by code_simp+
  ultimately have "cm_CommandID ?c \<noteq> []" "cm_Type ?c \<noteq> []" "cm_Provider ?c \<noteq> []" "cm_SessionStorageKey ?c \<noteq> []"
    using assms(2,3) by (auto simp: Normalize_def reply_command_def control_command_def Let_def)
  then show ?thesis
    using assms(1) by (cases r) (simp_all add: publish_control_def PublishCommand_def Let_def)
qed

definition asking_event :: gomap where
  "asking_event =
     [(''event_id'', GStr ''q1:ask''), (''session_id'', GStr ''7''), (''turn_id'', GStr ''q1''), (''actor'', GStr ''runner''),
      (''source'', GStr ''claude''), (''type'', GStr ''turn.awaiting_input''), (''created_at'', GStr ''2026-06-12T10:00:00Z''),
      (''visibility'', GStr ''durable''), (''order_key'', GStr ''k1''),
      (''payload'', GMap [(''questions'', GAnys [GMap [(''question'', GStr ''Which?'')]]), (''timeline_id'', GStr ''line''),
         (''provider_item_id'', GStr ''item''), (''asking_turn_id'', GStr ''t1''), (''provider_timeline_id'', GStr ''pline'')])]"

definition asking_plane :: plane where
  "asking_plane = set_events (snd (Upsert ''default'' 0 asking_event [])) sample_plane"

definition which_answer :: answerRequest where
  "which_answer = \<lparr>ar_ProviderItemID = ''item'', ar_TimelineID = ''line'', ar_Answers = [(''Which?'', [''this''])], ar_Annotations = [],
     ar_DisplayAttachments = []\<rparr>"

lemma asking_storable: "storable ''default'' asking_event"
  by code_simp

lemma asking_rows: "pl_events asking_plane = [row_of ''default'' 0 asking_event]"
  by (simp add: asking_plane_def Upsert_storable asking_storable insert_row_def identity_clash_def key_taken_def)

lemma asking_sound: "ledger_reach (pl_events asking_plane)" "tidy_keys (pl_events asking_plane)"
proof -
  show "ledger_reach (pl_events asking_plane)" by (simp add: asking_plane_def ledger_reach.intros)
  have "row_cursor (row_of ''default'' 0 asking_event) = er_order_key (row_of ''default'' 0 asking_event)" by code_simp
  then show "tidy_keys (pl_events asking_plane)" by (simp add: tidy_keys_def asking_rows)
qed

lemma asking_read:
  "readAllTurnEvents byte_le ''default'' (pl_events asking_plane) ''7'' ''q1'' = Some [row_doc ''7'' (row_of ''default'' 0 asking_event)]"
proof -
  have "turn_scan ''q1'' byte_le ''default'' [row_of ''default'' 0 asking_event] ''7'' = [row_of ''default'' 0 asking_event]" by code_simp
  moreover have "session_scan byte_le ''default'' [row_of ''default'' 0 asking_event] ''7'' = [row_of ''default'' 0 asking_event]" by code_simp
  moreover have "start_up_of (firstEventOrderKey [row_doc ''7'' (row_of ''default'' 0 asking_event)]) [row_doc ''7'' (row_of ''default'' 0 asking_event)] = []"
    by code_simp
  ultimately show ?thesis
    using read_turn_events [OF bytewise.collation_axioms asking_sound, of "''default''" "''7''" "''q1''"] by (simp add: asking_rows Let_def)
qed

lemma asking_waits:
  "turnAwaitingQuestionTarget [row_doc ''7'' (row_of ''default'' 0 asking_event)] ''line'' ''item'' =
     Some \<lparr>aw_QuestionTurnID = ''q1'', aw_QuestionTimelineID = ''line'', aw_ProviderTurnID = ''t1'', aw_ProviderTimelineID = ''pline'', aw_ProviderItemID = ''item''\<rparr>"
  by code_simp


definition which_accepted :: accepted_answer where
  "which_accepted = \<lparr>aa_ProviderItemID = ''item'', aa_TimelineID = ''line'', aa_Answers = [(''Which?'', [''this''])], aa_Annotations = [], aa_Attachments = []\<rparr>"

lemma which_checked: "check_answer which_answer = Inr which_accepted"
proof -
  have "TrimSpace ''item'' = ''item''" "TrimSpace ''line'' = ''line''" "normalizeAnswers [(''Which?'', [''this''])] = [(''Which?'', [''this''])]"
    by code_simp+
  then show ?thesis
    by (simp add: check_answer_def which_answer_def which_accepted_def normalizeAnswerAnnotations_def normalizeDisplayAttachments_def
        answerPayloadSize_def maxSDKAnswerBytes_def Let_def)
qed

lemma which_outcome:
  "\<exists>pl'. case r of
     None \<Rightarrow> \<exists>resp. handleAnswerSessionTurn (chat_app r) rand ''u@x'' ''7'' ''q1'' which_answer asking_plane = Some (Inr resp, pl')
   | Some e \<Rightarrow> handleAnswerSessionTurn (chat_app r) rand ''u@x'' ''7'' ''q1'' which_answer asking_plane = Some (Inl (500, ''publish answer: '' @ e), pl')"
proof -
  have eval: "turnIDPattern ''q1''" "TrimSpace ''q1'' = ''q1''" "TrimSpace ''7'' = ''7''" "store_scope ''default'' = ''default''"
    "TrimSpace (SessionStorageKey ''default'' ''7'') \<noteq> []" by code_simp+
  let ?ap = "chat_app r"
  obtain pl1 where rec: "record_answer ?ap ''u@x'' ''7'' ''claude'' ''q1'' which_accepted asking_plane = (None, pl1)"
    using record_answer_ok [OF eval(1) _ _ which_checked, of "''7''" ?ap "''claude''"] eval(5) sample_now_valid by (auto simp: chat_app_facts)
  have le: "so_le (pl_stores asking_plane) = byte_le" by (simp add: asking_plane_def set_events_def sample_plane_def sample_stores_def)
  let ?aw = "\<lparr>aw_QuestionTurnID = ''q1'', aw_QuestionTimelineID = ''line'', aw_ProviderTurnID = ''t1'', aw_ProviderTimelineID = ''pline'', aw_ProviderItemID = ''item''\<rparr>"
  obtain out pl2 where pub: "publish_control ?ap (reply_command ?ap rand ''u@x'' ''7'' ''claude'' ''q1'' which_accepted ?aw) ''q1''
      ''publish_input_reply_failed: '' ''publish answer: '' pl1 = (out, pl2)" by (rule prod.exhaust)
  have out: "out = map_option (\<lambda>e. (500, ''publish answer: '' @ e)) r"
    using reply_publish [of ?ap r "''7''" "''claude''" rand "''u@x''" "''q1''" which_accepted ?aw "''q1''" "''publish_input_reply_failed: ''" "''publish answer: ''" pl1]
      pub eval(5) by (simp add: chat_app_facts)
  have "case out of None \<Rightarrow> \<exists>resp. handleAnswerSessionTurn ?ap rand ''u@x'' ''7'' ''q1'' which_answer asking_plane = Some (Inr resp, pl2)
    | Some e \<Rightarrow> handleAnswerSessionTurn ?ap rand ''u@x'' ''7'' ''q1'' which_answer asking_plane = Some (Inl e, pl2)"
    by (rule answer_reaches_publish [OF _ _ which_checked])
      (use eval rec pub asking_read asking_waits in \<open>simp_all add: chat_app_facts le which_accepted_def\<close>)
  then show ?thesis unfolding out by (cases r) auto
qed


theorem failed_answer_cannot_be_retried_witness:
  "\<exists>pl'. handleAnswerSessionTurn (chat_app (Some ''down'')) (\<lambda>_. []) ''u@x'' ''7'' ''q1'' which_answer asking_plane = Some (Inl (500, ''publish answer: down''), pl') \<and>
     handleAnswerSessionTurn (chat_app None) (\<lambda>_. []) ''u@x'' ''7'' ''q1'' which_answer pl' = Some (Inl (409, ''question turn is not awaiting input''), pl')"
proof -
  obtain pl' where run: "handleAnswerSessionTurn (chat_app (Some ''down'')) (\<lambda>_. []) ''u@x'' ''7'' ''q1'' which_answer asking_plane =
      Some (Inl (500, ''publish answer: '' @ ''down''), pl')"
    using which_outcome [of "Some ''down''" "\<lambda>_. []"] by auto
  have eval: "TrimSpace ''7'' = ''7''" "TrimSpace ''q1'' = ''q1''" by code_simp+
  have le: "collation (so_le (pl_stores asking_plane))"
    using bytewise.collation_axioms by (simp add: asking_plane_def set_events_def sample_plane_def sample_stores_def)
  have "\<not> recorded asking_plane (SessionStorageKey (ap_scope (chat_app r)) (TrimSpace ''7'')) (TrimSpace ''q1'' @ '':turn.command_failed'')" for r
  proof -
    have "er_event_id (row_of ''default'' 0 asking_event) = ''q1:ask''" by code_simp
    then show ?thesis by (simp add: recorded_def asking_rows eval)
  qed
  from failed_answer_cannot_be_retried [OF run _ le asking_sound this which_checked, of "chat_app None" "''claude''" "\<lambda>_. []"]
  show ?thesis using run sample_now_valid eval by (simp add: chat_app_facts)
qed

end
