(* ===== verification/Launch_Facts.thy ===== *)
theory Launch_Facts
  imports Launch_Queue Answer_Facts
begin

text \<open>
  What the durable launches promise to the user who created them: no two claimers work on a launch at a time, a dispatched
  launch is durable with all its files in the pod, and a launch that was failed is never dispatched afterwards.
\<close>

section \<open>The queue\<close>

definition empty_queue :: launch_db where
  "empty_queue = \<lparr>ld_launches = [], ld_blobs = []\<rparr>"

lemma reached_ok: "la_db d = empty_queue \<Longrightarrow> queue_ok (la_db (fold (launch_step store) ops d))"
  using launches.run_inv [of d store ops] empty_queue_ok by (simp add: empty_queue_def)

text \<open>
  no two dispatchers work on a launch at a time. Whatever the program does to the queue, when a launch that was handed
  out is handed out the next time, the later claim runs after the first one plus the lease time of the later claimer.
\<close>

theorem launch_lease_exclusive:
  assumes "la_db d0 = empty_queue" "d = fold (launch_step store) before d0" "k \<in> set (launch_handed store a d)"
    and "claims (launch_step store) (launch_handed store) k between (launch_step store a d) = 0"
    and "k \<in> set (launch_handed store c (fold (launch_step store) between (launch_step store a d)))"
  shows "launch_moment a + launch_patience c < launch_moment c"
proof -
  have "queue_ok (la_db d)" using reached_ok [OF assms(1)] assms(2) by simp
  from launches.lease_exclusive [OF this assms(3,4) _ assms(5)] show ?thesis by (simp add: list_all_iff)
qed

text \<open>
  C18: a launch is claimed only when it is complete. Whatever the program did to the queue, the attachments that a claimed
  launch is dispatched with are those of the ordinals 0, 1 and so on up to the declared number, in this order.
\<close>

theorem claimed_launch_complete:
  assumes "la_db d0 = empty_queue" "db = la_db (fold (launch_step store) ops d0)"
    and "ClaimReady sdb store locked clock now limit stale db = (rows, db')" "r \<in> set rows"
  shows "map lb_Ordinal (LoadAttachments (lt_TankSessionID r) (lt_TurnID r) db') = [0..lt_AttachmentCount r - 1]"
proof -
  let ?d = "fold (launch_step store) ops d0"
  have ok: "queue_ok (la_db ?d)" by (rule reached_ok [OF assms(1)])
  have claim: "rows = fst (ClaimReady sdb store locked clock now limit stale (la_db ?d))"
    "db' = snd (ClaimReady sdb store locked clock now limit stale (la_db ?d))" using assms(2,3) by simp_all
  have row: "r \<in> set (ld_launches db')" "lt_Status r = PendingLaunchClaiming"
    using claimed_row_kept [OF ok, of r sdb store locked clock now limit stale] assms(4) by (simp_all add: claim)
  have "queue_ok db'" unfolding claim by (rule claim_ok [OF ok])
  from complete_attachments [OF this row(1)] show ?thesis using row(2) by simp
qed

text \<open>
  staged bytes do not outlive their launch. Whatever the program did to the queue, all bytes that it holds belong to a
  launch that still waits for its dispatch, at an ordinal that the launch declared.
\<close>

theorem staged_bytes_live:
  assumes "la_db d0 = empty_queue" "(k, b) \<in> set (ld_blobs (la_db (fold (launch_step store) ops d0)))"
  shows "\<exists>r. find_launch k (ld_launches (la_db (fold (launch_step store) ops d0))) = Some r \<and>
    lt_Status r \<notin> {PendingLaunchDispatched, PendingLaunchFailed} \<and> 0 \<le> lb_Ordinal b \<and> lb_Ordinal b < lt_AttachmentCount r"
proof -
  have "blob_ok (la_db (fold (launch_step store) ops d0)) (k, b)"
    using reached_ok [OF assms(1), of store ops] assms(2) by (auto simp: queue_ok_def)
  then show ?thesis by (auto simp: blob_ok_def launch_live_def)
qed

section \<open>Dispatching\<close>

lemma materialize_ok:
  "materialize wr pod turnID bs = (None, paths, files) \<Longrightarrow>
     files = map (\<lambda>(p, b). (pod, p, lb_Bytes b)) (zip paths bs) \<and> length paths = length bs \<and>
     list_all2 (\<lambda>p b. launchAttachmentAbsPath turnID b = Some p) paths bs"
  by (induction bs arbitrary: paths files) (auto split: option.split_asm prod.split_asm)

lemma dispatch_stages:
  assumes "dispatchPendingLaunch ap wr launch now d = (None, d')" "target_terminal ap (la_plane d) (lt_SessionID launch) (lt_TurnID launch) = None"
  shows "\<exists>mode pod paths files resp pl.
    materialize wr pod (lt_TurnID launch) (LoadAttachments (lt_TankSessionID launch) (lt_TurnID launch) (la_db d)) = (None, paths, files) \<and>
    enqueueSDKTurn ap (lt_OwnerEmail launch) (lt_SessionID launch) (launch_turn launch (composeLaunchDispatchPrompt (TrimSpace (lt_Runtime launch))
      (lt_SkillName launch) (lt_BasePrompt launch) paths) mode now) (la_plane d) = (Inr resp, pl) \<and>
    d' = d\<lparr>la_files := la_files d @ files, la_plane := pl, la_db := MarkDispatched (ap_db_now ap) (lt_TankSessionID launch) (lt_TurnID launch)
           (turnIDFromEnqueueResponse resp) (la_db d)\<rparr>"
  using assms unfolding dispatchPendingLaunch_def Let_def
  by (auto split: option.split_asm prod.split_asm sum.split_asm if_split_asm) blast+

lemma drop_gone: "LoadAttachments a b (MarkDispatched clock a b t db) = []"
  by (simp add: LoadAttachments_def MarkDispatched_def Let_def)

text \<open>An error leaves the queue alone.\<close>

lemma dispatch_error: "dispatchPendingLaunch ap wr launch now d = (Some e, d') \<Longrightarrow> la_db d' = la_db d"
  unfolding dispatchPendingLaunch_def Let_def
  by (auto split: option.split_asm prod.split_asm sum.split_asm if_split_asm)

text \<open>
  C15: the outcomes of a dispatch. A launch whose turn has a terminal event is failed and nothing is written or sent. An error
  leaves the queue as it is, so that the launch is claimed again. A success has written every attachment into the pod under
  its path and dropped its staged bytes, the ledger holds the \<open>turn.submitted\<close> event, and both streams have the command, whose
  prompt is the composed one with those paths.
\<close>

theorem dispatch_outcomes:
  "let (err, d') = dispatchPendingLaunch ap wr launch now d;
       attachments = LoadAttachments (lt_TankSessionID launch) (lt_TurnID launch) (la_db d)
   in case target_terminal ap (la_plane d) (lt_SessionID launch) (lt_TurnID launch) of
        Some terminal \<Rightarrow> err = None \<and> la_plane d' = la_plane d \<and> la_files d' = la_files d \<and>
          la_db d' = launch_MarkFailed (ap_db_now ap) (lt_TankSessionID launch) (lt_TurnID launch) (already_terminal_reason terminal) (la_db d)
      | None \<Rightarrow>
          (case err of
             Some e \<Rightarrow> la_db d' = la_db d
           | None \<Rightarrow>
               \<exists>pod paths turn c.
                 la_files d' = la_files d @ map (\<lambda>(p, b). (pod, p, lb_Bytes b)) (zip paths attachments) \<and>
                 map Some paths = map (launchAttachmentAbsPath (lt_TurnID launch)) attachments \<and>
                 LoadAttachments (lt_TankSessionID launch) (lt_TurnID launch) (la_db d') = [] \<and>
                 recorded (la_plane d') (TrimSpace (SessionStorageKey (ap_scope ap) (lt_SessionID launch))) (turn @ '':turn.submitted'') \<and>
                 pl_sent (la_plane d') = pl_sent (la_plane d) @ [(CommandStreamSubjectForCommand c, c), (SubjectForCommand c, c)] \<and>
                 cm_TurnID c = turn \<and>
                 cm_Prompt c = TrimSpace (composeLaunchDispatchPrompt (TrimSpace (lt_Runtime launch)) (lt_SkillName launch) (lt_BasePrompt launch) paths))"
proof -
  obtain err d' where run: "dispatchPendingLaunch ap wr launch now d = (err, d')" by (rule prod.exhaust)
  show ?thesis
  proof (cases "target_terminal ap (la_plane d) (lt_SessionID launch) (lt_TurnID launch)")
    case (Some terminal)
    then show ?thesis using run by (auto simp: dispatchPendingLaunch_def Let_def)
  next
    case None
    show ?thesis
    proof (cases err)
      case (Some e)
      then show ?thesis using dispatch_error run None by (simp add: Let_def)
    next
      case n: None
      define prompt where "prompt = composeLaunchDispatchPrompt (TrimSpace (lt_Runtime launch)) (lt_SkillName launch) (lt_BasePrompt launch)"
      obtain mode pod paths files resp pl where st:
        "materialize wr pod (lt_TurnID launch) (LoadAttachments (lt_TankSessionID launch) (lt_TurnID launch) (la_db d)) = (None, paths, files)"
        "enqueueSDKTurn ap (lt_OwnerEmail launch) (lt_SessionID launch) (launch_turn launch (prompt paths) mode now) (la_plane d) = (Inr resp, pl)"
        "d' = d\<lparr>la_files := la_files d @ files, la_plane := pl, la_db := MarkDispatched (ap_db_now ap) (lt_TankSessionID launch) (lt_TurnID launch)
           (turnIDFromEnqueueResponse resp) (la_db d)\<rparr>"
        using dispatch_stages [OF _ None] run n unfolding prompt_def by blast
      have paths: "map Some paths = map (launchAttachmentAbsPath (lt_TurnID launch)) (LoadAttachments (lt_TankSessionID launch) (lt_TurnID launch) (la_db d))"
        using materialize_ok [OF st(1)] by (simp add: list_eq_iff_nth_eq list_all2_conv_all_nth)
      from accepted_turn [OF st(2)] show ?thesis
        using run None n paths materialize_ok [OF st(1)] by (auto simp: Let_def st(3) drop_gone launch_turn_def prompt_def)
    qed
  qed
qed

section \<open>Failing\<close>

text \<open>The terminal that a failure writes is the one that the dispatcher looks for.\<close>

lemma terminal_row_found:
  assumes "collation le" "ledger_reach L" "r \<in> set L" "er_tank_session_id r = SessionStorageKey scope sid" "er_turn_id r = Some turn"
    and "er_event_type r = Some ''turn.command_failed''" "TrimSpace turn \<noteq> []"
  shows "FindTurnTerminal le scope L sid turn \<noteq> None"
proof -
  let ?T = "map event_wire [EventTurnCompleted, EventTurnFailed, EventTurnCommandFailed, EventTurnInterrupted]"
  let ?rows = "rows_asc le (SessionStorageKey scope sid) (\<lambda>r. er_turn_id r = Some turn \<and> type_in ?T r) L"
  have "r \<in> set ?rows" using assms(3-6) by (simp add: collation.set_rows_asc [OF assms(1)] type_in_def)
  then have ne: "?rows \<noteq> []" by (cases ?rows) simp_all
  then have "last ?rows \<in> set L" using last_in_set [OF ne] by (simp add: collation.set_rows_asc [OF assms(1)])
  then have "row_ok (last ?rows)" using reachable_ledger_ok [OF assms(2)] by (simp add: ledger_ok_def)
  then show ?thesis using ne assms(7) by (simp add: FindTurnTerminal_def last_row_def decode_row_ok)
qed

lemma fail_marks:
  assumes "cf_SessionStorageKey args = key"
  shows "snd (write_event ap key (\<lambda>seq. TurnCommandFailedEventMap (ap_clock ap 3) (ap_clock ap 4) seq args) pl) = mark_command_failed ap args pl"
  by (auto simp: write_event_def mark_command_failed_def assms split: sum.split prod.split option.split)

lemma fail_plane:
  "la_plane (snd (failPendingLaunch ap launch now reason d)) = mark_command_failed ap (launch_failed_args launch now reason) (la_plane d)"
  by (simp add: failPendingLaunch_def Let_def case_prod_unfold fail_marks launch_failed_args_def)


section \<open>The stale sweep\<close>

definition overdue :: "string \<Rightarrow> int \<Rightarrow> launch_db \<Rightarrow> PendingLaunchTurn list" where
  "overdue scope t db = filter (\<lambda>r. lt_SessionScope r = scope \<and> launch_live r \<and> lt_CreatedAt r < t) (ld_launches db)"

lemma overdue_failed: "overdue scope t (launch_MarkFailed clock a b reason db) = filter (\<lambda>r. launch_key r \<noteq> trim_key a b) (overdue scope t db)"
proof -
  have "filter P (map (\<lambda>r. if launch_key r = k then f r else r) T) = filter (\<lambda>r. launch_key r \<noteq> k) (filter P T)"
    if "\<And>r. \<not> P (f r)" for P k and f :: "PendingLaunchTurn \<Rightarrow> PendingLaunchTurn" and T
    by (induction T) (auto simp: that)
  then show ?thesis
    by (simp add: overdue_def launch_MarkFailed_def Let_def update_launches_def launch_live_def del: filter_filter)
qed

lemma overdue_swept:
  "(\<forall>(i, r)\<in>set rows. trim_key (lt_TankSessionID r) (lt_TurnID r) = launch_key r) \<Longrightarrow>
   overdue scope t (la_db (fold (\<lambda>(i, launch) d. snd (failPendingLaunch (aps i) launch now (reason launch) d)) rows d)) =
     filter (\<lambda>r. launch_key r \<notin> (launch_key \<circ> snd) ` set rows) (overdue scope t (la_db d))"
proof (induction rows arbitrary: d)
  case (Cons row rows)
  then show ?case
    by (simp add: case_prod_unfold fail_closes overdue_failed)
qed simp

text \<open>Taking out the oldest of distinct keys.\<close>

lemma filter_oldest:
  assumes "distinct (map launch_key xs)"
  shows "length (filter (\<lambda>r. launch_key r \<notin> launch_key ` set (take n (sort_key f xs))) xs) = length xs - n"
proof -
  let ?s = "sort_key f xs" and ?P = "\<lambda>r. launch_key r \<notin> launch_key ` set (take n (sort_key f xs))"
  have "distinct (map launch_key ?s)" using assms by (metis distinct_map distinct_sort set_sort)
  then have "distinct (map launch_key (take n ?s) @ map launch_key (drop n ?s))" by (metis append_take_drop_id map_append)
  then have "launch_key ` set (take n ?s) \<inter> launch_key ` set (drop n ?s) = {}" by simp
  then have parts: "filter ?P (drop n ?s) = drop n ?s" "filter ?P (take n ?s) = []" by (auto simp: filter_empty_conv intro!: filter_True)
  have "filter ?P (take n ?s @ drop n ?s) = drop n ?s" by (simp only: filter_append parts append_Nil)
  then have "filter ?P ?s = drop n ?s" by (simp only: append_take_drop_id)
  then have "length (filter ?P ?s) = length xs - n" by simp
  moreover have "length (filter Q ?s) = length (filter Q xs)" for Q by (simp add: filter_sort)
  ultimately show ?thesis by simp
qed


text \<open>
  the stale sweep does not honour leases. A launch that was created before the deadline and is the only one of the queue is
  failed, with its staged bytes dropped, while a dispatcher holds a lease on it, however fresh.
\<close>

theorem stale_sweep_ignores_lease:
  assumes "ld_launches (la_db d) = [r]" "lt_Status r = PendingLaunchClaiming" "lt_SessionScope r = store_scope (ap_scope (aps 0))"
    and "lt_CreatedAt r < UnixNano now - launchStaleDeadline" "trim_key (lt_TankSessionID r) (lt_TurnID r) = launch_key r"
  shows "\<exists>r'. ld_launches (la_db (processStaleLaunches aps now d)) = [r'] \<and> launch_key r' = launch_key r \<and>
    lt_Status r' = PendingLaunchFailed \<and> blobs_of (launch_key r) (la_db (processStaleLaunches aps now d)) = []"
proof -
  have rows: "FindStale (store_scope (ap_scope (aps 0))) (UnixNano now - launchStaleDeadline) launchDispatchBatchLimit (la_db d) = [r]"
    using assms(1-4) by (simp add: FindStale_def launchDispatchBatchLimit_def launch_live_def Let_def)
  have "la_db (processStaleLaunches aps now d) =
      launch_MarkFailed (ap_db_now (aps 0)) (lt_TankSessionID r) (lt_TurnID r) (stale_reason r) (la_db d)"
    by (simp add: processStaleLaunches_def Let_def rows fail_closes)
  then show ?thesis
    using assms(1,5) by (simp add: launch_MarkFailed_def Let_def update_launches_def launch_key_def)
qed

section \<open>Sample launches\<close>

definition live_db :: sessions_db where
  "live_db = sample_db\<lparr>db_rows := [sample_row\<lparr>sr_status := ''Active'', sr_terminating_at := None\<rparr>]\<rparr>"

definition sample_launch :: "int \<Rightarrow> RegisterPendingLaunchRequest" where
  "sample_launch count = \<lparr>rl_SessionScope = [], rl_SessionID = ''7'', rl_TurnID = ''turn_nonce-1'', rl_ClientNonce = ''nonce-1'', rl_OwnerEmail = ''u@x'',
     rl_Runtime = ''claude'', rl_SkillName = [], rl_BasePrompt = ''hi'', rl_DisplayText = ''hi'', rl_Model = [], rl_Effort = [],
     rl_AttachmentCount = count\<rparr>"

definition empty_desk :: launch_desk where
  "empty_desk = \<lparr>la_plane = sample_plane, la_db = empty_queue, la_files = []\<rparr>"

definition sample_claim :: "int \<Rightarrow> launch_op" where
  "sample_claim now = LaunchClaim live_db (\<lambda>_. False) now now 20 launchDispatchClaimStaleAfter"

definition sample_upload :: launch_op where
  "sample_upload = LaunchUpload (chat_app None) ''u@x'' ''7'' (Some 0) ''nonce-1'' ''a.png'' ''image/png'' ''PNG''"

definition sample_blob :: LaunchAttachmentBlob where
  "sample_blob = \<lparr>lb_Ordinal = 0, lb_Name = ''a.png'', lb_ContentType = ''image/png'', lb_Size = 3, lb_Bytes = ''PNG''\<rparr>"

abbreviation sample_row_of :: "int \<Rightarrow> PendingLaunchTurn" where
  "sample_row_of n \<equiv> requested_launch ''default'' 0 (sample_launch n)"

lemma sample_registered_launch:
  "la_db (launch_step ''default'' (LaunchRegister 0 (sample_launch n)) empty_desk) = \<lparr>ld_launches = [sample_row_of n], ld_blobs = []\<rparr>"
proof -
  have "TrimSpace ''7'' \<noteq> []" "TrimSpace ''turn_nonce-1'' \<noteq> []" by code_simp+
  then show ?thesis by (simp add: launch_Register_def find_launch_def Let_def empty_queue_def sample_launch_def empty_desk_def)
qed

lemma sample_staged:
  "la_db (launch_step ''default'' sample_upload (launch_step ''default'' (LaunchRegister 0 (sample_launch 1)) empty_desk)) =
     \<lparr>ld_launches = [(sample_row_of 1)\<lparr>lt_Status := PendingLaunchReady\<rparr>], ld_blobs = [((''7'', ''turn_nonce-1''), sample_blob)]\<rparr>"
proof -
  have eval: "TrimSpace ''7'' = ''7''" "TrimSpace ''nonce-1'' = ''nonce-1''" "turnIDPattern ''nonce-1''" "TrimSpace ''a.png'' = ''a.png''"
    "SessionStorageKey ''default'' ''7'' = ''7''" by code_simp+
  have "canonical_nonce ''nonce-1''" by (simp add: canonical_nonce_def safe_char_def byte_of_def sublist_code)
  then have turn: "TurnIDForClientNonce ''nonce-1'' = ''turn_nonce-1''" using TurnIDForClientNonce_shape by force
  have found: "launch_Get ''7'' ''turn_nonce-1'' \<lparr>ld_launches = [sample_row_of 1], ld_blobs = []\<rparr> = Inr (sample_row_of 1)" by code_simp
  have stage: "StageAttachment 0 ''7'' ''turn_nonce-1'' sample_blob \<lparr>ld_launches = [sample_row_of 1], ld_blobs = []\<rparr> =
      (Inr PendingLaunchReady, \<lparr>ld_launches = [(sample_row_of 1)\<lparr>lt_Status := PendingLaunchReady\<rparr>],
         ld_blobs = [((''7'', ''turn_nonce-1''), sample_blob)]\<rparr>)" by code_simp
  have there: "Reader_Get (ap_cluster (chat_app None)) ''u@x'' ''7'' \<noteq> None" "ap_db_now (chat_app None) = 0"
    by (simp_all add: Reader_Get_def pod_label_def chat_app_def sample_app_def)
  have count: "lt_AttachmentCount (sample_row_of 1) = 1" by (simp add: requested_launch_def sample_launch_def Let_def)
  show ?thesis
    using found stage there count sample_registered_launch [of 1]
    by (simp add: sample_upload_def handleStageLaunchAttachment_def Let_def eval turn chat_app_facts maxLaunchAttachments_def maxRawBytes_def
        sample_blob_def split: prod.split)
qed

theorem launch_lease_exclusive_witness:
  "launch_moment (sample_claim 0) + launch_patience (sample_claim 200000000000) < launch_moment (sample_claim 200000000000)"
proof -
  let ?d = "fold (launch_step ''default'') [LaunchRegister 0 (sample_launch 0)] empty_desk"
  have d: "la_db ?d = \<lparr>ld_launches = [sample_row_of 0], ld_blobs = []\<rparr>" using sample_registered_launch by simp
  have "map launch_key (fst (ClaimReady live_db ''default'' (\<lambda>_. False) 0 0 20 launchDispatchClaimStaleAfter
      \<lparr>ld_launches = [sample_row_of 0], ld_blobs = []\<rparr>)) = [(''7'', ''turn_nonce-1'')]"
    "map launch_key (fst (ClaimReady live_db ''default'' (\<lambda>_. False) 200000000000 200000000000 20 launchDispatchClaimStaleAfter
      (snd (ClaimReady live_db ''default'' (\<lambda>_. False) 0 0 20 launchDispatchClaimStaleAfter
        \<lparr>ld_launches = [sample_row_of 0], ld_blobs = []\<rparr>)))) = [(''7'', ''turn_nonce-1'')]" by code_simp+
  then have "(''7'', ''turn_nonce-1'') \<in> set (launch_handed ''default'' (sample_claim 0) ?d)"
    "(''7'', ''turn_nonce-1'') \<in> set (launch_handed ''default'' (sample_claim 200000000000)
       (fold (launch_step ''default'') [] (launch_step ''default'' (sample_claim 0) ?d)))"
    using d by (simp_all add: sample_claim_def del: set_map)
  from launch_lease_exclusive [OF _ refl this(1) _ this(2)] show ?thesis by (simp add: empty_desk_def)
qed

theorem claimed_launch_complete_witness:
  "map lb_Ordinal (LoadAttachments ''7'' ''turn_nonce-1'' (snd (ClaimReady live_db ''default'' (\<lambda>_. False) 0 0 20 launchDispatchClaimStaleAfter
     (la_db (fold (launch_step ''default'') [LaunchRegister 0 (sample_launch 1), sample_upload] empty_desk))))) = [0]"
proof -
  let ?d = "fold (launch_step ''default'') [LaunchRegister 0 (sample_launch 1), sample_upload] empty_desk"
  obtain rows db' where run: "ClaimReady live_db ''default'' (\<lambda>_. False) 0 0 20 launchDispatchClaimStaleAfter (la_db ?d) = (rows, db')"
    by (rule prod.exhaust)
  have "map (\<lambda>r. (lt_TankSessionID r, lt_TurnID r, lt_AttachmentCount r)) (fst (ClaimReady live_db ''default'' (\<lambda>_. False) 0 0 20 launchDispatchClaimStaleAfter
      \<lparr>ld_launches = [(sample_row_of 1)\<lparr>lt_Status := PendingLaunchReady\<rparr>], ld_blobs = [((''7'', ''turn_nonce-1''), sample_blob)]\<rparr>)) =
      [(''7'', ''turn_nonce-1'', 1)]" by code_simp
  then have "map (\<lambda>r. (lt_TankSessionID r, lt_TurnID r, lt_AttachmentCount r)) rows = [(''7'', ''turn_nonce-1'', 1)]"
    using run by (simp add: sample_staged del: launch_step.simps)
  then obtain r where r: "r \<in> set rows" "lt_TankSessionID r = ''7''" "lt_TurnID r = ''turn_nonce-1''" "lt_AttachmentCount r = 1" by auto
  from claimed_launch_complete [OF _ refl run r(1)] show ?thesis using run r(2-4) by (simp add: empty_desk_def)
qed

theorem staged_bytes_live_witness:
  "find_launch (''7'', ''turn_nonce-1'')
     (ld_launches (la_db (fold (launch_step ''default'') [LaunchRegister 0 (sample_launch 1), sample_upload] empty_desk))) \<noteq> None"
proof -
  have "((''7'', ''turn_nonce-1''), sample_blob) \<in>
      set (ld_blobs (la_db (fold (launch_step ''default'') [LaunchRegister 0 (sample_launch 1), sample_upload] empty_desk)))"
    by (simp add: sample_staged del: launch_step.simps)
  from staged_bytes_live [OF _ this] show ?thesis by (auto simp: empty_desk_def)
qed


lemma sample_overdue: "0 < UnixNano sample_now - launchStaleDeadline" "store_scope (ap_scope (chat_app None)) = ''default''"
proof -
  show "0 < UnixNano sample_now - launchStaleDeadline"
    by (simp add: UnixNano_def instant_def days_from_civil_def sample_now_def launchStaleDeadline_def)
  have "store_scope ''default'' = ''default''" by code_simp
  then show "store_scope (ap_scope (chat_app None)) = ''default''" by (simp add: chat_app_facts)
qed


theorem stale_sweep_ignores_lease_witness:
  "\<exists>r'. ld_launches (la_db (processStaleLaunches (\<lambda>_. chat_app None) sample_now
      (empty_desk\<lparr>la_db := \<lparr>ld_launches = [claimed_launch 0 (UnixNano sample_now) (sample_row_of 0)], ld_blobs = []\<rparr>\<rparr>))) = [r'] \<and>
     lt_Status r' = PendingLaunchFailed"
proof -
  let ?r = "claimed_launch 0 (UnixNano sample_now) (sample_row_of 0)"
  let ?d = "empty_desk\<lparr>la_db := \<lparr>ld_launches = [?r], ld_blobs = []\<rparr>\<rparr>"
  have "lt_SessionScope (sample_row_of 0) = ''default''" "lt_CreatedAt (sample_row_of 0) = 0"
    "trim_key (lt_TankSessionID (sample_row_of 0)) (lt_TurnID (sample_row_of 0)) = launch_key (sample_row_of 0)" by code_simp+
  then show ?thesis
    using stale_sweep_ignores_lease [of ?d ?r "\<lambda>_. chat_app None" sample_now] sample_overdue
    by (auto simp: claimed_launch_def launch_key_def)
qed

end
