(* ===== verification/Orchestration_Plan.thy ===== *)
theory Orchestration_Plan
  imports Wake_Fire Go_SHA256
begin

text \<open>
  The frozen plan of an orchestration run (the first half of \<^verbatim>\<open>internal/pgstore/orchestrations.go\<close>): its validation, its
  canonical document and hash, and the search for a dependency cycle. A plan that passes is a directed acyclic graph over
  its own phases, and its hash does not depend on how the dependencies were written down.
\<close>

section \<open>Plans\<close>

record PlanPhase =
  pp_Key :: string
  pp_Brief :: string
  pp_DependsOn :: "string list"
  pp_Target :: string

record canonicalPlanPhase =
  cp_Key :: string
  cp_Ordinal :: nat
  cp_Brief :: string
  cp_DependsOn :: "string list"
  cp_Target :: string

record canonicalPlan =
  cn_RepoOwner :: string
  cn_RepoName :: string
  cn_IntegrationBranch :: string
  cn_Phases :: "canonicalPlanPhase list"

datatype plan_error =
    PlanRepoRequired
  | PlanWithoutPhases
  | PhaseKeyEmpty nat
  | PhaseKeyDuplicate string
  | PhaseBriefEmpty string
  | PhaseTargetInvalid string string
  | PhaseDependsOnItself string
  | PhaseDependencyUnknown string string
  | PlanCyclic string

definition PhaseTargetMain :: string where "PhaseTargetMain = ''main''"
definition PhaseTargetIntegration :: string where "PhaseTargetIntegration = ''integration''"

text \<open>The loop keeps the keys it has seen.\<close>

fun distinct_deps :: "string list \<Rightarrow> string list \<Rightarrow> string list" where
  "distinct_deps seen [] = []"
| "distinct_deps seen (d # ds) =
     (let d = TrimSpace d in if d = [] \<or> d \<in> set seen then distinct_deps seen ds else d # distinct_deps (d # seen) ds)"

definition normalizeDeps :: "string list \<Rightarrow> string list" where
  "normalizeDeps deps = sort_by byte_le (\<lambda>d. d) (distinct_deps [] deps)"

definition canonical_phase :: "nat \<Rightarrow> string list \<Rightarrow> PlanPhase \<Rightarrow> plan_error + canonicalPlanPhase" where
  "canonical_phase i seen p =
     (let key = TrimSpace (pp_Key p); brief = TrimSpace (pp_Brief p); target = TrimSpace (pp_Target p);
          target = (if target = [] then PhaseTargetMain else target); deps = normalizeDeps (pp_DependsOn p)
      in if key = [] then Inl (PhaseKeyEmpty i)
         else if key \<in> set seen then Inl (PhaseKeyDuplicate key)
         else if brief = [] then Inl (PhaseBriefEmpty key)
         else if target \<noteq> PhaseTargetMain \<and> target \<noteq> PhaseTargetIntegration then Inl (PhaseTargetInvalid key target)
         else if key \<in> set deps then Inl (PhaseDependsOnItself key)
         else Inr \<lparr>cp_Key = key, cp_Ordinal = i, cp_Brief = brief, cp_DependsOn = deps, cp_Target = target\<rparr>)"

fun canonical_phases :: "canonicalPlanPhase list \<Rightarrow> PlanPhase list \<Rightarrow> plan_error + canonicalPlanPhase list" where
  "canonical_phases out [] = Inr out"
| "canonical_phases out (p # ps) =
     (case canonical_phase (length out) (map cp_Key out) p of
        Inl e \<Rightarrow> Inl e | Inr c \<Rightarrow> canonical_phases (out @ [c]) ps)"

definition unknown_dependency :: "canonicalPlanPhase list \<Rightarrow> (string \<times> string) option" where
  "unknown_dependency out =
     find (\<lambda>(k, d). d \<notin> set (map cp_Key out)) (concat (map (\<lambda>p. map (Pair (cp_Key p)) (cp_DependsOn p)) out))"

section \<open>The search for a cycle\<close>

datatype mark = Visiting | Visited

text \<open>
  \<open>visit\<close> of the source on every key of a list, with the marks threaded through: \<open>Some (Some k, _)\<close> is a cycle found at
  \<open>k\<close>. The fuel bounds the depth, which the marks keep below the number of phases; \<open>None\<close> is fuel that ran out.
\<close>

fun visit_all :: "nat \<Rightarrow> (string \<Rightarrow> string list) \<Rightarrow> string list \<Rightarrow> (string \<rightharpoonup> mark) \<Rightarrow> (string option \<times> (string \<rightharpoonup> mark)) option" where
  "visit_all n deps [] st = Some (None, st)"
| "visit_all n deps (k # ks) st =
     (case st k of
        Some Visiting \<Rightarrow> Some (Some k, st)
      | Some Visited \<Rightarrow> visit_all n deps ks st
      | None \<Rightarrow>
          (case n of
             0 \<Rightarrow> None
           | Suc m \<Rightarrow>
               (case visit_all m deps (deps k) (st(k \<mapsto> Visiting)) of
                  None \<Rightarrow> None
                | Some (Some c, st) \<Rightarrow> Some (Some (if c = [] then k else c), st)
                | Some (None, st) \<Rightarrow> visit_all n deps ks (st(k \<mapsto> Visited)))))"

definition deps_of :: "canonicalPlanPhase list \<Rightarrow> string \<Rightarrow> string list" where
  "deps_of phases key = (case find (\<lambda>p. cp_Key p = key) phases of None \<Rightarrow> [] | Some p \<Rightarrow> cp_DependsOn p)"

definition firstCyclicPhase :: "canonicalPlanPhase list \<Rightarrow> string option" where
  "firstCyclicPhase phases =
     (case visit_all (length phases) (deps_of phases) (map cp_Key phases) Map.empty of None \<Rightarrow> None | Some (c, _) \<Rightarrow> c)"

definition buildCanonicalPlan :: "string \<Rightarrow> string \<Rightarrow> string \<Rightarrow> PlanPhase list \<Rightarrow> plan_error + canonicalPlan" where
  "buildCanonicalPlan repoOwner repoName integrationBranch phases =
     (let repoOwner = ToLower (TrimSpace repoOwner); repoName = ToLower (TrimSpace repoName); integrationBranch = TrimSpace integrationBranch
      in if repoOwner = [] \<or> repoName = [] then Inl PlanRepoRequired
         else if phases = [] then Inl PlanWithoutPhases
         else case canonical_phases [] phases of
           Inl e \<Rightarrow> Inl e
         | Inr out \<Rightarrow>
             (case unknown_dependency out of
                Some (k, d) \<Rightarrow> Inl (PhaseDependencyUnknown k d)
              | None \<Rightarrow>
                  (case firstCyclicPhase out of
                     Some k \<Rightarrow> Inl (PlanCyclic k)
                   | None \<Rightarrow> Inr \<lparr>cn_RepoOwner = repoOwner, cn_RepoName = repoName, cn_IntegrationBranch = integrationBranch,
                                cn_Phases = out\<rparr>)))"

section \<open>The document and its hash\<close>

text \<open>\<^verbatim>\<open>encoding/json\<close> of a string: quotes, control characters, the characters of HTML, and what is no UTF-8.\<close>

definition json_escape :: "char \<Rightarrow> string" where
  "json_escape c =
     (if c = CHR 0x22 \<or> c = CHR 0x5C then [CHR 0x5C, c]
      else if byte_of c = 8 then CHR 0x5C # ''b''
      else if byte_of c = 12 then CHR 0x5C # ''f''
      else if byte_of c = 10 then CHR 0x5C # ''n''
      else if byte_of c = 13 then CHR 0x5C # ''r''
      else if byte_of c = 9 then CHR 0x5C # ''t''
      else if byte_of c < 32 \<or> c \<in> set ''<>&'' then CHR 0x5C # ''u00'' @ [hex_digit (nat (byte_of c) div 16), hex_digit (nat (byte_of c) mod 16)]
      else [c])"

function json_chars :: "string \<Rightarrow> string" where
  "json_chars s =
     (case s of [] \<Rightarrow> []
      | c # _ \<Rightarrow>
          (if rune_len s = 0 then CHR 0x5C # ''ufffd''
           else if rune_len s = 1 then json_escape c
           else if take 3 s = [CHR 0xE2, CHR 0x80, CHR 0xA8] then CHR 0x5C # ''u2028''
           else if take 3 s = [CHR 0xE2, CHR 0x80, CHR 0xA9] then CHR 0x5C # ''u2029''
           else take (rune_len s) s) @ json_chars (drop (max 1 (rune_len s)) s))"
  by pat_completeness auto
termination by (relation "measure length") auto

declare json_chars.simps [simp del]

definition json_string :: "string \<Rightarrow> string" where
  "json_string s = [CHR 0x22] @ json_chars s @ [CHR 0x22]"

definition json_list :: "string list \<Rightarrow> string" where
  "json_list items = ''['' @ Join '','' items @ '']''"

definition json_object :: "(string \<times> string) list \<Rightarrow> string" where
  "json_object members = ''{'' @ Join '','' (map (\<lambda>(k, v). json_string k @ '':'' @ v) members) @ ''}''"

definition phase_json :: "canonicalPlanPhase \<Rightarrow> string" where
  "phase_json p =
     json_object [(''key'', json_string (cp_Key p)), (''ordinal'', int_dec (int (cp_Ordinal p))), (''brief'', json_string (cp_Brief p)),
       (''depends_on'', json_list (map json_string (cp_DependsOn p))), (''target'', json_string (cp_Target p))]"

definition plan_json :: "canonicalPlan \<Rightarrow> string" where
  "plan_json plan =
     json_object [(''repo_owner'', json_string (cn_RepoOwner plan)), (''repo_name'', json_string (cn_RepoName plan)),
       (''integration_branch'', json_string (cn_IntegrationBranch plan)), (''phases'', json_list (map phase_json (cn_Phases plan)))]"

definition OrchestrationPlanHash :: "string \<Rightarrow> string \<Rightarrow> string \<Rightarrow> PlanPhase list \<Rightarrow> plan_error + string \<times> string" where
  "OrchestrationPlanHash repoOwner repoName integrationBranch phases =
     (case buildCanonicalPlan repoOwner repoName integrationBranch phases of
        Inl e \<Rightarrow> Inl e | Inr plan \<Rightarrow> Inr (plan_json plan, sha256_hex (plan_json plan)))"

definition OrchestrationPhaseID :: "string \<Rightarrow> string \<Rightarrow> string" where
  "OrchestrationPhaseID orchestrationID phaseKey =
     ''orchphase_'' @ take 32 (sha256_hex (Join [CHR 0x1F] [TrimSpace orchestrationID, TrimSpace phaseKey]))"

section \<open>The search is right\<close>

definition edges :: "(string \<Rightarrow> string list) \<Rightarrow> (string \<times> string) set" where
  "edges deps = {(k, d). d \<in> set (deps k)}"

text \<open>A key all of whose dependencies are grounded is grounded: nothing below it comes back to it.\<close>

inductive grounded :: "(string \<Rightarrow> string list) \<Rightarrow> string \<Rightarrow> bool" for deps where
  grounded: "(\<And>d. d \<in> set (deps k) \<Longrightarrow> grounded deps d) \<Longrightarrow> grounded deps k"

lemma grounded_no_cycle: "grounded deps k \<Longrightarrow> (k, k) \<notin> (edges deps)\<^sup>+"
proof (induction rule: grounded.induct)
  case (grounded k)
  show ?case
  proof
    assume "(k, k) \<in> (edges deps)\<^sup>+"
    then obtain d where d: "(k, d) \<in> edges deps" "(d, k) \<in> (edges deps)\<^sup>*" by (meson tranclD)
    then have "(d, d) \<in> (edges deps)\<^sup>+" by (metis rtrancl_into_trancl1)
    then show False using grounded(2) d(1) by (auto simp: edges_def)
  qed
qed

text \<open>
  What the marks mean while the search runs: from every key that is being visited there is a path to each key that is still
  to be visited, and below a visited key there is no cycle.
\<close>

definition marks_ok :: "(string \<Rightarrow> string list) \<Rightarrow> string list \<Rightarrow> (string \<rightharpoonup> mark) \<Rightarrow> bool" where
  "marks_ok deps ks st \<longleftrightarrow>
     (\<forall>v k. st v = Some Visiting \<longrightarrow> k \<in> set ks \<longrightarrow> (v, k) \<in> (edges deps)\<^sup>+) \<and> (\<forall>k. st k = Some Visited \<longrightarrow> grounded deps k)"

lemma visit_all_right:
  assumes "visit_all n deps ks st = Some (c, st')" "marks_ok deps ks st" "set ks \<subseteq> K" "\<And>k. k \<in> K \<Longrightarrow> set (deps k) \<subseteq> K" "[] \<notin> K"
  shows "case c of Some k \<Rightarrow> (k, k) \<in> (edges deps)\<^sup>+ \<and> k \<in> K
    | None \<Rightarrow> (\<forall>v. st' v = Some Visiting \<longleftrightarrow> st v = Some Visiting) \<and> (\<forall>v. st v = Some Visited \<longrightarrow> st' v = Some Visited) \<and>
        (\<forall>k\<in>set ks. st' k = Some Visited) \<and> (\<forall>k. st' k = Some Visited \<longrightarrow> grounded deps k)"
  using assms
proof (induction n deps ks st arbitrary: c st' rule: visit_all.induct)
  case (1 n deps st)
  then show ?case by (auto simp: marks_ok_def)
next
  case (2 n deps k ks st)
  have K: "k \<in> K" "set ks \<subseteq> K" using "2.prems"(3) by auto
  show ?case
  proof (cases "st k")
    case None
    then obtain m where n: "n = Suc m" using "2.prems"(1) by (cases n) auto
    define st1 where "st1 = st(k \<mapsto> Visiting)"
    obtain r sti where inner: "visit_all m deps (deps k) st1 = Some (r, sti)"
      using "2.prems"(1) None n by (auto simp: st1_def split: option.split_asm prod.split_asm)
    have "(v, d) \<in> (edges deps)\<^sup>+" if "st1 v = Some Visiting" "d \<in> set (deps k)" for v d
    proof -
      have kd: "(k, d) \<in> edges deps" using that(2) by (simp add: edges_def)
      show ?thesis
      proof (cases "v = k")
        case False
        then have "(v, k) \<in> (edges deps)\<^sup>+" using that(1) "2.prems"(2) by (simp add: st1_def marks_ok_def)
        then show ?thesis using kd by (rule trancl_into_trancl)
      qed (use kd in blast)
    qed
    then have ok1: "marks_ok deps (deps k) st1"
      using "2.prems"(2) by (auto simp: marks_ok_def st1_def split: if_split_asm)
    note IH1 = "2.IH"(1) [OF None n inner [unfolded st1_def] ok1 [unfolded st1_def] "2.prems"(4) [OF K(1)] "2.prems"(4) "2.prems"(5)]
    show ?thesis
    proof (cases r)
      case (Some k')
      then have "(k', k') \<in> (edges deps)\<^sup>+ \<and> k' \<in> K" using IH1 by simp
      moreover from this have "k' \<noteq> []" using "2.prems"(5) by auto
      ultimately show ?thesis using "2.prems"(1) None n inner Some by (auto simp: st1_def)
    next
      case r: None
      have st: "sti v = Some Visiting \<longleftrightarrow> st1 v = Some Visiting" "st1 v = Some Visited \<Longrightarrow> sti v = Some Visited"
        "sti v = Some Visited \<Longrightarrow> grounded deps v" for v using IH1 r by (auto simp: st1_def)
      have "\<forall>d\<in>set (deps k). sti d = Some Visited" using IH1 r by simp
      then have "grounded deps k" using st(3) by (blast intro: grounded.intros)
      then have ok2: "marks_ok deps ks (sti(k \<mapsto> Visited))"
        using "2.prems"(2) st by (auto simp: marks_ok_def st1_def split: if_split_asm)
      have rest: "visit_all n deps ks (sti(k \<mapsto> Visited)) = Some (c, st')"
        using "2.prems"(1) None n inner r by (simp add: st1_def)
      note IH2 = "2.IH"(2) [OF None n inner [unfolded st1_def] refl r rest ok2 K(2) "2.prems"(4) "2.prems"(5)]
      show ?thesis
      proof (cases c)
        case c: None
        then have fin: "st' v = Some Visiting \<longleftrightarrow> (sti(k \<mapsto> Visited)) v = Some Visiting"
          "(sti(k \<mapsto> Visited)) v = Some Visited \<Longrightarrow> st' v = Some Visited" for v using IH2 by auto
        have "st' v = Some Visiting \<longleftrightarrow> st v = Some Visiting" for v
          using fin(1) [of v] st(1) [of v] None by (cases "v = k") (auto simp: st1_def)
        moreover have "st v = Some Visited \<Longrightarrow> st' v = Some Visited" for v
          using fin(2) [of v] st(2) [of v] None by (cases "v = k") (auto simp: st1_def)
        ultimately show ?thesis using IH2 c fin(2) [of k] by auto
      qed (use IH2 in simp)
    qed
  next
    case (Some a)
    show ?thesis
    proof (cases a)
      case Visiting
      then show ?thesis using "2.prems" Some K by (auto simp: marks_ok_def)
    next
      case Visited
      have "marks_ok deps ks st" using "2.prems"(2) by (simp add: marks_ok_def)
      then show ?thesis using "2.IH"(3) [OF Some Visited] "2.prems"(1,4,5) Some Visited K(2)
        by (auto split: option.split)
    qed
  qed
qed

text \<open>The fuel is enough: every level of the search marks a phase that had no mark.\<close>

lemma visit_all_grows: "visit_all n deps ks st = Some (c, st') \<Longrightarrow> dom st \<subseteq> dom st'"
proof (induction n deps ks st arbitrary: c st' rule: visit_all.induct)
  case (2 n deps k ks st)
  show ?case
  proof (cases "st k")
    case None
    then obtain m where n: "n = Suc m" using "2.prems" by (cases n) auto
    obtain r sti where inner: "visit_all m deps (deps k) (st(k \<mapsto> Visiting)) = Some (r, sti)"
      using "2.prems" None n by (auto split: option.split_asm prod.split_asm)
    have "dom (st(k \<mapsto> Visiting)) \<subseteq> dom sti" by (rule "2.IH"(1) [OF None n inner])
    then have grown: "dom st \<subseteq> dom sti" by (simp only: dom_fun_upd option.distinct if_False) blast
    show ?thesis
    proof (cases r)
      case r: None
      then have "visit_all n deps ks (sti(k \<mapsto> Visited)) = Some (c, st')" using "2.prems" None n inner by simp
      then have "dom (sti(k \<mapsto> Visited)) \<subseteq> dom st'" by (rule "2.IH"(2) [OF None n inner refl r])
      then show ?thesis using grown by (simp only: dom_fun_upd option.distinct if_False) blast
    next
      case (Some k')
      then show ?thesis using "2.prems" None n inner grown by auto
    qed
  next
    case (Some a)
    then show ?thesis using "2.prems" "2.IH"(3) [OF Some] by (cases a) auto
  qed
qed simp

definition unmarked :: "string set \<Rightarrow> (string \<rightharpoonup> mark) \<Rightarrow> string set" where
  "unmarked K st = {k \<in> K. st k = None}"

lemma visit_all_total:
  assumes "finite K" "card (unmarked K st) \<le> n" "set ks \<subseteq> K" "\<And>k. k \<in> K \<Longrightarrow> set (deps k) \<subseteq> K"
  shows "visit_all n deps ks st \<noteq> None"
  using assms(2-4)
proof (induction n deps ks st rule: visit_all.induct)
  case (2 n deps k ks st)
  have K: "k \<in> K" "set ks \<subseteq> K" using "2.prems"(2) by auto
  show ?case
  proof (cases "st k")
    case None
    have fin: "finite (unmarked K s)" for s :: "string \<rightharpoonup> mark" using assms(1) by (simp add: unmarked_def)
    have mem: "k \<in> unmarked K st" using K None by (simp add: unmarked_def)
    then have "0 < card (unmarked K st)" using fin card_gt_0_iff by blast
    then obtain m where n: "n = Suc m" using "2.prems"(1) by (cases n) auto
    have "unmarked K (st(k \<mapsto> Visiting)) = unmarked K st - {k}" by (auto simp: unmarked_def)
    then have "card (unmarked K (st(k \<mapsto> Visiting))) \<le> m" using mem fin "2.prems"(1) n by (simp add: card_Diff_singleton)
    then have "visit_all m deps (deps k) (st(k \<mapsto> Visiting)) \<noteq> None"
      by (rule "2.IH"(1) [OF None n _ "2.prems"(3) [OF K(1)] "2.prems"(3)])
    then obtain r sti where inner: "visit_all m deps (deps k) (st(k \<mapsto> Visiting)) = Some (r, sti)" by auto
    show ?thesis
    proof (cases r)
      case r: None
      have "unmarked K (sti(k \<mapsto> Visited)) \<subseteq> unmarked K st" using visit_all_grows [OF inner] by (auto simp: unmarked_def)
      then have "card (unmarked K (sti(k \<mapsto> Visited))) \<le> n" using card_mono [OF fin] "2.prems"(1) by (meson le_trans)
      from "2.IH"(2) [OF None n inner refl r this K(2) "2.prems"(3)] show ?thesis using None n inner r by (simp del: fun_upd_apply)
    qed (use None n inner in simp)
  next
    case (Some a)
    then show ?thesis using "2.IH"(3) [OF Some] "2.prems" by (cases a) auto
  qed
qed simp

section \<open>What a frozen plan is\<close>

definition closed_plan :: "canonicalPlanPhase list \<Rightarrow> bool" where
  "closed_plan out \<longleftrightarrow> distinct (map cp_Key out) \<and>
     (\<forall>p\<in>set out. cp_Key p \<noteq> [] \<and> set (cp_DependsOn p) \<subseteq> set (map cp_Key out))"

lemma deps_of_member: "distinct (map cp_Key out) \<Longrightarrow> p \<in> set out \<Longrightarrow> deps_of out (cp_Key p) = cp_DependsOn p"
proof -
  assume "distinct (map cp_Key out)" "p \<in> set out"
  then have "find (\<lambda>q. cp_Key q = cp_Key p) out = Some p" by (induction out) auto
  then show ?thesis by (simp add: deps_of_def)
qed

lemma search_right:
  assumes "closed_plan out"
  shows "case firstCyclicPhase out of None \<Rightarrow> acyclic (edges (deps_of out)) | Some k \<Rightarrow> (k, k) \<in> (edges (deps_of out))\<^sup>+"
proof -
  let ?K = "set (map cp_Key out)"
  have dist: "distinct (map cp_Key out)" and keys: "[] \<notin> ?K" using assms by (auto simp: closed_plan_def)
  have closed: "set (deps_of out k) \<subseteq> ?K" if mem: "k \<in> ?K" for k
  proof -
    obtain p where "p \<in> set out" "k = cp_Key p" using mem by auto
    then show ?thesis using assms deps_of_member [OF dist] by (simp add: closed_plan_def)
  qed
  have "unmarked ?K Map.empty = ?K" by (simp add: unmarked_def)
  then have "card (unmarked ?K Map.empty) \<le> length out" by (metis card_length length_map)
  then have "visit_all (length out) (deps_of out) (map cp_Key out) Map.empty \<noteq> None"
    by (intro visit_all_total [where K = ?K] closed) simp_all
  then obtain c st where run: "visit_all (length out) (deps_of out) (map cp_Key out) Map.empty = Some (c, st)" by auto
  have start: "marks_ok (deps_of out) (map cp_Key out) Map.empty" by (simp add: marks_ok_def)
  note right = visit_all_right [OF run start subset_refl closed keys]
  have found: "firstCyclicPhase out = c" by (simp add: firstCyclicPhase_def run)
  show ?thesis
  proof (cases c)
    case None
    have "grounded (deps_of out) k" for k
    proof (cases "k \<in> ?K")
      case False
      then have "find (\<lambda>p. cp_Key p = k) out = None" by (auto simp: find_None_iff)
      then show ?thesis by (auto simp: deps_of_def intro: grounded.intros)
    qed (use right None in auto)
    then show ?thesis using grounded_no_cycle None found by (simp add: acyclic_def)
  qed (use right found in simp)
qed

definition phase_ok :: "nat \<Rightarrow> canonicalPlanPhase \<Rightarrow> bool" where
  "phase_ok i c \<longleftrightarrow> cp_Ordinal c = i \<and> cp_Key c \<noteq> [] \<and> cp_Brief c \<noteq> [] \<and> cp_Target c \<in> {PhaseTargetMain, PhaseTargetIntegration} \<and>
     cp_Key c \<notin> set (cp_DependsOn c)"

lemma canonical_phases_ok:
  assumes "canonical_phases out ps = Inr out'" "distinct (map cp_Key out)" "\<forall>i<length out. phase_ok i (out ! i)"
  shows "length out' = length out + length ps \<and> distinct (map cp_Key out') \<and> (\<forall>i<length out'. phase_ok i (out' ! i))"
  using assms
proof (induction out ps rule: canonical_phases.induct)
  case (2 out p ps)
  then obtain c where c: "canonical_phase (length out) (map cp_Key out) p = Inr c" "canonical_phases (out @ [c]) ps = Inr out'"
    by (auto split: sum.split_asm)
  have "phase_ok (length out) c" "cp_Key c \<notin> set (map cp_Key out)"
    using c(1) by (auto simp: canonical_phase_def phase_ok_def Let_def split: if_split_asm)
  then show ?case using "2.IH" [OF c] "2.prems"(2,3) by (auto simp: nth_append less_Suc_eq)
qed simp

lemma unknown_dependency_None: "unknown_dependency out = None \<longleftrightarrow> (\<forall>p\<in>set out. set (cp_DependsOn p) \<subseteq> set (map cp_Key out))"
  by (fastforce simp: unknown_dependency_def find_None_iff)

lemma canonical_closed:
  assumes "canonical_phases [] ps = Inr out" "unknown_dependency out = None"
  shows "closed_plan out"
  using canonical_phases_ok [OF assms(1)] assms(2) unfolding unknown_dependency_None
  by (auto simp: closed_plan_def phase_ok_def in_set_conv_nth)

lemma build_stages:
  assumes "buildCanonicalPlan repoOwner repoName branch ps = Inr plan"
  shows "canonical_phases [] ps = Inr (cn_Phases plan) \<and> unknown_dependency (cn_Phases plan) = None \<and> firstCyclicPhase (cn_Phases plan) = None"
  using assms by (auto simp: buildCanonicalPlan_def Let_def split: if_split_asm sum.split_asm option.split_asm)

text \<open>
  C10: the search for a dependency cycle is exact. On the phases of any plan whose dependencies all exist, it returns a key that
  lies on a cycle, or returns nothing and then the graph of dependencies has no cycle; the search always ends.
\<close>

theorem cycle_search_exact:
  assumes "canonical_phases [] ps = Inr out" "unknown_dependency out = None"
  shows "case firstCyclicPhase out of
      None \<Rightarrow> acyclic {(k, d). d \<in> set (deps_of out k)}
    | Some k \<Rightarrow> (k, k) \<in> {(k, d). d \<in> set (deps_of out k)}\<^sup>+"
  using search_right [OF canonical_closed [OF assms]] unfolding edges_def .

text \<open>
  C21: a plan that is frozen can be run. Its phases have distinct keys and the ordinals of their places, every one of them has a
  brief and a valid target, and their dependencies are phases of the plan without a cycle.
\<close>

theorem frozen_plan_sound:
  assumes "buildCanonicalPlan repoOwner repoName branch ps = Inr plan"
  shows "distinct (map cp_Key (cn_Phases plan)) \<and> map cp_Ordinal (cn_Phases plan) = [0..<length ps] \<and>
    (\<forall>p\<in>set (cn_Phases plan). cp_Key p \<noteq> [] \<and> cp_Brief p \<noteq> [] \<and> cp_Target p \<in> {PhaseTargetMain, PhaseTargetIntegration} \<and>
       set (cp_DependsOn p) \<subseteq> set (map cp_Key (cn_Phases plan))) \<and>
    acyclic {(k, d). \<exists>p\<in>set (cn_Phases plan). k = cp_Key p \<and> d \<in> set (cp_DependsOn p)}"
proof -
  let ?out = "cn_Phases plan"
  note st = build_stages [OF assms]
  have closed: "closed_plan ?out" using canonical_closed st by blast
  have all: "length ?out = length ps" "\<forall>i<length ?out. phase_ok i (?out ! i)"
    using canonical_phases_ok [of "[]" ps ?out] st by auto
  have "map cp_Ordinal ?out = [0..<length ps]" by (rule nth_equalityI) (use all in \<open>simp_all add: phase_ok_def\<close>)
  moreover have filled: "cp_Brief p \<noteq> [] \<and> cp_Target p \<in> {PhaseTargetMain, PhaseTargetIntegration}" if "p \<in> set ?out" for p
    using that all(2) by (auto simp: in_set_conv_nth phase_ok_def)
  have edge: "(k, d) \<in> edges (deps_of ?out)" if "p \<in> set ?out" "k = cp_Key p" "d \<in> set (cp_DependsOn p)" for k d p
    using that closed deps_of_member [of ?out p] by (simp add: closed_plan_def edges_def)
  have "acyclic (edges (deps_of ?out))" using search_right [OF closed] st by simp
  then have "acyclic {(k, d). \<exists>p\<in>set ?out. k = cp_Key p \<and> d \<in> set (cp_DependsOn p)}"
    by (rule acyclic_subset) (use edge in blast)
  moreover have "distinct (map cp_Key ?out)" "\<forall>p\<in>set ?out. cp_Key p \<noteq> [] \<and> set (cp_DependsOn p) \<subseteq> set (map cp_Key ?out)"
    using closed unfolding closed_plan_def by blast+
  ultimately show ?thesis using filled by blast
qed

section \<open>The hash\<close>

lemma distinct_deps_facts: "set (distinct_deps seen ds) = TrimSpace ` set ds - {[]} - set seen \<and> distinct (distinct_deps seen ds)"
  by (induction seen ds rule: distinct_deps.induct) (auto simp: Let_def)

lemma normalizeDeps_unique:
  assumes "TrimSpace ` set ds - {[]} = TrimSpace ` set ds' - {[]}"
  shows "normalizeDeps ds = normalizeDeps ds'"
proof (rule sorted_distinct_set_unique)
  show "sorted (normalizeDeps ds)" "sorted (normalizeDeps ds')"
    using bytewise.sort_by_sorted [of "\<lambda>d. d"] by (simp_all add: normalizeDeps_def byte_le_def)
  show "distinct (normalizeDeps ds)" "distinct (normalizeDeps ds')"
    using bytewise.distinct_map_sort_by [of "\<lambda>d. d"] distinct_deps_facts by (simp_all add: normalizeDeps_def)
  show "set (normalizeDeps ds) = set (normalizeDeps ds')"
    using assms distinct_deps_facts [of "[]"] by (simp add: normalizeDeps_def)
qed

text \<open>Two ways of writing one phase: the same texts and the same set of dependencies.\<close>

definition same_phase :: "PlanPhase \<Rightarrow> PlanPhase \<Rightarrow> bool" where
  "same_phase p q \<longleftrightarrow> TrimSpace (pp_Key p) = TrimSpace (pp_Key q) \<and> TrimSpace (pp_Brief p) = TrimSpace (pp_Brief q) \<and>
     TrimSpace (pp_Target p) = TrimSpace (pp_Target q) \<and>
     TrimSpace ` set (pp_DependsOn p) - {[]} = TrimSpace ` set (pp_DependsOn q) - {[]}"

lemma same_phase_canonical: "same_phase p q \<Longrightarrow> canonical_phase i seen p = canonical_phase i seen q"
proof -
  assume same: "same_phase p q"
  have deps: "normalizeDeps (pp_DependsOn p) = normalizeDeps (pp_DependsOn q)"
    by (rule normalizeDeps_unique) (use same in \<open>simp only: same_phase_def\<close>)
  show ?thesis using same unfolding canonical_phase_def same_phase_def deps by (simp only:)
qed

lemma same_phases_canonical: "list_all2 same_phase ps qs \<Longrightarrow> canonical_phases out ps = canonical_phases out qs"
proof (induction ps arbitrary: qs out)
  case (Cons p ps)
  then obtain q qs' where qs: "qs = q # qs'" "same_phase p q" "list_all2 same_phase ps qs'" by (auto simp: list_all2_Cons1)
  have "canonical_phases out' ps = canonical_phases out' qs'" for out' using Cons.IH [OF qs(3)] .
  then show ?case unfolding qs(1) canonical_phases.simps same_phase_canonical [OF qs(2)] by (simp only:)
qed simp

text \<open>
  C31: the hash of a plan names the plan and not the way it is written. Two plans whose phases agree up to surrounding blanks and
  up to the order, the repetition and the blanks of their dependencies are frozen alike: both are refused for the same
  reason, or both get the same document and hash.
\<close>

theorem plan_hash_stable:
  assumes "list_all2 same_phase ps qs"
  shows "OrchestrationPlanHash repoOwner repoName branch ps = OrchestrationPlanHash repoOwner repoName branch qs"
proof -
  have "(ps = []) = (qs = [])" using assms by (cases ps; cases qs) auto
  then have "buildCanonicalPlan repoOwner repoName branch ps = buildCanonicalPlan repoOwner repoName branch qs"
    unfolding buildCanonicalPlan_def same_phases_canonical [OF assms] by (simp only:)
  then show ?thesis by (simp only: OrchestrationPlanHash_def)
qed

section \<open>Sample plans\<close>

definition sample_phase :: "string \<Rightarrow> string list \<Rightarrow> PlanPhase" where
  "sample_phase key deps = \<lparr>pp_Key = key, pp_Brief = ''do '' @ key, pp_DependsOn = deps, pp_Target = []\<rparr>"

theorem cycle_search_exact_witness:
  "\<exists>out. canonical_phases [] [sample_phase ''a'' [''b''], sample_phase ''b'' [''a'']] = Inr out \<and>
     firstCyclicPhase out = Some ''a'' \<and> (''a'', ''a'') \<in> {(k, d). d \<in> set (deps_of out k)}\<^sup>+"
proof -
  let ?ps = "[sample_phase ''a'' [''b''], sample_phase ''b'' [''a'']]"
  have "(case canonical_phases [] ?ps of Inl _ \<Rightarrow> False | Inr out \<Rightarrow> unknown_dependency out = None \<and> firstCyclicPhase out = Some ''a'')"
    by code_simp
  then obtain out where out: "canonical_phases [] ?ps = Inr out" "unknown_dependency out = None" "firstCyclicPhase out = Some ''a''"
    by (auto split: sum.split_asm)
  from cycle_search_exact [OF out(1,2)] show ?thesis using out by simp
qed

theorem frozen_plan_sound_witness:
  "\<exists>plan. buildCanonicalPlan ''o'' ''r'' [] [sample_phase ''a'' [], sample_phase ''b'' [''a'']] = Inr plan \<and>
     acyclic {(k, d). \<exists>p\<in>set (cn_Phases plan). k = cp_Key p \<and> d \<in> set (cp_DependsOn p)}"
proof -
  let ?ps = "[sample_phase ''a'' [], sample_phase ''b'' [''a'']]"
  have "(case buildCanonicalPlan ''o'' ''r'' [] ?ps of Inl _ \<Rightarrow> False | Inr _ \<Rightarrow> True)" by code_simp
  then obtain plan where plan: "buildCanonicalPlan ''o'' ''r'' [] ?ps = Inr plan" by (auto split: sum.split_asm)
  from frozen_plan_sound [OF this] show ?thesis using plan by blast
qed

theorem plan_hash_stable_witness:
  "OrchestrationPlanHash ''o'' ''r'' [] [sample_phase ''a'' [], sample_phase ''b'' [], sample_phase ''c'' [''b'', ''a'', '' b'']] =
   OrchestrationPlanHash ''o'' ''r'' [] [sample_phase ''a'' [], sample_phase ''b'' [], sample_phase ''c'' [''a'', ''b'']]"
proof (rule plan_hash_stable)
  have "TrimSpace '' b'' = ''b''" "TrimSpace ''b'' = ''b''" "TrimSpace ''a'' = ''a''" by code_simp+
  then show "list_all2 same_phase [sample_phase ''a'' [], sample_phase ''b'' [], sample_phase ''c'' [''b'', ''a'', '' b'']]
      [sample_phase ''a'' [], sample_phase ''b'' [], sample_phase ''c'' [''a'', ''b'']]"
    by (auto simp: same_phase_def sample_phase_def)
qed

end
