(* ===== verification/Spec2Isabelle.thy ===== *)
theory Spec2Isabelle
  imports Conversation_Builders Session_Events Read_State Registry_Invariants Session_Bus Session_List_Stream Chat_Activity
    Wake_Outcomes Turn_Page_Facts Launch_Facts Orchestration_Plan
begin

text \<open>
  A verification library of the tank-operator control plane: the Go server under \<^verbatim>\<open>src/backend-go\<close> that runs
  chat sessions in pods, keeps their conversation in PostgreSQL and streams it to browsers.

  \<^bold>\<open>The parts and how they interact.\<close> A \<^emph>\<open>session\<close> is a pod with an agent runner and a row of the table
  \<^verbatim>\<open>sessions\<close>. A user, a timer or a finished background task submits a \<^emph>\<open>turn\<close>: the submit boundary
  (\<^verbatim>\<open>enqueueSDKTurn\<close>) validates it, writes its boundary events to the event ledger and publishes a command on the
  session bus; the runner executes it and reports events, which end in the same ledger. Each lifecycle event makes the
  activity emitter fold the ledger into the summary of the session and write it through the row writer; each change of a row
  draws a row version, and the list streams of the browsers follow those versions. Wakes are turns that the control plane
  owes a session; two fire loops claim them and submit their turns.

  \<^bold>\<open>Which theory models what.\<close> Definitions carry the names of the Go functions.

  \<^item> \<^verbatim>\<open>Go_Prelude\<close>, \<^verbatim>\<open>Go_Time\<close>, \<^verbatim>\<open>Go_Base64\<close>, \<^verbatim>\<open>Go_SHA256\<close>: what the sources use of Go and its
    library. A Go string is its bytes (\<open>string\<close>), \<^verbatim>\<open>map[string]any\<close> a \<open>gomap\<close>, \<^verbatim>\<open>time.Time\<close> the record
    \<open>gotime\<close>. The hash works on 32-bit words. The prelude holds the locales \<open>key_order\<close> (a total order of keys) and
    \<open>collation\<close> (one of strings), with the lemmas on sorted, filtered and paged lists.
  \<^item> \<^verbatim>\<open>Conversation\<close>: the envelope of an event and its validator, \<^verbatim>\<open>internal/conversation/types.go\<close>.
    The specification is \<open>well_formed_event\<close>; the theorem is that the validator decides it.
  \<^item> \<^verbatim>\<open>Conversation_Builders\<close>: the builders of events, \<^verbatim>\<open>internal/conversation/builders.go\<close>.
  \<^item> \<^verbatim>\<open>Session_Activity\<close>: the fold from events to the summary, \<^verbatim>\<open>internal/sessionactivity/activity.go\<close>.
  \<^item> \<^verbatim>\<open>Session_Ledger\<close>, \<^verbatim>\<open>Session_Events\<close>: the table \<^verbatim>\<open>session_events\<close> with its two keys; its writes, pages,
    searches and sweeps, \<^verbatim>\<open>internal/store/session_events.go\<close>, and the paging loops of
    \<^verbatim>\<open>cmd/tank-operator/turn_pages.go\<close> (\<open>partial_function (option)\<close>; that they end is proved, in the locale
    \<open>paged_read\<close>).
  \<^item> \<^verbatim>\<open>High_Water\<close>: the contract of a stored cursor that only advances, a locale that two components meet.
    \<^verbatim>\<open>Read_State\<close>: the read cursor, \<^verbatim>\<open>internal/store/read_state.go\<close>, in PostgreSQL and in memory.
  \<^item> \<^verbatim>\<open>Session_Model\<close>, \<^verbatim>\<open>Sessions_Table\<close>: modes, names and records of sessions
    (\<^verbatim>\<open>internal/sessionmodel/sessionmodel.go\<close>) and the table with its version sequence; the locale \<open>versioned\<close> is the
    contract of an update of rows.
  \<^item> \<^verbatim>\<open>Row_Writer\<close>: transitions of a row, \<^verbatim>\<open>internal/sessioncontroller/writer.go\<close>, with their guards.
  \<^item> \<^verbatim>\<open>Session_Registry\<close>, \<^verbatim>\<open>Registry_Invariants\<close>: the other statements on the table,
    \<^verbatim>\<open>internal/sessionregistry\<close>, and the step relation \<open>db_step\<close> of all of them.
  \<^item> \<^verbatim>\<open>Session_Bus\<close>: subjects, commands and the sweep of orphaned consumers, \<^verbatim>\<open>internal/sessionbus\<close>.
  \<^item> \<^verbatim>\<open>Row_Publisher\<close>, \<^verbatim>\<open>Session_List_Stream\<close>: the wire object of a row and the list stream of a browser
    (\<^verbatim>\<open>internal/sessioncontroller/row_publisher.go\<close>, \<^verbatim>\<open>handlers_session_list_events.go\<close>); the step relation
    \<open>world_step\<close> interleaves table changes, publishes, losses, repetitions and reads.
  \<^item> \<^verbatim>\<open>Chat_Activity\<close>: the emitter, \<^verbatim>\<open>internal/sessioncontroller/chat_activity.go\<close>, over ledger, cursors and rows.
  \<^item> \<^verbatim>\<open>Leases\<close>: the contract of tables whose rows are claimed by a lease. The locale \<open>lease_table\<close> (a claim is exclusive
    while its lease lasts) is met by three tables, its extension \<open>lease_store\<close> (claims count against a cap) by two.
  \<^item> \<^verbatim>\<open>Wake_Store\<close>, \<^verbatim>\<open>Wake_Leases\<close>, \<^verbatim>\<open>Wake_Guarantees\<close>: the two wake tables,
    \<^verbatim>\<open>internal/pgstore/scheduled_wakeups.go\<close> and \<^verbatim>\<open>background_task_wakes.go\<close>, and their interpretations of \<open>lease_store\<close>.
  \<^item> \<^verbatim>\<open>Turn_Submission\<close>, \<^verbatim>\<open>Turn_Guarantees\<close>: the submit boundary, \<^verbatim>\<open>cmd/tank-operator/handlers_turns.go\<close> and the
    validators of \<^verbatim>\<open>middleware.go\<close>. The record \<open>plane\<close> is all durable state that a submission can change.
  \<^item> \<^verbatim>\<open>Wake_Fire\<close>, \<^verbatim>\<open>Wake_Outcomes\<close>: the fire loops, their failures, and the handlers of wakes,
    \<^verbatim>\<open>cmd/tank-operator/scheduled_wakeups.go\<close> and \<^verbatim>\<open>background_task_wakes.go\<close>. The record \<open>wake_desk\<close> adds the
    two wake tables to \<open>plane\<close>.
  \<^item> \<^verbatim>\<open>Turn_Pages\<close>, \<^verbatim>\<open>Turn_Page_Facts\<close>: reading one turn with the start-up of its session and cutting it into pages,
    \<^verbatim>\<open>cmd/tank-operator/turn_pages.go\<close>; the paged reading equals its unpaged specification.
  \<^item> \<^verbatim>\<open>Turn_Control\<close>, \<^verbatim>\<open>Turn_Control_Facts\<close>, \<^verbatim>\<open>Answer_Facts\<close>: the handlers that submit, stop and answer turns,
    \<^verbatim>\<open>cmd/tank-operator/handlers_turns.go\<close>, over \<open>plane\<close>.
  \<^item> \<^verbatim>\<open>Workspace_Paths\<close>: the path gate of the workspace, the names of uploads and the quoting of shell words
    (\<^verbatim>\<open>middleware.go\<close>, \<^verbatim>\<open>handlers_files.go\<close>, \<^verbatim>\<open>internal/kubeexec/exec.go\<close>).
  \<^item> \<^verbatim>\<open>Launch_Store\<close>, \<^verbatim>\<open>Launch_Dispatch\<close>, \<^verbatim>\<open>Launch_Queue\<close>, \<^verbatim>\<open>Launch_Facts\<close>: durable launches with attachments, their
    dispatcher and sweeps (\<^verbatim>\<open>internal/pgstore/pending_launch.go\<close>, \<^verbatim>\<open>cmd/tank-operator/launch_dispatch.go\<close>,
    \<^verbatim>\<open>stranded_launch_sweep.go\<close>). The record \<open>launch_desk\<close> adds the queue and the files in the pods to \<open>plane\<close>;
    \<open>launch_op\<close> lists what any process can do to it, and the queue interprets \<open>lease_table\<close>.
  \<^item> \<^verbatim>\<open>Orchestration_Plan\<close>: the frozen plan of an orchestration run, \<^verbatim>\<open>internal/pgstore/orchestrations.go\<close>, with its search
    for cycles, its canonical document and its hash.

  \<^bold>\<open>How effects are modelled.\<close> A table is the list of its rows; a statement is a function of it, and atomic, as the
  statements of the sources are. Errors are values of a sum. Unique indexes are checks of the statement that inserts. Readings of
  clocks, random values, the cluster, the failing of a publish and the locks of other transactions are arguments, so a
  property holds for every environment. Sequences of operations are lists or step relations, and invariants hold after each
  of them. Times are instants in nanoseconds where they are compared, and the delay of a wake-up is kept at 64 bits.
  The order of strings in PostgreSQL is an argument (\<open>le\<close>) that meets \<open>collation\<close>; so is the text form of JSON numbers.

  \<^bold>\<open>Bounds.\<close> Loops over rows, pages and characters are structural or have a measure (\<open>drain\<close>: the rows above the
  cursor; \<open>utf8_ok\<close> and \<open>chunks\<close>: the length). Page sizes and scan caps are those of the sources. Fuel is used once, for the
  depth of the search for a cycle in a plan: the number of phases, which is enough because every level marks a new phase
  (\<open>visit_all_total\<close>).

  \<^bold>\<open>What the lemmas show.\<close> The validator accepts exactly the contract; builders build valid events; every reachable ledger has
  unique keys and readable rows; paging returns everything; the sweeps converge; versions, cursors, summaries and terminal marks
  never go back; the browser's list converges to the table; subjects and consumers of different sessions never collide; a
  submission is refused without a trace, or durable and published, or recorded as failed; wakes are claimed a bounded number of
  times, one replica at a time, and end fired or failed with an event that rings; stops and answers are durable and go to
  the turn that they name; a launch is claimed complete and by one replica at a time, and never dispatched after it was failed;
  paths stay in the workspace and quoted words are single words; a frozen plan is acyclic and its hash canonical. Some theorems show where the code falls short
  of its comments; their texts say so.

  \<^bold>\<open>What is assumed.\<close> \<^verbatim>\<open>strings.ToLower\<close> and character classes are those of ASCII; texts are valid UTF-8 unless a
  theorem says otherwise; a database call that the source only logs or returns when the connection fails is taken to succeed
  unless its failure is an argument.

  \<^bold>\<open>Not modelled.\<close> HTTP framing, authentication tokens and metrics; the pod manifests and calls of the cluster
  (\<^verbatim>\<open>internal/sessions/manager.go\<close>); the JetStream connection; clients of GitHub, key vaults and slots; the schema
  migrations beyond the tables above; the TypeScript and JavaScript runners and the browser client.
  Of orchestrations only the plan is modelled: the engine spawns sessions and merges branches by remote calls. CI watches and
  the health of providers follow the answers of remote services; the Kubernetes watch turns notifications of the cluster into
  the row events that \<^verbatim>\<open>Row_Writer\<close> applies; the transcript projection renders what the modelled reads return.
\<close>

section \<open>Properties across components\<close>

text \<open>
  C39: the registry and the consumer sweep agree on what is alive. When the sweep of a scope is given the live ids that the registry
  lists, the command and the control consumer of every session that is shown, or that was updated within the recency
  window, survive it, whatever their age and whatever else is deleted.
\<close>

theorem live_sessions_keep_consumers:
  assumes "r \<in> set (db_rows db)" "sr_session_scope r = store_scope scope" "sr_session_id r \<noteq> []" "TrimSpace (sr_session_id r) = sr_session_id r"
    and "sr_visible r \<or> now - DefaultLiveSessionRecencyWindow \<le> sr_updated_at r"
    and "sc_LiveSessionIDs cfg = ListLiveIDsForScope scope now DefaultLiveSessionRecencyWindow db"
    and "info \<in> set infos" "distinct (map co_Name infos)" "co_Name info \<in> runner_names provider scope (sr_session_id r)"
    and "token_safe (effective_scope scope)" "token_safe (sr_session_id r)" "provider \<noteq> []" "CHR ''_'' \<notin> set provider"
    and "RunConsumerSweep scope cfg fails infos = (res, gone)"
  shows "co_Name info \<notin> set gone"
proof -
  have "0 < DefaultLiveSessionRecencyWindow" by (simp add: DefaultLiveSessionRecencyWindow_def)
  then have "sr_session_id r \<in> set (sc_LiveSessionIDs cfg)"
    using assms(1-6) by (force simp: ListLiveIDsForScope_def Let_def)
  then show ?thesis
    using runner_consumer_swept [OF assms(7,8,9,10,10) _ assms(12,13) _ assms(14)] assms(3,4,11) by simp
qed

theorem live_sessions_keep_consumers_witness:
  "co_Name \<lparr>co_Name = consumerName ''codex'' ''default'' ''7'', co_Created = 0\<rparr> \<notin>
    set (snd (RunConsumerSweep ''default''
      \<lparr>sc_LiveSessionIDs = ListLiveIDsForScope ''default'' 0 DefaultLiveSessionRecencyWindow sample_db, sc_MinAge = 0, sc_Now = 2000000000000\<rparr>
      (\<lambda>_. False) [\<lparr>co_Name = consumerName ''codex'' ''default'' ''7'', co_Created = 0\<rparr>]))"
proof -
  have safe: "token_safe (effective_scope ''default'')" "token_safe ''7''" "TrimSpace ''7'' = ''7''" "store_scope ''default'' = ''default''"
    by code_simp+
  show ?thesis
    by (rule live_sessions_keep_consumers [where r = sample_row and db = sample_db and now = 0 and scope = "''default''" and
          provider = "''codex''", OF _ _ _ _ _ _ _ _ _ safe(1) _ _ _ prod.collapse [symmetric]])
      (use safe in \<open>simp_all add: sample_db_def sample_row_def runner_names_def\<close>)
qed

end
